(* ===== verification/Prelude.thy ===== *)
theory Prelude
  imports Main "HOL-Library.Word" "HOL-Library.Monad_Syntax"
begin

text \<open>
  What the components share: the types that name Go's machine values, Go's slices with their
  run-time panics as the value \<open>None\<close>, a weakest-precondition predicate for computations
  that may panic, bounded loops, and the wrap-around of \<open>int64\<close> arithmetic.

  A Go \<open>int\<close> that indexes or counts is an \<^typ>\<open>int\<close>; where the code guards 64-bit
  arithmetic the model applies \<open>i64\<close> to each operation instead. A byte is an
  \<^typ>\<open>8 word\<close>, and a Go string or byte slice is a list of them.
\<close>

named_theorems runs_rules \<open>weakest preconditions of the run-time primitives\<close>

type_synonym byte = "8 word"
type_synonym bytes = "byte list"

text \<open>A literal of the source, as its bytes.\<close>

definition lit :: "string \<Rightarrow> bytes" where
  "lit s = map (\<lambda>c. word_of_nat (of_char c)) s"

subsection \<open>Computations that may panic\<close>

text \<open>
  \<open>runs m Q\<close>: the computation \<open>m\<close> does not panic and its result satisfies \<open>Q\<close>.
  It is total correctness: a panic satisfies no postcondition.
\<close>

definition runs :: "'a option \<Rightarrow> ('a \<Rightarrow> bool) \<Rightarrow> bool" where
  "runs m Q \<longleftrightarrow> (case m of None \<Rightarrow> False | Some x \<Rightarrow> Q x)"

lemma runs_Some [simp, runs_rules]: "runs (Some x) Q \<longleftrightarrow> Q x"
  by (simp add: runs_def)

lemma runs_None [simp, runs_rules]: "\<not> runs None Q"
  by (simp add: runs_def)

lemma runs_bind [simp, runs_rules]: "runs (Option.bind m f) Q \<longleftrightarrow> runs m (\<lambda>x. runs (f x) Q)"
  by (cases m) (simp_all add: runs_def)

lemma runs_if: "runs (if b then m else n) Q \<longleftrightarrow> (if b then runs m Q else runs n Q)"
  by simp

lemma runs_ifI: "runs m Q \<Longrightarrow> runs n Q \<Longrightarrow> runs (if b then m else n) Q"
  by simp

lemma runs_prod [simp, runs_rules]:
  "runs (case p of (a, b) \<Rightarrow> f a b) Q \<longleftrightarrow> (case p of (a, b) \<Rightarrow> runs (f a b) Q)"
  by (cases p) simp

lemma runs_iff: "runs m Q \<longleftrightarrow> (\<exists>x. m = Some x \<and> Q x)"
  by (cases m) (simp_all add: runs_def)

lemma runs_mono: "runs m P \<Longrightarrow> (\<And>x. P x \<Longrightarrow> Q x) \<Longrightarrow> runs m Q"
  by (auto simp: runs_iff)

lemma runs_conj: "runs m P \<Longrightarrow> runs m Q \<Longrightarrow> runs m (\<lambda>x. P x \<and> Q x)"
  by (auto simp: runs_iff)

lemma runs_bindI: "runs m P \<Longrightarrow> (\<And>x. P x \<Longrightarrow> runs (f x) Q) \<Longrightarrow> runs (Option.bind m f) Q"
  by (auto simp: runs_iff)

lemma runs_SomeD: "m = Some x \<Longrightarrow> runs m Q \<Longrightarrow> Q x"
  by simp

subsection \<open>Errors as values\<close>

text \<open>
  An operation that may fail returns \<open>Inl\<close> its error. \<open>bindE\<close> goes on with a result and
  returns an error at once; \<open>guardE\<close> and \<open>needE\<close> are the early returns on a condition and
  on a missing value.
\<close>

definition bindE :: "'e + 'a \<Rightarrow> ('a \<Rightarrow> 'e + 'b) \<Rightarrow> 'e + 'b" where
  "bindE m f = (case m of Inl e \<Rightarrow> Inl e | Inr x \<Rightarrow> f x)"

definition guardE :: "bool \<Rightarrow> 'e \<Rightarrow> 'e + unit" where
  "guardE b e = (if b then Inr () else Inl e)"

definition needE :: "'a option \<Rightarrow> 'e \<Rightarrow> 'e + 'a" where
  "needE x e = (case x of None \<Rightarrow> Inl e | Some y \<Rightarrow> Inr y)"

lemma bindE_simps [simp]: "bindE (Inl e) f = Inl e" "bindE (Inr x) f = f x"
  by (simp_all add: bindE_def)

lemma bindE_Inr [simp]: "bindE m f = Inr y \<longleftrightarrow> (\<exists>x. m = Inr x \<and> f x = Inr y)"
  by (cases m) simp_all

lemma bindE_Inl: "bindE m f = Inl e \<longleftrightarrow> m = Inl e \<or> (\<exists>x. m = Inr x \<and> f x = Inl e)"
  by (cases m) simp_all

lemma guardE_Inr [simp]: "guardE b e = Inr u \<longleftrightarrow> b"
  by (simp add: guardE_def)

lemma guardE_Inl [simp]: "guardE b e = Inl e' \<longleftrightarrow> \<not> b \<and> e' = e"
  by (auto simp: guardE_def)

lemma guardE_True [simp]: "guardE True e = Inr ()"
  by (simp add: guardE_def)

lemma guardE_False [simp]: "guardE False e = Inl e"
  by (simp add: guardE_def)

lemma needE_Inr [simp]: "needE x e = Inr y \<longleftrightarrow> x = Some y"
  by (cases x) (simp_all add: needE_def)

lemma needE_simps [simp]: "needE None e = Inl e" "needE (Some y) e = Inr y"
  by (simp_all add: needE_def)

subsection \<open>Slices\<close>

text \<open>\<open>xs[i]\<close>, read and written; out of range panics.\<close>

definition idx :: "'a list \<Rightarrow> int \<Rightarrow> 'a option" where
  "idx xs i = (if 0 \<le> i \<and> i < int (length xs) then Some (xs ! nat i) else None)"

definition set_idx :: "'a list \<Rightarrow> int \<Rightarrow> 'a \<Rightarrow> 'a list option" where
  "set_idx xs i v = (if 0 \<le> i \<and> i < int (length xs) then Some (xs[nat i := v]) else None)"

text \<open>
  \<open>xs[lo:hi]\<close>; bounds out of order or past the end panic. (Go bounds \<open>hi\<close> by the capacity;
  the code slices within the length only.)
\<close>

definition slice :: "'a list \<Rightarrow> int \<Rightarrow> int \<Rightarrow> 'a list option" where
  "slice xs lo hi =
     (if 0 \<le> lo \<and> lo \<le> hi \<and> hi \<le> int (length xs)
      then Some (take (nat (hi - lo)) (drop (nat lo) xs)) else None)"

text \<open>
  \<open>copy(xs[dlo:dhi], xs[slo:shi])\<close> within one slice: as many elements as the shorter side
  has, moved as if through a buffer.
\<close>

definition copy_within :: "'a list \<Rightarrow> int \<Rightarrow> int \<Rightarrow> int \<Rightarrow> int \<Rightarrow> 'a list option" where
  "copy_within xs dlo dhi slo shi =
     (if 0 \<le> dlo \<and> dlo \<le> dhi \<and> dhi \<le> int (length xs) \<and>
         0 \<le> slo \<and> slo \<le> shi \<and> shi \<le> int (length xs)
      then let k = nat (min (dhi - dlo) (shi - slo))
           in Some (take (nat dlo) xs @ take k (drop (nat slo) xs) @ drop (nat dlo + k) xs)
      else None)"

lemma runs_idx [simp, runs_rules]:
  "runs (idx xs i) Q \<longleftrightarrow> 0 \<le> i \<and> i < int (length xs) \<and> Q (xs ! nat i)"
  by (auto simp: idx_def)

lemma runs_set_idx [simp, runs_rules]:
  "runs (set_idx xs i v) Q \<longleftrightarrow> 0 \<le> i \<and> i < int (length xs) \<and> Q (xs[nat i := v])"
  by (auto simp: set_idx_def)

lemma runs_slice [simp, runs_rules]:
  "runs (slice xs lo hi) Q \<longleftrightarrow>
     0 \<le> lo \<and> lo \<le> hi \<and> hi \<le> int (length xs) \<and> Q (take (nat (hi - lo)) (drop (nat lo) xs))"
  by (auto simp: slice_def)

lemma runs_copy_within [runs_rules]:
  "runs (copy_within xs dlo dhi slo shi) Q \<longleftrightarrow>
     0 \<le> dlo \<and> dlo \<le> dhi \<and> dhi \<le> int (length xs) \<and>
     0 \<le> slo \<and> slo \<le> shi \<and> shi \<le> int (length xs) \<and>
     Q (take (nat dlo) xs @ take (nat (min (dhi - dlo) (shi - slo))) (drop (nat slo) xs)
        @ drop (nat dlo + nat (min (dhi - dlo) (shi - slo))) xs)"
  by (auto simp: copy_within_def Let_def)

lemma copy_within_length:
  "copy_within xs dlo dhi slo shi = Some ys \<Longrightarrow> length ys = length xs"
  by (auto simp: copy_within_def Let_def min_def split: if_splits)

lemma copy_within_set:
  "copy_within xs dlo dhi slo shi = Some ys \<Longrightarrow> set ys \<subseteq> set xs"
  by (auto simp: copy_within_def Let_def simp del: take_append drop_append
      split: if_splits dest!: in_set_takeD in_set_dropD)

lemma runs_copy_withinI:
  assumes "0 \<le> dlo" "dlo \<le> dhi" "dhi \<le> int (length xs)"
    and "0 \<le> slo" "slo \<le> shi" "shi \<le> int (length xs)"
    and "\<And>ys. length ys = length xs \<Longrightarrow> set ys \<subseteq> set xs \<Longrightarrow> Q ys"
  shows "runs (copy_within xs dlo dhi slo shi) Q"
proof -
  from assms(1-6) obtain ys where ys: "copy_within xs dlo dhi slo shi = Some ys"
    by (auto simp: copy_within_def Let_def)
  then show ?thesis
    using copy_within_length [OF ys] copy_within_set [OF ys] assms(7) by simp
qed

subsection \<open>Bounded loops\<close>

text \<open>A loop whose body runs a fixed number of times over a state, and may panic.\<close>

primrec repeat_opt :: "nat \<Rightarrow> ('s \<Rightarrow> 's option) \<Rightarrow> 's \<Rightarrow> 's option" where
  "repeat_opt 0 f s = Some s"
| "repeat_opt (Suc n) f s = Option.bind (f s) (repeat_opt n f)"

lemma runs_repeat_opt:
  assumes "I s" and "\<And>s. I s \<Longrightarrow> runs (f s) I"
  shows "runs (repeat_opt n f s) I"
  using assms(1)
proof (induction n arbitrary: s)
  case (Suc n)
  have "runs (f s) (\<lambda>s'. runs (repeat_opt n f s') I)"
    using assms(2) [OF Suc.prems] by (rule runs_mono) (rule Suc.IH)
  then show ?case by simp
qed simp

lemma repeat_opt_frame:
  assumes "\<And>s s'. f s = Some s' \<Longrightarrow> g s' = g s" and "repeat_opt n f s = Some s'"
  shows "g s' = g s"
  using assms(2)
proof (induction n arbitrary: s)
  case (Suc n)
  then obtain r where "f s = Some r" "repeat_opt n f r = Some s'"
    by (auto simp: bind_eq_Some_conv)
  then show ?case using Suc.IH assms(1) by metis
qed simp

text \<open>A loop over the elements of a list.\<close>

primrec fold_opt :: "('a \<Rightarrow> 's \<Rightarrow> 's option) \<Rightarrow> 'a list \<Rightarrow> 's \<Rightarrow> 's option" where
  "fold_opt f [] s = Some s"
| "fold_opt f (x # xs) s = Option.bind (f x s) (fold_opt f xs)"

lemma runs_fold_opt:
  assumes "I s" and "\<And>x s. x \<in> set xs \<Longrightarrow> I s \<Longrightarrow> runs (f x s) I"
  shows "runs (fold_opt f xs s) I"
  using assms
proof (induction xs arbitrary: s)
  case (Cons x xs)
  have "runs (f x s) I" using Cons.prems by simp
  then have "runs (f x s) (\<lambda>s'. runs (fold_opt f xs s') I)"
    by (rule runs_mono) (use Cons in auto)
  then show ?case by simp
qed simp

lemma fold_opt_append:
  "fold_opt f (xs @ ys) s = Option.bind (fold_opt f xs s) (fold_opt f ys)"
  by (induction xs arbitrary: s) (simp_all split: Option.bind_split)

subsection \<open>Writing a run of elements\<close>

text \<open>
  \<open>for i := lo; i < hi; i++ { xs[i] = v }\<close>: every position of \<open>[lo, hi)\<close>, panicking on
  the first one out of range.
\<close>

function fill :: "'a list \<Rightarrow> int \<Rightarrow> int \<Rightarrow> 'a \<Rightarrow> 'a list option" where
  "fill xs lo hi v =
     (if lo < hi then Option.bind (set_idx xs lo v) (\<lambda>ys. fill ys (lo + 1) hi v) else Some xs)"
  by pat_completeness auto
termination
  by (relation "measure (\<lambda>(xs, lo, hi, v). nat (hi - lo))") auto

declare fill.simps [simp del]

lemma fill_eq:
  assumes "0 \<le> lo" "lo \<le> hi" "hi \<le> int (length xs)"
  shows "fill xs lo hi v = Some (take (nat lo) xs @ replicate (nat (hi - lo)) v @ drop (nat hi) xs)"
  using assms
proof (induction xs lo hi v rule: fill.induct)
  case (1 xs lo hi v)
  show ?case
  proof (cases "lo < hi")
    case True
    then have si: "set_idx xs lo v = Some (xs[nat lo := v])"
      using "1.prems" by (simp add: set_idx_def)
    have n: "nat (lo + 1) = Suc (nat lo)" "nat (hi - lo) = Suc (nat (hi - (lo + 1)))"
      using "1.prems" True by linarith+
    have "fill (xs[nat lo := v]) (lo + 1) hi v
        = Some (take (nat (lo + 1)) (xs[nat lo := v]) @ replicate (nat (hi - (lo + 1))) v
                @ drop (nat hi) (xs[nat lo := v]))"
      using "1.IH" [OF True] si "1.prems" True by simp
    moreover have "take (nat (lo + 1)) (xs[nat lo := v]) = take (nat lo) xs @ [v]"
      using "1.prems" True n by (simp add: take_Suc_conv_app_nth)
    moreover have "drop (nat hi) (xs[nat lo := v]) = drop (nat hi) xs"
      using "1.prems" True by simp
    ultimately show ?thesis
      using True si n by (simp add: fill.simps [of xs lo hi v])
  next
    case False
    with "1.prems" show ?thesis by (simp add: fill.simps)
  qed
qed

lemma runs_fill [runs_rules]:
  assumes "0 \<le> lo" "lo \<le> hi" "hi \<le> int (length xs)"
  shows "runs (fill xs lo hi v) Q \<longleftrightarrow>
     Q (take (nat lo) xs @ replicate (nat (hi - lo)) v @ drop (nat hi) xs)"
  using fill_eq [OF assms] by simp

subsection \<open>Wrap-around\<close>

text \<open>An \<open>int64\<close> result of an exact one: two's complement, 64 bits.\<close>

definition i64 :: "int \<Rightarrow> int" where
  "i64 x = (x + 2 ^ 63) mod 2 ^ 64 - 2 ^ 63"

abbreviation max_int64 :: int where "max_int64 \<equiv> 9223372036854775807"

abbreviation min_int64 :: int where "min_int64 \<equiv> - 9223372036854775808"

definition in_i64 :: "int \<Rightarrow> bool" where
  "in_i64 x \<longleftrightarrow> min_int64 \<le> x \<and> x \<le> max_int64"

lemma i64_id [simp]: "in_i64 x \<Longrightarrow> i64 x = x"
  by (simp add: i64_def in_i64_def mod_pos_pos_trivial)

lemma i64_in: "in_i64 (i64 x)"
  using pos_mod_bound [of "2 ^ 64" "x + 2 ^ 63"] pos_mod_sign [of "2 ^ 64" "x + 2 ^ 63"]
  by (simp add: i64_def in_i64_def)

subsection \<open>Lists\<close>

lemma take_list_update_same: "i < n \<Longrightarrow> i < length xs \<Longrightarrow> take n (xs[i := v]) = (take n xs)[i := v]"
  by (simp add: take_update_swap)

lemma set_list_updateD: "x \<in> set (xs[i := v]) \<Longrightarrow> x \<in> set xs \<or> x = v"
  using set_update_subset_insert [of xs i v] by auto

lemma last_in_range: "xs \<noteq> [] \<Longrightarrow> xs ! (length xs - 1) = last xs"
  by (simp add: last_conv_nth)

subsection \<open>Finite maps as lists of entries\<close>

text \<open>A Go map whose iteration or size the code uses: one entry for each key.\<close>

fun put :: "'k \<Rightarrow> 'v \<Rightarrow> ('k \<times> 'v) list \<Rightarrow> ('k \<times> 'v) list" where
  "put i r [] = [(i, r)]"
| "put i r ((j, q) # m) = (if i = j then (i, r) # m else (j, q) # put i r m)"

definition del :: "'k \<Rightarrow> ('k \<times> 'v) list \<Rightarrow> ('k \<times> 'v) list" where
  "del i m = filter (\<lambda>p. fst p \<noteq> i) m"

lemma map_of_put: "map_of (put i r m) j = (if j = i then Some r else map_of m j)"
  by (induction m) auto

lemma put_new: "map_of m i = None \<Longrightarrow> put i r m = m @ [(i, r)]"
  by (induction m) (auto split: if_splits)

lemma put_length: "map_of m i \<noteq> None \<Longrightarrow> length (put i r m) = length m"
  by (induction m) (auto split: if_splits)

lemma put_keys: "map_of m i \<noteq> None \<Longrightarrow> map fst (put i r m) = map fst m"
  by (induction m) (auto split: if_splits)

lemma map_of_del: "map_of (del i m) j = (if j = i then None else map_of m j)"
  by (induction m) (auto simp: del_def)

lemma put_fst: "fst ` set (put i r m) = insert i (fst ` set m)"
  by (induction i r m rule: put.induct) (simp_all add: insert_commute)

lemma put_distinct: "distinct (map fst m) \<Longrightarrow> distinct (map fst (put i r m))"
  by (induction m) (auto simp: put_fst)

lemma map_of_None_fst: "map_of m i = None \<longleftrightarrow> i \<notin> fst ` set m"
  by (induction m) auto

lemma map_of_Some_fst: "map_of m i = Some e \<Longrightarrow> i \<in> fst ` set m"
  by (metis map_of_None_fst option.distinct(1))

lemma put_in_set: "(j, x) \<in> set (put i r m) \<Longrightarrow> j = i \<and> x = r \<or> (j, x) \<in> set m"
  by (induction m) (auto split: if_splits)

lemma map_of_map_snd: "map_of (map (\<lambda>(i, x). (i, f i x)) m) j = map_option (f j) (map_of m j)"
  by (induction m) auto

lemma keys_map_snd: "map fst (map (\<lambda>(i, x). (i, f i x)) m) = map fst m"
  by (induction m) auto

subsection \<open>What an update of a map keeps\<close>

text \<open>Every entry is still there, related to what it was.\<close>

definition kept :: "('v \<Rightarrow> 'v \<Rightarrow> bool) \<Rightarrow> ('k \<times> 'v) list \<Rightarrow> ('k \<times> 'v) list \<Rightarrow> bool" where
  "kept K m m' \<longleftrightarrow> (\<forall>i x. map_of m i = Some x \<longrightarrow> (\<exists>x'. map_of m' i = Some x' \<and> K x x'))"

lemma kept_refl: "(\<And>x. K x x) \<Longrightarrow> kept K m m"
  by (simp add: kept_def)

lemma kept_trans: "(\<And>x y z. K x y \<Longrightarrow> K y z \<Longrightarrow> K x z) \<Longrightarrow> kept K m m' \<Longrightarrow> kept K m' m'' \<Longrightarrow> kept K m m''"
  unfolding kept_def by meson

lemma kept_put: "(\<And>x. K x x) \<Longrightarrow> (\<And>x. map_of m i = Some x \<Longrightarrow> K x r) \<Longrightarrow> kept K m (put i r m)"
  by (simp add: kept_def map_of_put)

lemma kept_map: "(\<And>i x. K x (f i x)) \<Longrightarrow> kept K m (map (\<lambda>(i, x). (i, f i x)) m)"
  by (simp add: kept_def map_of_map_snd)

lemma less_div_iff: "0 < n \<Longrightarrow> k < f div n \<longleftrightarrow> (k + 1) * n \<le> f" for k f n :: int
proof
  assume "0 < n" "k < f div n"
  then have "(k + 1) * n \<le> f div n * n" by (simp add: mult_right_mono)
  also have "\<dots> \<le> f" using \<open>0 < n\<close> div_mult_mod_eq [of f n] pos_mod_sign [of n f] by linarith
  finally show "(k + 1) * n \<le> f" .
next
  assume "0 < n" "(k + 1) * n \<le> f"
  then have "(k + 1) * n div n \<le> f div n" by (intro zdiv_mono1) auto
  then show "k < f div n" using \<open>0 < n\<close> by simp
qed

end
