(* ===== verification/GoText.thy ===== *)
theory GoText
  imports Prelude
begin

text \<open>
  The parts of Go's standard library the program's text handling rests on, as the program uses
  them: \<open>unicode/utf8\<close> (\<open>DecodeRune\<close>, \<open>FullRune\<close>, \<open>RuneCountInString\<close>, \<open>ValidString\<close> and the
  conversion of a rune to a string), \<open>strconv\<close> (\<open>Atoi\<close>, \<open>Itoa\<close>) and \<open>strings\<close>
  (\<open>Split\<close> and \<open>Cut\<close> at one byte, \<open>HasPrefix\<close>), and
  the two patterns of identifiers and digests its regular expressions share. The lemmas are the round trips the
  components use: a printed number reads back, a separator never occurs in one.
\<close>

subsection \<open>UTF-8\<close>

abbreviation RuneError :: int where "RuneError \<equiv> 0xFFFD"

text \<open>
  How many bytes a first byte announces, and the range of the second: the table
  \<open>first\<close> and \<open>acceptRanges\<close> of \<open>unicode/utf8\<close>. An invalid first byte announces 1.
\<close>

definition rune_size :: "byte \<Rightarrow> nat" where
  "rune_size b =
     (if b < 0x80 then 1 else if b < 0xC2 then 1 else if b < 0xE0 then 2
      else if b < 0xF0 then 3 else if b < 0xF5 then 4 else 1)"

definition accept_lo :: "byte \<Rightarrow> byte" where
  "accept_lo b = (if b = 0xE0 then 0xA0 else if b = 0xF0 then 0x90 else 0x80)"

definition accept_hi :: "byte \<Rightarrow> byte" where
  "accept_hi b = (if b = 0xED then 0x9F else if b = 0xF4 then 0x8F else 0xBF)"

definition continuation :: "byte \<Rightarrow> bool" where
  "continuation b \<longleftrightarrow> 0x80 \<le> b \<and> b \<le> 0xBF"

text \<open>\<open>utf8.DecodeRune\<close>: the rune and how many bytes it takes, \<open>(RuneError, 1)\<close> when invalid.\<close>

definition decode_rune :: "bytes \<Rightarrow> int \<times> nat" where
  "decode_rune s =
     (case s of
        [] \<Rightarrow> (RuneError, 0)
      | b0 # r \<Rightarrow>
          if b0 < 0x80 then (uint b0, 1)
          else if rune_size b0 = 1 then (RuneError, 1)
          else (case r of
             [] \<Rightarrow> (RuneError, 1)
           | b1 # r1 \<Rightarrow>
               if length s < rune_size b0 then (RuneError, 1)
               else if b1 < accept_lo b0 \<or> accept_hi b0 < b1 then (RuneError, 1)
               else if rune_size b0 = 2 then (uint b0 mod 32 * 64 + uint b1 mod 64, 2)
               else (case r1 of
                  [] \<Rightarrow> (RuneError, 1)
                | b2 # r2 \<Rightarrow>
                    if \<not> continuation b2 then (RuneError, 1)
                    else if rune_size b0 = 3
                      then (uint b0 mod 16 * 4096 + uint b1 mod 64 * 64 + uint b2 mod 64, 3)
                    else (case r2 of
                       [] \<Rightarrow> (RuneError, 1)
                     | b3 # _ \<Rightarrow>
                         if \<not> continuation b3 then (RuneError, 1)
                         else (uint b0 mod 8 * 262144 + uint b1 mod 64 * 4096
                               + uint b2 mod 64 * 64 + uint b3 mod 64, 4)))))"

text \<open>\<open>utf8.FullRune\<close>: the bytes begin with a whole rune, or with an invalid one.\<close>

definition full_rune :: "bytes \<Rightarrow> bool" where
  "full_rune s =
     (case s of
        [] \<Rightarrow> False
      | b0 # r \<Rightarrow>
          if rune_size b0 \<le> length s then True
          else (case r of
             [] \<Rightarrow> False
           | b1 # r1 \<Rightarrow>
               if b1 < accept_lo b0 \<or> accept_hi b0 < b1 then True
               else (case r1 of [] \<Rightarrow> False | b2 # _ \<Rightarrow> \<not> continuation b2)))"

text \<open>The runes \<open>for _, r := range s\<close> yields.\<close>

lemma decode_rune_size: "s \<noteq> [] \<Longrightarrow> 1 \<le> snd (decode_rune s)"
  by (cases s) (auto simp: decode_rune_def split: list.splits)

function runes :: "bytes \<Rightarrow> int list" where
  "runes s =
     (if s = [] then []
      else fst (decode_rune s) # runes (drop (snd (decode_rune s)) s))"
  by pat_completeness auto
termination
proof (relation "measure length")
  fix s :: bytes
  assume "s \<noteq> []"
  with decode_rune_size [of s] show "(drop (snd (decode_rune s)) s, s) \<in> measure length"
    by (simp add: Suc_le_eq)
qed simp

declare runes.simps [simp del]

text \<open>\<open>utf8.ValidString\<close>.\<close>

function valid_utf8 :: "bytes \<Rightarrow> bool" where
  "valid_utf8 s =
     (if s = [] then True
      else if decode_rune s = (RuneError, 1) then False
      else valid_utf8 (drop (snd (decode_rune s)) s))"
  by pat_completeness auto
termination
proof (relation "measure length")
  fix s :: bytes
  assume "s \<noteq> []"
  with decode_rune_size [of s] show "(drop (snd (decode_rune s)) s, s) \<in> measure length"
    by (simp add: Suc_le_eq)
qed simp

declare valid_utf8.simps [simp del]

text \<open>\<open>utf8.AppendRune\<close>, and so \<open>string(r)\<close>.\<close>

definition encode_valid :: "int \<Rightarrow> bytes" where
  "encode_valid r =
     (if r < 0x80 then [word_of_int r]
      else if r < 0x800 then [word_of_int (0xC0 + r div 64), word_of_int (0x80 + r mod 64)]
      else if r < 0x10000
        then [word_of_int (0xE0 + r div 4096), word_of_int (0x80 + r div 64 mod 64),
              word_of_int (0x80 + r mod 64)]
      else [word_of_int (0xF0 + r div 262144), word_of_int (0x80 + r div 4096 mod 64),
            word_of_int (0x80 + r div 64 mod 64), word_of_int (0x80 + r mod 64)])"

definition encode_rune :: "int \<Rightarrow> bytes" where
  "encode_rune r =
     (if r < 0 \<or> 0x10FFFF < r \<or> (0xD800 \<le> r \<and> r \<le> 0xDFFF) then encode_valid RuneError
      else encode_valid r)"

lemma runes_Nil [simp]: "runes [] = []"
  by (simp add: runes.simps)

lemma runes_eq_Nil [simp]: "runes s = [] \<longleftrightarrow> s = []"
  by (subst runes.simps) simp

lemma encode_rune_ne [simp]: "encode_rune r \<noteq> []"
  by (simp add: encode_rune_def encode_valid_def)

lemma length_encode_rune: "length (encode_rune r) \<le> 4"
  by (simp add: encode_rune_def encode_valid_def)

lemma runes_length: "length (runes s) \<le> length s"
proof (induction s rule: runes.induct)
  case (1 s)
  show ?case
  proof (cases "s = []")
    case False
    then have "length (runes s) = Suc (length (runes (drop (snd (decode_rune s)) s)))"
      by (simp add: runes.simps [of s])
    moreover have "length (runes (drop (snd (decode_rune s)) s)) \<le> length s - snd (decode_rune s)"
      using 1 False by simp
    moreover have "0 < length s" using False by simp
    ultimately show ?thesis
      using decode_rune_size [OF False] by linarith
  qed simp
qed

subsection \<open>Numbers as text\<close>

definition is_digit :: "byte \<Rightarrow> bool" where
  "is_digit c \<longleftrightarrow> 48 \<le> c \<and> c \<le> 57"

datatype parsed = Val int | SyntaxErr | RangeErr

text \<open>
  The digit loop of \<open>strconv.ParseUint\<close> (base 10, 64 bits): it stops at the first character
  that is not a digit, and at the first digit that passes \<open>math.MaxUint64\<close>.
\<close>

fun parse_uint :: "bytes \<Rightarrow> int \<Rightarrow> parsed" where
  "parse_uint [] n = Val n"
| "parse_uint (c # cs) n =
     (if \<not> is_digit c then SyntaxErr
      else if n * 10 + (uint c - 48) > 18446744073709551615 then RangeErr
      else parse_uint cs (n * 10 + (uint c - 48)))"

text \<open>
  \<open>strconv.Atoi\<close>: the value and whether the error is nil. A number out of range gives the
  nearest \<open>int64\<close> with an error, anything else malformed gives 0 with one.
\<close>

definition atoi :: "bytes \<Rightarrow> int \<times> bool" where
  "atoi s =
     (let neg = (s \<noteq> [] \<and> hd s = 45);
          ds = (if s \<noteq> [] \<and> (hd s = 45 \<or> hd s = 43) then tl s else s)
      in if ds = [] then (0, False)
         else (case parse_uint ds 0 of
            SyntaxErr \<Rightarrow> (0, False)
          | RangeErr \<Rightarrow> (if neg then min_int64 else max_int64, False)
          | Val n \<Rightarrow>
              if neg then (if n > 9223372036854775808 then (min_int64, False) else (- n, True))
              else (if n > max_int64 then (max_int64, False) else (n, True))))"

text \<open>\<open>strconv.Itoa\<close>, and \<open>%d\<close>.\<close>

definition digit :: "nat \<Rightarrow> byte" where
  "digit d = word_of_nat (48 + d)"

fun itoa_nat :: "nat \<Rightarrow> bytes" where
  "itoa_nat n = (if n < 10 then [digit n] else itoa_nat (n div 10) @ [digit (n mod 10)])"

declare itoa_nat.simps [simp del]

definition itoa :: "int \<Rightarrow> bytes" where
  "itoa n = (if n < 0 then 45 # itoa_nat (nat (- n)) else itoa_nat (nat n))"

subsection \<open>Splitting\<close>

text \<open>\<open>strings.Split(s, sep)\<close> at a separator of one byte: never empty.\<close>

fun split_on :: "byte \<Rightarrow> bytes \<Rightarrow> bytes list" where
  "split_on sep [] = [[]]"
| "split_on sep (c # cs) =
     (if c = sep then [] # split_on sep cs
      else (case split_on sep cs of
         [] \<Rightarrow> [[c]]
       | f # fs \<Rightarrow> (c # f) # fs))"

text \<open>\<open>strings.Cut(s, sep)\<close>: before and after the first separator.\<close>

definition cut :: "byte \<Rightarrow> bytes \<Rightarrow> bytes \<times> bytes" where
  "cut sep s = (takeWhile (\<lambda>c. c \<noteq> sep) s, drop 1 (dropWhile (\<lambda>c. c \<noteq> sep) s))"

definition has_prefix :: "bytes \<Rightarrow> bytes \<Rightarrow> bool" where
  "has_prefix s p \<longleftrightarrow> take (length p) s = p"

text \<open>\<open>strings.Contains(s, p)\<close>\<close>

definition contains :: "bytes \<Rightarrow> bytes \<Rightarrow> bool" where
  "contains s p \<longleftrightarrow> list_ex (\<lambda>n. has_prefix (drop n s) p) [0..<length s + 1]"

subsection \<open>Patterns\<close>

definition alnum :: "byte \<Rightarrow> bool" where
  "alnum c \<longleftrightarrow> (0x41 \<le> c \<and> c \<le> 0x5a) \<or> (0x61 \<le> c \<and> c \<le> 0x7a) \<or> (0x30 \<le> c \<and> c \<le> 0x39)"

text \<open>\<open>^[A-Za-z0-9][A-Za-z0-9._-]{0,127}$\<close>\<close>

definition ident128 :: "bytes \<Rightarrow> bool" where
  "ident128 s \<longleftrightarrow> s \<noteq> [] \<and> length s \<le> 128 \<and> alnum (hd s) \<and>
     list_all (\<lambda>c. alnum c \<or> c = 0x2e \<or> c = 0x5f \<or> c = 0x2d) (tl s)"

text \<open>\<open>^[0-9a-f]{64}$\<close>\<close>

definition hex64 :: "bytes \<Rightarrow> bool" where
  "hex64 s \<longleftrightarrow> length s = 64 \<and>
     list_all (\<lambda>c. (0x30 \<le> c \<and> c \<le> 0x39) \<or> (0x61 \<le> c \<and> c \<le> 0x66)) s"

subsection \<open>A printed number reads back\<close>

lemma digit_unat: "d < 10 \<Longrightarrow> unat (digit d) = 48 + d"
  by (simp add: digit_def unsigned_of_nat take_bit_nat_eq_self del: of_nat_add of_nat_numeral)

lemma digit_uint: "d < 10 \<Longrightarrow> uint (digit d) = 48 + int d"
  by (simp add: uint_nat digit_unat)

lemma digit_is_digit: "d < 10 \<Longrightarrow> is_digit (digit d)"
  by (simp add: is_digit_def word_le_nat_alt digit_unat)

lemma itoa_nat_digits: "c \<in> set (itoa_nat n) \<Longrightarrow> is_digit c"
proof (induction n rule: itoa_nat.induct)
  case (1 n)
  then show ?case
    by (subst (asm) (2) itoa_nat.simps) (auto simp: digit_is_digit split: if_splits)
qed

lemma itoa_nat_ne [simp]: "itoa_nat n \<noteq> []"
  by (subst itoa_nat.simps) simp

lemma parse_uint_append:
  "parse_uint (xs @ ys) n = (case parse_uint xs n of Val m \<Rightarrow> parse_uint ys m | e \<Rightarrow> e)"
  by (induction xs n rule: parse_uint.induct) simp_all

lemma parse_uint_itoa_nat: "int n \<le> 18446744073709551615 \<Longrightarrow> parse_uint (itoa_nat n) 0 = Val (int n)"
proof (induction n rule: itoa_nat.induct)
  case (1 n)
  show ?case
  proof (cases "n < 10")
    case True
    with "1.prems" show ?thesis
      by (subst itoa_nat.simps) (simp add: digit_uint digit_is_digit)
  next
    case False
    from False "1.prems" have "parse_uint (itoa_nat (n div 10)) 0 = Val (int (n div 10))"
      using "1.IH" by simp
    moreover have "int (n div 10) * 10 + int (n mod 10) = int n"
      by (metis div_mult_mod_eq of_nat_add of_nat_mult of_nat_numeral)
    ultimately show ?thesis
      using False "1.prems"
      by (subst itoa_nat.simps)
        (simp add: parse_uint_append digit_uint digit_is_digit)
  qed
qed

lemma hd_itoa_nat: "is_digit (hd (itoa_nat n))"
  using itoa_nat_digits [of "hd (itoa_nat n)" n] by simp

lemma atoi_digits:
  assumes "s \<noteq> []" "is_digit (hd s)" "parse_uint s 0 = Val n" "n \<le> max_int64"
  shows "atoi s = (n, True)"
proof -
  have "hd s \<noteq> 45" "hd s \<noteq> 43"
    using assms(2) by (auto simp: is_digit_def)
  with assms show ?thesis by (simp add: atoi_def)
qed

theorem atoi_itoa: "in_i64 n \<Longrightarrow> atoi (itoa n) = (n, True)"
proof (cases "n < 0")
  case True
  assume "in_i64 n"
  with True show ?thesis
    by (simp add: atoi_def itoa_def in_i64_def parse_uint_itoa_nat)
next
  case False
  assume "in_i64 n"
  with False show ?thesis
    by (auto simp: itoa_def in_i64_def hd_itoa_nat parse_uint_itoa_nat intro!: atoi_digits)
qed

lemma itoa_nonneg_digits: "0 \<le> n \<Longrightarrow> c \<in> set (itoa n) \<Longrightarrow> is_digit c"
  by (simp add: itoa_def itoa_nat_digits)

lemma itoa_ne [simp]: "itoa n \<noteq> []"
  by (simp add: itoa_def)

subsection \<open>Splitting a joined text\<close>

lemma split_on_ne [simp]: "split_on sep s \<noteq> []"
  by (cases s) (simp_all split: list.split)

lemma split_on_free: "sep \<notin> set s \<Longrightarrow> split_on sep s = [s]"
  by (induction s) auto

lemma split_on_cons:
  "sep \<notin> set s \<Longrightarrow> split_on sep (s @ sep # t) = s # split_on sep t"
  by (induction s) auto

lemma split_on_append_cons:
  "split_on sep (s @ sep # t) = split_on sep s @ split_on sep t"
  by (induction s) (auto split: list.split)

lemma split_on_fields: "f \<in> set (split_on sep s) \<Longrightarrow> set f \<subseteq> set s"
proof (induction s arbitrary: f)
  case (Cons c cs)
  then show ?case by (fastforce split: if_splits list.splits)
qed simp

lemma cut_free: "sep \<notin> set s \<Longrightarrow> cut sep s = (s, [])"
  by (induction s) (auto simp: cut_def)

end
