(* ===== verification/Terminal.thy ===== *)
theory Terminal
  imports GoText
begin

text \<open>
  The screen of \<open>internal/termstate/terminal.go\<close>: cells, rows, both buffers, the cursor, the
  scroll region, the modes and the history ring, with every operation of that file except
  \<open>Feed\<close> and \<open>Held\<close>, which are in the parser's theory. An operation that indexes a slice
  returns an option, \<open>None\<close> being Go's index panic.
\<close>

subsection \<open>Data\<close>

record color =
  co_kind :: byte  \<comment> \<open>0 default, 1 indexed, 2 rgb\<close>
  co_n :: byte
  co_r :: byte
  co_g :: byte
  co_b :: byte

definition Color0 :: color where
  "Color0 = \<lparr>co_kind = 0, co_n = 0, co_r = 0, co_g = 0, co_b = 0\<rparr>"

type_synonym flags = "16 word"

abbreviation Bold :: flags where "Bold \<equiv> 1"
abbreviation Dim :: flags where "Dim \<equiv> 2"
abbreviation Italic :: flags where "Italic \<equiv> 4"
abbreviation Underline :: flags where "Underline \<equiv> 8"
abbreviation Blink :: flags where "Blink \<equiv> 16"
abbreviation Reverse :: flags where "Reverse \<equiv> 32"
abbreviation Hidden :: flags where "Hidden \<equiv> 64"
abbreviation Strike :: flags where "Strike \<equiv> 128"

record attr =
  a_fg :: color
  a_bg :: color
  a_flags :: flags

definition Attr0 :: attr where
  "Attr0 = \<lparr>a_fg = Color0, a_bg = Color0, a_flags = 0\<rparr>"

text \<open>\<open>Attr{Bg: bg}\<close>\<close>

definition attr_bg :: "color \<Rightarrow> attr" where
  "attr_bg bg = Attr0\<lparr>a_bg := bg\<rparr>"

record cell =
  ce_s :: bytes
  ce_w :: int  \<comment> \<open>1; 2 for the first column of a wide character, 0 for the column it covers\<close>
  ce_a :: attr

definition blank :: "attr \<Rightarrow> cell" where
  "blank a = \<lparr>ce_s = [], ce_w = 1, ce_a = attr_bg (a_bg a)\<rparr>"

type_synonym row = "cell list"
type_synonym screen = "row list"

record line =
  l_id :: "64 word"
  l_cells :: row

record modes =
  m_autoWrap :: bool
  m_origin :: bool
  m_insert :: bool
  m_cursorVisible :: bool
  m_appCursorKeys :: bool
  m_appKeypad :: bool
  m_bracketedPaste :: bool
  m_focusEvents :: bool
  m_mouse :: int
  m_mouseEncoding :: int
  m_reverseVideo :: bool

text \<open>\<open>Modes{AutoWrap: true, CursorVisible: true}\<close>\<close>

definition modes0 :: modes where
  "modes0 = \<lparr>m_autoWrap = True, m_origin = False, m_insert = False, m_cursorVisible = True,
     m_appCursorKeys = False, m_appKeypad = False, m_bracketedPaste = False,
     m_focusEvents = False, m_mouse = 0, m_mouseEncoding = 0, m_reverseVideo = False\<rparr>"

record cursor =
  c_x :: int
  c_y :: int
  c_attr :: attr
  c_origin :: bool
  c_wrapPending :: bool

definition cursor0 :: cursor where
  "cursor0 = \<lparr>c_x = 0, c_y = 0, c_attr = Attr0, c_origin = False, c_wrapPending = False\<rparr>"

datatype pstate =
    Ground | Escape | EscInter | CsiEntry | OscString | OscEsc | CtlString | CtlStringEsc
  | PassString | PassStringEsc

record parser =
  p_state :: pstate
  p_seq :: bytes
  p_utf8 :: bytes
  p_g :: bytes  \<comment> \<open>the array \<open>[2]byte\<close>\<close>
  p_shift :: int

record terminal =
  t_cols :: int
  t_rows :: int
  t_main :: screen
  t_alt :: screen
  t_altActive :: bool
  t_cur :: cursor
  t_saved :: cursor
  t_savedSet :: bool
  t_top :: int
  t_bot :: int
  t_modes :: modes
  t_tabs :: "bool list"
  t_history :: "line list"
  t_histStart :: int
  t_nextLine :: "64 word"
  t_maxHistory :: int
  t_title :: bytes
  t_cursorStyle :: int
  t_last :: bytes
  t_exact :: bool
  t_repExact :: bool
  t_p :: parser
  t_replies :: bytes

text \<open>Assignments to a field of the cursor.\<close>

abbreviation set_x :: "int \<Rightarrow> terminal \<Rightarrow> terminal" where
  "set_x v t \<equiv> t\<lparr>t_cur := (t_cur t)\<lparr>c_x := v\<rparr>\<rparr>"
abbreviation set_y :: "int \<Rightarrow> terminal \<Rightarrow> terminal" where
  "set_y v t \<equiv> t\<lparr>t_cur := (t_cur t)\<lparr>c_y := v\<rparr>\<rparr>"
abbreviation set_pending :: "bool \<Rightarrow> terminal \<Rightarrow> terminal" where
  "set_pending v t \<equiv> t\<lparr>t_cur := (t_cur t)\<lparr>c_wrapPending := v\<rparr>\<rparr>"
abbreviation cx :: "terminal \<Rightarrow> int" where "cx t \<equiv> c_x (t_cur t)"
abbreviation cy :: "terminal \<Rightarrow> int" where "cy t \<equiv> c_y (t_cur t)"

subsection \<open>Construction and reset\<close>

definition newRow :: "int \<Rightarrow> attr \<Rightarrow> row" where
  "newRow cols a = replicate (nat cols) (blank a)"

definition newGrid :: "int \<Rightarrow> int \<Rightarrow> attr \<Rightarrow> screen" where
  "newGrid cols rows a = replicate (nat rows) (newRow cols a)"

text \<open>\<open>for i := 8; i < cols; i += 8 { tabs[i] = true }\<close> over a fresh slice.\<close>

definition reset_tabs :: "int \<Rightarrow> bool list" where
  "reset_tabs cols = map (\<lambda>i. 8 \<le> i \<and> i mod 8 = 0) [0..<nat cols]"

definition reset :: "terminal \<Rightarrow> terminal" where
  "reset t = t\<lparr>t_main := newGrid (t_cols t) (t_rows t) Attr0,
     t_alt := newGrid (t_cols t) (t_rows t) Attr0,
     t_altActive := False,
     t_cur := cursor0,
     t_saved := cursor0, t_savedSet := False,
     t_top := 0, t_bot := t_rows t - 1,
     t_modes := modes0,
     t_tabs := reset_tabs (t_cols t),
     t_title := [], t_last := [], t_cursorStyle := 0\<rparr>"

definition New :: "int \<Rightarrow> int \<Rightarrow> int \<Rightarrow> terminal" where
  "New cols rows maxHistory =
     reset \<lparr>t_cols = (if cols < 1 then 1 else cols), t_rows = (if rows < 1 then 1 else rows),
       t_main = [], t_alt = [], t_altActive = False, t_cur = cursor0, t_saved = cursor0,
       t_savedSet = False, t_top = 0, t_bot = 0, t_modes = modes0, t_tabs = [],
       t_history = [], t_histStart = 0, t_nextLine = 0, t_maxHistory = maxHistory,
       t_title = [], t_cursorStyle = 0, t_last = [], t_exact = False, t_repExact = False,
       t_p = \<lparr>p_state = Ground, p_seq = [], p_utf8 = [], p_g = lit ''BB'', p_shift = 0\<rparr>,
       t_replies = []\<rparr>"

subsection \<open>Reading\<close>

definition grid :: "terminal \<Rightarrow> screen" where
  "grid t = (if t_altActive t then t_alt t else t_main t)"

text \<open>Storing into the active buffer, which \<open>grid()\<close> returns by reference.\<close>

definition set_grid :: "screen \<Rightarrow> terminal \<Rightarrow> terminal" where
  "set_grid g t = (if t_altActive t then t\<lparr>t_alt := g\<rparr> else t\<lparr>t_main := g\<rparr>)"

definition Size :: "terminal \<Rightarrow> int \<times> int" where
  "Size t = (t_cols t, t_rows t)"

definition Modes :: "terminal \<Rightarrow> modes" where
  "Modes t = (t_modes t)\<lparr>m_origin := c_origin (t_cur t)\<rparr>"

definition History :: "terminal \<Rightarrow> line list option" where
  "History t =
     (if int (length (t_history t)) < t_maxHistory t then Some (t_history t)
      else do {
        tl \<leftarrow> slice (t_history t) (t_histStart t) (int (length (t_history t)));
        hd \<leftarrow> slice (t_history t) 0 (t_histStart t);
        Some (tl @ hd)
      })"

text \<open>
  \<open>rowText\<close> keeps the bytes written so far and the length up to the last cell with text.
\<close>

fun rowText_go :: "row \<Rightarrow> bytes \<Rightarrow> nat \<Rightarrow> bytes" where
  "rowText_go [] b end = take end b"
| "rowText_go (c # r) b end =
     (if ce_w c = 0 then rowText_go r b end
      else if ce_s c = [] then rowText_go r (b @ [32]) end
      else rowText_go r (b @ ce_s c) (length (b @ ce_s c)))"

definition rowText :: "row \<Rightarrow> bytes" where
  "rowText r = rowText_go r [] 0"

definition Row :: "terminal \<Rightarrow> int \<Rightarrow> bytes option" where
  "Row t y = (if y < 0 \<or> t_rows t \<le> y then Some []
     else do { r \<leftarrow> idx (grid t) y; Some (rowText r) })"

definition HistoryText :: "terminal \<Rightarrow> bytes list option" where
  "HistoryText t = do { h \<leftarrow> History t; Some (map (\<lambda>l. rowText (l_cells l)) h) }"

subsection \<open>History\<close>

definition pushHistory :: "row \<Rightarrow> terminal \<Rightarrow> terminal option" where
  "pushHistory r t =
     (if t_maxHistory t \<le> 0 then Some t
      else let line = \<lparr>l_id = t_nextLine t, l_cells = r\<rparr>;
               t1 = t\<lparr>t_nextLine := t_nextLine t + 1\<rparr>
      in if int (length (t_history t1)) < t_maxHistory t1
         then Some (t1\<lparr>t_history := t_history t1 @ [line]\<rparr>)
         else do {
           h \<leftarrow> set_idx (t_history t1) (t_histStart t1) line;
           Some (t1\<lparr>t_history := h,
             t_histStart := (t_histStart t1 + 1) mod t_maxHistory t1\<rparr>)
         })"

subsection \<open>Scrolling\<close>

definition clamp :: "int \<Rightarrow> int \<Rightarrow> int \<Rightarrow> int" where
  "clamp v lo hi = (if v < lo then lo else if hi < v then hi else v)"

text \<open>One iteration of each scrolling loop.\<close>

definition scrollUp1 :: "bool \<Rightarrow> terminal \<Rightarrow> terminal option" where
  "scrollUp1 history t =
     do {
       t \<leftarrow> (if history \<and> \<not> t_altActive t \<and> t_top t = 0
             then do { r \<leftarrow> idx (grid t) (t_top t); pushHistory r t } else Some t);
       g \<leftarrow> copy_within (grid t) (t_top t) (t_bot t) (t_top t + 1) (t_bot t + 1);
       g \<leftarrow> set_idx g (t_bot t) (newRow (t_cols t) (attr_bg (a_bg (c_attr (t_cur t)))));
       Some (set_grid g t)
     }"

definition scrollDown1 :: "terminal \<Rightarrow> terminal option" where
  "scrollDown1 t =
     do {
       g \<leftarrow> copy_within (grid t) (t_top t + 1) (t_bot t + 1) (t_top t) (t_bot t);
       g \<leftarrow> set_idx g (t_top t) (newRow (t_cols t) (attr_bg (a_bg (c_attr (t_cur t)))));
       Some (set_grid g t)
     }"

definition scrollUp :: "int \<Rightarrow> terminal \<Rightarrow> terminal option" where
  "scrollUp n t = repeat_opt (nat (clamp n 0 (t_bot t - t_top t + 1))) (scrollUp1 True) t"

definition scrollUpNoHistory :: "int \<Rightarrow> terminal \<Rightarrow> terminal option" where
  "scrollUpNoHistory n t =
     repeat_opt (nat (clamp n 0 (t_bot t - t_top t + 1))) (scrollUp1 False) t"

definition scrollDown :: "int \<Rightarrow> terminal \<Rightarrow> terminal option" where
  "scrollDown n t = repeat_opt (nat (clamp n 0 (t_bot t - t_top t + 1))) scrollDown1 t"

definition lineFeed :: "terminal \<Rightarrow> terminal option" where
  "lineFeed t =
     (if cy t = t_bot t then scrollUp 1 t
      else if cy t < t_rows t - 1 then Some (set_y (cy t + 1) t)
      else Some t)"

definition reverseIndex :: "terminal \<Rightarrow> terminal option" where
  "reverseIndex t =
     (if cy t = t_top t then scrollDown 1 t
      else if cy t > 0 then Some (set_y (cy t - 1) t)
      else Some t)"

subsection \<open>Printing\<close>

abbreviation maxCombiningMarks :: int where "maxCombiningMarks \<equiv> 16"
abbreviation maxCombiningMarkBytes :: int where "maxCombiningMarkBytes \<equiv> 64"

definition combiningRoom :: "bytes \<Rightarrow> int \<times> int" where
  "combiningRoom s =
     (maxCombiningMarks - (int (length (runes s)) - 1),
      maxCombiningMarkBytes - (int (length s) - int (snd (decode_rune s))))"

definition clearWide :: "row \<Rightarrow> int \<Rightarrow> row" where
  "clearWide row x =
     (if x < 0 \<or> int (length row) \<le> x then row
      else if ce_w (row ! nat x) = 2
        then if x + 1 < int (length row)
             then row[nat (x + 1) := blank (ce_a (row ! nat (x + 1)))] else row
      else if ce_w (row ! nat x) = 0
        then if 0 < x \<and> ce_w (row ! nat (x - 1)) = 2
             then row[nat (x - 1) := blank (ce_a (row ! nat (x - 1)))] else row
      else row)"

text \<open>
  The loop of \<open>mend\<close> runs left to right and writes in place: the cell to the left is already
  mended, the one to the right is not. \<open>pw\<close> is the width of the mended cell to the left,
  \<open>None\<close> at the row's start.
\<close>

fun mend_go :: "int option \<Rightarrow> row \<Rightarrow> row" where
  "mend_go pw [] = []"
| "mend_go pw (c # cs) =
     (let c' =
        (if ce_w c = 2 then (if cs = [] \<or> ce_w (hd cs) \<noteq> 0 then blank (ce_a c) else c)
         else if ce_w c = 0 then (if pw \<noteq> Some 2 then blank (ce_a c) else c)
         else c)
      in c' # mend_go (Some (ce_w c')) cs)"

definition mend :: "row \<Rightarrow> row" where
  "mend row = mend_go None row"

text \<open>
  A combining mark joins the cell before the cursor, within the cell's bounds; onto a blank, it
  joins the space a terminal shows there.
\<close>

definition join_mark :: "bytes \<Rightarrow> bytes \<Rightarrow> bytes" where
  "join_mark s old =
     (let s1 = (if old = [] then [32] else old) in
      if 0 < fst (combiningRoom s1) \<and> int (length s) \<le> snd (combiningRoom s1) then s1 @ s else s1)"

definition print_mark :: "bytes \<Rightarrow> terminal \<Rightarrow> terminal option" where
  "print_mark s t =
     (let y = cy t; x0 = (if c_wrapPending (t_cur t) then cx t else cx t - 1) in
      do {
        x \<leftarrow> (if 0 \<le> x0
              then do {
                row \<leftarrow> idx (grid t) y;
                c \<leftarrow> idx row x0;
                Some (if ce_w c = 0 \<and> 0 < x0 then x0 - 1 else x0)
              } else Some x0);
        (if 0 \<le> x
         then do {
           row \<leftarrow> idx (grid t) y;
           c \<leftarrow> idx row x;
           row \<leftarrow> set_idx row x (c\<lparr>ce_s := join_mark s (ce_s c)\<rparr>);
           g \<leftarrow> set_idx (grid t) y row;
           Some ((set_grid g t)\<lparr>t_last := join_mark s (ce_s c)\<rparr>)
         } else Some t)
      })"

text \<open>The pending wrap, then a wide character's move off the last column.\<close>

definition print_wrap :: "terminal \<Rightarrow> terminal option" where
  "print_wrap t =
     (if c_wrapPending (t_cur t) \<and> m_autoWrap (t_modes t)
      then do { t \<leftarrow> lineFeed (set_x 0 t); Some (set_pending False t) }
      else Some t)"

definition print_wide_wrap :: "terminal \<Rightarrow> terminal option" where
  "print_wide_wrap t =
     do {
       row \<leftarrow> idx (grid t) (cy t);
       row \<leftarrow> set_idx row (cx t) (blank (c_attr (t_cur t)));
       g \<leftarrow> set_idx (grid t) (cy t) row;
       lineFeed (set_x 0 (set_grid g t))
     }"

text \<open>Writing the character at the cursor and moving past it.\<close>

definition put_row :: "bool \<Rightarrow> int \<Rightarrow> bytes \<Rightarrow> int \<Rightarrow> attr \<Rightarrow> row \<Rightarrow> row option" where
  "put_row ins x s w a row =
     do {
       row \<leftarrow> (if ins then copy_within row (x + w) (int (length row)) x (int (length row))
               else Some row);
       let row = clearWide row x;
       let row = (if w = 2 then clearWide row (x + 1) else row);
       row \<leftarrow> set_idx row x \<lparr>ce_s = s, ce_w = w, ce_a = a\<rparr>;
       row \<leftarrow> (if w = 2 then set_idx row (x + 1) \<lparr>ce_s = [], ce_w = 0, ce_a = a\<rparr> else Some row);
       Some (if ins then mend row else row)
     }"

definition print_put :: "bytes \<Rightarrow> int \<Rightarrow> terminal \<Rightarrow> terminal option" where
  "print_put s w t =
     do {
       row \<leftarrow> idx (grid t) (cy t);
       row \<leftarrow> put_row (m_insert (t_modes t)) (cx t) s w (c_attr (t_cur t)) row;
       g \<leftarrow> set_idx (grid t) (cy t) row;
       let t = (set_grid g t)\<lparr>t_last := s\<rparr>;
       Some (if t_cols t \<le> cx t + w
             then set_pending (m_autoWrap (t_modes t)) (set_x (t_cols t - 1) t)
             else set_x (cx t + w) t)
     }"

definition print :: "bytes \<Rightarrow> int \<Rightarrow> terminal \<Rightarrow> terminal option" where
  "print s w t =
     (if w = 0 then print_mark s t
      else if w = 2 \<and> t_cols t < 2 then Some t
      else do {
        t \<leftarrow> print_wrap t;
        (if w = 2 \<and> cx t = t_cols t - 1
         then (if m_autoWrap (t_modes t)
               then do { t \<leftarrow> print_wide_wrap t; print_put s w t }
               else Some t)
         else print_put s w t)
      })"

subsection \<open>Resizing\<close>

text \<open>
  The closure \<open>fit\<close>: rows leave from the top into the history while the cursor has room
  above it, otherwise from the bottom; each row is then cut or padded. (\<open>rows\<close> is at least 1,
  so an empty grid is never longer.)
\<close>

function fit_shrink :: "int \<Rightarrow> bool \<Rightarrow> screen \<Rightarrow> terminal \<Rightarrow> (screen \<times> terminal) option" where
  "fit_shrink rows history g t =
     (if g = [] \<or> int (length g) \<le> rows then Some (g, t)
      else if history \<and> 0 < cy t
        then do {
          t \<leftarrow> pushHistory (hd g) t;
          fit_shrink rows history (tl g) (if t_altActive t then t else set_y (cy t - 1) t)
        }
      else fit_shrink rows history (butlast g) t)"
  by pat_completeness auto
termination
  by (relation "measure (\<lambda>(rows, history, g, t). length g)") auto

declare fit_shrink.simps [simp del]

definition fit_row :: "int \<Rightarrow> row \<Rightarrow> row" where
  "fit_row cols r =
     (let r1 = (if cols < int (length r)
                then let q = take (nat cols) r in
                     if ce_w (q ! nat (cols - 1)) = 2
                     then q[nat (cols - 1) := blank (ce_a (q ! nat (cols - 1)))] else q
                else r)
      in r1 @ replicate (nat cols - length r1) (blank Attr0))"

definition fit :: "int \<Rightarrow> int \<Rightarrow> bool \<Rightarrow> screen \<Rightarrow> terminal \<Rightarrow> (screen \<times> terminal) option" where
  "fit cols rows history g t =
     do {
       (g, t) \<leftarrow> fit_shrink rows history g t;
       let g = g @ replicate (nat rows - length g) (newRow cols Attr0);
       Some (map (fit_row cols) g, t)
     }"

definition resize_tabs :: "int \<Rightarrow> bool list \<Rightarrow> bool list" where
  "resize_tabs cols tabs =
     map (\<lambda>i. if i < length tabs then tabs ! i else i mod 8 = 0 \<and> 0 < i) [0..<nat cols]"

definition clamp_cursor :: "int \<Rightarrow> int \<Rightarrow> cursor \<Rightarrow> cursor" where
  "clamp_cursor cols rows c =
     c\<lparr>c_x := clamp (c_x c) 0 (cols - 1), c_y := clamp (c_y c) 0 (rows - 1)\<rparr>"

definition Resize :: "int \<Rightarrow> int \<Rightarrow> terminal \<Rightarrow> terminal option" where
  "Resize cols rows t =
     (if cols < 1 \<or> rows < 1 \<or> (cols = t_cols t \<and> rows = t_rows t) then Some t
      else do {
        (main, t) \<leftarrow> fit cols rows True (t_main t) t;
        let t = t\<lparr>t_main := main\<rparr>;
        (alt, t) \<leftarrow> fit cols rows False (t_alt t) t;
        let t = t\<lparr>t_alt := alt\<rparr>;
        Some (t\<lparr>t_cols := cols, t_rows := rows, t_top := 0, t_bot := rows - 1,
          t_tabs := resize_tabs cols (t_tabs t),
          t_cur := (clamp_cursor cols rows (t_cur t))\<lparr>c_wrapPending := False\<rparr>,
          t_saved := clamp_cursor cols rows (t_saved t)\<rparr>)
      })"

end
