(* ===== verification/Rendition.thy ===== *)
theory Rendition
  imports Terminal
begin

unbundle bit_operations_syntax

text \<open>
  \<open>internal/termstate/sgr.go\<close>: Select Graphic Rendition. \<open>sgr\<close> reads a parameter text into
  a rendition, \<open>sgrString\<close> writes the text that sets one; reading what was written gives the
  rendition back, whatever it was before.
\<close>

subsection \<open>Colours\<close>

definition atoiByte :: "bytes \<Rightarrow> byte \<times> bool" where
  "atoiByte s = (let (n, ok) = atoi s in
     if \<not> ok \<or> n < 0 \<or> 255 < n then (0, False) else (word_of_int n, True))"

definition indexed :: "byte \<Rightarrow> color" where
  "indexed n = Color0\<lparr>co_kind := 1, co_n := n\<rparr>"

definition rgb :: "byte \<Rightarrow> byte \<Rightarrow> byte \<Rightarrow> color" where
  "rgb r g b = Color0\<lparr>co_kind := 2, co_r := r, co_g := g, co_b := b\<rparr>"

definition semicolonColor :: "bytes list \<Rightarrow> color \<times> nat" where
  "semicolonColor f =
     (if 2 \<le> length f \<and> f ! 0 = lit ''5''
      then (let (n, ok) = atoiByte (f ! 1) in (if ok then indexed n else Color0, 2))
      else if 4 \<le> length f \<and> f ! 0 = lit ''2''
      then (let (r, ok1) = atoiByte (f ! 1);
                (g, ok2) = atoiByte (f ! 2);
                (b, ok3) = atoiByte (f ! 3)
            in (if ok1 \<and> ok2 \<and> ok3 then rgb r g b else Color0, 4))
      else (Color0, 0))"

definition colonColor :: "bytes list \<Rightarrow> color \<times> bool" where
  "colonColor f =
     (if 2 \<le> length f \<and> f ! 0 = lit ''5''
      then (let (n, ok) = atoiByte (f ! 1) in (indexed n, ok))
      else if 4 \<le> length f \<and> f ! 0 = lit ''2''
      then (let q = drop 1 f;
                q = (if 4 \<le> length q then drop 1 q else q);
                (r, ok1) = atoiByte (q ! 0);
                (g, ok2) = atoiByte (q ! 1);
                (b, ok3) = atoiByte (q ! 2)
            in (rgb r g b, ok1 \<and> ok2 \<and> ok3))
      else (Color0, False))"

subsection \<open>Reading\<close>

definition flag_on :: "flags \<Rightarrow> attr \<Rightarrow> attr" where
  "flag_on f a = a\<lparr>a_flags := a_flags a OR f\<rparr>"

definition flag_off :: "flags \<Rightarrow> attr \<Rightarrow> attr" where
  "flag_off f a = a\<lparr>a_flags := a_flags a AND NOT f\<rparr>"

text \<open>The switch on one number, the extended colours 38, 48 and 58 apart.\<close>

definition sgr_code :: "int \<Rightarrow> attr \<Rightarrow> attr" where
  "sgr_code n a =
     (if n = 0 then Attr0
      else if n = 1 then flag_on Bold a
      else if n = 2 then flag_on Dim a
      else if n = 3 then flag_on Italic a
      else if n = 4 then flag_on Underline a
      else if n = 5 \<or> n = 6 then flag_on Blink a
      else if n = 7 then flag_on Reverse a
      else if n = 8 then flag_on Hidden a
      else if n = 9 then flag_on Strike a
      else if n = 21 then flag_on Underline a
      else if n = 22 then flag_off (Bold OR Dim) a
      else if n = 23 then flag_off Italic a
      else if n = 24 then flag_off Underline a
      else if n = 25 then flag_off Blink a
      else if n = 27 then flag_off Reverse a
      else if n = 28 then flag_off Hidden a
      else if n = 29 then flag_off Strike a
      else if 30 \<le> n \<and> n \<le> 37 then a\<lparr>a_fg := indexed (word_of_int (n - 30))\<rparr>
      else if n = 39 then a\<lparr>a_fg := Color0\<rparr>
      else if 40 \<le> n \<and> n \<le> 47 then a\<lparr>a_bg := indexed (word_of_int (n - 40))\<rparr>
      else if n = 49 then a\<lparr>a_bg := Color0\<rparr>
      else if 90 \<le> n \<and> n \<le> 97 then a\<lparr>a_fg := indexed (word_of_int (n - 90 + 8))\<rparr>
      else if 100 \<le> n \<and> n \<le> 107 then a\<lparr>a_bg := indexed (word_of_int (n - 100 + 8))\<rparr>
      else a)"

text \<open>The foreground or background an extended colour sets; 58, the underline's, sets none.\<close>

definition set_extended :: "int \<Rightarrow> color \<Rightarrow> attr \<Rightarrow> attr" where
  "set_extended n c a =
     (if n = 58 then a else if n = 38 then a\<lparr>a_fg := c\<rparr> else a\<lparr>a_bg := c\<rparr>)"

definition extended :: "int \<Rightarrow> bool" where
  "extended n \<longleftrightarrow> n = 38 \<or> n = 48 \<or> n = 58"

text \<open>
  One field that has a colon: \<open>Some\<close> when the loop continues with the next field, otherwise
  the field is read by its first part.
\<close>

definition sgr_colon :: "bytes \<Rightarrow> attr \<Rightarrow> attr option" where
  "sgr_colon f a =
     (let sub = split_on 58 f; n = fst (atoi (hd sub)) in
      if extended n
      then (let (c, ok) = colonColor (tl sub) in Some (if ok then set_extended n c a else a))
      else if n = 4
      then Some (if 1 < length sub \<and> sub ! 1 = lit ''0'' then flag_off Underline a
                 else flag_on Underline a)
      else None)"

function sgr_fields :: "bytes list \<Rightarrow> attr \<Rightarrow> attr" where
  "sgr_fields [] a = a"
| "sgr_fields (f # fs) a =
     (case (if 58 \<in> set f then sgr_colon f a else None) of
        Some a' \<Rightarrow> sgr_fields fs a'
      | None \<Rightarrow>
          let (v, ok) = atoi (if 58 \<in> set f then hd (split_on 58 f) else f);
              n = (if ok then v else 0)
          in if extended n
             then (let (c, used) = semicolonColor fs
                   in sgr_fields (drop used fs) (if 0 < used then set_extended n c a else a))
             else sgr_fields fs (sgr_code n a))"
  by pat_completeness auto
termination
  by (relation "measure (\<lambda>(fs, a). length fs)") auto

declare sgr_fields.simps(2) [simp del]

definition sgr_attr :: "int list \<Rightarrow> bytes \<Rightarrow> attr \<Rightarrow> attr" where
  "sgr_attr ps raw a = (if ps = [] then Attr0 else sgr_fields (split_on 59 raw) a)"

definition sgr :: "int list \<Rightarrow> bytes \<Rightarrow> terminal \<Rightarrow> terminal" where
  "sgr ps raw t = t\<lparr>t_cur := (t_cur t)\<lparr>c_attr := sgr_attr ps raw (c_attr (t_cur t))\<rparr>\<rparr>"

subsection \<open>Writing\<close>

definition flag_codes :: "(flags \<times> bytes) list" where
  "flag_codes =
     [(Bold, lit ''1''), (Dim, lit ''2''), (Italic, lit ''3''), (Underline, lit ''4''),
      (Blink, lit ''5''), (Reverse, lit ''7''), (Hidden, lit ''8''), (Strike, lit ''9'')]"

definition sgr_flags :: "flags \<Rightarrow> bytes" where
  "sgr_flags fl = concat (map (\<lambda>(f, n). if fl AND f \<noteq> 0 then lit '';'' @ n else []) flag_codes)"

definition sgr_color :: "color \<Rightarrow> int \<Rightarrow> bytes" where
  "sgr_color c base =
     (if co_kind c = 1 then lit '';'' @ itoa base @ lit '';5;'' @ itoa (uint (co_n c))
      else if co_kind c = 2
        then lit '';'' @ itoa base @ lit '';2;'' @ itoa (uint (co_r c)) @ lit '';''
             @ itoa (uint (co_g c)) @ lit '';'' @ itoa (uint (co_b c))
      else [])"

text \<open>The parameter text of the sequence, and the sequence.\<close>

definition sgr_params :: "attr \<Rightarrow> bytes" where
  "sgr_params a = lit ''0'' @ sgr_flags (a_flags a) @ sgr_color (a_fg a) 38 @ sgr_color (a_bg a) 48"

definition sgrString :: "attr \<Rightarrow> bytes" where
  "sgrString a = [0x1b] @ lit ''['' @ sgr_params a @ lit ''m''"

end
