(* ===== verification/RuneWidth.thy ===== *)
theory RuneWidth
  imports GoText
begin

text \<open>
  \<open>internal/termstate/width.go\<close>: the column width of a character. Membership in the Unicode
  categories Mn and Me (\<open>unicode.Is\<close>) is data of Go's \<open>unicode\<close> package and a parameter
  \<open>mark\<close> of the model; everything here holds for any such table.
\<close>

definition wide :: "(int \<times> int) list" where
  "wide =
    [(0x1100, 0x115F), (0x231A, 0x231B), (0x2329, 0x232A), (0x23E9, 0x23EC), (0x23F0, 0x23F0), (0x23F3, 0x23F3),
     (0x25FD, 0x25FE), (0x2614, 0x2615), (0x2648, 0x2653), (0x267F, 0x267F), (0x2693, 0x2693), (0x26A1, 0x26A1),
     (0x26AA, 0x26AB), (0x26BD, 0x26BE), (0x26C4, 0x26C5), (0x26CE, 0x26CE), (0x26D4, 0x26D4), (0x26EA, 0x26EA),
     (0x26F2, 0x26F3), (0x26F5, 0x26F5), (0x26FA, 0x26FA), (0x26FD, 0x26FD), (0x2705, 0x2705), (0x270A, 0x270B),
     (0x2728, 0x2728), (0x274C, 0x274C), (0x274E, 0x274E), (0x2753, 0x2755), (0x2757, 0x2757), (0x2795, 0x2797),
     (0x27B0, 0x27B0), (0x27BF, 0x27BF), (0x2B1B, 0x2B1C), (0x2B50, 0x2B50), (0x2B55, 0x2B55), (0x2E80, 0x303E),
     (0x3041, 0x33FF), (0x3400, 0x4DBF), (0x4E00, 0x9FFF), (0xA000, 0xA4CF), (0xA960, 0xA97F), (0xAC00, 0xD7A3),
     (0xF900, 0xFAFF), (0xFE10, 0xFE19), (0xFE30, 0xFE6F), (0xFF00, 0xFF60), (0xFFE0, 0xFFE6), (0x16FE0, 0x16FE4),
     (0x17000, 0x18CFF), (0x1B000, 0x1B2FF), (0x1F004, 0x1F004), (0x1F0CF, 0x1F0CF), (0x1F18E, 0x1F18E),
     (0x1F191, 0x1F19A), (0x1F200, 0x1F202), (0x1F210, 0x1F23B), (0x1F240, 0x1F248), (0x1F250, 0x1F251),
     (0x1F260, 0x1F265), (0x1F300, 0x1F320), (0x1F32D, 0x1F335), (0x1F337, 0x1F37C), (0x1F37E, 0x1F393),
     (0x1F3A0, 0x1F3CA), (0x1F3CF, 0x1F3D3), (0x1F3E0, 0x1F3F0), (0x1F3F4, 0x1F3F4), (0x1F3F8, 0x1F43E),
     (0x1F440, 0x1F440), (0x1F442, 0x1F4FC), (0x1F4FF, 0x1F53D), (0x1F54B, 0x1F54E), (0x1F550, 0x1F567),
     (0x1F57A, 0x1F57A), (0x1F595, 0x1F596), (0x1F5A4, 0x1F5A4), (0x1F5FB, 0x1F64F), (0x1F680, 0x1F6C5),
     (0x1F6CC, 0x1F6CC), (0x1F6D0, 0x1F6D2), (0x1F6D5, 0x1F6D7), (0x1F6DC, 0x1F6DF), (0x1F6EB, 0x1F6EC),
     (0x1F6F4, 0x1F6FC), (0x1F7E0, 0x1F7EB), (0x1F7F0, 0x1F7F0), (0x1F90C, 0x1F93A), (0x1F93C, 0x1F945),
     (0x1F947, 0x1F9FF), (0x1FA70, 0x1FAFF), (0x20000, 0x2FFFD), (0x30000, 0x3FFFD)]"

text \<open>The loop over the table, which leaves at the first range past the character.\<close>

fun wide_scan :: "(int \<times> int) list \<Rightarrow> int \<Rightarrow> int" where
  "wide_scan [] r = 1"
| "wide_scan ((lo, hi) # ws) r = (if r < lo then 1 else if r \<le> hi then 2 else wide_scan ws r)"

definition runeWidth :: "(int \<Rightarrow> bool) \<Rightarrow> int \<Rightarrow> int" where
  "runeWidth mark r =
     (if r = 0 then 0
      else if r < 0x300 then 1
      else if mark r \<or> r = 0x200B \<or> r = 0x200C \<or> r = 0x200D \<or> r = 0xFEFF
              \<or> (0xFE00 \<le> r \<and> r \<le> 0xFE0F) then 0
      else wide_scan wide r)"

lemma wide_scan_range: "wide_scan ws r \<in> {1, 2}"
  by (induction ws r rule: wide_scan.induct) auto

lemma runeWidth_range: "runeWidth mark r \<in> {0, 1, 2}"
  using wide_scan_range [of wide r] by (auto simp: runeWidth_def)

text \<open>The table is strictly increasing, so leaving the loop early misses no range.\<close>

fun increasing :: "(int \<times> int) list \<Rightarrow> bool" where
  "increasing [] = True"
| "increasing [(lo, hi)] = (lo \<le> hi)"
| "increasing ((lo, hi) # (lo', hi') # ws) = (lo \<le> hi \<and> hi < lo' \<and> increasing ((lo', hi') # ws))"

lemma increasing_tail:
  "increasing ((lo, hi) # ws) \<Longrightarrow> (l, h) \<in> set ws \<Longrightarrow> hi < l"
proof (induction ws arbitrary: lo hi)
  case (Cons w ws)
  obtain a b where w: "w = (a, b)" by (cases w)
  with Cons.prems have ab: "increasing ((a, b) # ws)" "hi < a" by simp_all
  then have "a \<le> b" by (cases ws) auto
  with Cons.IH [OF ab(1)] Cons.prems(2) w ab(2) show ?case by fastforce
qed simp

lemma increasing_Cons: "increasing (w # ws) \<Longrightarrow> increasing ws"
  by (cases w; cases ws) auto

lemma wide_scan_iff:
  "increasing ws \<Longrightarrow> wide_scan ws r = 2 \<longleftrightarrow> (\<exists>(lo, hi) \<in> set ws. lo \<le> r \<and> r \<le> hi)"
proof (induction ws r rule: wide_scan.induct)
  case (2 lo hi ws r)
  have later: "hi < l" if "(l, h) \<in> set ws" for l h
    using increasing_tail [OF "2.prems" that] .
  have "lo \<le> hi" using "2.prems" by (cases ws) auto
  show ?case
  proof (cases "r \<le> hi")
    case True
    then have "\<not> (\<exists>(l, h) \<in> set ws. l \<le> r \<and> r \<le> h)" using later by fastforce
    with True \<open>lo \<le> hi\<close> show ?thesis by auto
  next
    case False
    with "2.IH" increasing_Cons [OF "2.prems"] \<open>lo \<le> hi\<close> show ?thesis by auto
  qed
qed simp

lemma increasing_wide: "increasing wide"
  by (simp add: wide_def)

end
