(* ===== verification/Parser.thy ===== *)
theory Parser
  imports Rendition RuneWidth
begin

text \<open>
  \<open>internal/termstate/parser.go\<close>, with \<open>Feed\<close>, \<open>Held\<close>, \<open>Replies\<close> and
  \<open>printRune\<close> of \<open>terminal.go\<close>: the state machine that reads the program's output one
  byte at a time, acts on the screen, answers queries and says which bytes clients receive. The
  parser is the field \<open>p\<close> of the terminal, as in the source. Parameter \<open>mark\<close> is the
  Unicode table \<open>runeWidth\<close> consults.
\<close>

subsection \<open>Parameters\<close>

definition params_one :: "bytes \<Rightarrow> int" where
  "params_one f =
     (let (v, ok) = atoi (fst (cut 58 f)); n = (if \<not> ok \<or> v < 0 then 0 else v)
      in if 65535 < n then 65535 else n)"

definition params :: "bytes \<Rightarrow> int list" where
  "params b = (if b = [] then [] else map params_one (split_on 59 b))"

text \<open>The closure \<open>arg\<close>: parameter \<open>i\<close>, or the default when it is missing or zero.\<close>

definition arg :: "int list \<Rightarrow> nat \<Rightarrow> int \<Rightarrow> int" where
  "arg ps i d = (if i < length ps \<and> 0 < ps ! i then ps ! i else d)"

subsection \<open>Cursor movement and tabs\<close>

definition top0 :: "terminal \<Rightarrow> int" where
  "top0 t = (if t_top t \<le> cy t then t_top t else 0)"

definition bot0 :: "terminal \<Rightarrow> int" where
  "bot0 t = (if cy t \<le> t_bot t then t_bot t else t_rows t - 1)"

definition moveTo :: "int \<Rightarrow> int \<Rightarrow> terminal \<Rightarrow> terminal" where
  "moveTo x y t =
     (let y' = (if c_origin (t_cur t) then clamp (y + t_top t) (t_top t) (t_bot t)
                else clamp y 0 (t_rows t - 1))
      in t\<lparr>t_cur := (t_cur t)\<lparr>c_x := clamp x 0 (t_cols t - 1), c_y := y', c_wrapPending := False\<rparr>\<rparr>)"

definition reportPosition :: "terminal \<Rightarrow> int \<times> int" where
  "reportPosition t =
     (if c_origin (t_cur t) then cy t + 1 - t_top t else cy t + 1, cx t + 1)"

function nextTab_from :: "bool list \<Rightarrow> int \<Rightarrow> int \<Rightarrow> int option" where
  "nextTab_from tabs cols i =
     (if i < cols
      then do { on \<leftarrow> idx tabs i; (if on then Some i else nextTab_from tabs cols (i + 1)) }
      else Some (cols - 1))"
  by pat_completeness auto
termination
  by (relation "measure (\<lambda>(tabs, cols, i). nat (cols - i))") auto

declare nextTab_from.simps [simp del]

function prevTab_from :: "bool list \<Rightarrow> int \<Rightarrow> int option" where
  "prevTab_from tabs i =
     (if 0 < i
      then do { on \<leftarrow> idx tabs i; (if on then Some i else prevTab_from tabs (i - 1)) }
      else Some 0)"
  by pat_completeness auto
termination
  by (relation "measure (\<lambda>(tabs, i). nat i)") auto

declare prevTab_from.simps [simp del]

definition nextTab :: "terminal \<Rightarrow> int \<Rightarrow> int option" where
  "nextTab t x = nextTab_from (t_tabs t) (t_cols t) (x + 1)"

definition prevTab :: "terminal \<Rightarrow> int \<Rightarrow> int option" where
  "prevTab t x = prevTab_from (t_tabs t) (x - 1)"

subsection \<open>Erasing and editing\<close>

definition eraseLine :: "int \<Rightarrow> terminal \<Rightarrow> terminal option" where
  "eraseLine mode t =
     do {
       row \<leftarrow> idx (grid t) (cy t);
       let b = blank (c_attr (t_cur t));
       let (from, to) = (if mode = 1 then (0, cx t + 1) else if mode = 2 then (0, t_cols t)
                         else (cx t, t_cols t));
       let row = clearWide (clearWide row from) (to - 1);
       row \<leftarrow> fill row from (min to (t_cols t)) b;
       g \<leftarrow> set_idx (grid t) (cy t) row;
       Some (set_grid g t)
     }"

text \<open>\<open>for x := range g[y] { g[y][x] = b }\<close> for each \<open>y\<close> of \<open>[lo, hi)\<close>.\<close>

definition eraseRows :: "int \<Rightarrow> int \<Rightarrow> cell \<Rightarrow> terminal \<Rightarrow> terminal option" where
  "eraseRows lo hi b t =
     do {
       g \<leftarrow> fold_opt (\<lambda>y g. do { r \<leftarrow> idx g y; set_idx g y (replicate (length r) b) })
              [lo..hi - 1] (grid t);
       Some (set_grid g t)
     }"

definition eraseDisplay :: "int \<Rightarrow> terminal \<Rightarrow> terminal option" where
  "eraseDisplay mode t =
     (let b = blank (c_attr (t_cur t)) in
      if mode = 0 then do { t \<leftarrow> eraseLine 0 t; eraseRows (cy t + 1) (t_rows t) b t }
      else if mode = 1 then do { t \<leftarrow> eraseLine 1 t; eraseRows 0 (cy t) b t }
      else if mode = 2 then eraseRows 0 (int (length (grid t))) b t
      else if mode = 3
        then Some (if t_altActive t then t else t\<lparr>t_history := [], t_histStart := 0\<rparr>)
      else Some t)"

text \<open>A change of the cursor's row: \<open>row := g[cur.y]\<close>, updated in place.\<close>

definition edit_row :: "(row \<Rightarrow> row option) \<Rightarrow> terminal \<Rightarrow> terminal option" where
  "edit_row f t =
     do {
       row \<leftarrow> idx (grid t) (cy t);
       row \<leftarrow> f row;
       g \<leftarrow> set_idx (grid t) (cy t) row;
       Some (set_grid g t)
     }"

definition insertChars :: "int \<Rightarrow> terminal \<Rightarrow> terminal option" where
  "insertChars k t =
     (let n = clamp k 1 (t_cols t - cx t) in
      edit_row (\<lambda>row. do {
        row \<leftarrow> copy_within row (cx t + n) (int (length row)) (cx t) (int (length row));
        fill row (cx t) (cx t + n) (blank (c_attr (t_cur t)))
      }) t)"

definition deleteChars :: "int \<Rightarrow> terminal \<Rightarrow> terminal option" where
  "deleteChars k t =
     (let n = clamp k 1 (t_cols t - cx t) in
      edit_row (\<lambda>row. do {
        row \<leftarrow> copy_within row (cx t) (int (length row)) (cx t + n) (int (length row));
        fill row (t_cols t - n) (t_cols t) (blank (c_attr (t_cur t)))
      }) t)"

definition eraseChars :: "int \<Rightarrow> terminal \<Rightarrow> terminal option" where
  "eraseChars k t =
     (let n = clamp k 1 (t_cols t - cx t) in
      edit_row (\<lambda>row. fill row (cx t) (cx t + n) (blank (c_attr (t_cur t)))) t)"

definition insertDeleteLines :: "bool \<Rightarrow> int \<Rightarrow> terminal \<Rightarrow> terminal option" where
  "insertDeleteLines ins n t =
     (if t_top t \<le> cy t \<and> cy t \<le> t_bot t
      then do {
        let top = t_top t;
        let t = t\<lparr>t_top := cy t\<rparr>;
        t \<leftarrow> (if ins then scrollDown n t else scrollUpNoHistory n t);
        Some (set_x 0 (t\<lparr>t_top := top\<rparr>))
      }
      else Some t)"

subsection \<open>Modes\<close>

definition switchScreen :: "bool \<Rightarrow> bool \<Rightarrow> terminal \<Rightarrow> terminal" where
  "switchScreen alt saveCursor t =
     (if alt = t_altActive t then t
      else if alt
      then (let t = (if saveCursor then t\<lparr>t_saved := t_cur t, t_savedSet := True\<rparr> else t)
            in t\<lparr>t_altActive := True, t_alt := newGrid (t_cols t) (t_rows t) Attr0\<rparr>)
      else (let t = t\<lparr>t_altActive := False\<rparr>
            in if saveCursor \<and> t_savedSet t then t\<lparr>t_cur := t_saved t\<rparr> else t))"

definition upd_modes :: "(modes \<Rightarrow> modes) \<Rightarrow> terminal \<Rightarrow> terminal" where
  "upd_modes f t = t\<lparr>t_modes := f (t_modes t)\<rparr>"

definition setPrivate :: "int \<Rightarrow> bool \<Rightarrow> terminal \<Rightarrow> terminal" where
  "setPrivate m on t =
     (if m = 1 then upd_modes (m_appCursorKeys_update (\<lambda>_. on)) t
      else if m = 5 then upd_modes (m_reverseVideo_update (\<lambda>_. on)) t
      else if m = 6 then moveTo 0 0 (t\<lparr>t_cur := (t_cur t)\<lparr>c_origin := on\<rparr>\<rparr>)
      else if m = 7 then upd_modes (m_autoWrap_update (\<lambda>_. on)) t
      else if m = 25 then upd_modes (m_cursorVisible_update (\<lambda>_. on)) t
      else if m = 9 \<or> m = 1000 \<or> m = 1002 \<or> m = 1003
        then (if on then upd_modes (m_mouse_update (\<lambda>_. m)) t
              else if m_mouse (t_modes t) = m then upd_modes (m_mouse_update (\<lambda>_. 0)) t else t)
      else if m = 1005 \<or> m = 1006 \<or> m = 1015
        then (if on then upd_modes (m_mouseEncoding_update (\<lambda>_. m)) t
              else if m_mouseEncoding (t_modes t) = m
                then upd_modes (m_mouseEncoding_update (\<lambda>_. 0)) t else t)
      else if m = 1004 then upd_modes (m_focusEvents_update (\<lambda>_. on)) t
      else if m = 2004 then upd_modes (m_bracketedPaste_update (\<lambda>_. on)) t
      else if m = 47 \<or> m = 1047 then switchScreen on False t
      else if m = 1048
        then (if on then t\<lparr>t_saved := t_cur t, t_savedSet := True\<rparr>
              else if t_savedSet t then t\<lparr>t_cur := t_saved t\<rparr> else t)
      else if m = 1049 then switchScreen on True t
      else t)"

text \<open>A DECRQM answer: 1 set, 2 reset, 0 not recognised.\<close>

definition modeState :: "bool \<Rightarrow> int \<Rightarrow> terminal \<Rightarrow> int" where
  "modeState private m t =
     (let b = (\<lambda>v. if v then 1 else 2) in
      if \<not> private then (if m = 4 then b (m_insert (t_modes t)) else 0)
      else if m = 1 then b (m_appCursorKeys (t_modes t))
      else if m = 5 then b (m_reverseVideo (t_modes t))
      else if m = 6 then b (c_origin (t_cur t))
      else if m = 7 then b (m_autoWrap (t_modes t))
      else if m = 25 then b (m_cursorVisible (t_modes t))
      else if m = 9 \<or> m = 1000 \<or> m = 1002 \<or> m = 1003 then b (m_mouse (t_modes t) = m)
      else if m = 1005 \<or> m = 1006 \<or> m = 1015 then b (m_mouseEncoding (t_modes t) = m)
      else if m = 1004 then b (m_focusEvents (t_modes t))
      else if m = 2004 then b (m_bracketedPaste (t_modes t))
      else if m = 47 \<or> m = 1047 \<or> m = 1049 then b (t_altActive t)
      else 0)"

subsection \<open>Characters and controls\<close>

definition printRune :: "(int \<Rightarrow> bool) \<Rightarrow> int \<Rightarrow> terminal \<Rightarrow> terminal option" where
  "printRune mark r t = print (encode_rune r) (runeWidth mark r) t"

text \<open>The DEC special graphics set, 0x5f to 0x7e, as code points.\<close>

definition decGraphics :: "int list" where
  "decGraphics =
     [0x20, 0x25c6, 0x2592, 0x2409, 0x240c, 0x240d, 0x240a, 0xb0, 0xb1, 0x2424, 0x240b, 0x2518,
      0x2510, 0x250c, 0x2514, 0x253c, 0x23ba, 0x23bb, 0x2500, 0x23bc, 0x23bd, 0x251c, 0x2524,
      0x2534, 0x252c, 0x2502, 0x2264, 0x2265, 0x3c0, 0x2260, 0xa3, 0xb7]"

definition printASCII :: "byte \<Rightarrow> terminal \<Rightarrow> terminal option" where
  "printASCII c t =
     do {
       g \<leftarrow> idx (p_g (t_p t)) (p_shift (t_p t));
       (if g = 0x30 \<and> 0x5f \<le> c \<and> c \<le> 0x7e
        then do { r \<leftarrow> idx decGraphics (uint c - 0x5f); print (encode_rune r) 1 t }
        else print (encode_rune (uint c)) 1 t)
     }"

definition control :: "byte \<Rightarrow> terminal \<Rightarrow> terminal option" where
  "control c t =
     (if c = 0x08 then Some (set_pending False (if 0 < cx t then set_x (cx t - 1) t else t))
      else if c = 0x09 then do { x \<leftarrow> nextTab t (cx t); Some (set_pending False (set_x x t)) }
      else if c = 0x0a \<or> c = 0x0b \<or> c = 0x0c
        then do { t \<leftarrow> lineFeed t; Some (set_pending False t) }
      else if c = 0x0d then Some (set_pending False (set_x 0 t))
      else if c = 0x0e then Some (t\<lparr>t_p := (t_p t)\<lparr>p_shift := 1\<rparr>\<rparr>)
      else if c = 0x0f then Some (t\<lparr>t_p := (t_p t)\<lparr>p_shift := 0\<rparr>\<rparr>)
      else Some t)"

subsection \<open>Escape sequences\<close>

definition esc_act :: "byte \<Rightarrow> terminal \<Rightarrow> terminal option" where
  "esc_act c t =
     (if c = 0x37 then Some (t\<lparr>t_saved := t_cur t, t_savedSet := True\<rparr>)  \<comment> \<open>7 DECSC\<close>
      else if c = 0x38  \<comment> \<open>8 DECRC\<close>
        then Some (t\<lparr>t_cur := (if t_savedSet t then t_saved t else cursor0)\<rparr>)
      else if c = 0x44 then lineFeed t  \<comment> \<open>D IND\<close>
      else if c = 0x45 then lineFeed (set_x 0 t)  \<comment> \<open>E NEL\<close>
      else if c = 0x4d then reverseIndex t  \<comment> \<open>M RI\<close>
      else if c = 0x48  \<comment> \<open>H HTS\<close>
        then do { tabs \<leftarrow> set_idx (t_tabs t) (cx t) True; Some (t\<lparr>t_tabs := tabs\<rparr>) }
      else if c = 0x63  \<comment> \<open>c RIS\<close>
        then Some ((reset t)\<lparr>t_p := (t_p t)\<lparr>p_g := lit ''BB'', p_shift := 0\<rparr>\<rparr>)
      else if c = 0x3d then Some (upd_modes (m_appKeypad_update (\<lambda>_. True)) t)
      else if c = 0x3e then Some (upd_modes (m_appKeypad_update (\<lambda>_. False)) t)
      else Some t)"

definition escDispatch :: "byte \<Rightarrow> terminal \<Rightarrow> terminal option" where
  "escDispatch c t =
     do {
       t \<leftarrow> esc_act c t;
       Some (set_pending (c_wrapPending (t_cur t) \<and> (c = 0x3d \<or> c = 0x3e \<or> c = 0x48 \<or> c = 0x37)) t)
     }"

definition fillE :: "screen \<Rightarrow> screen" where
  "fillE g = map (map (\<lambda>_. \<lparr>ce_s = lit ''E'', ce_w = 1, ce_a = Attr0\<rparr>)) g"

definition escInterDispatch :: "terminal \<Rightarrow> terminal option" where
  "escInterDispatch t =
     do {
       s \<leftarrow> slice (p_seq (t_p t)) 1 (int (length (p_seq (t_p t))));
       (if length s \<noteq> 2 then Some t
        else if s ! 0 = 0x28
          then do { g \<leftarrow> set_idx (p_g (t_p t)) 0 (s ! 1); Some (t\<lparr>t_p := (t_p t)\<lparr>p_g := g\<rparr>\<rparr>) }
        else if s ! 0 = 0x29
          then do { g \<leftarrow> set_idx (p_g (t_p t)) 1 (s ! 1); Some (t\<lparr>t_p := (t_p t)\<lparr>p_g := g\<rparr>\<rparr>) }
        else if s ! 0 = 0x23 \<and> s ! 1 = 0x38 then Some (set_grid (fillE (grid t)) t)
        else Some t)
     }"

subsection \<open>Control sequences\<close>

definition reply :: "bytes \<Rightarrow> terminal \<Rightarrow> terminal" where
  "reply b t = t\<lparr>t_replies := t_replies t @ b\<rparr>"

text \<open>The sequence's parts: private prefix (0 for none), parameters, intermediates.\<close>

definition csi_prefix :: "bytes \<Rightarrow> byte \<times> bytes" where
  "csi_prefix body =
     (if body \<noteq> [] \<and> 0x3c \<le> hd body \<and> hd body \<le> 0x3f then (hd body, tl body) else (0, body))"

definition intermediate :: "byte \<Rightarrow> bool" where
  "intermediate c \<longleftrightarrow> 0x20 \<le> c \<and> c \<le> 0x2f"

definition csi_inter :: "bytes \<Rightarrow> bytes \<times> bytes" where
  "csi_inter body =
     (rev (takeWhile intermediate (rev body)), rev (dropWhile intermediate (rev body)))"

text \<open>
  The sequences with intermediates: \<open>None\<close> when there are none, else what \<open>csiDispatch\<close>
  returns.
\<close>

definition csi_with_inter ::
    "byte \<Rightarrow> int list \<Rightarrow> bytes \<Rightarrow> byte \<Rightarrow> terminal \<Rightarrow> (terminal \<times> bool) option" where
  "csi_with_inter prefix ps ib final t =
     (if ib = lit ''$'' \<and> final = 0x70  \<comment> \<open>p DECRQM\<close>
      then (let mode = arg ps 0 0; state = modeState (prefix = 0x3f) mode t in
        Some (reply ([0x1b] @ (if prefix = 0x3f then lit ''[?'' else lit ''['') @ itoa mode
                     @ lit '';'' @ itoa state @ lit ''$y'') t, True))
      else if ib = lit ''!'' \<and> final = 0x70  \<comment> \<open>p DECSTR\<close>
      then Some (t\<lparr>t_modes := modes0,
          t_cur := (t_cur t)\<lparr>c_attr := Attr0, c_origin := False\<rparr>,
          t_top := 0, t_bot := t_rows t - 1,
          t_saved := cursor0, t_savedSet := False\<rparr>, False)
      else if ib = lit '' '' \<and> final = 0x71  \<comment> \<open>q DECSCUSR\<close>
      then Some (t\<lparr>t_cursorStyle := arg ps 0 0\<rparr>, False)
      else if ib \<noteq> [] then Some (t, False)
      else None)"

text \<open>The sequences with a private prefix.\<close>

definition csi_private ::
    "byte \<Rightarrow> int list \<Rightarrow> byte \<Rightarrow> terminal \<Rightarrow> (terminal \<times> bool) option" where
  "csi_private prefix ps final t =
     (if prefix = 0x3e
      then (if final = 0x63 then Some (reply ([0x1b] @ lit ''[>1;10;0c'') t, True)
            else if final = 0x71
              then Some (reply ([0x1b] @ lit ''P>|pomar-termstate'' @ [0x1b, 0x5c]) t, True)
            else Some (t, False))
      else if prefix = 0x3d then Some (t, final = 0x63)
      else if prefix = 0x3f
      then (if final = 0x68 \<or> final = 0x6c
            then Some (fold (\<lambda>m t. setPrivate m (final = 0x68) t) ps t, False)
            else if final = 0x6e
            then Some (if arg ps 0 0 = 6
                       then (let (y, x) = reportPosition t in
                             reply ([0x1b] @ lit ''[?'' @ itoa y @ lit '';'' @ itoa x @ lit ''R'') t)
                       else t, True)
            else if final = 0x75 then Some (t, True)
            else Some (t, False))
      else if prefix = 0x3c then Some (t, False)
      else None)"

text \<open>REP: the last printed text again, at most 65536 times.\<close>

definition repeatLast :: "(int \<Rightarrow> bool) \<Rightarrow> int \<Rightarrow> terminal \<Rightarrow> terminal option" where
  "repeatLast mark n t =
     (if t_last t = [] then Some t
      else repeat_opt (nat (clamp n 1 65536))
             (\<lambda>t. do { r \<leftarrow> idx (runes (t_last t)) 0; print (t_last t) (max 1 (runeWidth mark r)) t }) t)"

definition setRegion :: "int list \<Rightarrow> terminal \<Rightarrow> terminal" where
  "setRegion ps t =
     (let top = arg ps 0 1 - 1; bot = arg ps 1 (t_rows t) - 1
      in if top < bot \<and> bot < t_rows t then moveTo 0 0 (t\<lparr>t_top := top, t_bot := bot\<rparr>) else t)"

text \<open>
  The queries of the last switch and SGR, which return from \<open>csiDispatch\<close> at once: \<open>None\<close>
  for every other final byte.
\<close>

definition csi_return :: "int list \<Rightarrow> bytes \<Rightarrow> byte \<Rightarrow> terminal \<Rightarrow> (terminal \<times> bool) option" where
  "csi_return ps body final t =
     (if final = 0x63  \<comment> \<open>c DA1\<close>
      then Some (if arg ps 0 0 = 0 then reply ([0x1b] @ lit ''[?62;22c'') t else t, True)
      else if final = 0x6d then Some (sgr ps body t, False)  \<comment> \<open>m\<close>
      else if final = 0x6e  \<comment> \<open>n DSR\<close>
      then Some (if arg ps 0 0 = 5 then reply ([0x1b] @ lit ''[0n'') t
                 else if arg ps 0 0 = 6
                 then (let (y, x) = reportPosition t in
                       reply ([0x1b] @ lit ''['' @ itoa y @ lit '';'' @ itoa x @ lit ''R'') t)
                 else t, True)
      else if final = 0x74  \<comment> \<open>t window operations\<close>
      then Some (if arg ps 0 0 = 18
                 then reply ([0x1b] @ lit ''[8;'' @ itoa (t_rows t) @ lit '';'' @ itoa (t_cols t) @ lit ''t'') t
                 else t, True)
      else None)"

text \<open>The rest of the last switch.\<close>

definition csi_edit ::
    "(int \<Rightarrow> bool) \<Rightarrow> int list \<Rightarrow> byte \<Rightarrow> terminal \<Rightarrow> terminal option" where
  "csi_edit mark ps final t =
     (let n = arg ps 0 1 in
      if final = 0x40 then insertChars n t  \<comment> \<open>@ ICH\<close>
      else if final = 0x41 then Some (set_y (clamp (cy t - n) (top0 t) (t_rows t - 1)) t)
      else if final = 0x42 \<or> final = 0x65 then Some (set_y (clamp (cy t + n) 0 (bot0 t)) t)
      else if final = 0x43 \<or> final = 0x61 then Some (set_x (clamp (cx t + n) 0 (t_cols t - 1)) t)
      else if final = 0x44 then Some (set_x (clamp (cx t - n) 0 (t_cols t - 1)) t)
      else if final = 0x45 then Some (set_x 0 (set_y (clamp (cy t + n) 0 (bot0 t)) t))
      else if final = 0x46 then Some (set_x 0 (set_y (clamp (cy t - n) (top0 t) (t_rows t - 1)) t))
      else if final = 0x47 \<or> final = 0x60 then Some (set_x (clamp (n - 1) 0 (t_cols t - 1)) t)
      else if final = 0x48 \<or> final = 0x66 then Some (moveTo (arg ps 1 1 - 1) (n - 1) t)
      else if final = 0x49
        then repeat_opt (nat n) (\<lambda>t. do { x \<leftarrow> nextTab t (cx t); Some (set_x x t) }) t
      else if final = 0x5a
        then repeat_opt (nat n) (\<lambda>t. do { x \<leftarrow> prevTab t (cx t); Some (set_x x t) }) t
      else if final = 0x4a then eraseDisplay (arg ps 0 0) t
      else if final = 0x4b then eraseLine (arg ps 0 0) t
      else if final = 0x4c \<or> final = 0x4d then insertDeleteLines (final = 0x4c) n t
      else if final = 0x50 then deleteChars n t  \<comment> \<open>P DCH\<close>
      else if final = 0x53 then scrollUp n t
      else if final = 0x54 then (if length ps \<le> 1 then scrollDown n t else Some t)
      else if final = 0x58 then eraseChars n t  \<comment> \<open>X ECH\<close>
      else if final = 0x62 then repeatLast mark n t  \<comment> \<open>b REP\<close>
      else if final = 0x64 then Some (moveTo (cx t) (n - 1) t)
      else if final = 0x67  \<comment> \<open>g TBC\<close>
        then (if arg ps 0 0 = 0
              then do { tabs \<leftarrow> set_idx (t_tabs t) (cx t) False; Some (t\<lparr>t_tabs := tabs\<rparr>) }
              else if arg ps 0 0 = 3 then Some (t\<lparr>t_tabs := map (\<lambda>_. False) (t_tabs t)\<rparr>)
              else Some t)
      else if final = 0x68 \<or> final = 0x6c  \<comment> \<open>h, l\<close>
        then Some (fold (\<lambda>m t. if m = 4 then upd_modes (m_insert_update (\<lambda>_. final = 0x68)) t else t) ps t)
      else if final = 0x72 then Some (setRegion ps t)  \<comment> \<open>r DECSTBM\<close>
      else if final = 0x73
        then Some (if ps = [] then t\<lparr>t_saved := t_cur t, t_savedSet := True\<rparr> else t)
      else if final = 0x75 then Some (if t_savedSet t then t\<lparr>t_cur := t_saved t\<rparr> else t)
      else Some t)"

text \<open>The finals after which a pending wrap ends: \<open>@ABCDEFGHfIZJKLMPSTX`ader\<close>.\<close>

definition ends_wrap :: "byte \<Rightarrow> bool" where
  "ends_wrap c \<longleftrightarrow> c \<in> {0x40, 0x41, 0x42, 0x43, 0x44, 0x45, 0x46, 0x47, 0x48, 0x66, 0x49, 0x5a,
     0x4a, 0x4b, 0x4c, 0x4d, 0x50, 0x53, 0x54, 0x58, 0x60, 0x61, 0x64, 0x65, 0x72}"

text \<open>What follows the switch: mending the row after an edit, ending a pending wrap.\<close>

definition csi_tail :: "byte \<Rightarrow> terminal \<Rightarrow> terminal option" where
  "csi_tail final t =
     do {
       t \<leftarrow> (if final = 0x40 \<or> final = 0x50 \<or> final = 0x58 \<or> final = 0x4b
             then edit_row (\<lambda>row. Some (mend row)) t else Some t);
       Some (if ends_wrap final then set_pending False t else t)
     }"

definition csi_main ::
    "(int \<Rightarrow> bool) \<Rightarrow> byte \<Rightarrow> bytes \<Rightarrow> bytes \<Rightarrow> byte \<Rightarrow> terminal \<Rightarrow> (terminal \<times> bool) option" where
  "csi_main mark prefix body ib final t =
     (let ps = params body in
      case csi_with_inter prefix ps ib final t of
        Some r \<Rightarrow> Some r
      | None \<Rightarrow>
        (case csi_private prefix ps final t of
           Some r \<Rightarrow> Some r
         | None \<Rightarrow>
           (case csi_return ps body final t of
              Some r \<Rightarrow> Some r
            | None \<Rightarrow>
                do {
                  t \<leftarrow> csi_edit mark ps final t;
                  t \<leftarrow> csi_tail final t;
                  Some (t, False)
                })))"

text \<open>A complete control sequence. The flag says the host answered it: it is not forwarded.\<close>

definition csiDispatch :: "(int \<Rightarrow> bool) \<Rightarrow> terminal \<Rightarrow> (terminal \<times> bool) option" where
  "csiDispatch mark t =
     do {
       let seq = p_seq (t_p t);
       body \<leftarrow> slice seq 2 (int (length seq) - 1);
       final \<leftarrow> idx seq (int (length seq) - 1);
       let (prefix, body) = csi_prefix body;
       let (ib, body) = csi_inter body;
       csi_main mark prefix body ib final t
     }"

subsection \<open>Strings\<close>

definition stripControls :: "bytes \<Rightarrow> bytes" where
  "stripControls s =
     concat (map encode_rune
       (filter (\<lambda>r. \<not> (r = RuneError \<or> r < 0x20 \<or> r = 0x7f \<or> (0x80 \<le> r \<and> r \<le> 0x9f))) (runes s)))"

definition string_body :: "bytes \<Rightarrow> bytes" where
  "string_body body =
     (let n = length body in
      if 0 < n \<and> last body = 0x07 then take (n - 1) body
      else if 2 \<le> n \<and> body ! (n - 2) = 0x1b \<and> last body = 0x5c then take (n - 2) body
      else body)"

definition endString :: "bytes \<Rightarrow> terminal \<Rightarrow> (terminal \<times> bytes) option" where
  "endString fwd t =
     do {
       let seq = p_seq (t_p t);
       kind \<leftarrow> idx seq 1;
       body \<leftarrow> slice seq 2 (int (length seq));
       let body = string_body body;
       let t = t\<lparr>t_p := (t_p t)\<lparr>p_state := Ground\<rparr>\<rparr>;
       (if kind = 0x5d
        then (let (num, rest) = cut 59 body in
          if num = lit ''0'' \<or> num = lit ''2''
          then Some (t\<lparr>t_title := stripControls rest\<rparr>, fwd @ seq)
          else if (num = lit ''10'' \<or> num = lit ''11'' \<or> num = lit ''12'') \<and> rest = lit ''?''
          then Some (reply ([0x1b] @ lit '']'' @ num @ lit '';rgb:''
                  @ (if num = lit ''11'' then lit ''0000/0000/0000'' else lit ''ffff/ffff/ffff'')
                  @ [0x1b, 0x5c]) t, fwd)
          else Some (t, fwd @ seq))
        else if kind = 0x50 \<and> has_prefix body (lit ''$q'')
        then Some (reply ([0x1b] @ lit ''P0$r'' @ [0x1b, 0x5c]) t, fwd)
        else Some (t, fwd @ seq))
     }"

subsection \<open>The byte machine\<close>

abbreviation maxString :: nat where "maxString \<equiv> 65536"
abbreviation maxCSI :: nat where "maxCSI \<equiv> 512"

abbreviation set_state :: "pstate \<Rightarrow> terminal \<Rightarrow> terminal" where
  "set_state s t \<equiv> t\<lparr>t_p := (t_p t)\<lparr>p_state := s\<rparr>\<rparr>"
abbreviation set_seq :: "bytes \<Rightarrow> terminal \<Rightarrow> terminal" where
  "set_seq s t \<equiv> t\<lparr>t_p := (t_p t)\<lparr>p_seq := s\<rparr>\<rparr>"
abbreviation set_utf8 :: "bytes \<Rightarrow> terminal \<Rightarrow> terminal" where
  "set_utf8 s t \<equiv> t\<lparr>t_p := (t_p t)\<lparr>p_utf8 := s\<rparr>\<rparr>"
abbreviation seq :: "terminal \<Rightarrow> bytes" where "seq t \<equiv> p_seq (t_p t)"

text \<open>The ground state when no character is in progress.\<close>

definition step_ground ::
    "(int \<Rightarrow> bool) \<Rightarrow> byte \<Rightarrow> bytes \<Rightarrow> terminal \<Rightarrow> (terminal \<times> bytes) option" where
  "step_ground mark c fwd t =
     (if c = 0x1b then Some (set_seq [c] (set_state Escape t), fwd)
      else if c < 0x20 \<or> c = 0x7f then do { t \<leftarrow> control c t; Some (t, fwd @ [c]) }
      else if c < 0x80 then do { t \<leftarrow> printASCII c t; Some (t, fwd @ [c]) }
      else if 0xC0 \<le> c \<and> c < 0xF8 then Some (set_utf8 [c] t, fwd)
      else do { t \<leftarrow> printRune mark RuneError t; Some (t, fwd @ [c]) })"

definition step_utf8 ::
    "(int \<Rightarrow> bool) \<Rightarrow> byte \<Rightarrow> bytes \<Rightarrow> terminal \<Rightarrow> (terminal \<times> bytes) option" where
  "step_utf8 mark c fwd t =
     (let held = p_utf8 (t_p t) in
      if held \<noteq> []
      then (if 0x80 \<le> c \<and> c < 0xC0
            then (if full_rune (held @ [c])
                  then do {
                    t \<leftarrow> printRune mark (fst (decode_rune (held @ [c]))) t;
                    Some (set_utf8 [] t, fwd @ held @ [c])
                  }
                  else Some (set_utf8 (held @ [c]) t, fwd))
            else do {
              t \<leftarrow> printRune mark RuneError t;
              step_ground mark c (fwd @ held) (set_utf8 [] t)
            })
      else step_ground mark c fwd t)"

text \<open>
  The escape state. The string states re-enter it with the byte that ended them, which is the
  recursive call of \<open>step\<close> in the source.
\<close>

definition step_escape :: "byte \<Rightarrow> bytes \<Rightarrow> terminal \<Rightarrow> (terminal \<times> bytes) option" where
  "step_escape c fwd t =
     (let t = set_seq (seq t @ [c]) t in
      if c = 0x5b then Some (set_state CsiEntry t, fwd)
      else if c = 0x5d then Some (set_state OscString t, fwd)
      else if c = 0x50 \<or> c = 0x58 \<or> c = 0x5e \<or> c = 0x5f then Some (set_state CtlString t, fwd)
      else if 0x20 \<le> c \<and> c \<le> 0x2f then Some (set_state EscInter t, fwd)
      else if c = 0x18 \<or> c = 0x1a then Some (set_state Ground t, fwd @ seq t)
      else if c < 0x20 then do { t \<leftarrow> control c t; Some (t, fwd) }
      else do { t \<leftarrow> escDispatch c t; Some (set_state Ground t, fwd @ seq t) })"

definition step_inter :: "byte \<Rightarrow> bytes \<Rightarrow> terminal \<Rightarrow> (terminal \<times> bytes) option" where
  "step_inter c fwd t =
     (let t = set_seq (seq t @ [c]) t in
      if 0x20 \<le> c \<and> c \<le> 0x2f then Some (t, fwd)
      else do { t \<leftarrow> escInterDispatch t; Some (set_state Ground t, fwd @ seq t) })"

definition step_csi ::
    "(int \<Rightarrow> bool) \<Rightarrow> byte \<Rightarrow> bytes \<Rightarrow> terminal \<Rightarrow> (terminal \<times> bytes) option" where
  "step_csi mark c fwd t =
     (let t = set_seq (seq t @ [c]) t in
      if 0x40 \<le> c \<and> c \<le> 0x7e
      then do {
        (t, answered) \<leftarrow> csiDispatch mark t;
        Some (set_state Ground t, if answered then fwd else fwd @ seq t)
      }
      else if c = 0x18 \<or> c = 0x1a \<or> maxCSI < length (seq t)
      then Some (set_state Ground t, fwd @ seq t)
      else if c < 0x20 then do { t \<leftarrow> control c t; Some (t, fwd) }
      else Some (t, fwd))"

definition step_string :: "byte \<Rightarrow> bytes \<Rightarrow> terminal \<Rightarrow> (terminal \<times> bytes) option" where
  "step_string c fwd t =
     (let osc = (p_state (t_p t) = OscString); t = set_seq (seq t @ [c]) t in
      if c = 0x07 \<and> osc then endString fwd t
      else if c = 0x1b then Some (set_state (if osc then OscEsc else CtlStringEsc) t, fwd)
      else if c = 0x18 \<or> c = 0x1a then Some (set_state Ground t, fwd @ seq t)
      else if maxString < length (seq t) then Some (set_state PassString t, fwd @ seq t)
      else Some (t, fwd))"

definition step_string_esc :: "byte \<Rightarrow> bytes \<Rightarrow> terminal \<Rightarrow> (terminal \<times> bytes) option" where
  "step_string_esc c fwd t =
     (if c = 0x5c
      then endString fwd (set_state (if p_state (t_p t) = OscEsc then OscString else CtlString)
             (set_seq (seq t @ [c]) t))
      else step_escape c fwd (set_state Escape (set_seq [0x1b] t)))"

definition step_pass :: "byte \<Rightarrow> bytes \<Rightarrow> terminal \<Rightarrow> (terminal \<times> bytes) option" where
  "step_pass c fwd t =
     (if c = 0x07 \<or> c = 0x18 \<or> c = 0x1a then Some (set_state Ground t, fwd @ [c])
      else if c = 0x1b then Some (set_state PassStringEsc t, fwd)
      else Some (t, fwd @ [c]))"

definition step_pass_esc :: "byte \<Rightarrow> bytes \<Rightarrow> terminal \<Rightarrow> (terminal \<times> bytes) option" where
  "step_pass_esc c fwd t =
     (if c = 0x5c then Some (set_state Ground t, fwd @ [0x1b, c])
      else step_escape c (fwd @ [0x1b, 0x5c]) (set_state Escape (set_seq [0x1b] t)))"

definition step ::
    "(int \<Rightarrow> bool) \<Rightarrow> byte \<Rightarrow> terminal \<times> bytes \<Rightarrow> (terminal \<times> bytes) option" where
  "step mark c tf =
     (let (t, fwd) = tf in
      case p_state (t_p t) of
        Ground \<Rightarrow> step_utf8 mark c fwd t
      | Escape \<Rightarrow> step_escape c fwd t
      | EscInter \<Rightarrow> step_inter c fwd t
      | CsiEntry \<Rightarrow> step_csi mark c fwd t
      | OscString \<Rightarrow> step_string c fwd t
      | CtlString \<Rightarrow> step_string c fwd t
      | OscEsc \<Rightarrow> step_string_esc c fwd t
      | CtlStringEsc \<Rightarrow> step_string_esc c fwd t
      | PassString \<Rightarrow> step_pass c fwd t
      | PassStringEsc \<Rightarrow> step_pass_esc c fwd t)"

definition Feed :: "(int \<Rightarrow> bool) \<Rightarrow> bytes \<Rightarrow> terminal \<Rightarrow> (terminal \<times> bytes) option" where
  "Feed mark b t = fold_opt (step mark) b (t, [])"

definition Replies :: "terminal \<Rightarrow> bytes \<times> terminal" where
  "Replies t = (t_replies t, t\<lparr>t_replies := []\<rparr>)"

text \<open>How many bytes are held unapplied, and whether that is the whole story.\<close>

definition Held :: "terminal \<Rightarrow> (int \<times> bool) option" where
  "Held t =
     (let p = t_p t in
      case p_state p of
        Ground \<Rightarrow> Some (int (length (p_utf8 p)), True)
      | PassString \<Rightarrow> Some (0, False)
      | PassStringEsc \<Rightarrow> Some (0, False)
      | _ \<Rightarrow>
        if p_state p \<in> {Escape, EscInter, CsiEntry}
        then do {
          q \<leftarrow> slice (p_seq p) 1 (int (length (p_seq p)));
          Some (int (length (p_seq p)), \<not> list_ex (\<lambda>c. c < 0x20) q)
        }
        else Some (int (length (p_seq p)), True))"

end
