(* ===== verification/HistoryRing.thy ===== *)
theory HistoryRing
  imports Terminal
begin

text \<open>
  The scrolled-off lines: \<open>pushHistory\<close> and \<open>History\<close> of \<open>terminal.go\<close>. The code
  keeps a slice that becomes a ring once it is full; what it promises is a bounded log: the
  last \<open>maxHistory\<close> lines pushed, oldest first. The locale states that contract over any
  push and view, and the interpretation discharges it for the ring.
\<close>

subsection \<open>The contract of a bounded log\<close>

definition take_last :: "nat \<Rightarrow> 'a list \<Rightarrow> 'a list" where
  "take_last n xs = drop (length xs - n) xs"

lemma length_take_last [simp]: "length (take_last n xs) = min n (length xs)"
  by (simp add: take_last_def)

lemma take_last_all [simp]: "length xs \<le> n \<Longrightarrow> take_last n xs = xs"
  by (simp add: take_last_def)

lemma take_last_0 [simp]: "take_last 0 xs = []"
  by (simp add: take_last_def)

lemma take_last_take_last: "take_last n (take_last n xs @ ys) = take_last n (xs @ ys)"
  by (cases "length xs \<le> n") (auto simp: take_last_def add.commute)

lemma map_take_last: "map f (take_last n xs) = take_last n (map f xs)"
  by (simp add: take_last_def drop_map)

locale bounded_log =
  fixes push :: "'a \<Rightarrow> 's \<Rightarrow> 's option"
    and view :: "'s \<Rightarrow> 'a list"
    and cap :: "'s \<Rightarrow> nat"
    and inv :: "'s \<Rightarrow> bool"
  assumes push_spec: "inv s \<Longrightarrow>
      runs (push x s) (\<lambda>s'. inv s' \<and> cap s' = cap s \<and> view s' = take_last (cap s) (view s @ [x]))"
    and view_bound: "inv s \<Longrightarrow> length (view s) \<le> cap s"
begin

lemma push_all:
  "inv s \<Longrightarrow> runs (fold_opt push xs s)
     (\<lambda>s'. inv s' \<and> cap s' = cap s \<and> view s' = take_last (cap s) (view s @ xs))"
proof (induction xs arbitrary: s)
  case Nil
  then show ?case by (simp add: view_bound)
next
  case (Cons x xs)
  have "runs (push x s) (\<lambda>s'. runs (fold_opt push xs s')
      (\<lambda>s''. inv s'' \<and> cap s'' = cap s \<and> view s'' = take_last (cap s) (view s @ x # xs)))"
    by (rule runs_mono [OF push_spec [OF Cons.prems]], rule runs_mono [OF Cons.IH])
      (auto simp: take_last_take_last)
  then show ?case by simp
qed

end

subsection \<open>The ring\<close>

text \<open>The lines oldest first: from the start slot to the end, then the slots before it.\<close>

definition ring :: "nat \<Rightarrow> 'a list \<Rightarrow> 'a list" where
  "ring s h = drop s h @ take s h"

lemma length_ring [simp]: "length (ring s h) = length h"
  by (simp add: ring_def)

lemma ring_0 [simp]: "ring 0 h = h"
  by (simp add: ring_def)

lemma ring_push:
  assumes "s < length h"
  shows "ring (Suc s mod length h) (h[s := l]) = tl (ring s h) @ [l]"
proof -
  obtain A x B where h: "h = A @ x # B" "length A = s"
    using id_take_nth_drop [OF assms] assms by (metis length_take min.absorb4)
  then show ?thesis
    by (cases B) (auto simp: ring_def list_update_append)
qed

text \<open>Line identities: consecutive, the newest one just below the next to be given.\<close>

definition ids_ok :: "64 word \<Rightarrow> line list \<Rightarrow> bool" where
  "ids_ok nl xs \<longleftrightarrow> (\<forall>i < length xs. l_id (xs ! i) + of_nat (length xs - i) = nl)"

lemma ids_ok_Nil [simp]: "ids_ok nl []"
  by (simp add: ids_ok_def)

lemma ids_ok_snoc: "ids_ok nl xs \<Longrightarrow> l_id l = nl \<Longrightarrow> ids_ok (nl + 1) (xs @ [l])"
  by (auto simp: ids_ok_def nth_append less_Suc_eq Suc_diff_le add.assoc [symmetric])

lemma ids_ok_tl: "ids_ok nl xs \<Longrightarrow> ids_ok nl (tl xs)"
  by (cases xs) (force simp: ids_ok_def)+

definition hist_ok :: "int \<Rightarrow> int \<Rightarrow> 64 word \<Rightarrow> line list \<Rightarrow> bool" where
  "hist_ok m start nl h \<longleftrightarrow>
     int (length h) \<le> max 0 m \<and>
     (if int (length h) < m then start = 0 else 0 \<le> start \<and> (start < int (length h) \<or> start = 0)) \<and>
     ids_ok nl (ring (nat start) h)"

lemma hist_ok_empty [simp]: "hist_ok m 0 nl []"
  by (simp add: hist_ok_def)

definition hist_inv :: "terminal \<Rightarrow> bool" where
  "hist_inv t \<longleftrightarrow> hist_ok (t_maxHistory t) (t_histStart t) (t_nextLine t) (t_history t)"

definition lines :: "terminal \<Rightarrow> line list" where
  "lines t = ring (nat (t_histStart t)) (t_history t)"

lemma History_lines: "hist_inv t \<Longrightarrow> History t = Some (lines t)"
  by (auto simp: History_def hist_inv_def hist_ok_def lines_def ring_def slice_def split: if_splits)

text \<open>What a push does to the four fields, in both phases.\<close>

lemma pushHistory_lines:
  assumes "hist_inv t"
  shows "runs (pushHistory r t) (\<lambda>t'. hist_inv t' \<and> t_maxHistory t' = t_maxHistory t \<and>
    lines t' = take_last (nat (t_maxHistory t)) (lines t @ [\<lparr>l_id = t_nextLine t, l_cells = r\<rparr>]))"
proof (cases "t_maxHistory t \<le> 0")
  case True
  with assms show ?thesis
    by (auto simp: pushHistory_def lines_def hist_inv_def hist_ok_def)
next
  case False
  let ?h = "t_history t" and ?s = "nat (t_histStart t)"
  let ?l = "\<lparr>l_id = t_nextLine t, l_cells = r\<rparr>"
  note hist = assms [unfolded hist_inv_def hist_ok_def]
  show ?thesis
  proof (cases "int (length ?h) < t_maxHistory t")
    case True
    then show ?thesis
      using hist ids_ok_snoc [of "t_nextLine t" ?h ?l]
      by (auto simp: pushHistory_def Let_def lines_def hist_inv_def hist_ok_def)
  next
    case full: False
    then have n: "t_maxHistory t = int (length ?h)" and s: "?s < length ?h" "t_histStart t = int ?s"
        and b: "0 \<le> t_histStart t" "t_histStart t < int (length ?h)"
      using hist False by auto
    have s': "nat ((t_histStart t + 1) mod t_maxHistory t) = Suc ?s mod length ?h"
    proof -
      have "(t_histStart t + 1) mod t_maxHistory t = int (Suc ?s mod length ?h)"
        unfolding n using s(2) by (metis of_nat_Suc of_nat_mod add.commute)
      then show ?thesis by simp
    qed
    have "ids_ok (t_nextLine t + 1) (tl (ring ?s ?h) @ [?l])"
      using hist by (intro ids_ok_snoc ids_ok_tl) auto
    moreover have "take_last (length ?h) (ring ?s ?h @ [?l]) = tl (ring ?s ?h) @ [?l]"
      using s by (cases "ring ?s ?h") (auto simp: take_last_def dest: arg_cong [of _ _ length])
    ultimately show ?thesis
      using False full n b s' ring_push [OF s(1), of ?l]
      by (simp add: pushHistory_def Let_def lines_def hist_inv_def hist_ok_def)
  qed
qed

interpretation log: bounded_log pushHistory "\<lambda>t. map l_cells (lines t)"
  "\<lambda>t. nat (t_maxHistory t)" hist_inv
proof (unfold_locales, goal_cases)
  case (1 t r)
  then show ?case
    by (rule runs_mono [OF pushHistory_lines]) (auto simp: map_take_last)
next
  case (2 t)
  then have "int (length (t_history t)) \<le> max 0 (t_maxHistory t)"
    by (simp add: hist_inv_def hist_ok_def)
  then show ?case by (simp add: lines_def)
qed

text \<open>
  The history ring is a bounded log: after any rows are pushed, \<open>History\<close> returns the
  last \<open>maxHistory\<close> of the old lines followed by them, oldest first.
\<close>

theorem history_is_last_lines:
  assumes "hist_inv t"
  shows "\<exists>t' h h'. fold_opt pushHistory rs t = Some t' \<and> History t = Some h \<and> History t' = Some h' \<and>
    map l_cells h' = take_last (nat (t_maxHistory t)) (map l_cells h @ rs)"
  using log.push_all [OF assms, of rs] History_lines [OF assms]
  by (auto simp: runs_iff History_lines)

theorem history_is_last_lines_witness:
  "hist_inv (New 1 1 2) \<and>
    (\<exists>t' h h'. fold_opt pushHistory [newRow 1 Attr0, newRow 2 Attr0, newRow 3 Attr0] (New 1 1 2) = Some t' \<and>
      History (New 1 1 2) = Some h \<and> History t' = Some h' \<and>
      map l_cells h' = take_last 2 (map l_cells h @ [newRow 1 Attr0, newRow 2 Attr0, newRow 3 Attr0]))"
proof -
  have inv: "hist_inv (New 1 1 2)"
    by (simp add: hist_inv_def New_def reset_def)
  have m: "nat (t_maxHistory (New 1 1 2)) = 2"
    by (simp add: New_def reset_def)
  show ?thesis
    using history_is_last_lines [OF inv, of "[newRow 1 Attr0, newRow 2 Attr0, newRow 3 Attr0]"] inv
    unfolding m by blast
qed

end
