(* ===== verification/TermInv.thy ===== *)
theory TermInv
  imports Parser HistoryRing
begin

text \<open>
  The terminal's type invariant and its preservation. \<open>wf_screen\<close> says that both buffers have
  the terminal's size, that cursor, saved cursor and scroll region lie on the screen, that
  the history ring's start is one of its slots, and that no cell holds more than the bounded
  text. Every operation, started in such a terminal, returns (it does not panic) and leaves such
  a terminal: the lemmas are stated with \<open>runs\<close>, so non-panicking is part of each of them.
\<close>

named_theorems wf_intros \<open>preservation of the parts of the terminal's invariant\<close>

subsection \<open>The invariant\<close>

definition cell_ok :: "cell \<Rightarrow> bool" where
  "cell_ok c \<longleftrightarrow> ce_w c \<in> {0, 1, 2} \<and> length (ce_s c) \<le> 68"

definition row_ok :: "int \<Rightarrow> row \<Rightarrow> bool" where
  "row_ok cols r \<longleftrightarrow> int (length r) = cols \<and> (\<forall>c \<in> set r. cell_ok c)"

definition grid_ok :: "int \<Rightarrow> int \<Rightarrow> screen \<Rightarrow> bool" where
  "grid_ok cols rows g \<longleftrightarrow> int (length g) = rows \<and> (\<forall>r \<in> set g. row_ok cols r)"

definition cursor_ok :: "int \<Rightarrow> int \<Rightarrow> cursor \<Rightarrow> bool" where
  "cursor_ok cols rows c \<longleftrightarrow> 0 \<le> c_x c \<and> c_x c < cols \<and> 0 \<le> c_y c \<and> c_y c < rows"

definition wf_screen :: "terminal \<Rightarrow> bool" where
  "wf_screen t \<longleftrightarrow>
     1 \<le> t_cols t \<and> 1 \<le> t_rows t \<and>
     grid_ok (t_cols t) (t_rows t) (t_main t) \<and> grid_ok (t_cols t) (t_rows t) (t_alt t) \<and>
     cursor_ok (t_cols t) (t_rows t) (t_cur t) \<and> cursor_ok (t_cols t) (t_rows t) (t_saved t) \<and>
     0 \<le> t_top t \<and> t_top t \<le> t_bot t \<and> t_bot t < t_rows t \<and>
     int (length (t_tabs t)) = t_cols t \<and>
     hist_ok (t_maxHistory t) (t_histStart t) (t_nextLine t) (t_history t) \<and>
     length (t_last t) \<le> 68"

text \<open>What an operation of the screen leaves alone: the parser.\<close>

abbreviation okp :: "terminal \<Rightarrow> terminal option \<Rightarrow> bool" where
  "okp t m \<equiv> runs m (\<lambda>t'. wf_screen t' \<and> t_p t' = t_p t)"

text \<open>The same, and the cursor and size too.\<close>

abbreviation okc :: "terminal \<Rightarrow> terminal option \<Rightarrow> bool" where
  "okc t m \<equiv> runs m (\<lambda>t'. wf_screen t' \<and> t_p t' = t_p t \<and> t_cur t' = t_cur t \<and>
     t_cols t' = t_cols t \<and> t_top t' = t_top t \<and> t_bot t' = t_bot t \<and> t_rows t' = t_rows t)"

lemma okc_okp: "okc t m \<Longrightarrow> okp t m"
  by (auto elim: runs_mono)

subsection \<open>Rows and grids\<close>

lemma cell_ok_blank [simp, intro]: "cell_ok (blank a)"
  by (simp add: cell_ok_def blank_def)

lemma row_ok_update [wf_intros]: "row_ok cols r \<Longrightarrow> cell_ok c \<Longrightarrow> row_ok cols (r[i := c])"
  by (auto simp: row_ok_def dest: set_list_updateD)

lemma row_ok_nth: "row_ok cols r \<Longrightarrow> 0 \<le> i \<Longrightarrow> i < cols \<Longrightarrow> cell_ok (r ! nat i)"
  by (auto simp: row_ok_def)

lemma grid_ok_update [wf_intros]: "grid_ok cols rows g \<Longrightarrow> row_ok cols r \<Longrightarrow> grid_ok cols rows (g[i := r])"
  by (auto simp: grid_ok_def dest: set_list_updateD)

lemma grid_ok_nth: "grid_ok cols rows g \<Longrightarrow> 0 \<le> i \<Longrightarrow> i < rows \<Longrightarrow> row_ok cols (g ! nat i)"
  by (auto simp: grid_ok_def)

lemma row_ok_length: "row_ok cols r \<Longrightarrow> int (length r) = cols"
  by (simp add: row_ok_def)

lemma grid_ok_length: "grid_ok cols rows g \<Longrightarrow> int (length g) = rows"
  by (simp add: grid_ok_def)

lemma row_ok_newRow [simp, wf_intros]: "0 \<le> cols \<Longrightarrow> row_ok cols (newRow cols a)"
  by (auto simp: row_ok_def newRow_def)

lemma grid_ok_newGrid [simp, wf_intros]:
  "0 \<le> cols \<Longrightarrow> 0 \<le> rows \<Longrightarrow> grid_ok cols rows (newGrid cols rows a)"
  by (auto simp: grid_ok_def newGrid_def)

lemma row_ok_subset: "row_ok cols r \<Longrightarrow> length r' = length r \<Longrightarrow> set r' \<subseteq> set r \<Longrightarrow> row_ok cols r'"
  by (auto simp: row_ok_def)

lemma grid_ok_subset: "grid_ok cols rows g \<Longrightarrow> length g' = length g \<Longrightarrow> set g' \<subseteq> set g \<Longrightarrow> grid_ok cols rows g'"
  by (auto simp: grid_ok_def)

lemma row_ok_clearWide [wf_intros]: "row_ok cols r \<Longrightarrow> row_ok cols (clearWide r x)"
  by (auto simp: clearWide_def intro: row_ok_update)

lemma mend_go_length [simp]: "length (mend_go pw r) = length r"
  by (induction pw r rule: mend_go.induct) (simp_all add: Let_def)

lemma mend_go_cells: "\<forall>c \<in> set r. cell_ok c \<Longrightarrow> \<forall>c \<in> set (mend_go pw r). cell_ok c"
  by (induction pw r rule: mend_go.induct) (auto simp: Let_def)

lemma row_ok_mend [wf_intros]: "row_ok cols r \<Longrightarrow> row_ok cols (mend r)"
  using mend_go_cells [of r None] by (simp add: row_ok_def mend_def)

lemma row_ok_fill:
  assumes "row_ok cols r" "cell_ok c" "0 \<le> lo" "lo \<le> hi" "hi \<le> cols"
  shows "runs (fill r lo hi c) (row_ok cols)"
  using assms by (subst runs_fill) (auto simp: row_ok_def dest: in_set_takeD in_set_dropD)

subsection \<open>The active buffer\<close>

lemma set_grid_sel [simp]:
  "t_cols (set_grid g t) = t_cols t" "t_rows (set_grid g t) = t_rows t"
  "t_altActive (set_grid g t) = t_altActive t" "t_cur (set_grid g t) = t_cur t"
  "t_saved (set_grid g t) = t_saved t" "t_savedSet (set_grid g t) = t_savedSet t"
  "t_top (set_grid g t) = t_top t" "t_bot (set_grid g t) = t_bot t"
  "t_modes (set_grid g t) = t_modes t" "t_tabs (set_grid g t) = t_tabs t"
  "t_history (set_grid g t) = t_history t" "t_histStart (set_grid g t) = t_histStart t"
  "t_nextLine (set_grid g t) = t_nextLine t" "t_maxHistory (set_grid g t) = t_maxHistory t"
  "t_title (set_grid g t) = t_title t" "t_cursorStyle (set_grid g t) = t_cursorStyle t"
  "t_last (set_grid g t) = t_last t" "t_p (set_grid g t) = t_p t"
  "t_replies (set_grid g t) = t_replies t" "grid (set_grid g t) = g"
  by (simp_all add: set_grid_def grid_def)

lemma wf_grid: "wf_screen t \<Longrightarrow> grid_ok (t_cols t) (t_rows t) (grid t)"
  by (simp add: wf_screen_def grid_def)

lemma wf_set_grid [wf_intros]:
  "wf_screen t \<Longrightarrow> grid_ok (t_cols t) (t_rows t) g \<Longrightarrow> wf_screen (set_grid g t)"
  by (auto simp: wf_screen_def set_grid_def)

lemma wf_cursor: "wf_screen t \<Longrightarrow> 0 \<le> cx t \<and> cx t < t_cols t \<and> 0 \<le> cy t \<and> cy t < t_rows t"
  by (simp add: wf_screen_def cursor_ok_def)

lemma wf_region: "wf_screen t \<Longrightarrow> 0 \<le> t_top t \<and> t_top t \<le> t_bot t \<and> t_bot t < t_rows t"
  by (simp add: wf_screen_def)

lemma wf_size: "wf_screen t \<Longrightarrow> 1 \<le> t_cols t \<and> 1 \<le> t_rows t"
  by (simp add: wf_screen_def)

lemma wf_cur_row:
  "wf_screen t \<Longrightarrow> row_ok (t_cols t) (grid t ! nat (cy t)) \<and> cy t < int (length (grid t))"
  using wf_grid [of t] wf_cursor [of t] by (auto simp: grid_ok_length intro: grid_ok_nth)

text \<open>Cursor moves: only the position matters.\<close>

lemma wf_set_cur [wf_intros]:
  "wf_screen t \<Longrightarrow> cursor_ok (t_cols t) (t_rows t) c \<Longrightarrow> wf_screen (t\<lparr>t_cur := c\<rparr>)"
  by (simp add: wf_screen_def)

lemma wf_set_x: "wf_screen t \<Longrightarrow> 0 \<le> x \<Longrightarrow> x < t_cols t \<Longrightarrow> wf_screen (set_x x t)"
  by (simp add: wf_screen_def cursor_ok_def)

lemma wf_set_y: "wf_screen t \<Longrightarrow> 0 \<le> y \<Longrightarrow> y < t_rows t \<Longrightarrow> wf_screen (set_y y t)"
  by (simp add: wf_screen_def cursor_ok_def)

lemma wf_set_pending [simp]: "wf_screen (set_pending b t) \<longleftrightarrow> wf_screen t"
  by (simp add: wf_screen_def cursor_ok_def)

lemma wf_set_last [wf_intros]: "wf_screen t \<Longrightarrow> length s \<le> 68 \<Longrightarrow> wf_screen (t\<lparr>t_last := s\<rparr>)"
  by (simp add: wf_screen_def)

lemma wf_frame [simp]:
  "wf_screen (t\<lparr>t_p := p\<rparr>) = wf_screen t" "wf_screen (t\<lparr>t_title := ti\<rparr>) = wf_screen t"
  "wf_screen (t\<lparr>t_replies := re\<rparr>) = wf_screen t" "wf_screen (t\<lparr>t_cursorStyle := cs\<rparr>) = wf_screen t"
  "wf_screen (t\<lparr>t_modes := m\<rparr>) = wf_screen t" "wf_screen (t\<lparr>t_savedSet := b\<rparr>) = wf_screen t"
  by (simp_all add: wf_screen_def)

lemma wf_save_cur [wf_intros]: "wf_screen t \<Longrightarrow> wf_screen (t\<lparr>t_saved := t_cur t, t_savedSet := b\<rparr>)"
  by (simp add: wf_screen_def)

lemma wf_restore_cur [wf_intros]: "wf_screen t \<Longrightarrow> wf_screen (t\<lparr>t_cur := t_saved t\<rparr>)"
  by (simp add: wf_screen_def)

lemma clamp_bounds: "lo \<le> hi \<Longrightarrow> lo \<le> clamp v lo hi \<and> clamp v lo hi \<le> hi"
  by (simp add: clamp_def)

subsection \<open>A row edited in place\<close>

lemma edit_row_ok:
  assumes "wf_screen t"
    and "\<And>r. row_ok (t_cols t) r \<Longrightarrow> runs (f r) (row_ok (t_cols t))"
  shows "okp t (edit_row f t)"
proof -
  from wf_cur_row [OF assms(1)] have "runs (f (grid t ! nat (cy t))) (row_ok (t_cols t))"
    using assms(2) by blast
  then show ?thesis
    using wf_cur_row [OF assms(1)] wf_cursor [OF assms(1)] wf_grid [OF assms(1)] assms(1)
    by (auto simp: edit_row_def elim!: runs_mono intro: wf_intros)
qed

lemma insertChars_ok: "wf_screen t \<Longrightarrow> okp t (insertChars k t)"
  unfolding insertChars_def Let_def
proof (rule edit_row_ok)
  fix r
  assume wf: "wf_screen t" and r: "row_ok (t_cols t) r"
  let ?n = "clamp k 1 (t_cols t - cx t)"
  have n: "1 \<le> ?n" "?n \<le> t_cols t - cx t"
    using clamp_bounds [of 1 "t_cols t - cx t" k] wf_cursor [OF wf] by auto
  show "runs (do { row \<leftarrow> copy_within r (cx t + ?n) (int (length r)) (cx t) (int (length r));
                   fill row (cx t) (cx t + ?n) (blank (c_attr (t_cur t))) }) (row_ok (t_cols t))"
    using n wf_cursor [OF wf] row_ok_length [OF r]
    by (simp only: runs_bind, intro runs_copy_withinI)
      (auto intro!: row_ok_fill row_ok_subset [OF r])
qed

lemma deleteChars_ok: "wf_screen t \<Longrightarrow> okp t (deleteChars k t)"
  unfolding deleteChars_def Let_def
proof (rule edit_row_ok)
  fix r
  assume wf: "wf_screen t" and r: "row_ok (t_cols t) r"
  let ?n = "clamp k 1 (t_cols t - cx t)"
  have n: "1 \<le> ?n" "?n \<le> t_cols t - cx t"
    using clamp_bounds [of 1 "t_cols t - cx t" k] wf_cursor [OF wf] by auto
  show "runs (do { row \<leftarrow> copy_within r (cx t) (int (length r)) (cx t + ?n) (int (length r));
                   fill row (t_cols t - ?n) (t_cols t) (blank (c_attr (t_cur t))) }) (row_ok (t_cols t))"
    using n wf_cursor [OF wf] row_ok_length [OF r]
    by (simp only: runs_bind, intro runs_copy_withinI)
      (auto intro!: row_ok_fill row_ok_subset [OF r])
qed

lemma eraseChars_ok: "wf_screen t \<Longrightarrow> okp t (eraseChars k t)"
  unfolding eraseChars_def Let_def
  by (rule edit_row_ok)
    (use clamp_bounds [of 1 "t_cols t - cx t" k] wf_cursor [of t] in \<open>auto intro!: row_ok_fill\<close>)

subsection \<open>History and scrolling\<close>

lemma wf_hist: "wf_screen t \<Longrightarrow> hist_inv t"
  by (simp add: wf_screen_def hist_inv_def)

text \<open>A push touches the history's four fields only.\<close>

lemma pushHistory_frame:
  "pushHistory r t = Some t' \<Longrightarrow>
     t' = t\<lparr>t_history := t_history t', t_histStart := t_histStart t', t_nextLine := t_nextLine t'\<rparr>"
  by (auto simp: pushHistory_def Let_def bind_eq_Some_conv split: if_splits)

lemma pushHistory_ok: "wf_screen t \<Longrightarrow> runs (pushHistory r t) (\<lambda>t'. wf_screen t' \<and> t_p t' = t_p t \<and>
    grid t' = grid t \<and> t_cur t' = t_cur t \<and> t_top t' = t_top t \<and> t_bot t' = t_bot t \<and>
    t_cols t' = t_cols t \<and> t_rows t' = t_rows t \<and> t_main t' = t_main t \<and> t_alt t' = t_alt t \<and>
    t_altActive t' = t_altActive t \<and> t_tabs t' = t_tabs t \<and> t_saved t' = t_saved t)"
proof -
  assume wf: "wf_screen t"
  obtain t' where t': "pushHistory r t = Some t'" "hist_inv t'"
    using pushHistory_lines [OF wf_hist [OF wf], of r] by (auto simp: runs_iff)
  obtain h s n where "t' = t\<lparr>t_history := h, t_histStart := s, t_nextLine := n\<rparr>"
    using pushHistory_frame [OF t'(1)] by blast
  then show ?thesis
    using t' wf by (auto simp: wf_screen_def hist_inv_def grid_def)
qed

lemma scrollUp1_ok: "wf_screen t \<Longrightarrow> okc t (scrollUp1 h t)"
proof -
  assume wf: "wf_screen t"
  define m where "m = (if h \<and> \<not> t_altActive t \<and> t_top t = 0
             then do { r \<leftarrow> idx (grid t) (t_top t); pushHistory r t } else Some t)"
  have first: "okc t m"
    using wf wf_region [OF wf] grid_ok_length [OF wf_grid [OF wf]]
    by (auto simp: m_def intro!: runs_mono [OF pushHistory_ok [OF wf]])
  have rest: "okc t' (do {
       g \<leftarrow> copy_within (grid t') (t_top t') (t_bot t') (t_top t' + 1) (t_bot t' + 1);
       g \<leftarrow> set_idx g (t_bot t') (newRow (t_cols t') (attr_bg (a_bg (c_attr (t_cur t')))));
       Some (set_grid g t') })" if "wf_screen t'" for t'
    using that wf_region [OF that(1)] grid_ok_length [OF wf_grid [OF that(1)]] wf_size [OF that(1)]
    by (simp only: runs_bind, intro runs_copy_withinI)
      (auto intro!: wf_set_grid grid_ok_update row_ok_newRow
        intro: grid_ok_subset [OF wf_grid [OF that(1)]])
  show ?thesis
    unfolding scrollUp1_def m_def [symmetric]
    by (rule runs_bindI [OF first], rule runs_mono [OF rest]) auto
qed

lemma scrollDown1_ok: "wf_screen t \<Longrightarrow> okc t (scrollDown1 t)"
  unfolding scrollDown1_def
  using wf_region [of t] grid_ok_length [OF wf_grid [of t]] wf_size [of t]
  by (simp only: runs_bind, intro runs_copy_withinI)
    (auto intro!: wf_set_grid grid_ok_update row_ok_newRow intro: grid_ok_subset [OF wf_grid [of t]])

lemma scrollUp_ok: "wf_screen t \<Longrightarrow> okc t (scrollUp n t)"
  unfolding scrollUp_def
  by (rule runs_repeat_opt) (auto intro: runs_mono [OF scrollUp1_ok])

lemma scrollUpNoHistory_ok: "wf_screen t \<Longrightarrow> okc t (scrollUpNoHistory n t)"
  unfolding scrollUpNoHistory_def
  by (rule runs_repeat_opt) (auto intro: runs_mono [OF scrollUp1_ok])

lemma scrollDown_ok: "wf_screen t \<Longrightarrow> okc t (scrollDown n t)"
  unfolding scrollDown_def
  by (rule runs_repeat_opt) (auto intro: runs_mono [OF scrollDown1_ok])

lemma lineFeed_okx:
  "wf_screen t \<Longrightarrow> runs (lineFeed t) (\<lambda>t'. wf_screen t' \<and> t_p t' = t_p t \<and> cx t' = cx t \<and>
     t_cols t' = t_cols t)"
  using scrollUp_ok [of t 1] wf_cursor [of t]
  by (auto simp: lineFeed_def intro: wf_set_y elim!: runs_mono)

lemma lineFeed_ok: "wf_screen t \<Longrightarrow> okp t (lineFeed t)"
  by (rule runs_mono [OF lineFeed_okx]) auto

lemma reverseIndex_ok: "wf_screen t \<Longrightarrow> okp t (reverseIndex t)"
  using scrollDown_ok [of t 1] wf_cursor [of t]
  by (auto simp: reverseIndex_def intro: wf_set_y elim!: runs_mono)

subsection \<open>Printing\<close>

lemma decode_rune_le: "snd (decode_rune s) \<le> 4"
  by (auto simp: decode_rune_def split: list.splits)

text \<open>Joining a mark keeps a cell's text within its bound, whatever is joined.\<close>

lemma combiningRoom_bound:
  "int (length m) \<le> snd (combiningRoom s) \<Longrightarrow> length (s @ m) \<le> 68"
  using decode_rune_le [of s] by (simp add: combiningRoom_def)

lemma wf_put:
  "wf_screen t \<Longrightarrow> row_ok (t_cols t) r \<Longrightarrow> length s \<le> 68 \<Longrightarrow> cursor_ok (t_cols t) (t_rows t) c \<Longrightarrow>
     wf_screen ((set_grid ((grid t)[i := r]) t)\<lparr>t_last := s, t_cur := c\<rparr>)"
  by (intro wf_set_cur wf_set_last wf_set_grid grid_ok_update wf_grid) simp_all

lemma join_mark_bound: "length old \<le> 68 \<Longrightarrow> length (join_mark s old) \<le> 68"
  using combiningRoom_bound [of s] by (auto simp: join_mark_def Let_def)

lemma print_mark_ok: "wf_screen t \<Longrightarrow> okp t (print_mark s t)"
proof -
  assume wf: "wf_screen t"
  let ?x0 = "if c_wrapPending (t_cur t) then cx t else cx t - 1"
  note cur = wf_cur_row [OF wf] wf_cursor [OF wf]
  have len: "int (length (grid t ! nat (cy t))) = t_cols t"
    using cur by (simp add: row_ok_length)
  have put: "okp t (do {
           row \<leftarrow> idx (grid t) (cy t);
           c \<leftarrow> idx row x;
           row \<leftarrow> set_idx row x (c\<lparr>ce_s := join_mark s (ce_s c)\<rparr>);
           g \<leftarrow> set_idx (grid t) (cy t) row;
           Some ((set_grid g t)\<lparr>t_last := join_mark s (ce_s c)\<rparr>) })"
    if x: "0 \<le> x" "x < t_cols t" for x
  proof -
    let ?c = "grid t ! nat (cy t) ! nat x"
    have c: "cell_ok ?c" using cur x by (auto intro: row_ok_nth)
    then have j: "length (join_mark s (ce_s ?c)) \<le> 68"
      by (simp add: cell_ok_def join_mark_bound)
    with c have "cell_ok (?c\<lparr>ce_s := join_mark s (ce_s ?c)\<rparr>)"
      by (simp add: cell_ok_def)
    then have "wf_screen ((set_grid ((grid t)[nat (cy t) := (grid t ! nat (cy t))
        [nat x := ?c\<lparr>ce_s := join_mark s (ce_s ?c)\<rparr>]]) t)\<lparr>t_last := join_mark s (ce_s ?c)\<rparr>)"
      using wf cur j by (intro wf_set_last wf_set_grid grid_ok_update row_ok_update wf_grid) auto
    then show ?thesis
      using cur len x by simp
  qed
  show ?thesis
  proof (cases "0 \<le> ?x0")
    case True
    have x0: "?x0 < t_cols t" using cur by auto
    have "runs (do { row \<leftarrow> idx (grid t) (cy t); c \<leftarrow> idx row ?x0;
                Some (if ce_w c = 0 \<and> 0 < ?x0 then ?x0 - 1 else ?x0) }) (\<lambda>x. 0 \<le> x \<and> x < t_cols t)"
      using True x0 cur len by simp
    then show ?thesis
      unfolding print_mark_def Let_def [of "cy t"] Let_def [of ?x0] if_P [OF True]
      by (rule runs_bindI) (use put in \<open>simp del: runs_bind\<close>)
  next
    case False
    with wf show ?thesis by (auto simp: print_mark_def Let_def)
  qed
qed

lemma put_row_ok:
  assumes "row_ok cols r" "0 \<le> x" "w \<in> {1, 2}" "x + w \<le> cols" "length s \<le> 68"
  shows "runs (put_row i x s w a r) (row_ok cols)"
proof -
  have first: "runs (if i then copy_within r (x + w) (int (length r)) x (int (length r)) else Some r)
      (row_ok cols)"
    using assms by (auto simp: row_ok_length intro!: runs_copy_withinI intro: row_ok_subset)
  have cells: "cell_ok \<lparr>ce_s = s, ce_w = w, ce_a = a\<rparr>" "cell_ok \<lparr>ce_s = [], ce_w = 0, ce_a = a\<rparr>"
    using assms by (auto simp: cell_ok_def)
  show ?thesis
    unfolding put_row_def
  proof (rule runs_bindI [OF first])
    fix q
    assume q: "row_ok cols q"
    define q2 where "q2 = (if w = 2 then clearWide (clearWide q x) (x + 1) else clearWide q x)"
    have q2: "row_ok cols q2" using q by (simp add: q2_def row_ok_clearWide)
    have len: "int (length q2) = cols" using q2 by (rule row_ok_length)
    show "runs (let row = clearWide q x; row = if w = 2 then clearWide row (x + 1) else row in do {
        row \<leftarrow> set_idx row x \<lparr>ce_s = s, ce_w = w, ce_a = a\<rparr>;
        row \<leftarrow> (if w = 2 then set_idx row (x + 1) \<lparr>ce_s = [], ce_w = 0, ce_a = a\<rparr> else Some row);
        Some (if i then mend row else row) }) (row_ok cols)"
      unfolding Let_def q2_def [symmetric] using assms(2-4) len cells q2
      by (auto intro: row_ok_mend row_ok_update)
  qed
qed

lemma print_put_ok:
  assumes wf: "wf_screen t" and w: "w \<in> {1, 2}" "cx t + w \<le> t_cols t" and s: "length s \<le> 68"
  shows "okp t (print_put s w t)"
proof -
  note cur = wf_cur_row [OF wf] wf_cursor [OF wf]
  have "runs (put_row (m_insert (t_modes t)) (cx t) s w (c_attr (t_cur t)) (grid t ! nat (cy t)))
      (row_ok (t_cols t))"
    using cur w s by (intro put_row_ok) auto
  then show ?thesis
    unfolding print_put_def using cur w s wf
    by (auto simp: Let_def cursor_ok_def elim!: runs_mono intro!: wf_put)
qed

lemma print_wrap_ok: "wf_screen t \<Longrightarrow> runs (print_wrap t) (\<lambda>t'. wf_screen t' \<and> t_p t' = t_p t \<and> t_cols t' = t_cols t)"
  using lineFeed_okx [of "set_x 0 t"] wf_cursor [of t] wf_set_x [of t 0]
  by (auto simp: print_wrap_def elim!: runs_mono)

lemma print_wide_wrap_ok:
  "wf_screen t \<Longrightarrow> runs (print_wide_wrap t) (\<lambda>t'. wf_screen t' \<and> t_p t' = t_p t \<and> cx t' = 0 \<and> t_cols t' = t_cols t)"
proof -
  assume wf: "wf_screen t"
  note cur = wf_cur_row [OF wf] wf_cursor [OF wf]
  let ?g = "(grid t)[nat (cy t) := (grid t ! nat (cy t))[nat (cx t) := blank (c_attr (t_cur t))]]"
  have "wf_screen (set_grid ?g t)"
    using wf cur wf_grid [OF wf] by (auto intro!: wf_set_grid grid_ok_update row_ok_update)
  then have "wf_screen (set_x 0 (set_grid ?g t))"
    using cur by (intro wf_set_x) auto
  from lineFeed_okx [OF this] show ?thesis
    using cur by (auto simp: print_wide_wrap_def row_ok_length elim!: runs_mono)
qed

lemma print_ok:
  assumes wf: "wf_screen t" and w: "w \<in> {0, 1, 2}" and s: "length s \<le> 68"
  shows "okp t (print s w t)"
proof (cases "w = 0 \<or> w = 2 \<and> t_cols t < 2")
  case True
  then show ?thesis using wf print_mark_ok by (auto simp: print_def)
next
  case False
  have put: "okp t (print_put s w t')"
    if "wf_screen t'" "t_p t' = t_p t" "w = 2 \<longrightarrow> cx t' < t_cols t' - 1" for t'
    using print_put_ok [OF that(1), of w s] that False w s wf_cursor [OF that(1)] by force
  have wide: "okp t (do { t \<leftarrow> print_wide_wrap t'; print_put s w t })"
    if "wf_screen t'" "t_p t' = t_p t" "t_cols t' = t_cols t" for t'
    by (rule runs_bindI [OF print_wide_wrap_ok [OF that(1)]]) (use that False in \<open>auto intro!: put\<close>)
  have body: "okp t (if w = 2 \<and> cx t' = t_cols t' - 1
      then (if m_autoWrap (t_modes t') then do { t \<leftarrow> print_wide_wrap t'; print_put s w t } else Some t')
      else print_put s w t')" if "wf_screen t' \<and> t_p t' = t_p t \<and> t_cols t' = t_cols t" for t'
    using that wide [of t'] put [of t'] wf_cursor [of t'] by (auto simp del: runs_bind)
  have "print s w t = do { t \<leftarrow> print_wrap t;
      (if w = 2 \<and> cx t = t_cols t - 1
       then (if m_autoWrap (t_modes t) then do { t \<leftarrow> print_wide_wrap t; print_put s w t } else Some t)
       else print_put s w t) }"
    using False by (auto simp: print_def)
  then show ?thesis
    by (simp only:) (rule runs_bindI [OF print_wrap_ok [OF wf] body])
qed

subsection \<open>Erasing\<close>

lemma eraseLine_ok: "wf_screen t \<Longrightarrow> okc t (eraseLine mode t)"
proof -
  assume wf: "wf_screen t"
  note cur = wf_cur_row [OF wf] wf_cursor [OF wf]
  obtain lo hi where ft: "(if mode = 1 then (0, cx t + 1) else if mode = 2 then (0, t_cols t)
      else (cx t, t_cols t)) = (lo, hi)" by fastforce
  then have b: "0 \<le> lo" "lo \<le> hi" "hi \<le> t_cols t"
    using cur by (auto split: if_splits)
  define row where "row = clearWide (clearWide (grid t ! nat (cy t)) lo) (hi - 1)"
  have "row_ok (t_cols t) row"
    using cur by (simp add: row_def row_ok_clearWide)
  then have "runs (fill row lo (min hi (t_cols t)) (blank (c_attr (t_cur t)))) (row_ok (t_cols t))"
    using b by (intro row_ok_fill) auto
  then show ?thesis
    using cur wf wf_grid [OF wf]
    by (auto simp: eraseLine_def ft Let_def row_def [symmetric] elim!: runs_mono
        intro!: wf_set_grid grid_ok_update)
qed

lemma eraseRows_ok:
  assumes wf: "wf_screen t" and "0 \<le> lo" "hi \<le> t_rows t" "cell_ok b"
  shows "okc t (eraseRows lo hi b t)"
proof -
  let ?f = "\<lambda>y g. do { r \<leftarrow> idx g y; set_idx g y (replicate (length r) b) }"
  have "runs (fold_opt ?f [lo..hi - 1] (grid t)) (grid_ok (t_cols t) (t_rows t))"
  proof (rule runs_fold_opt)
    fix y g
    assume y: "y \<in> set [lo..hi - 1]" and g: "grid_ok (t_cols t) (t_rows t) g"
    then have "row_ok (t_cols t) (g ! nat y)" using assms by (auto intro: grid_ok_nth)
    then have "row_ok (t_cols t) (replicate (length (g ! nat y)) b)"
      using assms by (auto simp: row_ok_def)
    with y g assms show "runs (?f y g) (grid_ok (t_cols t) (t_rows t))"
      by (auto simp: grid_ok_length intro: grid_ok_update)
  qed (rule wf_grid [OF wf])
  then show ?thesis
    using wf by (auto simp: eraseRows_def elim!: runs_mono intro: wf_set_grid)
qed

lemma eraseDisplay_ok: "wf_screen t \<Longrightarrow> okp t (eraseDisplay mode t)"
proof -
  assume wf: "wf_screen t"
  let ?b = "blank (c_attr (t_cur t))"
  have clear: "okp t (do { t \<leftarrow> eraseLine m t; eraseRows (lo t) (hi t) ?b t })"
    if "\<And>t'. wf_screen t' \<Longrightarrow> 0 \<le> lo t' \<and> hi t' \<le> t_rows t'" for m and lo hi :: "terminal \<Rightarrow> int"
    by (rule runs_bindI [OF eraseLine_ok [OF wf]])
      (auto intro!: runs_mono [OF eraseRows_ok] dest: that)
  have "okp t (eraseRows 0 (int (length (grid t))) ?b t)"
    using wf grid_ok_length [OF wf_grid [OF wf]] by (intro okc_okp eraseRows_ok) auto
  moreover have "wf_screen (t\<lparr>t_history := [], t_histStart := 0\<rparr>)"
    using wf by (auto simp: wf_screen_def)
  moreover have "okp t (do { t \<leftarrow> eraseLine 0 t; eraseRows (cy t + 1) (t_rows t) ?b t })"
    by (rule clear) (use wf_cursor in force)
  moreover have "okp t (do { t \<leftarrow> eraseLine 1 t; eraseRows 0 (cy t) ?b t })"
    by (rule clear) (use wf_cursor in force)
  ultimately show ?thesis
    using wf by (simp add: eraseDisplay_def Let_def del: runs_bind)
qed

lemma insertDeleteLines_ok: "wf_screen t \<Longrightarrow> okp t (insertDeleteLines ins n t)"
proof (cases "t_top t \<le> cy t \<and> cy t \<le> t_bot t")
  case True
  assume wf: "wf_screen t"
  let ?t = "t\<lparr>t_top := cy t\<rparr>"
  have "wf_screen ?t" using wf True wf_cursor [OF wf] by (auto simp: wf_screen_def)
  then have "okc ?t (if ins then scrollDown n ?t else scrollUpNoHistory n ?t)"
    using scrollDown_ok [of ?t n] scrollUpNoHistory_ok [of ?t n] by (cases ins) simp_all
  moreover have "wf_screen (t'\<lparr>t_top := t_top t, t_cur := (t_cur t)\<lparr>c_x := 0\<rparr>\<rparr>)"
    if "wf_screen t'" "t_top t' = cy t" "t_cur t' = t_cur t" for t'
    using that True wf wf_size [OF that(1)] by (auto simp: wf_screen_def cursor_ok_def)
  ultimately show ?thesis
    using True by (auto simp: insertDeleteLines_def Let_def elim!: runs_mono)
qed (auto simp: insertDeleteLines_def)

subsection \<open>Reset, screens and size\<close>

lemma wf_reset: "1 \<le> t_cols t \<Longrightarrow> 1 \<le> t_rows t \<Longrightarrow>
    hist_ok (t_maxHistory t) (t_histStart t) (t_nextLine t) (t_history t) \<Longrightarrow> wf_screen (reset t)"
  by (simp add: wf_screen_def reset_def cursor_ok_def cursor0_def reset_tabs_def)

lemma wf_New [simp]: "wf_screen (New cols rows maxHistory)"
  unfolding New_def by (rule wf_reset) auto

lemma wf_switchScreen: "wf_screen t \<Longrightarrow> wf_screen (switchScreen alt save t)"
  by (auto simp: switchScreen_def Let_def wf_screen_def)

lemma wf_moveTo: "wf_screen t \<Longrightarrow> wf_screen (moveTo x y t)"
  by (auto simp: moveTo_def Let_def wf_screen_def cursor_ok_def clamp_def)

lemma wf_setPrivate: "wf_screen t \<Longrightarrow> wf_screen (setPrivate m on t)"
  by (auto simp: setPrivate_def upd_modes_def intro!: wf_moveTo wf_switchScreen wf_save_cur
      wf_restore_cur wf_set_cur) (auto simp: wf_screen_def cursor_ok_def)

lemma switchScreen_p [simp]: "t_p (switchScreen alt save t) = t_p t"
  by (simp add: switchScreen_def Let_def)

lemma moveTo_p [simp]: "t_p (moveTo x y t) = t_p t"
  by (simp add: moveTo_def Let_def)

lemma setPrivate_p [simp]: "t_p (setPrivate m on t) = t_p t"
  by (simp add: setPrivate_def upd_modes_def)

lemma wf_fold:
  assumes "wf_screen t" and "\<And>m t. wf_screen t \<Longrightarrow> wf_screen (f m t)" and "\<And>m t. t_p (f m t) = t_p t"
  shows "wf_screen (fold f ms t) \<and> t_p (fold f ms t) = t_p t"
  using assms by (induction ms arbitrary: t) simp_all

subsection \<open>Resizing\<close>

text \<open>What \<open>fit\<close> leaves of the terminal while it takes rows off a buffer.\<close>

definition fit_frame :: "terminal \<Rightarrow> terminal \<Rightarrow> bool" where
  "fit_frame t t' \<longleftrightarrow> wf_screen t' \<and> t_p t' = t_p t \<and> t_main t' = t_main t \<and> t_alt t' = t_alt t \<and>
     t_cols t' = t_cols t"

lemma fit_frame_refl: "wf_screen t \<Longrightarrow> fit_frame t t"
  by (simp add: fit_frame_def)

lemma fit_frame_trans: "fit_frame t t' \<Longrightarrow> fit_frame t' t'' \<Longrightarrow> fit_frame t t''"
  by (simp add: fit_frame_def)

lemma fit_push: "wf_screen t \<Longrightarrow> 0 < cy t \<Longrightarrow>
    runs (pushHistory r t) (\<lambda>t'. fit_frame t (if t_altActive t' then t' else set_y (cy t' - 1) t'))"
  by (rule runs_mono [OF pushHistory_ok])
    (use wf_cursor [of t] in \<open>auto simp: fit_frame_def cursor_ok_def intro!: wf_set_cur\<close>)

lemma fit_shrink_ok:
  "wf_screen t \<Longrightarrow> runs (fit_shrink rows h g t)
     (\<lambda>(g', t'). fit_frame t t' \<and> set g' \<subseteq> set g \<and> (g' = [] \<or> int (length g') \<le> rows))"
proof (induction rows h g t rule: fit_shrink.induct)
  case (1 rows h g t)
  show ?case
  proof (cases "g = [] \<or> int (length g) \<le> rows")
    case True
    then show ?thesis
      using "1.prems" by (auto simp: fit_shrink.simps [of rows h g t] fit_frame_refl)
  next
    case False
    show ?thesis
    proof (cases "h \<and> 0 < cy t")
      case True
      obtain t1 where t1: "pushHistory (hd g) t = Some t1"
          "fit_frame t (if t_altActive t1 then t1 else set_y (cy t1 - 1) t1)"
        using fit_push [OF "1.prems", of "hd g"] True by (auto simp: runs_iff)
      let ?t = "if t_altActive t1 then t1 else set_y (cy t1 - 1) t1"
      have "wf_screen ?t" using t1(2) by (simp add: fit_frame_def)
      from "1.IH" (1) [OF False True t1(1) this]
      have "runs (fit_shrink rows h (tl g) ?t)
          (\<lambda>(g', t'). fit_frame t t' \<and> set g' \<subseteq> set g \<and> (g' = [] \<or> int (length g') \<le> rows))"
        by (rule runs_mono)
          (use t1(2) False in \<open>auto intro: fit_frame_trans dest: list.set_sel(2)\<close>)
      then show ?thesis
        using False True t1(1) by (subst fit_shrink.simps) simp
    next
      case stop: False
      show ?thesis
        using "1.IH" (2) [OF False stop "1.prems"] False stop
        by (subst fit_shrink.simps) (auto dest: in_set_butlastD elim!: runs_mono)
    qed
  qed
qed

text \<open>Without history, the terminal is not touched at all.\<close>

lemma fit_shrink_alt:
  "\<not> h \<Longrightarrow> runs (fit_shrink rows h g t)
     (\<lambda>(g', t'). t' = t \<and> set g' \<subseteq> set g \<and> (g' = [] \<or> int (length g') \<le> rows))"
proof (induction rows h g t rule: fit_shrink.induct)
  case (1 rows h g t)
  show ?case
  proof (cases "g = [] \<or> int (length g) \<le> rows")
    case False
    with "1.prems" "1.IH" (2) show ?thesis
      by (subst fit_shrink.simps) (auto dest: in_set_butlastD elim!: runs_mono)
  qed (simp add: fit_shrink.simps [of rows h g t])
qed

lemma fit_row_ok: "1 \<le> cols \<Longrightarrow> \<forall>c \<in> set r. cell_ok c \<Longrightarrow> row_ok cols (fit_row cols r)"
  by (auto simp: fit_row_def row_ok_def Let_def dest!: set_list_updateD dest: in_set_takeD)

lemma fit_ok:
  assumes "wf_screen t" "1 \<le> cols" "1 \<le> rows" "\<forall>r \<in> set g. \<forall>c \<in> set r. cell_ok c"
  shows "runs (fit cols rows h g t) (\<lambda>(g', t'). grid_ok cols rows g' \<and> fit_frame t t')"
proof -
  have "\<forall>c \<in> set (newRow cols Attr0). cell_ok c"
    by (auto simp: newRow_def)
  then show ?thesis
    unfolding fit_def using assms(2-4)
    by (intro runs_bindI [OF fit_shrink_ok [OF assms(1)]])
      (auto simp: Let_def grid_ok_def intro!: fit_row_ok)
qed

lemma fit_alt_ok:
  assumes "1 \<le> cols" "1 \<le> rows" "\<forall>r \<in> set g. \<forall>c \<in> set r. cell_ok c"
  shows "runs (fit cols rows False g t) (\<lambda>(g', t'). grid_ok cols rows g' \<and> t' = t)"
proof -
  have "\<forall>c \<in> set (newRow cols Attr0). cell_ok c"
    by (auto simp: newRow_def)
  then show ?thesis
    unfolding fit_def using assms
    by (intro runs_bindI [OF fit_shrink_alt [OF notI]])
      (auto simp: Let_def grid_ok_def intro!: fit_row_ok)
qed

lemma grid_ok_cells: "grid_ok cols rows g \<Longrightarrow> \<forall>r \<in> set g. \<forall>c \<in> set r. cell_ok c"
  by (simp add: grid_ok_def row_ok_def)

lemma wf_resized:
  assumes "wf_screen t" "1 \<le> cols" "1 \<le> rows" "grid_ok cols rows m" "grid_ok cols rows a"
  shows "wf_screen (t\<lparr>t_main := m, t_alt := a, t_cols := cols, t_rows := rows, t_top := 0,
     t_bot := rows - 1, t_tabs := resize_tabs cols (t_tabs t),
     t_cur := (clamp_cursor cols rows (t_cur t))\<lparr>c_wrapPending := False\<rparr>,
     t_saved := clamp_cursor cols rows (t_saved t)\<rparr>)"
  using assms by (simp add: wf_screen_def cursor_ok_def clamp_cursor_def clamp_def resize_tabs_def)

lemma Resize_ok: "wf_screen t \<Longrightarrow> okp t (Resize cols rows t)"
proof (cases "cols < 1 \<or> rows < 1 \<or> (cols = t_cols t \<and> rows = t_rows t)")
  case False
  assume wf: "wf_screen t"
  have cells: "\<forall>r \<in> set (t_main t). \<forall>c \<in> set r. cell_ok c" "\<forall>r \<in> set (t_alt t). \<forall>c \<in> set r. cell_ok c"
    using wf grid_ok_cells by (auto simp: wf_screen_def)
  obtain m t1 where main: "fit cols rows True (t_main t) t = Some (m, t1)"
      "grid_ok cols rows m" "fit_frame t t1"
    using fit_ok [OF wf _ _ cells(1), of cols rows True] False by (auto simp: runs_iff)
  obtain a where alt: "fit cols rows False (t_alt t1) (t1\<lparr>t_main := m\<rparr>) = Some (a, t1\<lparr>t_main := m\<rparr>)"
      "grid_ok cols rows a"
    using fit_alt_ok [of cols rows "t_alt t1" "t1\<lparr>t_main := m\<rparr>"] cells(2) main(3) False
    by (auto simp: runs_iff fit_frame_def)
  show ?thesis
    using wf_resized [of t1 cols rows m a] main alt False
    by (auto simp: Resize_def fit_frame_def)
qed (simp add: Resize_def)

end
