(* ===== verification/TermFeed.thy ===== *)
theory TermFeed
  imports TermInv
begin

text \<open>
  The parser's part of the invariant, and the theorem that \<open>Feed\<close> returns on any bytes: the
  byte machine keeps the screen well formed, indexes no slice out of range, and holds a
  sequence only in the shape its dispatch expects.
\<close>

subsection \<open>The parser's invariant\<close>

definition charset_ok :: "parser \<Rightarrow> bool" where
  "charset_ok p \<longleftrightarrow> length (p_g p) = 2 \<and> p_shift p \<in> {0, 1}"

definition wf_parser :: "parser \<Rightarrow> bool" where
  "wf_parser p \<longleftrightarrow>
     charset_ok p \<and> length (p_utf8 p) \<le> 3 \<and> (p_state p \<noteq> Ground \<longrightarrow> p_utf8 p = []) \<and>
     (case p_state p of
        Escape \<Rightarrow> 1 \<le> length (p_seq p)
      | EscInter \<Rightarrow> 2 \<le> length (p_seq p)
      | CsiEntry \<Rightarrow> 2 \<le> length (p_seq p)
      | OscString \<Rightarrow> 2 \<le> length (p_seq p)
      | OscEsc \<Rightarrow> 3 \<le> length (p_seq p)
      | CtlString \<Rightarrow> 2 \<le> length (p_seq p)
      | CtlStringEsc \<Rightarrow> 3 \<le> length (p_seq p)
      | _ \<Rightarrow> True)"

definition wf_term :: "terminal \<Rightarrow> bool" where
  "wf_term t \<longleftrightarrow> wf_screen t \<and> wf_parser (t_p t)"

lemma charset_ok_frame [simp]:
  "charset_ok (p\<lparr>p_state := s\<rparr>) = charset_ok p" "charset_ok (p\<lparr>p_seq := q\<rparr>) = charset_ok p"
  "charset_ok (p\<lparr>p_utf8 := u\<rparr>) = charset_ok p"
  by (simp_all add: charset_ok_def)

text \<open>An action in the middle of a sequence may change the character sets and nothing else.\<close>

definition parser_kept :: "parser \<Rightarrow> parser \<Rightarrow> bool" where
  "parser_kept p p' \<longleftrightarrow> p_state p' = p_state p \<and> p_seq p' = p_seq p \<and> p_utf8 p' = p_utf8 p \<and>
     (charset_ok p \<longrightarrow> charset_ok p')"

abbreviation okk :: "terminal \<Rightarrow> terminal option \<Rightarrow> bool" where
  "okk t m \<equiv> runs m (\<lambda>t'. wf_screen t' \<and> parser_kept (t_p t) (t_p t'))"

lemma okp_okk: "okp t m \<Longrightarrow> okk t m"
  by (auto simp: parser_kept_def elim!: runs_mono)

lemma wf_term_New [simp]: "wf_term (New cols rows h)"
  by (simp add: wf_term_def) (simp add: New_def reset_def wf_parser_def charset_ok_def lit_def)

subsection \<open>Movement and controls\<close>

lemma nextTab_from_ok:
  "int (length tabs) = cols \<Longrightarrow> 0 \<le> i \<Longrightarrow> 1 \<le> cols \<Longrightarrow>
     runs (nextTab_from tabs cols i) (\<lambda>x. 0 \<le> x \<and> x < cols)"
  by (induction tabs cols i rule: nextTab_from.induct) (subst nextTab_from.simps, auto simp: idx_def)

lemma prevTab_from_ok:
  "i < int (length tabs) \<Longrightarrow> 1 \<le> length tabs \<Longrightarrow>
     runs (prevTab_from tabs i) (\<lambda>x. 0 \<le> x \<and> x < int (length tabs))"
  by (induction tabs i rule: prevTab_from.induct) (subst prevTab_from.simps, auto simp: idx_def)

lemma nextTab_ok: "wf_screen t \<Longrightarrow> runs (nextTab t (cx t)) (\<lambda>x. 0 \<le> x \<and> x < t_cols t)"
  unfolding nextTab_def by (rule nextTab_from_ok) (auto simp: wf_screen_def cursor_ok_def)

lemma prevTab_ok: "wf_screen t \<Longrightarrow> runs (prevTab t (cx t)) (\<lambda>x. 0 \<le> x \<and> x < t_cols t)"
  unfolding prevTab_def
  by (rule runs_mono [OF prevTab_from_ok]) (auto simp: wf_screen_def cursor_ok_def)

lemma control_ok: "wf_screen t \<Longrightarrow> okk t (control c t)"
  using nextTab_ok [of t] lineFeed_ok [of t] wf_cursor [of t] wf_size [of t]
  by (auto simp: control_def parser_kept_def charset_ok_def intro!: wf_set_cur
      elim!: runs_mono) (auto simp: cursor_ok_def)

lemma printASCII_ok: "wf_term t \<Longrightarrow> okp t (printASCII c t)"
proof -
  assume wf: "wf_term t"
  have r: "okp t (print (encode_rune r) 1 t)" for r
    using wf print_ok [of t 1 "encode_rune r"] length_encode_rune [of r]
    by (simp add: wf_term_def)
  have d: "uint c - 95 < 32" if "c \<le> 0x7e"
    using that by (simp add: word_le_def)
  show ?thesis
    using wf r d
    by (auto simp: printASCII_def wf_term_def wf_parser_def charset_ok_def decGraphics_def
        word_le_def)
qed

lemma printRune_ok: "wf_screen t \<Longrightarrow> okp t (printRune mark r t)"
  unfolding printRune_def
  using print_ok [of t "runeWidth mark r" "encode_rune r"] length_encode_rune [of r]
    runeWidth_range [of mark r] by simp

lemma esc_act_ok: "wf_screen t \<Longrightarrow> okk t (esc_act c t)"
proof -
  assume wf: "wf_screen t"
  have "wf_screen (reset t)" using wf by (intro wf_reset) (auto simp: wf_screen_def)
  moreover have "wf_screen (t\<lparr>t_cur := cursor0\<rparr>)" "wf_screen (set_x 0 t)"
    using wf wf_size [OF wf] wf_cursor [OF wf]
    by (auto intro!: wf_set_cur simp: cursor_ok_def cursor0_def)
  moreover have "wf_screen (t\<lparr>t_tabs := (t_tabs t)[nat (cx t) := True]\<rparr>)" "cx t < int (length (t_tabs t))"
    using wf wf_cursor [OF wf] by (auto simp: wf_screen_def)
  ultimately show ?thesis
    using wf lineFeed_ok [of t] lineFeed_ok [of "set_x 0 t"] reverseIndex_ok [of t] wf_cursor [OF wf]
      wf_restore_cur [OF wf] wf_save_cur [OF wf]
    by (auto simp: esc_act_def upd_modes_def parser_kept_def charset_ok_def lit_def elim!: runs_mono)
qed

lemma escDispatch_ok: "wf_screen t \<Longrightarrow> okk t (escDispatch c t)"
  using esc_act_ok [of t c] by (auto simp: escDispatch_def elim!: runs_mono)

lemma grid_ok_fillE: "grid_ok cols rows g \<Longrightarrow> grid_ok cols rows (fillE g)"
  by (auto simp: grid_ok_def row_ok_def fillE_def cell_ok_def lit_def)

lemma escInterDispatch_ok:
  assumes "wf_screen t" "charset_ok (t_p t)" "1 \<le> length (p_seq (t_p t))"
  shows "okk t (escInterDispatch t)"
  using assms wf_set_grid [OF assms(1) grid_ok_fillE [OF wf_grid [OF assms(1)]]]
  by (auto simp: escInterDispatch_def parser_kept_def charset_ok_def)

subsection \<open>Control sequences\<close>

lemma csi_with_inter_ok:
  "wf_screen t \<Longrightarrow> csi_with_inter prefix ps ib final t = Some (t', b) \<Longrightarrow> wf_screen t' \<and> t_p t' = t_p t"
  by (auto simp: csi_with_inter_def reply_def Let_def wf_screen_def cursor_ok_def cursor0_def
      split: if_splits)

lemma csi_private_ok:
  "wf_screen t \<Longrightarrow> csi_private prefix ps final t = Some (t', b) \<Longrightarrow> wf_screen t' \<and> t_p t' = t_p t"
  using wf_fold [of t "\<lambda>m t. setPrivate m (final = 0x68) t" ps] wf_setPrivate
  by (auto simp: csi_private_def reply_def split: if_splits prod.splits)

lemma csi_return_ok:
  "wf_screen t \<Longrightarrow> csi_return ps body final t = Some (t', b) \<Longrightarrow> wf_screen t' \<and> t_p t' = t_p t"
  by (auto simp: csi_return_def reply_def sgr_def wf_screen_def cursor_ok_def
      split: if_splits prod.splits)

text \<open>REP's text stays the last printed one while it is repeated.\<close>

lemma pushHistory_last: "pushHistory r t = Some t' \<Longrightarrow> t_last t' = t_last t"
  by (auto simp: pushHistory_def Let_def bind_eq_Some_conv split: if_splits)

lemma scrollUp1_last: "scrollUp1 h t = Some t' \<Longrightarrow> t_last t' = t_last t"
  unfolding scrollUp1_def
  by (auto simp: bind_eq_Some_conv set_grid_def split: if_splits dest: pushHistory_last)

lemma lineFeed_last: "lineFeed t = Some t' \<Longrightarrow> t_last t' = t_last t"
  using repeat_opt_frame [of "scrollUp1 True" t_last] scrollUp1_last
  by (fastforce simp: lineFeed_def scrollUp_def split: if_splits)

lemma print_wrap_last: "print_wrap t = Some t' \<Longrightarrow> t_last t' = t_last t"
  using lineFeed_last [of "set_x 0 t"] by (auto simp: print_wrap_def bind_eq_Some_conv split: if_splits)

lemma print_put_last: "print_put s w t = Some t' \<Longrightarrow> t_last t' = s"
  by (auto simp: print_put_def Let_def bind_eq_Some_conv)

lemma print_last: "w \<noteq> 0 \<Longrightarrow> print s w t = Some t' \<Longrightarrow> t_last t' = s \<or> t_last t' = t_last t"
  unfolding print_def
  by (simp add: bind_eq_Some_conv split: if_split_asm)
    (blast dest: print_wrap_last print_put_last)+

lemma wf_last_bound: "wf_screen t \<Longrightarrow> length (t_last t) \<le> 68"
  by (simp add: wf_screen_def)

lemma max_width: "max 1 (runeWidth mark r) \<in> {0, 1, 2}"
  using runeWidth_range [of mark r] by auto

lemma repeatLast_ok: "wf_screen t \<Longrightarrow> okp t (repeatLast mark n t)"
proof (cases "t_last t = []")
  case False
  assume wf: "wf_screen t"
  let ?I = "\<lambda>t'. wf_screen t' \<and> t_p t' = t_p t \<and> t_last t' \<noteq> []"
  have step: "runs (do { r \<leftarrow> idx (runes (t_last t')) 0; print (t_last t') (max 1 (runeWidth mark r)) t' }) ?I"
    if I: "?I t'" for t'
  proof -
    let ?w = "max 1 (runeWidth mark (runes (t_last t') ! 0))"
    have w: "?w \<in> {0, 1, 2}"
      by (rule max_width)
    have "okp t' (print (t_last t') ?w t')"
      by (rule print_ok [OF _ w]) (use I wf_last_bound in blast)+
    then obtain x where x: "print (t_last t') ?w t' = Some x" "wf_screen x" "t_p x = t_p t'"
      unfolding runs_iff by blast
    have "?w \<noteq> 0" by linarith
    from print_last [OF this x(1)] have "t_last x = t_last t'" by blast
    then show ?thesis using I x by simp
  qed
  have "runs (repeat_opt k (\<lambda>t. do { r \<leftarrow> idx (runes (t_last t)) 0;
      print (t_last t) (max 1 (runeWidth mark r)) t }) t) ?I" for k
    by (rule runs_repeat_opt) (use wf False step in auto)
  from runs_mono [OF this [of "nat (clamp n 1 65536)"]] show ?thesis
    using False by (simp add: repeatLast_def)
qed (simp add: repeatLast_def)

lemma wf_region_set:
  "wf_screen t \<Longrightarrow> 0 \<le> lo \<Longrightarrow> lo < hi \<Longrightarrow> hi < t_rows t \<Longrightarrow> wf_screen (t\<lparr>t_top := lo, t_bot := hi\<rparr>)"
  by (simp add: wf_screen_def)

lemma arg_pos: "1 \<le> d \<Longrightarrow> 1 \<le> arg ps i d"
  by (simp add: arg_def)

lemma set_region_ok: "wf_screen t \<Longrightarrow> wf_screen (setRegion ps t) \<and> t_p (setRegion ps t) = t_p t"
  using arg_pos [of 1 ps 0] by (auto simp: setRegion_def Let_def intro!: wf_moveTo wf_region_set)

lemma tab_step_ok:
  assumes "wf_screen t"
  shows "okp t (do { x \<leftarrow> nextTab t (cx t); Some (set_x x t) })"
    and "okp t (do { x \<leftarrow> prevTab t (cx t); Some (set_x x t) })"
  using nextTab_ok [OF assms] prevTab_ok [OF assms] wf_set_x [OF assms]
  by (auto elim!: runs_mono)

lemma okp_repeat:
  fixes f :: "terminal \<Rightarrow> terminal option"
  assumes "wf_screen t" and "\<And>t. wf_screen t \<Longrightarrow> okp t (f t)"
  shows "okp t (repeat_opt n f t)"
  by (rule runs_repeat_opt) (use assms in \<open>auto elim!: runs_mono dest: assms(2)\<close>)

lemma tabs_ok:
  assumes "wf_screen t"
  shows "okp t (repeat_opt n (\<lambda>t. do { x \<leftarrow> nextTab t (cx t); Some (set_x x t) }) t)"
    and "okp t (repeat_opt n (\<lambda>t. do { x \<leftarrow> prevTab t (cx t); Some (set_x x t) }) t)"
  by (rule okp_repeat [OF assms tab_step_ok(1)], assumption)
    (rule okp_repeat [OF assms tab_step_ok(2)], assumption)

lemma wf_column: "wf_screen t \<Longrightarrow> wf_screen (set_x (clamp v 0 (t_cols t - 1)) t)"
  using wf_size [of t] clamp_bounds [of 0 "t_cols t - 1" v] by (intro wf_set_x) auto

lemma wf_up: "wf_screen t \<Longrightarrow> wf_screen (set_y (clamp v (top0 t) (t_rows t - 1)) t)"
  using wf_region [of t] wf_cursor [of t] clamp_bounds [of "top0 t" "t_rows t - 1" v]
  by (intro wf_set_y) (auto simp: top0_def)

lemma wf_down: "wf_screen t \<Longrightarrow> wf_screen (set_y (clamp v 0 (bot0 t)) t)"
  using wf_region [of t] wf_cursor [of t] clamp_bounds [of 0 "bot0 t" v]
  by (intro wf_set_y) (auto simp: bot0_def)

lemma wf_line_start: "wf_screen (set_y y t) \<Longrightarrow> wf_screen (set_x 0 (set_y y t))"
  using wf_size [of "set_y y t"] by (intro wf_set_x) auto

lemma clear_tab_ok: "wf_screen t \<Longrightarrow>
    okp t (do { tabs \<leftarrow> set_idx (t_tabs t) (cx t) False; Some (t\<lparr>t_tabs := tabs\<rparr>) })"
  using wf_cursor [of t] by (auto simp: wf_screen_def)

lemma insert_modes_ok: "wf_screen t \<Longrightarrow>
    okp t (Some (fold (\<lambda>m t. if m = 4 then upd_modes (m_insert_update (\<lambda>_. b)) t else t) ps t))"
  using wf_fold [of t "\<lambda>m t. if m = 4 then upd_modes (m_insert_update (\<lambda>_. b)) t else t" ps]
  by (simp add: upd_modes_def)

lemma csi_edit_ok: 
  assumes wf: "wf_screen t"
  shows "okp t (csi_edit mark ps final t)"
proof -
  have tabs: "wf_screen (t\<lparr>t_tabs := map (\<lambda>_. False) (t_tabs t)\<rparr>)"
    using wf by (simp add: wf_screen_def)
  note ops = insertChars_ok [OF wf] deleteChars_ok [OF wf] eraseChars_ok [OF wf]
      eraseDisplay_ok [OF wf] okc_okp [OF eraseLine_ok [OF wf]] insertDeleteLines_ok [OF wf]
      okc_okp [OF scrollUp_ok [OF wf]] okc_okp [OF scrollDown_ok [OF wf]] repeatLast_ok [OF wf]
      tabs_ok [OF wf] clear_tab_ok [OF wf]
      insert_modes_ok [OF wf]
  have some: "wf_screen t' \<Longrightarrow> t_p t' = t_p t \<Longrightarrow> okp t (Some t')" for t'
    by simp
  show ?thesis
    unfolding csi_edit_def Let_def
    by (intro runs_ifI; (rule ops | rule some))
      (use wf_line_start [OF wf_up [OF wf]] wf_line_start [OF wf_down [OF wf]] wf_save_cur [OF wf] in
        \<open>simp_all add: wf tabs wf_column wf_up wf_down wf_moveTo set_region_ok wf_restore_cur\<close>)
qed

lemma csi_tail_ok: "wf_screen t \<Longrightarrow> okp t (csi_tail final t)"
  using edit_row_ok [of t "\<lambda>row. Some (mend row)"] row_ok_mend
  by (auto simp: csi_tail_def elim!: runs_mono)

text \<open>The dispatch's result: a well-formed screen, the parser untouched, and a flag.\<close>

abbreviation okf :: "terminal \<Rightarrow> (terminal \<times> bool) option \<Rightarrow> bool" where
  "okf t m \<equiv> runs m (\<lambda>(t', answered). wf_screen t' \<and> t_p t' = t_p t)"

lemma csi_main_ok: "wf_screen t \<Longrightarrow> okf t (csi_main mark prefix body ib final t)"
proof -
  assume wf: "wf_screen t"
  have "okp t (do { t \<leftarrow> csi_edit mark (params body) final t; csi_tail final t })"
    by (rule runs_bindI [OF csi_edit_ok [OF wf]]) (auto intro: runs_mono [OF csi_tail_ok])
  then have "okf t (do { t \<leftarrow> csi_edit mark (params body) final t; t \<leftarrow> csi_tail final t; Some (t, False) })"
    by simp
  then show ?thesis
    using csi_with_inter_ok [OF wf] csi_private_ok [OF wf] csi_return_ok [OF wf]
    by (auto simp: csi_main_def Let_def simp del: runs_bind split: option.split)
qed

lemma csiDispatch_ok:
  "wf_screen t \<Longrightarrow> 3 \<le> length (seq t) \<Longrightarrow> okf t (csiDispatch mark t)"
  using csi_main_ok [of t] by (cases "seq t") (simp_all add: csiDispatch_def Let_def split_beta)

lemma endString_ok:
  "wf_screen t \<Longrightarrow> 2 \<le> length (seq t) \<Longrightarrow>
     runs (endString fwd t) (\<lambda>(t', fwd'). wf_screen t' \<and> t_p t' = (t_p t)\<lparr>p_state := Ground\<rparr>)"
  by (auto simp: endString_def Let_def reply_def split_beta)

subsection \<open>The byte machine\<close>

abbreviation ok_step :: "(terminal \<times> bytes) option \<Rightarrow> bool" where
  "ok_step m \<equiv> runs m (\<lambda>(t', fwd'). wf_term t')"

lemma wf_termI: "wf_screen t \<Longrightarrow> wf_parser (t_p t) \<Longrightarrow> wf_term t"
  by (simp add: wf_term_def)

lemma wf_term_screen: "wf_term t \<Longrightarrow> wf_screen t"
  by (simp add: wf_term_def)

lemma wf_parser_kept: "wf_parser p \<Longrightarrow> parser_kept p p' \<Longrightarrow> wf_parser p'"
  by (auto simp: wf_parser_def parser_kept_def split: pstate.splits)

lemma ground_ok: "charset_ok p \<Longrightarrow> p_utf8 p = [] \<Longrightarrow> wf_parser (p\<lparr>p_state := Ground\<rparr>)"
  by (simp add: wf_parser_def charset_ok_def)

lemma step_ground_ok:
  assumes wf: "wf_term t" and st: "p_state (t_p t) = Ground" "p_utf8 (t_p t) = []"
  shows "ok_step (step_ground mark c fwd t)"
proof -
  have esc: "wf_term (set_seq [0x1b] (set_state Escape t))" "wf_term (set_utf8 [c] t)"
    using wf st by (auto simp: wf_term_def wf_parser_def charset_ok_def)
  have "runs (control c t) wf_term"
    by (rule runs_mono [OF control_ok [OF wf_term_screen [OF wf]]])
      (use wf in \<open>auto simp: wf_term_def intro: wf_parser_kept\<close>)
  moreover have "runs (printASCII c t) wf_term" "runs (printRune mark r t) wf_term" for r
    using printASCII_ok [OF wf, of c] printRune_ok [OF wf_term_screen [OF wf], of mark r] wf
    by (auto simp: wf_term_def elim!: runs_mono)
  ultimately show ?thesis
    using esc by (simp add: step_ground_def)
qed

lemma full_rune_4: "4 \<le> length s \<Longrightarrow> full_rune s"
  by (auto simp: full_rune_def rune_size_def split: list.splits if_splits)

lemma step_utf8_ok:
  assumes wf: "wf_term t" and st: "p_state (t_p t) = Ground"
  shows "ok_step (step_utf8 mark c fwd t)"
proof -
  have p: "okp t (printRune mark r t)" for r
    using printRune_ok wf_term_screen [OF wf] by blast
  have clear: "wf_term (set_utf8 [] t')" if "wf_screen t' \<and> t_p t' = t_p t" for t'
    using that wf by (auto simp: wf_term_def wf_parser_def charset_ok_def split: pstate.splits)
  have hold: "wf_term (set_utf8 (p_utf8 (t_p t) @ [c]) t)" if "\<not> full_rune (p_utf8 (t_p t) @ [c])"
    using that full_rune_4 [of "p_utf8 (t_p t) @ [c]"] wf st
    by (force simp: wf_term_def wf_parser_def charset_ok_def)
  have "ok_step (do { t \<leftarrow> printRune mark r t; Some (set_utf8 [] t, f) })" for r f
    by (rule runs_bindI [OF p]) (use clear in simp)
  moreover have "ok_step (do { t \<leftarrow> printRune mark r t; step_ground mark c f (set_utf8 [] t) })" for r f
    by (rule runs_bindI [OF p], rule step_ground_ok) (use clear st in auto)
  ultimately show ?thesis
    using hold step_ground_ok [OF wf st] by (simp add: step_utf8_def Let_def del: runs_bind)
qed

lemma step_escape_ok:
  assumes wf: "wf_term t" and st: "p_state (t_p t) = Escape"
  shows "ok_step (step_escape c fwd t)"
proof -
  let ?t = "set_seq (seq t @ [c]) t"
  have t: "wf_term ?t"
    using wf st by (simp add: wf_term_def wf_parser_def charset_ok_def)
  have next_state: "wf_term (set_state s ?t)" if "s \<in> {CsiEntry, OscString, CtlString, EscInter, Ground}" for s
    using that wf st by (auto simp: wf_term_def wf_parser_def charset_ok_def split: pstate.splits)
  have fin: "wf_term (set_state Ground t')" if "wf_screen t' \<and> parser_kept (t_p ?t) (t_p t')" for t'
    using that t st by (auto simp: wf_term_def parser_kept_def wf_parser_def intro!: ground_ok)
  have "runs (control c ?t) wf_term"
    by (rule runs_mono [OF control_ok [OF wf_term_screen [OF t]]])
      (use t in \<open>auto simp: wf_term_def intro: wf_parser_kept\<close>)
  moreover have "runs (escDispatch c ?t) (\<lambda>t'. wf_term (set_state Ground t'))"
    by (rule runs_mono [OF escDispatch_ok [OF wf_term_screen [OF t]] fin])
  ultimately show ?thesis
    using next_state by (auto simp: step_escape_def Let_def)
qed

lemma step_inter_ok:
  assumes wf: "wf_term t" and st: "p_state (t_p t) = EscInter"
  shows "ok_step (step_inter c fwd t)"
proof -
  let ?t = "set_seq (seq t @ [c]) t"
  have t: "wf_term ?t"
    using wf st by (simp add: wf_term_def wf_parser_def charset_ok_def)
  have "okk ?t (escInterDispatch ?t)"
    by (rule escInterDispatch_ok) (use t in \<open>auto simp: wf_term_def wf_parser_def\<close>)
  then have "runs (escInterDispatch ?t) (\<lambda>t'. wf_term (set_state Ground t'))"
    by (rule runs_mono) (use t st in \<open>auto simp: wf_term_def parser_kept_def wf_parser_def intro!: ground_ok\<close>)
  then show ?thesis using t by (simp add: step_inter_def Let_def)
qed

lemma step_csi_ok:
  assumes wf: "wf_term t" and st: "p_state (t_p t) = CsiEntry"
  shows "ok_step (step_csi mark c fwd t)"
proof -
  let ?t = "set_seq (seq t @ [c]) t"
  have t: "wf_term ?t" and len: "3 \<le> length (seq ?t)"
    using wf st by (auto simp: wf_term_def wf_parser_def charset_ok_def)
  have ground: "wf_term (set_state Ground t')" if "wf_screen t' \<and> t_p t' = t_p ?t" for t'
    using that t st by (auto simp: wf_term_def wf_parser_def intro!: ground_ok)
  have "runs (control c ?t) wf_term"
    by (rule runs_mono [OF control_ok [OF wf_term_screen [OF t]]])
      (use t in \<open>auto simp: wf_term_def intro: wf_parser_kept\<close>)
  moreover have "runs (csiDispatch mark ?t) (\<lambda>r. wf_term (set_state Ground (fst r)))"
    by (rule runs_mono [OF csiDispatch_ok [OF wf_term_screen [OF t] len]]) (use ground in auto)
  moreover have "wf_term (set_state Ground ?t)"
    using ground [of ?t] t by (simp add: wf_term_def)
  ultimately show ?thesis
    using t by (auto simp: step_csi_def Let_def case_prod_unfold elim!: runs_mono)
qed

lemma endString_wf:
  "wf_term t \<Longrightarrow> 2 \<le> length (seq t) \<Longrightarrow> p_utf8 (t_p t) = [] \<Longrightarrow> ok_step (endString fwd t)"
  by (rule runs_mono [OF endString_ok]) (auto simp: wf_term_def wf_parser_def intro!: ground_ok)

lemma step_string_ok:
  assumes wf: "wf_term t" and st: "p_state (t_p t) \<in> {OscString, CtlString}"
  shows "ok_step (step_string c fwd t)"
proof -
  let ?t = "set_seq (seq t @ [c]) t"
  have t: "wf_term ?t" "2 \<le> length (seq ?t)" "p_utf8 (t_p t) = []"
    using wf st by (auto simp: wf_term_def wf_parser_def charset_ok_def)
  have "wf_term (set_state s ?t)" if "s \<in> {OscEsc, CtlStringEsc, Ground, PassString}" for s
    using that wf st by (auto simp: wf_term_def wf_parser_def charset_ok_def)
  then show ?thesis
    using t endString_wf [of ?t fwd] by (auto simp: step_string_def Let_def)
qed

lemma escape_start: "wf_term t \<Longrightarrow> p_utf8 (t_p t) = [] \<Longrightarrow> wf_term (set_state Escape (set_seq [0x1b] t))"
  by (simp add: wf_term_def wf_parser_def charset_ok_def)

lemma step_string_esc_ok:
  assumes wf: "wf_term t" and st: "p_state (t_p t) \<in> {OscEsc, CtlStringEsc}"
  shows "ok_step (step_string_esc c fwd t)"
proof -
  let ?t = "set_state (if p_state (t_p t) = OscEsc then OscString else CtlString) (set_seq (seq t @ [c]) t)"
  have t: "wf_term ?t" "2 \<le> length (seq ?t)" "p_utf8 (t_p t) = []"
    using wf st by (auto simp: wf_term_def wf_parser_def charset_ok_def)
  then show ?thesis
    using endString_wf [of ?t fwd] step_escape_ok [OF escape_start [OF wf]]
    by (auto simp: step_string_esc_def)
qed

lemma step_pass_ok:
  assumes wf: "wf_term t" and st: "p_state (t_p t) \<in> {PassString, PassStringEsc}"
  shows "ok_step (step_pass c fwd t)" "ok_step (step_pass_esc c fwd t)"
proof -
  have t: "p_utf8 (t_p t) = []" "wf_term (set_state PassStringEsc t)" "wf_term (set_state Ground t)"
    using wf st by (auto simp: wf_term_def wf_parser_def charset_ok_def)
  then show "ok_step (step_pass c fwd t)" "ok_step (step_pass_esc c fwd t)"
    using wf step_escape_ok [OF escape_start [OF wf]]
    by (simp_all add: step_pass_def step_pass_esc_def)
qed

lemma step_ok: "wf_term t \<Longrightarrow> ok_step (step mark c (t, fwd))"
  using step_utf8_ok [of t] step_escape_ok [of t] step_inter_ok [of t] step_csi_ok [of t]
    step_string_ok [of t] step_string_esc_ok [of t] step_pass_ok [of t]
  by (simp add: step_def split: pstate.split)

lemma Feed_ok: "wf_term t \<Longrightarrow> ok_step (Feed mark b t)"
  unfolding Feed_def by (rule runs_fold_opt) (use step_ok in auto)

end
