(* ===== verification/Snapshot.thy ===== *)
theory Snapshot
  imports Parser
begin

text \<open>
  \<open>internal/termstate/snapshot.go\<close>: the terminal's state written as ANSI, for a client that
  joins later. The pieces follow the order in which \<open>Snapshot\<close> writes them.
\<close>

subsection \<open>Drawing\<close>

definition cup :: "int \<Rightarrow> int \<Rightarrow> bytes" where
  "cup y x = [0x1b] @ lit ''['' @ itoa (y + 1) @ lit '';'' @ itoa (x + 1) @ lit ''H''"

definition charset :: "byte \<Rightarrow> byte" where
  "charset c = (if c = 0 then 0x42 else c)"

definition defaultTabs :: "bool list \<Rightarrow> bool" where
  "defaultTabs tabs \<longleftrightarrow> (\<forall>x < length tabs. tabs ! x = (0 < x \<and> x mod 8 = 0))"

lemma defaultTabs_code [code]:
  "defaultTabs tabs \<longleftrightarrow> list_all (\<lambda>x. tabs ! x = (0 < x \<and> x mod 8 = 0)) [0..<length tabs]"
  by (auto simp: defaultTabs_def list_all_iff)

text \<open>A cell's text, a space where it has none.\<close>

definition shown :: "cell \<Rightarrow> bytes" where
  "shown c = (if ce_s c = [] then lit '' '' else ce_s c)"

definition trailing :: "cell \<Rightarrow> bool" where
  "trailing c \<longleftrightarrow> ce_s c = [] \<and> ce_w c = 1 \<and> ce_a c = Attr0"

fun draw_cells :: "attr \<Rightarrow> row \<Rightarrow> bytes" where
  "draw_cells cur [] = []"
| "draw_cells cur (c # cs) =
     (if ce_w c = 0 then draw_cells cur cs
      else (if ce_a c \<noteq> cur then sgrString (ce_a c) else []) @ shown c @ draw_cells (ce_a c) cs)"

definition draw_row :: "int \<Rightarrow> row \<Rightarrow> bytes" where
  "draw_row y row =
     (let r = rev (dropWhile trailing (rev row)) in
      if r = [] then []
      else cup y 0 @ [0x1b] @ lit ''[0m'' @ draw_cells Attr0 r @ [0x1b] @ lit ''[0m'')"

fun draw_rows :: "int \<Rightarrow> screen \<Rightarrow> bytes" where
  "draw_rows y [] = []"
| "draw_rows y (r # rs) = draw_row y r @ draw_rows (y + 1) rs"

definition drawGrid :: "screen \<Rightarrow> bytes" where
  "drawGrid g = draw_rows 0 g"

definition drawsAny :: "terminal \<Rightarrow> bool" where
  "drawsAny t =
     list_ex (list_ex (list_ex (\<lambda>c. ce_s c \<noteq> [] \<or> ce_a c \<noteq> Attr0)))
       (t_main t # (if t_altActive t then [t_alt t] else []))"

subsection \<open>Finding the character REP repeats\<close>

fun find_pos :: "screen \<Rightarrow> bytes \<Rightarrow> (int \<times> int) list \<Rightarrow> (int \<times> int) option option" where
  "find_pos g s [] = Some None"
| "find_pos g s ((y, x) # ps) =
     do {
       row \<leftarrow> idx g y;
       c \<leftarrow> idx row x;
       (if ce_s c = s \<and> ce_w c \<noteq> 0 then Some (Some (y, x)) else find_pos g s ps)
     }"

text \<open>From the cell before the cursor up to the screen's top, then from its bottom up.\<close>

definition find_order :: "terminal \<Rightarrow> (int \<times> int) list" where
  "find_order t =
     concat (map (\<lambda>y. map (Pair y) (rev [0..(if y = cy t then cx t - 1 else t_cols t - 1)]))
       (rev [0..cy t]))
     @ concat (map (\<lambda>y. map (Pair y) (rev [0..t_cols t - 1])) (rev [cy t + 1..t_rows t - 1]))"

definition findCell :: "bytes \<Rightarrow> terminal \<Rightarrow> (int \<times> int) option option" where
  "findCell s t = find_pos (grid t) s (find_order t)"

subsection \<open>The snapshot\<close>

definition private_seq :: "int \<Rightarrow> bool \<Rightarrow> bytes" where
  "private_seq n on = [0x1b] @ lit ''[?'' @ itoa n @ (if on then lit ''h'' else lit ''l'')"

definition snap_start :: bytes where
  "snap_start =
     [0x1b] @ lit ''[?1049l'' @ [0x1b] @ lit ''[!p'' @ [0x1b] @ lit ''[0m'' @ [0x1b] @ lit ''(B''
     @ [0x1b] @ lit '')B'' @ [0x0f] @ [0x1b] @ lit ''[r'' @ [0x1b] @ lit ''[?6l''
     @ [0x1b] @ lit ''[?7h'' @ [0x1b] @ lit ''[H'' @ [0x1b] @ lit ''[2J''"

text \<open>
  Reprinting the last column's character, which leaves a wrap pending: the column of the last
  character of a row and that cell.
\<close>

definition last_cell :: "screen \<Rightarrow> int \<Rightarrow> int \<Rightarrow> (int \<times> cell) option" where
  "last_cell g y cols =
     do {
       row \<leftarrow> idx g y;
       c \<leftarrow> idx row (cols - 1);
       let x = (if ce_w c = 0 \<and> 0 < cols - 1 then cols - 2 else cols - 1);
       c \<leftarrow> idx row x;
       Some (x, c)
     }"

definition snap_saved :: "terminal \<Rightarrow> bytes option" where
  "snap_saved t =
     (if \<not> t_savedSet t then Some []
      else if c_wrapPending (t_saved t)
      then do {
        (x, c) \<leftarrow> last_cell (t_main t) (c_y (t_saved t)) (t_cols t);
        Some (private_seq 6 (c_origin (t_saved t)) @ cup (c_y (t_saved t)) x @ sgrString (ce_a c)
              @ shown c @ sgrString (c_attr (t_saved t)) @ [0x1b] @ lit ''7'' @ [0x1b] @ lit ''[?6l'')
      }
      else Some (private_seq 6 (c_origin (t_saved t)) @ cup (c_y (t_saved t)) (c_x (t_saved t))
              @ sgrString (c_attr (t_saved t)) @ [0x1b] @ lit ''7'' @ [0x1b] @ lit ''[?6l''))"

definition snap_alt :: "terminal \<Rightarrow> bytes" where
  "snap_alt t =
     (if t_altActive t
      then [0x1b] @ lit ''[?47h'' @ [0x1b] @ lit ''[0m'' @ [0x1b] @ lit ''[H'' @ [0x1b] @ lit ''[2J''
           @ drawGrid (t_alt t)
      else [])"

definition snap_region :: "terminal \<Rightarrow> bytes" where
  "snap_region t =
     (if t_top t \<noteq> 0 \<or> t_bot t \<noteq> t_rows t - 1
      then [0x1b] @ lit ''['' @ itoa (t_top t + 1) @ lit '';'' @ itoa (t_bot t + 1) @ lit ''r''
      else [])"

definition snap_tabs :: "terminal \<Rightarrow> bytes" where
  "snap_tabs t =
     (if defaultTabs (t_tabs t) then []
      else [0x1b] @ lit ''[3g''
           @ concat (map (\<lambda>x. if t_tabs t ! x then cup 0 (int x) @ [0x1b] @ lit ''H'' else [])
                [0..<length (t_tabs t)]))"

definition snap_modes :: "terminal \<Rightarrow> bytes" where
  "snap_modes t =
     (let m = t_modes t in
      private_seq 1 (m_appCursorKeys m) @ private_seq 5 (m_reverseVideo m)
      @ private_seq 25 (m_cursorVisible m) @ private_seq 1004 (m_focusEvents m)
      @ private_seq 2004 (m_bracketedPaste m)
      @ concat (map (\<lambda>n. private_seq n (m_mouse m = n)) [9, 1000, 1002, 1003])
      @ concat (map (\<lambda>n. private_seq n (m_mouseEncoding m = n)) [1005, 1006, 1015])
      @ [0x1b] @ (if m_appKeypad m then lit ''='' else lit ''>'')
      @ [0x1b] @ lit ''['' @ itoa (t_cursorStyle t) @ lit '' q''
      @ (if t_title t \<noteq> [] then [0x1b] @ lit '']2;'' @ t_title t @ [0x07] else []))"

text \<open>
  The cursor: its bytes, and whether a REP right after repeats what it would have.
\<close>

definition snap_cursor :: "terminal \<Rightarrow> (bytes \<times> bool) option" where
  "snap_cursor t =
     (let y = (if c_origin (t_cur t) then cy t - t_top t else cy t) in
      if c_wrapPending (t_cur t)
      then do {
        (x, c) \<leftarrow> last_cell (grid t) (cy t) (t_cols t);
        Some (cup y x @ sgrString (ce_a c) @ shown c,
              \<not> (ce_s c \<noteq> t_last t \<and> \<not> (ce_s c = [] \<and> t_last t = lit '' '')))
      }
      else if t_last t \<noteq> []
      then do {
        found \<leftarrow> findCell (t_last t) t;
        (case found of
           None \<Rightarrow> Some (cup y (cx t), False)
         | Some (fy, fx) \<Rightarrow>
             do {
               row \<leftarrow> idx (grid t) fy;
               c \<leftarrow> idx row fx;
               Some ([0x1b] @ lit ''[?6l'' @ cup fy fx @ sgrString (ce_a c) @ ce_s c
                     @ private_seq 6 (c_origin (t_cur t)) @ cup y (cx t), True)
             })
      }
      else Some (cup y (cx t), \<not> drawsAny t))"

definition snap_end :: "terminal \<Rightarrow> bytes option" where
  "snap_end t =
     do {
       g0 \<leftarrow> idx (p_g (t_p t)) 0;
       g1 \<leftarrow> idx (p_g (t_p t)) 1;
       Some (private_seq 7 (m_autoWrap (t_modes t))
         @ [0x1b] @ (if m_insert (t_modes t) then lit ''[4h'' else lit ''[4l'')
         @ sgrString (c_attr (t_cur t))
         @ [0x1b] @ lit ''('' @ encode_rune (uint (charset g0))
         @ [0x1b] @ lit '')'' @ encode_rune (uint (charset g1))
         @ (if p_shift (t_p t) = 1 then [0x0e] else []))
     }"

definition Snapshot :: "terminal \<Rightarrow> (terminal \<times> bytes) option" where
  "Snapshot t =
     do {
       saved \<leftarrow> snap_saved t;
       (cursor, rep) \<leftarrow> snap_cursor t;
       ending \<leftarrow> snap_end t;
       let t' = t\<lparr>t_exact := (\<not> c_origin (t_cur t) \<or> (t_top t \<le> cy t \<and> cy t \<le> t_bot t)),
                  t_repExact := rep\<rparr>;
       Some (t', snap_start @ drawGrid (t_main t) @ saved @ snap_alt t @ snap_region t @ snap_tabs t
         @ snap_modes t @ private_seq 6 (c_origin (t_cur t)) @ cursor @ ending)
     }"

end
