(* ===== verification/TermSafety.thy ===== *)
theory TermSafety
  imports TermFeed Snapshot
begin

text \<open>
  The terminals a host can hold: one made by \<open>New\<close>, then any interleaving of fed output,
  resizes, snapshots and collected replies. All of them satisfy the invariant, and in none of
  them does an operation panic.
\<close>

subsection \<open>Reading operations\<close>

lemma last_cell_ok:
  assumes "grid_ok cols rows g" "0 \<le> y" "y < rows" "1 \<le> cols"
  shows "runs (last_cell g y cols) (\<lambda>_. True)"
  using assms grid_ok_nth [OF assms(1-3)] by (auto simp: last_cell_def Let_def grid_ok_length row_ok_length)

definition on_screen :: "int \<Rightarrow> int \<Rightarrow> int \<times> int \<Rightarrow> bool" where
  "on_screen cols rows p \<longleftrightarrow> 0 \<le> fst p \<and> fst p < rows \<and> 0 \<le> snd p \<and> snd p < cols"

lemma find_pos_ok:
  assumes g: "grid_ok cols rows g"
  shows "\<forall>p \<in> set ps. on_screen cols rows p \<Longrightarrow>
    runs (find_pos g s ps) (\<lambda>r. \<forall>p. r = Some p \<longrightarrow> on_screen cols rows p)"
proof (induction ps)
  case (Cons p ps)
  then have "on_screen cols rows p" by simp
  moreover from this have "row_ok cols (g ! nat (fst p))"
    using grid_ok_nth [OF g] by (simp add: on_screen_def)
  ultimately show ?case
    using Cons g by (cases p) (auto simp: on_screen_def grid_ok_length row_ok_length)
qed simp

lemma find_order_ok: "wf_screen t \<Longrightarrow> \<forall>p \<in> set (find_order t). on_screen (t_cols t) (t_rows t) p"
  using wf_cursor [of t] by (auto simp: find_order_def on_screen_def split: if_splits)

lemma snap_cursor_ok: "wf_screen t \<Longrightarrow> runs (snap_cursor t) (\<lambda>_. True)"
proof -
  assume wf: "wf_screen t"
  note g = wf_grid [OF wf]
  have found: "runs (findCell s t) (\<lambda>r. \<forall>p. r = Some p \<longrightarrow> on_screen (t_cols t) (t_rows t) p)" for s
    unfolding findCell_def by (rule find_pos_ok [OF g find_order_ok [OF wf]])
  have cell: "fst p < int (length (grid t)) \<and> snd p < int (length (grid t ! nat (fst p)))"
    if "on_screen (t_cols t) (t_rows t) p" for p
    using that grid_ok_nth [OF g, of "fst p"] grid_ok_length [OF g]
    by (auto simp: on_screen_def row_ok_length)
  have "runs (last_cell (grid t) (cy t) (t_cols t)) (\<lambda>_. True)"
    using wf_cursor [OF wf] wf_size [OF wf] by (intro last_cell_ok [OF g]) auto
  then show ?thesis
    using cell runs_mono [OF found]
    by (auto simp: snap_cursor_def Let_def on_screen_def split_beta
        split: option.split intro!: runs_mono [OF found])
qed

lemma snap_saved_ok: "wf_screen t \<Longrightarrow> runs (snap_saved t) (\<lambda>_. True)"
  using last_cell_ok [of "t_cols t" "t_rows t" "t_main t" "c_y (t_saved t)"]
  by (auto simp: snap_saved_def split_beta wf_screen_def cursor_ok_def)

lemma snap_end_ok: "wf_term t \<Longrightarrow> runs (snap_end t) (\<lambda>_. True)"
  by (simp add: snap_end_def wf_term_def wf_parser_def charset_ok_def)

lemma wf_exact [simp]: "wf_term (t\<lparr>t_exact := a, t_repExact := b\<rparr>) = wf_term t"
  by (simp add: wf_term_def wf_screen_def)

lemma Snapshot_ok: "wf_term t \<Longrightarrow> runs (Snapshot t) (\<lambda>(t', b). wf_term t')"
  using snap_saved_ok [of t] snap_cursor_ok [of t] snap_end_ok [of t]
  by (auto simp: Snapshot_def Let_def wf_term_screen runs_iff)

lemma History_ok: "wf_screen t \<Longrightarrow> runs (History t) (\<lambda>_. True)"
  using History_lines [OF wf_hist] by auto

lemma Row_ok: "wf_screen t \<Longrightarrow> runs (Row t y) (\<lambda>_. True)"
  using grid_ok_length [OF wf_grid [of t]] by (auto simp: Row_def)

lemma Held_ok: "wf_term t \<Longrightarrow> runs (Held t) (\<lambda>_. True)"
  by (auto simp: Held_def Let_def wf_term_def wf_parser_def split: pstate.split)

lemma wf_Replies: "wf_term t \<Longrightarrow> wf_term (snd (Replies t))"
  by (simp add: Replies_def wf_term_def)

subsection \<open>The terminals a host can hold\<close>

inductive live :: "(int \<Rightarrow> bool) \<Rightarrow> terminal \<Rightarrow> bool" for mark where
  new: "live mark (New cols rows maxHistory)"
| feed: "live mark t \<Longrightarrow> Feed mark b t = Some (t', fwd) \<Longrightarrow> live mark t'"
| resize: "live mark t \<Longrightarrow> Resize cols rows t = Some t' \<Longrightarrow> live mark t'"
| snapshot: "live mark t \<Longrightarrow> Snapshot t = Some (t', b) \<Longrightarrow> live mark t'"
| replies: "live mark t \<Longrightarrow> live mark (snd (Replies t))"

lemma live_wf: "live mark t \<Longrightarrow> wf_term t"
proof (induction rule: live.induct)
  case (feed t b t' fwd)
  then show ?case using Feed_ok [of t mark b] by simp
next
  case (resize t cols rows t')
  then show ?case using Resize_ok [of t cols rows] by (simp add: wf_term_def)
next
  case (snapshot t t' b)
  then show ?case using Snapshot_ok [of t] by simp
qed (simp_all add: wf_Replies)

text \<open>
  C1. No terminal a host can reach panics: whatever bytes are fed, whatever size is asked for,
  every operation returns, so no index of the screen's, history's or parser's slices is ever out
  of range.
\<close>

theorem terminal_never_panics:
  assumes "live mark t"
  shows "(\<exists>t' fwd. Feed mark b t = Some (t', fwd)) \<and> (\<exists>t'. Resize cols rows t = Some t') \<and>
    (\<exists>t' s. Snapshot t = Some (t', s)) \<and> (\<exists>h. History t = Some h) \<and>
    (\<exists>s. Row t y = Some s) \<and> (\<exists>r. Held t = Some r)"
proof -
  have wf: "wf_term t" "wf_screen t"
    using live_wf [OF assms] by (auto simp: wf_term_def)
  show ?thesis
    using Feed_ok [OF wf(1), of mark b] Resize_ok [OF wf(2), of cols rows] Snapshot_ok [OF wf(1)]
      History_ok [OF wf(2)] Row_ok [OF wf(2), of y] Held_ok [OF wf(1)]
    by (auto simp: runs_iff)
qed

theorem terminal_never_panics_witness:
  "live (\<lambda>_. False) (New 4 2 3) \<and> (\<exists>t' fwd. Feed (\<lambda>_. False) [0x41, 0x1b, 0x5b] (New 4 2 3) = Some (t', fwd))"
  using terminal_never_panics [OF live.new [of "\<lambda>_. False" 4 2 3], of "[0x41, 0x1b, 0x5b]"]
    live.new [of "\<lambda>_. False" 4 2 3] by blast



text \<open>
  Line identities are stable: in every terminal a host can reach, the history's lines,
  oldest first, carry consecutive IDs ending just below the next one to be given (modulo the
  64 bits of the counter), so a line keeps its ID however the history scrolls and a client can
  fetch it by range.
\<close>

theorem history_ids_consecutive:
  assumes "live mark t"
  shows "\<exists>h. History t = Some h \<and>
    (\<forall>i < length h. l_id (h ! i) + of_nat (length h - i) = t_nextLine t)"
  using wf_hist [OF wf_term_screen [OF live_wf [OF assms]]]
  by (auto simp: History_lines hist_inv_def hist_ok_def ids_ok_def lines_def)

theorem history_ids_consecutive_witness:
  "live (\<lambda>_. False) (New 4 2 3) \<and> (\<exists>h. History (New 4 2 3) = Some h \<and>
    (\<forall>i < length h. l_id (h ! i) + of_nat (length h - i) = t_nextLine (New 4 2 3)))"
  using history_ids_consecutive [OF live.new [of "\<lambda>_. False" 4 2 3]] live.new [of "\<lambda>_. False" 4 2 3]
  by blast

end
