(* ===== verification/HostPolicy.thy ===== *)
theory HostPolicy
  imports GoText
begin

text \<open>
  \<open>internal/hostpolicy/disk.go\<close>: the host-wide fill limit. The file system calls are not
  code of the repository; what they return is an argument, the record \<open>observation\<close>, one
  field for each call in the order the code makes them.
\<close>

abbreviation DefaultMaxFillPercent :: int where "DefaultMaxFillPercent \<equiv> 85"

record disk_limit =
  dl_percent :: int
  dl_source :: bytes

definition DefaultDiskLimit :: disk_limit where
  "DefaultDiskLimit = \<lparr>dl_percent = DefaultMaxFillPercent, dl_source = lit ''built-in default''\<rparr>"

definition Validated :: "disk_limit \<Rightarrow> disk_limit" where
  "Validated p =
     (if dl_percent p < 1 \<or> 99 < dl_percent p then DefaultDiskLimit
      else if dl_source p = [] then p\<lparr>dl_source := lit ''explicit host setting''\<rparr>
      else p)"

definition fallback :: "bytes \<Rightarrow> bytes \<Rightarrow> disk_limit" where
  "fallback path reason =
     \<lparr>dl_percent = DefaultMaxFillPercent,
      dl_source = lit ''built-in default ('' @ path @ lit '' '' @ reason @ lit '')''\<rparr>"

text \<open>
  \<open>strings.TrimSpace\<close>: while the text starts, then while it ends, with the encoding of a
  Unicode white space character, that encoding is dropped.
\<close>

definition spaces :: "int list" where
  "spaces = [0x09, 0x0a, 0x0b, 0x0c, 0x0d, 0x20, 0x85, 0xa0, 0x1680, 0x2000, 0x2001, 0x2002, 0x2003,
     0x2004, 0x2005, 0x2006, 0x2007, 0x2008, 0x2009, 0x200a, 0x2028, 0x2029, 0x202f, 0x205f, 0x3000]"

lemma find_prefix_nonempty:
  "find (\<lambda>e. e \<noteq> [] \<and> take (length e) s = e) es = Some e \<Longrightarrow> e \<noteq> [] \<and> s \<noteq> []"
  by (auto simp: find_Some_iff)

function strip_prefixes :: "bytes list \<Rightarrow> bytes \<Rightarrow> bytes" where
  "strip_prefixes es s =
     (case find (\<lambda>e. e \<noteq> [] \<and> take (length e) s = e) es of
        None \<Rightarrow> s
      | Some e \<Rightarrow> strip_prefixes es (drop (length e) s))"
  by pat_completeness auto
termination
  by (relation "measure (\<lambda>(es, s). length s)") (auto dest: find_prefix_nonempty)

declare strip_prefixes.simps [simp del]

definition trim_space :: "bytes \<Rightarrow> bytes" where
  "trim_space s =
     rev (strip_prefixes (map (\<lambda>r. rev (encode_rune r)) spaces)
       (rev (strip_prefixes (map encode_rune spaces) s)))"

definition parseDiskLimit :: "bytes \<Rightarrow> bytes \<Rightarrow> disk_limit" where
  "parseDiskLimit path b =
     (if 32 < length b then fallback path (lit ''invalid'')
      else let s = trim_space b in
        if s = [] then fallback path (lit ''invalid'')
        else if list_ex (\<lambda>r. r < 0x30 \<or> 0x39 < r) (runes s) then fallback path (lit ''invalid'')
        else let (n, ok) = atoi s in
          if \<not> ok \<or> n < 1 \<or> 99 < n then fallback path (lit ''invalid'')
          else \<lparr>dl_percent = n, dl_source = path\<rparr>)"

subsection \<open>Reading the setting\<close>

text \<open>A file's metadata: kind, the owner if the kernel tells it, permission bits, identity.\<close>

record file_info =
  fi_dir :: bool
  fi_regular :: bool
  fi_owner :: "32 word option"
  fi_perm :: "32 word"
  fi_id :: nat

unbundle bit_operations_syntax

definition trustedMetadata :: "file_info \<Rightarrow> bool" where
  "trustedMetadata i \<longleftrightarrow> fi_owner i = Some 0 \<and> fi_perm i AND 0x12 = 0"

record observation =
  ob_lstat_parent :: "file_info option"
  ob_open_root :: bool
  ob_stat_root :: "file_info option"
  ob_open_parent :: bool
  ob_stat_parent :: "file_info option"
  ob_acl_parent :: bool
  ob_lstat_file :: "file_info option"
  ob_open_file :: bool
  ob_stat_file :: "file_info option"
  ob_acl_file :: bool
  ob_read :: "bytes option"
  ob_acl_again :: bool

text \<open>The checks in order, \<open>Inl\<close> the reason of the first one that fails.\<close>

definition checked_setting :: "observation \<Rightarrow> bytes + bytes" where
  "checked_setting ob =
     bindE (needE (ob_lstat_parent ob) (lit ''parent unreadable'')) (\<lambda>named.
     bindE (guardE (fi_dir named \<and> trustedMetadata named)
              (lit ''parent must be uid 0 and not group/world writable'')) (\<lambda>_.
     bindE (guardE (ob_open_root ob) (lit ''parent unreadable'')) (\<lambda>_.
     bindE (needE (ob_stat_root ob)
              (lit ''opened parent must be uid 0 and not group/world writable'')) (\<lambda>root.
     bindE (guardE (fi_dir root \<and> trustedMetadata root)
              (lit ''opened parent must be uid 0 and not group/world writable'')) (\<lambda>_.
     bindE (guardE (ob_open_parent ob) (lit ''parent ACL unreadable'')) (\<lambda>_.
     bindE (needE (ob_stat_parent ob) (lit ''parent ACL unsafe or unreadable'')) (\<lambda>opened.
     bindE (guardE (fi_id root = fi_id opened \<and> ob_acl_parent ob)
              (lit ''parent ACL unsafe or unreadable'')) (\<lambda>_.
     bindE (needE (ob_lstat_file ob) (lit ''unreadable'')) (\<lambda>before.
     bindE (guardE (fi_regular before) (lit ''unreadable'')) (\<lambda>_.
     bindE (guardE (trustedMetadata before)
              (lit ''file must be uid 0 and not group/world writable'')) (\<lambda>_.
     bindE (guardE (ob_open_file ob) (lit ''unreadable'')) (\<lambda>_.
     bindE (needE (ob_stat_file ob) (lit ''unreadable'')) (\<lambda>info.
     bindE (guardE (fi_regular info) (lit ''unreadable'')) (\<lambda>_.
     bindE (guardE (fi_id before = fi_id info) (lit ''file changed while opening'')) (\<lambda>_.
     bindE (guardE (trustedMetadata info)
              (lit ''file must be uid 0 and not group/world writable'')) (\<lambda>_.
     bindE (guardE (ob_acl_file ob) (lit ''file ACL unsafe or unreadable'')) (\<lambda>_.
     bindE (needE (ob_read ob) (lit ''unreadable'')) (\<lambda>b.
     bindE (guardE (ob_acl_again ob) (lit ''ACL changed or unreadable'')) (\<lambda>_.
     Inr (take 33 b))))))))))))))))))))"

definition ReadDiskLimitWithOptions :: "bytes \<Rightarrow> observation \<Rightarrow> disk_limit" where
  "ReadDiskLimitWithOptions path ob =
     (case checked_setting ob of Inl reason \<Rightarrow> fallback path reason | Inr b \<Rightarrow> parseDiskLimit path b)"

subsection \<open>What a setting can do\<close>

lemma Validated_range: "1 \<le> dl_percent (Validated p) \<and> dl_percent (Validated p) \<le> 99"
  by (auto simp: Validated_def DefaultDiskLimit_def)

lemma parseDiskLimit_cases:
  "dl_percent (parseDiskLimit path b) = 85 \<or>
   1 \<le> dl_percent (parseDiskLimit path b) \<and> dl_percent (parseDiskLimit path b) \<le> 99 \<and>
   length b \<le> 32 \<and> atoi (trim_space b) = (dl_percent (parseDiskLimit path b), True)"
  by (auto simp: parseDiskLimit_def fallback_def Let_def split: prod.splits if_splits)

text \<open>
  The limit admission uses is read only from a root-owned, regular file that nobody else can
  write, in such a directory, with the descriptors that were checked the ones that were read,
  and holding a decimal from 1 to 99; in every other case it is 85.
\<close>

definition trusted_setting :: "observation \<Rightarrow> int \<Rightarrow> bool" where
  "trusted_setting ob n \<longleftrightarrow>
     (\<exists>named root opened before info b.
        ob_lstat_parent ob = Some named \<and> ob_stat_root ob = Some root \<and>
        ob_stat_parent ob = Some opened \<and> ob_lstat_file ob = Some before \<and>
        ob_stat_file ob = Some info \<and> ob_read ob = Some b \<and>
        fi_dir named \<and> fi_dir root \<and> fi_regular before \<and> fi_regular info \<and>
        trustedMetadata named \<and> trustedMetadata root \<and> trustedMetadata before \<and> trustedMetadata info \<and>
        fi_id root = fi_id opened \<and> fi_id before = fi_id info \<and>
        ob_acl_parent ob \<and> ob_acl_file ob \<and> ob_acl_again ob \<and>
        length b \<le> 32 \<and> atoi (trim_space b) = (n, True) \<and> 1 \<le> n \<and> n \<le> 99)"

text \<open>
  A fill limit other than the default 85 percent comes only from a trusted setting: no
  unreadable, replaced, foreign-owned, writable, oversized or malformed file can raise or lower
  it.
\<close>

theorem disk_limit_only_from_trusted_setting:
  assumes "dl_percent (ReadDiskLimitWithOptions path ob) = n" and "n \<noteq> 85"
  shows "trusted_setting ob n"
proof -
  obtain c where c: "checked_setting ob = Inr c" "dl_percent (parseDiskLimit path c) = n"
    using assms by (cases "checked_setting ob") (auto simp: ReadDiskLimitWithOptions_def fallback_def)
  moreover from this have "length c \<le> 32 \<and> atoi (trim_space c) = (n, True) \<and> 1 \<le> n \<and> n \<le> 99"
    using parseDiskLimit_cases [of path c] assms(2) by auto
  ultimately show ?thesis
    unfolding trusted_setting_def checked_setting_def by auto
qed

definition root_file :: "bool \<Rightarrow> nat \<Rightarrow> file_info" where
  "root_file dir i = \<lparr>fi_dir = dir, fi_regular = \<not> dir, fi_owner = Some 0, fi_perm = 0x1a4, fi_id = i\<rparr>"

definition setting_90 :: observation where
  "setting_90 = \<lparr>ob_lstat_parent = Some (root_file True 1), ob_open_root = True,
     ob_stat_root = Some (root_file True 1), ob_open_parent = True,
     ob_stat_parent = Some (root_file True 1), ob_acl_parent = True,
     ob_lstat_file = Some (root_file False 2), ob_open_file = True,
     ob_stat_file = Some (root_file False 2), ob_acl_file = True,
     ob_read = Some (lit ''90'' @ [10]), ob_acl_again = True\<rparr>"

lemma setting_90_limit: "dl_percent (ReadDiskLimitWithOptions (lit ''/p'') setting_90) = 90"
  by code_simp

theorem disk_limit_only_from_trusted_setting_witness: "trusted_setting setting_90 90"
  by (rule disk_limit_only_from_trusted_setting [OF setting_90_limit]) simp

end
