(* ===== verification/Capacity.thy ===== *)
theory Capacity
  imports HostPolicy
begin

text \<open>
  \<open>internal/capacity\<close>: admission. \<open>capacity.go\<close> has the classes, the host and
  \<open>Admit\<close>; \<open>allocation.go\<close> the accounting, \<open>Evaluate\<close>. Every \<open>int64\<close> addition,
  subtraction and multiplication of the source is under \<open>i64\<close> here, so that the guards
  against overflow are the code's own and their sufficiency is a theorem. An error of
  \<open>Evaluate\<close> is \<open>Inl\<close>; the partial allocation it is returned with, which no caller
  reads, is left out.
\<close>

subsection \<open>Data\<close>

abbreviation GiB :: int where "GiB \<equiv> 1073741824"
abbreviation HeadroomBytes :: int where "HeadroomBytes \<equiv> 10 * GiB"

record job_class =
  cl_name :: bytes
  cl_vcpu :: int
  cl_memory :: int
  cl_overhead :: int
  cl_disk :: int
  cl_concurrency :: int
  cl_measured :: bool
  cl_time_limit :: int
  cl_log_cap :: int
  cl_output_cap :: int

definition CI :: job_class where
  "CI = \<lparr>cl_name = lit ''ci'', cl_vcpu = 2, cl_memory = 2 * GiB, cl_overhead = 300 * 2 ^ 20,
     cl_disk = 3 * GiB, cl_concurrency = 0, cl_measured = True, cl_time_limit = 30 * 60,
     cl_log_cap = 16 * 2 ^ 20, cl_output_cap = 0\<rparr>"

definition MemoryClaim :: "job_class \<Rightarrow> int" where
  "MemoryClaim c = i64 (cl_memory c + cl_overhead c)"

definition Claim :: "job_class \<Rightarrow> int" where
  "Claim c = i64 (cl_disk c + HeadroomBytes)"

text \<open>\<open>validate\<close>: true when it returns no error.\<close>

definition validate :: "job_class \<Rightarrow> bool" where
  "validate c \<longleftrightarrow>
     \<not> (cl_name c = [] \<or> cl_vcpu c < 1 \<or> max_int64 div 1000 < cl_vcpu c \<or> cl_memory c < 1 \<or>
        cl_overhead c < 0 \<or> i64 (max_int64 - cl_overhead c) < cl_memory c \<or> cl_disk c < 0 \<or>
        max_int64 - HeadroomBytes < cl_disk c \<or> cl_concurrency c < 0 \<or> cl_time_limit c < 0 \<or>
        cl_log_cap c < 0 \<or> cl_output_cap c < 0 \<or> 64 * 2 ^ 20 < cl_output_cap c)"

record host =
  h_cpu_slots :: int
  h_memory :: int
  h_budget :: bool

definition HostFrom :: "int \<Rightarrow> int \<Rightarrow> host" where
  "HostFrom ncpu mem =
     \<lparr>h_cpu_slots = max 0 (i64 (ncpu - 2)), h_memory = max 0 (i64 (mem - 8 * GiB)), h_budget = False\<rparr>"

definition WithBudget :: "host \<Rightarrow> int \<Rightarrow> int \<Rightarrow> host option" where
  "WithBudget h vcpu mem =
     (if vcpu < 1 \<or> mem < 1 then None
      else if h_cpu_slots h < vcpu \<or> h_memory h < mem then None
      else Some \<lparr>h_cpu_slots = vcpu, h_memory = mem, h_budget = True\<rparr>)"

record disk =
  d_used :: int
  d_avail :: int
  d_shared :: bool
  d_fill_limit :: disk_limit

record resource_vec =
  r_cpu :: int
  r_memory :: int
  r_disk :: int

record failure =
  fa_resource :: bytes
  fa_reason :: bytes
  fa_unit :: bytes
  fa_demand :: int
  fa_available :: int
  fa_deficit :: int

record allocation =
  al_reserved :: resource_vec
  al_free :: resource_vec
  al_demand :: resource_vec
  al_fits :: int
  al_failures :: "failure list"
  al_allowance :: int
  al_floor :: int
  al_limit :: disk_limit

datatype cap_error =
    InvalidClass job_class
  | InvalidCounters
  | SumOverflows
  | FreeDiskUnderflows
  | FloorUnderflows
  | DeficitOverflows bytes

subsection \<open>The accounting\<close>

definition resources :: "job_class \<Rightarrow> cap_error + resource_vec" where
  "resources c =
     bindE (guardE (validate c) (InvalidClass c)) (\<lambda>_.
     Inr \<lparr>r_cpu = i64 (cl_vcpu c * 1000), r_memory = MemoryClaim c, r_disk = Claim c\<rparr>)"

definition add_resources :: "resource_vec \<Rightarrow> resource_vec \<Rightarrow> cap_error + resource_vec" where
  "add_resources a b =
     bindE (guardE (\<not> (i64 (max_int64 - r_cpu b) < r_cpu a \<or> i64 (max_int64 - r_memory b) < r_memory a \<or>
                       i64 (max_int64 - r_disk b) < r_disk a)) SumOverflows) (\<lambda>_.
     Inr \<lparr>r_cpu = i64 (r_cpu a + r_cpu b), r_memory = i64 (r_memory a + r_memory b),
          r_disk = i64 (r_disk a + r_disk b)\<rparr>)"

text \<open>The loop over the live claims: their sum and how many are of the class asked for.\<close>

fun reserve :: "bytes \<Rightarrow> job_class list \<Rightarrow> resource_vec \<Rightarrow> int \<Rightarrow> cap_error + resource_vec \<times> int" where
  "reserve name [] acc same = Inr (acc, same)"
| "reserve name (other # live) acc same =
     bindE (resources other) (\<lambda>r.
     bindE (add_resources acc r) (\<lambda>acc.
     reserve name live acc (if cl_name other = name then i64 (same + 1) else same)))"

text \<open>The limit on used bytes: \<open>floor(total*limit/100)\<close> without that product.\<close>

definition max_used :: "int \<Rightarrow> int \<Rightarrow> int" where
  "max_used tot limit = i64 (i64 ((tot div 100) * limit) + i64 ((tot mod 100) * limit) div 100)"

text \<open>
  The closure \<open>fail\<close>: one predicate's failure, appended, or the deficit's overflow noted.
  \<open>math.MaxInt64+available\<close> is evaluated only for a negative \<open>available\<close>.
\<close>

definition fail :: "bytes \<Rightarrow> bytes \<Rightarrow> bytes \<Rightarrow> int \<Rightarrow> int \<Rightarrow>
    failure list \<times> cap_error option \<Rightarrow> failure list \<times> cap_error option" where
  "fail resource reason unit demand available st =
     (let (fs, err) = st in
      if available < demand
      then if available < 0 \<and> i64 (max_int64 + available) < demand
           then (fs, Some (DeficitOverflows resource))
           else (fs @ [\<lparr>fa_resource = resource, fa_reason = reason, fa_unit = unit, fa_demand = demand,
                   fa_available = available, fa_deficit = i64 (demand - available)\<rparr>], err)
      else st)"

definition quot3 :: "resource_vec \<Rightarrow> resource_vec \<Rightarrow> int" where
  "quot3 free demand =
     min (r_cpu free div r_cpu demand) (min (r_memory free div r_memory demand) (r_disk free div r_disk demand))"

text \<open>
  \<open>Evaluate\<close> from the disk's allowance on: what is free, which predicates fail, how many
  more attempts fit. \<open>available\<close> pairs the floor's and the disk's allowance.
\<close>

definition floor_allowance :: "disk \<Rightarrow> int \<Rightarrow> int" where
  "floor_allowance d limit =
     (if d_shared d then i64 (max_used (i64 (d_used d + d_avail d)) limit - d_used d) else d_avail d)"

definition disk_allowance :: "disk \<Rightarrow> int \<Rightarrow> int" where
  "disk_allowance d limit =
     (if d_shared d then min (d_avail d) (floor_allowance d limit) else d_avail d)"

definition disk_floor :: "disk \<Rightarrow> int \<Rightarrow> int" where
  "disk_floor d limit =
     (if d_shared d then i64 (i64 (d_used d + d_avail d) - max_used (i64 (d_used d + d_avail d)) limit) else 0)"

text \<open>The test that a subtraction of the reserved disk from an allowance would underflow.\<close>

definition underflows :: "int \<Rightarrow> int \<Rightarrow> bool" where
  "underflows allowance reserved \<longleftrightarrow>
     allowance < 0 \<and> i64 (i64 (max_int64 + allowance) + 1) < reserved"

definition balance :: "job_class \<Rightarrow> resource_vec \<Rightarrow> resource_vec \<Rightarrow> int \<Rightarrow> host \<Rightarrow> disk \<Rightarrow>
    disk_limit \<Rightarrow> cap_error + allocation" where
  "balance c demand reserved same h d limit =
     (let fl = floor_allowance d (dl_percent limit); allowance = disk_allowance d (dl_percent limit) in
      bindE (guardE (\<not> underflows allowance (r_disk reserved)) FreeDiskUnderflows) (\<lambda>_.
      let free = \<lparr>r_cpu = i64 (i64 (h_cpu_slots h * 1000) - r_cpu reserved),
                  r_memory = i64 (h_memory h - r_memory reserved),
                  r_disk = i64 (allowance - r_disk reserved)\<rparr>;
          cpu_reason = (if h_budget h then lit ''host-budget'' else lit ''cpu-slots'');
          mem_reason = (if h_budget h then lit ''host-budget'' else lit ''memory-slots'');
          st = ([], None);
          st = (if 0 < cl_concurrency c
                then fail (lit ''CLASS_LIMIT'') (lit ''class-concurrency'') (lit ''attempts'') 1
                       (i64 (cl_concurrency c - same)) st
                else st);
          st = fail (lit ''CPU_BUDGET'') cpu_reason (lit ''millicores'') (r_cpu demand) (r_cpu free) st;
          st = fail (lit ''MEMORY_BUDGET'') mem_reason (lit ''bytes'') (r_memory demand) (r_memory free) st;
          st = fail (lit ''DISK_BUDGET'') (lit ''disk-peak'') (lit ''bytes'') (r_disk demand)
                 (i64 (d_avail d - r_disk reserved)) st
      in
      bindE (guardE (\<not> (d_shared d \<and> underflows fl (r_disk reserved))) FloorUnderflows) (\<lambda>_.
      let st = (if d_shared d
                then fail (lit ''DISK_FLOOR'') (lit ''fill-floor'') (lit ''bytes'') (r_disk demand)
                       (i64 (fl - r_disk reserved)) st
                else st)
      in case snd st of
           Some e \<Rightarrow> Inl e
         | None \<Rightarrow>
             let n = quot3 free demand;
                 n = (if 0 < cl_concurrency c then min n (i64 (cl_concurrency c - same)) else n)
             in Inr \<lparr>al_reserved = reserved, al_free = free, al_demand = demand,
                      al_fits = (if fst st = [] then n else 0), al_failures = fst st,
                      al_allowance = allowance, al_floor = disk_floor d (dl_percent limit),
                      al_limit = limit\<rparr>)))"

definition counters_valid :: "host \<Rightarrow> disk \<Rightarrow> bool" where
  "counters_valid h d \<longleftrightarrow>
     \<not> (h_cpu_slots h < 0 \<or> max_int64 div 1000 < h_cpu_slots h \<or> h_memory h < 0 \<or>
        d_used d < 0 \<or> d_avail d < 0 \<or> i64 (max_int64 - d_avail d) < d_used d)"

definition Evaluate :: "job_class \<Rightarrow> job_class list \<Rightarrow> host \<Rightarrow> disk \<Rightarrow> cap_error + allocation" where
  "Evaluate c live h d =
     bindE (resources c) (\<lambda>demand.
     bindE (guardE (counters_valid h d) InvalidCounters) (\<lambda>_.
     bindE (reserve (cl_name c) live \<lparr>r_cpu = 0, r_memory = 0, r_disk = 0\<rparr> 0) (\<lambda>(reserved, same).
     balance c demand reserved same h d (Validated (d_fill_limit d)))))"

subsection \<open>Admission\<close>

datatype admission = Admitted | Broken cap_error | Refused bytes bytes "failure list"

definition Admit :: "job_class \<Rightarrow> job_class list \<Rightarrow> host \<Rightarrow> disk \<Rightarrow> admission" where
  "Admit c live h d =
     (case Evaluate c live h d of
        Inl e \<Rightarrow> Broken e
      | Inr a \<Rightarrow>
          (case al_failures a of
             [] \<Rightarrow> Admitted
           | f # _ \<Rightarrow>
               Refused (fa_reason f)
                 (fa_resource f @ lit '': demand '' @ itoa (fa_demand f) @ lit '' '' @ fa_unit f
                  @ lit '', available '' @ itoa (fa_available f) @ lit '', deficit '' @ itoa (fa_deficit f)
                  @ (if fa_reason f = lit ''fill-floor''
                     then (let p = Validated (d_fill_limit d) in
                           lit ''; fill limit '' @ itoa (dl_percent p) @ lit ''% from '' @ dl_source p)
                     else []))
                 (al_failures a)))"

definition Fits :: "job_class \<Rightarrow> host \<Rightarrow> disk \<Rightarrow> int" where
  "Fits c h d = (case Evaluate c [] h d of Inl e \<Rightarrow> 0 | Inr a \<Rightarrow> al_fits a)"

subsection \<open>Exact arithmetic\<close>

text \<open>
  What the numbers mean, without a machine's bounds. The inputs are \<open>int64\<close> values:
  \<open>class_typed\<close>, \<open>host_typed\<close> and \<open>disk_typed\<close> say no more than that.
\<close>

definition class_typed :: "job_class \<Rightarrow> bool" where
  "class_typed c \<longleftrightarrow> in_i64 (cl_vcpu c) \<and> in_i64 (cl_memory c) \<and> in_i64 (cl_overhead c) \<and>
     in_i64 (cl_disk c) \<and> in_i64 (cl_concurrency c)"

definition host_typed :: "host \<Rightarrow> bool" where
  "host_typed h \<longleftrightarrow> in_i64 (h_cpu_slots h) \<and> in_i64 (h_memory h)"

definition disk_typed :: "disk \<Rightarrow> bool" where
  "disk_typed d \<longleftrightarrow> in_i64 (d_used d) \<and> in_i64 (d_avail d)"

definition cpu_need :: "job_class \<Rightarrow> int" where "cpu_need c = 1000 * cl_vcpu c"
definition mem_need :: "job_class \<Rightarrow> int" where "mem_need c = cl_memory c + cl_overhead c"
definition disk_need :: "job_class \<Rightarrow> int" where "disk_need c = cl_disk c + HeadroomBytes"

definition total_need :: "(job_class \<Rightarrow> int) \<Rightarrow> job_class list \<Rightarrow> int" where
  "total_need f live = sum_list (map f live)"

definition same_class :: "job_class \<Rightarrow> job_class list \<Rightarrow> int" where
  "same_class c live = int (length (filter (\<lambda>o'. cl_name o' = cl_name c) live))"

lemma total_need_simps [simp]:
  "total_need f [] = 0" "total_need f (c # live) = f c + total_need f live"
  "total_need f (xs @ ys) = total_need f xs + total_need f ys"
  by (simp_all add: total_need_def)

lemma total_need_replicate [simp]: "total_need f (replicate k c) = int k * f c"
  by (induction k) (simp_all add: algebra_simps)

text \<open>Bytes that may be in use on a shared disk.\<close>

definition fill_bytes :: "disk \<Rightarrow> int" where
  "fill_bytes d = (d_used d + d_avail d) * dl_percent (Validated (d_fill_limit d)) div 100"

text \<open>An attempt fits beside the live ones: the plain statement of admission.\<close>

definition fits :: "job_class \<Rightarrow> job_class list \<Rightarrow> host \<Rightarrow> disk \<Rightarrow> bool" where
  "fits c live h d \<longleftrightarrow>
     (0 < cl_concurrency c \<longrightarrow> same_class c live < cl_concurrency c) \<and>
     cpu_need c + total_need cpu_need live \<le> 1000 * h_cpu_slots h \<and>
     mem_need c + total_need mem_need live \<le> h_memory h \<and>
     disk_need c + total_need disk_need live \<le> d_avail d \<and>
     (d_shared d \<longrightarrow> d_used d + disk_need c + total_need disk_need live \<le> fill_bytes d)"

lemma i64_eq: "min_int64 \<le> x \<Longrightarrow> x \<le> max_int64 \<Longrightarrow> i64 x = x"
  by (simp add: in_i64_def)

lemma valid_needs:
  assumes "class_typed c" "validate c"
  shows "1000 \<le> cpu_need c" "cpu_need c \<le> max_int64" "1 \<le> mem_need c" "mem_need c \<le> max_int64"
    "HeadroomBytes \<le> disk_need c" "disk_need c \<le> max_int64" "0 \<le> cl_concurrency c"
  using assms by (auto simp: class_typed_def in_i64_def validate_def cpu_need_def mem_need_def
      disk_need_def i64_eq)

lemma resources_exact:
  assumes "class_typed c"
  shows "resources c = Inr r \<longleftrightarrow> validate c \<and> r = \<lparr>r_cpu = cpu_need c, r_memory = mem_need c, r_disk = disk_need c\<rparr>"
  using valid_needs [OF assms]
  by (auto simp: resources_def MemoryClaim_def Claim_def cpu_need_def mem_need_def disk_need_def i64_eq mult.commute)

lemma max_used_exact:
  assumes "0 \<le> tot" "tot \<le> max_int64" "1 \<le> limit" "limit \<le> 99"
  shows "max_used tot limit = tot * limit div 100" "0 \<le> max_used tot limit" "max_used tot limit \<le> tot"
proof -
  define q r where "q = tot div 100" and "r = tot mod 100"
  have qr: "tot = 100 * q + r" "0 \<le> r" "r \<le> 99" "0 \<le> q" "100 * q \<le> tot"
    using assms(1) by (auto simp: q_def r_def minus_mod_eq_mult_div [symmetric])
  have ql: "0 \<le> q * limit" "q * limit \<le> 99 * q"
    using assms(3,4) qr(4) mult_left_mono [of limit 99 q] by (simp_all add: mult.commute)
  have rl: "0 \<le> r * limit" "r * limit \<le> 99 * 99"
    using assms(3,4) qr(2,3) mult_mono [of r 99 limit 99] by simp_all
  have "(100 * q + r) * limit div 100 = q * limit + r * limit div 100"
    by (simp add: algebra_simps)
  then have eq: "tot * limit div 100 = q * limit + r * limit div 100"
    using qr(1) by simp
  have d: "0 \<le> r * limit div 100" "r * limit div 100 \<le> r"
    using rl(1)
      zdiv_mono1 [of "r * limit" "r * 100" 100] mult_left_mono [of limit 100 r] assms(4) qr(2)
    by simp_all
  have "i64 (q * limit) = q * limit" "i64 (r * limit) = r * limit"
      "i64 (q * limit + r * limit div 100) = q * limit + r * limit div 100"
    by (rule i64_eq; use ql rl qr d assms(2) in linarith)+
  then have m: "max_used tot limit = q * limit + r * limit div 100"
    by (simp add: max_used_def q_def r_def)
  show "max_used tot limit = tot * limit div 100" "0 \<le> max_used tot limit" "max_used tot limit \<le> tot"
    unfolding m eq using ql qr d by linarith+
qed

text \<open>The loop over the live claims never wraps, and fails exactly when a sum does not fit.\<close>

lemma add_resources_exact:
  assumes "0 \<le> r_cpu b" "0 \<le> r_memory b" "0 \<le> r_disk b" "r_cpu b \<le> max_int64"
    "r_memory b \<le> max_int64" "r_disk b \<le> max_int64" "0 \<le> r_cpu a" "0 \<le> r_memory a" "0 \<le> r_disk a"
  shows "add_resources a b = Inr r \<longleftrightarrow>
    r_cpu a + r_cpu b \<le> max_int64 \<and> r_memory a + r_memory b \<le> max_int64 \<and> r_disk a + r_disk b \<le> max_int64 \<and>
    r = \<lparr>r_cpu = r_cpu a + r_cpu b, r_memory = r_memory a + r_memory b, r_disk = r_disk a + r_disk b\<rparr>"
  using assms by (auto simp: add_resources_def i64_eq)

lemma total_need_bounds:
  "\<forall>c \<in> set live. class_typed c \<and> validate c \<Longrightarrow>
     int (length live) \<le> total_need cpu_need live \<and> 0 \<le> total_need mem_need live \<and>
     0 \<le> total_need disk_need live"
  by (induction live) (use valid_needs in fastforce)+

lemmas total_need_nonneg =
  total_need_bounds [THEN conjunct1] total_need_bounds [THEN conjunct2, THEN conjunct1]
  total_need_bounds [THEN conjunct2, THEN conjunct2]

lemma reserve_exact:
  assumes "0 \<le> r_cpu acc" "0 \<le> r_memory acc" "0 \<le> r_disk acc" "r_cpu acc \<le> max_int64"
    "0 \<le> same" "same \<le> r_cpu acc" "\<forall>c \<in> set live. class_typed c"
  shows "reserve name live acc same = Inr (acc', n) \<longleftrightarrow>
    (\<forall>c \<in> set live. validate c) \<and>
    acc' = \<lparr>r_cpu = r_cpu acc + total_need cpu_need live, r_memory = r_memory acc + total_need mem_need live,
            r_disk = r_disk acc + total_need disk_need live\<rparr> \<and>
    n = same + int (length (filter (\<lambda>c. cl_name c = name) live)) \<and>
    (live \<noteq> [] \<longrightarrow> r_cpu acc' \<le> max_int64 \<and> r_memory acc' \<le> max_int64 \<and> r_disk acc' \<le> max_int64)"
  using assms
proof (induction live arbitrary: acc same)
  case (Cons c live)
  let ?r = "\<lparr>r_cpu = cpu_need c, r_memory = mem_need c, r_disk = disk_need c\<rparr>"
  let ?acc = "\<lparr>r_cpu = r_cpu acc + cpu_need c, r_memory = r_memory acc + mem_need c, r_disk = r_disk acc + disk_need c\<rparr>"
  let ?same = "if cl_name c = name then i64 (same + 1) else same"
  have typed: "class_typed c" using Cons.prems by simp
  show ?case
  proof (cases "validate c \<and> add_resources acc ?r = Inr ?acc")
    case True
    note needs = valid_needs [OF typed]
    have fit: "r_cpu ?acc \<le> max_int64" "r_memory ?acc \<le> max_int64" "r_disk ?acc \<le> max_int64"
      using True needs Cons.prems by (simp_all add: add_resources_exact)
    have same: "?same = same + (if cl_name c = name then 1 else 0)"
      using Cons.prems fit(1) needs True by (auto simp: i64_eq)
    have step: "reserve name (c # live) acc same = reserve name live ?acc ?same"
      using True typed by (simp add: resources_exact resources_exact [OF typed, THEN iffD2])
    have sums: "(\<forall>c \<in> set live. validate c) \<Longrightarrow>
        0 \<le> total_need cpu_need live \<and> 0 \<le> total_need mem_need live \<and> 0 \<le> total_need disk_need live"
      using total_need_nonneg [of live] Cons.prems by auto
    show ?thesis
      unfolding step
      by (subst Cons.IH) (use Cons.prems needs True same fit sums in \<open>auto simp: algebra_simps\<close>)
  next
    case False
    then have "reserve name (c # live) acc same \<noteq> Inr (acc', n)"
      using typed valid_needs [OF typed] Cons.prems
      by (auto simp: resources_exact add_resources_exact)
    moreover have "validate c \<Longrightarrow> (\<forall>c \<in> set live. validate c) \<Longrightarrow>
        \<not> (r_cpu acc + total_need cpu_need (c # live) \<le> max_int64 \<and>
           r_memory acc + total_need mem_need (c # live) \<le> max_int64 \<and>
           r_disk acc + total_need disk_need (c # live) \<le> max_int64)"
      using False typed valid_needs [OF typed] Cons.prems total_need_nonneg [of live]
      by (auto simp: add_resources_exact)
    ultimately show ?thesis by auto
  qed
qed auto

subsection \<open>Admission decides exactly what fits\<close>

definition clean :: "failure list \<times> cap_error option \<Rightarrow> bool" where
  "clean st \<longleftrightarrow> st = ([], None)"

lemma clean_fail [simp]: "clean (fail rs rn u demand available st) \<longleftrightarrow> clean st \<and> demand \<le> available"
  by (cases st) (auto simp: clean_def fail_def)

lemma fail_demand_le [simp]: "demand \<le> available \<Longrightarrow> fail rs rn u demand available st = st"
  by (simp add: fail_def split_beta)

lemma Validated_bounds:
  "1 \<le> dl_percent (Validated p)" "dl_percent (Validated p) \<le> 99"
  using Validated_range [of p] by simp_all

lemma counters_exact:
  "disk_typed d \<Longrightarrow> counters_valid h d \<longleftrightarrow>
     0 \<le> h_cpu_slots h \<and> 1000 * h_cpu_slots h \<le> max_int64 \<and> 0 \<le> h_memory h \<and> 0 \<le> d_used d \<and>
     0 \<le> d_avail d \<and> d_used d + d_avail d \<le> max_int64"
  by (auto simp: counters_valid_def disk_typed_def in_i64_def i64_eq)

lemma disk_exact:
  assumes "counters_valid h d" "disk_typed d"
  shows "floor_allowance d (dl_percent (Validated (d_fill_limit d))) =
      (if d_shared d then fill_bytes d - d_used d else d_avail d)"
    and "disk_floor d (dl_percent (Validated (d_fill_limit d))) =
      (if d_shared d then d_used d + d_avail d - fill_bytes d else 0)"
    and "0 \<le> fill_bytes d" "fill_bytes d \<le> d_used d + d_avail d"
  using max_used_exact [of "d_used d + d_avail d", OF _ _ Validated_bounds [of "d_fill_limit d"]]
    assms(1) counters_exact [OF assms(2), of h]
  by (auto simp: floor_allowance_def disk_floor_def fill_bytes_def i64_eq)

lemma underflows_exact:
  "- max_int64 \<le> a \<Longrightarrow> a \<le> max_int64 \<Longrightarrow> 0 \<le> r \<Longrightarrow> r \<le> max_int64 \<Longrightarrow>
     underflows a r \<longleftrightarrow> a - r < min_int64"
  by (auto simp: underflows_def i64_eq)

text \<open>
  The balance of a request, its inputs exact: it is clean precisely when the attempt fits, and
  then its figures are the exact ones.
\<close>

definition needs :: "job_class list \<Rightarrow> resource_vec" where
  "needs live = \<lparr>r_cpu = total_need cpu_need live, r_memory = total_need mem_need live,
     r_disk = total_need disk_need live\<rparr>"

definition free_exact :: "job_class list \<Rightarrow> host \<Rightarrow> disk \<Rightarrow> resource_vec" where
  "free_exact live h d =
     \<lparr>r_cpu = 1000 * h_cpu_slots h - total_need cpu_need live,
      r_memory = h_memory h - total_need mem_need live,
      r_disk = (if d_shared d then min (d_avail d) (fill_bytes d - d_used d) else d_avail d)
               - total_need disk_need live\<rparr>"

text \<open>The inputs of a balance: valid classes and counters whose sums fit their type.\<close>

definition balanced :: "job_class \<Rightarrow> job_class list \<Rightarrow> host \<Rightarrow> disk \<Rightarrow> bool" where
  "balanced c live h d \<longleftrightarrow>
     validate c \<and> (\<forall>o' \<in> set live. validate o') \<and> counters_valid h d \<and>
     total_need cpu_need live \<le> max_int64 \<and> total_need mem_need live \<le> max_int64 \<and>
     total_need disk_need live \<le> max_int64"

definition typed :: "job_class \<Rightarrow> job_class list \<Rightarrow> host \<Rightarrow> disk \<Rightarrow> bool" where
  "typed c live h d \<longleftrightarrow>
     class_typed c \<and> (\<forall>o' \<in> set live. class_typed o') \<and> host_typed h \<and> disk_typed d"

lemma same_class_bound: "0 \<le> same_class c live" "same_class c live \<le> int (length live)"
  by (simp_all add: same_class_def)

lemma Evaluate_balance:
  assumes "typed c live h d"
  shows "Evaluate c live h d = Inr a \<longleftrightarrow> balanced c live h d \<and>
    balance c (needs [c]) (needs live) (same_class c live) h d (Validated (d_fill_limit d)) = Inr a"
proof -
  have c: "class_typed c" "\<forall>o' \<in> set live. class_typed o'"
    using assms by (auto simp: typed_def)
  have r: "reserve (cl_name c) live \<lparr>r_cpu = 0, r_memory = 0, r_disk = 0\<rparr> 0 = Inr (acc', n) \<longleftrightarrow>
      (\<forall>o' \<in> set live. validate o') \<and> acc' = needs live \<and> n = same_class c live \<and>
      total_need cpu_need live \<le> max_int64 \<and> total_need mem_need live \<le> max_int64 \<and>
      total_need disk_need live \<le> max_int64" for acc' n
    by (subst reserve_exact) (use c in \<open>auto simp: needs_def same_class_def\<close>)
  show ?thesis
    by (auto simp: Evaluate_def resources_exact [OF c(1)] r balanced_def needs_def)
qed

text \<open>No subtraction of the balance wraps, once its underflow guards have passed.\<close>

lemma balance_arith:
  assumes t: "typed c live h d" and b: "balanced c live h d"
  shows "i64 (i64 (h_cpu_slots h * 1000) - r_cpu (needs live)) = r_cpu (free_exact live h d)"
    and "i64 (h_memory h - r_memory (needs live)) = r_memory (free_exact live h d)"
    and "i64 (d_avail d - r_disk (needs live)) = d_avail d - total_need disk_need live"
    and "i64 (cl_concurrency c - same_class c live) = cl_concurrency c - same_class c live"
    and "disk_allowance d (dl_percent (Validated (d_fill_limit d))) =
      (if d_shared d then min (d_avail d) (fill_bytes d - d_used d) else d_avail d)"
    and "\<not> underflows (fill_bytes d - d_used d) (r_disk (needs live)) \<Longrightarrow>
      i64 (fill_bytes d - d_used d - r_disk (needs live)) = fill_bytes d - d_used d - total_need disk_need live"
    and "underflows (fill_bytes d - d_used d) (r_disk (needs live)) \<longleftrightarrow>
      fill_bytes d - d_used d - total_need disk_need live < min_int64"
    and "\<not> underflows (d_avail d) (r_disk (needs live))"
proof -
  have typed: "class_typed c" "\<forall>o' \<in> set live. class_typed o'" "host_typed h" "disk_typed d"
    using t by (auto simp: typed_def)
  have valid: "validate c" "\<forall>o' \<in> set live. class_typed o' \<and> validate o'" "counters_valid h d"
    using b typed by (auto simp: balanced_def)
  note sums = total_need_bounds [OF valid(2)]
  note bounds = b [unfolded balanced_def] sums counters_exact [OF typed(4), of h] valid(3)
    disk_exact [OF valid(3) typed(4)] same_class_bound [of c live] valid_needs [OF typed(1) valid(1)]
    typed [unfolded host_typed_def class_typed_def in_i64_def]
  show "i64 (i64 (h_cpu_slots h * 1000) - r_cpu (needs live)) = r_cpu (free_exact live h d)"
    using bounds by (simp add: needs_def free_exact_def i64_eq)
  show "i64 (h_memory h - r_memory (needs live)) = r_memory (free_exact live h d)"
    using bounds by (simp add: needs_def free_exact_def i64_eq)
  show "i64 (d_avail d - r_disk (needs live)) = d_avail d - total_need disk_need live"
    using bounds by (simp add: needs_def i64_eq)
  show "i64 (cl_concurrency c - same_class c live) = cl_concurrency c - same_class c live"
    using bounds by (intro i64_eq) linarith+
  show "disk_allowance d (dl_percent (Validated (d_fill_limit d))) =
      (if d_shared d then min (d_avail d) (fill_bytes d - d_used d) else d_avail d)"
    using bounds by (simp add: disk_allowance_def)
  show u: "underflows (fill_bytes d - d_used d) (r_disk (needs live)) \<longleftrightarrow>
      fill_bytes d - d_used d - total_need disk_need live < min_int64"
    using bounds by (subst underflows_exact) (auto simp: needs_def)
  show "i64 (fill_bytes d - d_used d - r_disk (needs live)) = fill_bytes d - d_used d - total_need disk_need live"
    if "\<not> underflows (fill_bytes d - d_used d) (r_disk (needs live))"
    using that bounds unfolding u by (simp add: needs_def i64_eq)
  show "\<not> underflows (d_avail d) (r_disk (needs live))"
    using bounds by (simp add: underflows_def)
qed

text \<open>The predicates of the balance, over exact figures, in the order they are tried.\<close>

definition tried :: "job_class \<Rightarrow> job_class list \<Rightarrow> host \<Rightarrow> disk \<Rightarrow> failure list \<times> cap_error option" where
  "tried c live h d =
     (let free = free_exact live h d;
          cpu_reason = (if h_budget h then lit ''host-budget'' else lit ''cpu-slots'');
          mem_reason = (if h_budget h then lit ''host-budget'' else lit ''memory-slots'');
          st = ([], None);
          st = (if 0 < cl_concurrency c
                then fail (lit ''CLASS_LIMIT'') (lit ''class-concurrency'') (lit ''attempts'') 1
                       (cl_concurrency c - same_class c live) st
                else st);
          st = fail (lit ''CPU_BUDGET'') cpu_reason (lit ''millicores'') (cpu_need c) (r_cpu free) st;
          st = fail (lit ''MEMORY_BUDGET'') mem_reason (lit ''bytes'') (mem_need c) (r_memory free) st;
          st = fail (lit ''DISK_BUDGET'') (lit ''disk-peak'') (lit ''bytes'') (disk_need c)
                 (d_avail d - total_need disk_need live) st
      in if d_shared d
         then fail (lit ''DISK_FLOOR'') (lit ''fill-floor'') (lit ''bytes'') (disk_need c)
                (fill_bytes d - d_used d - total_need disk_need live) st
         else st)"

lemma clean_tried: "clean (tried c live h d) \<longleftrightarrow> fits c live h d"
  by (auto simp: tried_def fits_def free_exact_def Let_def clean_def [of "([], None)"])

definition fits_count :: "job_class \<Rightarrow> job_class list \<Rightarrow> host \<Rightarrow> disk \<Rightarrow> int" where
  "fits_count c live h d =
     (let n = quot3 (free_exact live h d) (needs [c])
      in if 0 < cl_concurrency c then min n (cl_concurrency c - same_class c live) else n)"

lemma balance_exact:
  assumes t: "typed c live h d" and b: "balanced c live h d"
  shows "balance c (needs [c]) (needs live) (same_class c live) h d (Validated (d_fill_limit d)) =
    (if d_shared d \<and> fill_bytes d - d_used d - total_need disk_need live < min_int64
     then Inl FreeDiskUnderflows
     else case snd (tried c live h d) of
            Some e \<Rightarrow> Inl e
          | None \<Rightarrow> Inr \<lparr>al_reserved = needs live, al_free = free_exact live h d, al_demand = needs [c],
              al_fits = (if fst (tried c live h d) = [] then fits_count c live h d else 0),
              al_failures = fst (tried c live h d),
              al_allowance = (if d_shared d then min (d_avail d) (fill_bytes d - d_used d) else d_avail d),
              al_floor = (if d_shared d then d_used d + d_avail d - fill_bytes d else 0),
              al_limit = Validated (d_fill_limit d)\<rparr>)"
proof -
  have v: "counters_valid h d" "disk_typed d"
    using t b by (auto simp: typed_def balanced_def)
  note arith = balance_arith [OF t b] disk_exact [OF v]
  have n1: "needs [c] = \<lparr>r_cpu = cpu_need c, r_memory = mem_need c, r_disk = disk_need c\<rparr>"
    by (simp add: needs_def)
  show ?thesis
  proof (cases "d_shared d")
    case False
    then show ?thesis
      using arith
      by (simp add: balance_def tried_def Let_def n1 free_exact_def fits_count_def needs_def
          cong: option.case_cong if_cong split del: if_split)
  next
    case True
    have "underflows (min (d_avail d) (fill_bytes d - d_used d)) (r_disk (needs live)) \<longleftrightarrow>
        fill_bytes d - d_used d - total_need disk_need live < min_int64"
      using arith(7,8) v(1) b counters_exact [OF v(2), of h] by (auto simp: min_def balanced_def)
    moreover have "\<not> fill_bytes d - d_used d - total_need disk_need live < min_int64 \<Longrightarrow>
        i64 (min (d_avail d) (fill_bytes d - d_used d) - total_need disk_need live) =
        min (d_avail d) (fill_bytes d - d_used d) - total_need disk_need live"
      using arith(3,6,7) by (simp add: min_def needs_def)
    ultimately show ?thesis
      using arith True
      by (cases "fill_bytes d - d_used d - total_need disk_need live < min_int64")
        (simp_all add: balance_def tried_def Let_def n1 free_exact_def fits_count_def needs_def
          cong: option.case_cong if_cong split del: if_split)
  qed
qed

lemma valid_list:
  "typed c live h d \<Longrightarrow> balanced c live h d \<or> (\<forall>o' \<in> set live. validate o') \<Longrightarrow>
     \<forall>o' \<in> set live. class_typed o' \<and> validate o'"
  by (auto simp: typed_def balanced_def)

text \<open>What fits is within every bound, so its sums fit their type.\<close>

lemma fits_balanced:
  assumes t: "typed c live h d" and v: "validate c" "\<forall>o' \<in> set live. validate o'" "counters_valid h d"
    and f: "fits c live h d"
  shows "balanced c live h d"
proof -
  have c: "class_typed c" "host_typed h" "disk_typed d" using t by (auto simp: typed_def)
  note n = valid_needs [OF c(1) v(1)] total_need_bounds [OF valid_list [OF t]]
  show ?thesis
    using f v n c(2) counters_exact [OF c(3), of h]
    by (auto simp: balanced_def fits_def host_typed_def in_i64_def)
qed

lemma Admitted_iff:
  assumes t: "typed c live h d"
  shows "Admit c live h d = Admitted \<longleftrightarrow>
    validate c \<and> (\<forall>o' \<in> set live. validate o') \<and> counters_valid h d \<and> fits c live h d"
proof -
  have adm: "Admit c live h d = Admitted \<longleftrightarrow> (\<exists>a. Evaluate c live h d = Inr a \<and> al_failures a = [])"
    by (auto simp: Admit_def split: sum.splits list.splits)
  have "(\<exists>a. Evaluate c live h d = Inr a \<and> al_failures a = []) \<longleftrightarrow> balanced c live h d \<and> fits c live h d"
  proof (cases "balanced c live h d")
    case True
    have no: "fits c live h d \<Longrightarrow> \<not> (d_shared d \<and> fill_bytes d - d_used d - total_need disk_need live < min_int64)"
      using True valid_needs [of c] t by (auto simp: fits_def balanced_def typed_def)
    have "(\<exists>a. Evaluate c live h d = Inr a \<and> al_failures a = []) \<longleftrightarrow>
        \<not> (d_shared d \<and> fill_bytes d - d_used d - total_need disk_need live < min_int64) \<and> clean (tried c live h d)"
      using True unfolding Evaluate_balance [OF t] balance_exact [OF t True] clean_def
      by (cases "tried c live h d") (auto split: option.splits)
    then show ?thesis using True no clean_tried by blast
  next
    case False
    then show ?thesis using Evaluate_balance [OF t] by simp
  qed
  then show ?thesis
    using adm fits_balanced [OF t] by (auto simp: balanced_def)
qed

subsection \<open>The figures\<close>

lemma same_class_replicate [simp]: "same_class c (replicate k c @ live) = int k + same_class c live"
  by (simp add: same_class_def)

text \<open>More copies of the class fit exactly up to the count.\<close>

lemma fits_count_iff:
  assumes "class_typed c" "validate c"
  shows "fits c (replicate k c @ live) h d \<longleftrightarrow>
    (0 < cl_concurrency c \<longrightarrow> same_class c live < cl_concurrency c) \<and> int k < fits_count c live h d"
proof -
  note n = valid_needs [OF assms]
  have q: "int k < quot3 (free_exact live h d) (needs [c]) \<longleftrightarrow>
      (int k + 1) * cpu_need c + total_need cpu_need live \<le> 1000 * h_cpu_slots h \<and>
      (int k + 1) * mem_need c + total_need mem_need live \<le> h_memory h \<and>
      (int k + 1) * disk_need c + total_need disk_need live \<le> d_avail d \<and>
      (d_shared d \<longrightarrow> (int k + 1) * disk_need c + total_need disk_need live \<le> fill_bytes d - d_used d)"
    using n by (auto simp: quot3_def needs_def less_div_iff free_exact_def)
  show ?thesis
    unfolding fits_count_def Let_def fits_def
    by (cases "0 < cl_concurrency c"; cases "d_shared d")
      (auto simp: q algebra_simps)
qed

lemma typed_replicate: "typed c live h d \<Longrightarrow> typed c (replicate k c @ live) h d"
  by (auto simp: typed_def)

text \<open>
  C26. Admission is exact: on any \<open>int64\<close> inputs, an attempt is admitted if and only if the
  classes and counters are valid and the attempt fits beside the live ones: its class's
  concurrency limit is not reached, and CPU, memory, disk and (on a shared disk) the fill limit
  hold the whole sum. No wrap-around admits a claim that does not fit, and none refuses one
  that does.
\<close>

theorem admit_iff_fits:
  assumes "typed c live h d"
  shows "Admit c live h d = Admitted \<longleftrightarrow>
    validate c \<and> (\<forall>o' \<in> set live. validate o') \<and> counters_valid h d \<and> fits c live h d"
  using assms by (rule Admitted_iff)

definition host_ci :: host where
  "host_ci = HostFrom 8 (32 * GiB)"

definition disk_ci :: disk where
  "disk_ci = \<lparr>d_used = 100 * GiB, d_avail = 100 * GiB, d_shared = True, d_fill_limit = DefaultDiskLimit\<rparr>"

lemma typed_ci: "typed CI [CI] host_ci disk_ci"
  by code_simp

theorem admit_iff_fits_witness:
  "typed CI [CI] host_ci disk_ci \<and> Admit CI [CI] host_ci disk_ci = Admitted"
proof -
  have "validate CI \<and> (\<forall>o' \<in> set [CI]. validate o') \<and> counters_valid host_ci disk_ci \<and> fits CI [CI] host_ci disk_ci"
    by code_simp
  then show ?thesis
    using admit_iff_fits [OF typed_ci] typed_ci by blast
qed

text \<open>
  The accounting is exact: when \<open>Evaluate\<close> returns, the reserved and free resources it
  reports are the integers they stand for (negative when overcommitted, never wrapped), and the
  disk's floor is the total less \<open>floor(total * limit / 100)\<close>.
\<close>

theorem evaluate_figures_exact:
  assumes "typed c live h d" and "Evaluate c live h d = Inr a"
  shows "al_reserved a = needs live \<and> al_free a = free_exact live h d \<and> al_demand a = needs [c] \<and>
    (d_shared d \<longrightarrow> al_floor a = (d_used d + d_avail d)
       - (d_used d + d_avail d) * dl_percent (Validated (d_fill_limit d)) div 100)"
proof -
  have b: "balanced c live h d"
    using assms Evaluate_balance by blast
  show ?thesis
    using assms(2) unfolding Evaluate_balance [OF assms(1)] balance_exact [OF assms(1) b]
    by (auto simp: fill_bytes_def split: if_splits option.splits)
qed

theorem evaluate_figures_exact_witness:
  "typed CI [CI] host_ci disk_ci \<and> (\<exists>a. Evaluate CI [CI] host_ci disk_ci = Inr a \<and> al_free a = free_exact [CI] host_ci disk_ci)"
proof -
  have "\<not> isl (Evaluate CI [CI] host_ci disk_ci)"
    by code_simp
  then obtain a where "Evaluate CI [CI] host_ci disk_ci = Inr a"
    by (cases "Evaluate CI [CI] host_ci disk_ci") auto
  then show ?thesis
    using evaluate_figures_exact [OF typed_ci] typed_ci by blast
qed

text \<open>
  The reported \<open>fits_current\<close> is the exact number of further attempts: with \<open>k\<close> more
  of the class live, the next is admitted if and only if \<open>k\<close> is below it.
\<close>

theorem fits_current_exact:
  assumes t: "typed c live h d" and e: "Evaluate c live h d = Inr a"
  shows "Admit c (replicate k c @ live) h d = Admitted \<longleftrightarrow> int k < al_fits a"
proof -
  have b: "balanced c live h d"
    using t e Evaluate_balance by blast
  have c: "class_typed c" "validate c" "0 < int k + 1"
    using t b by (auto simp: typed_def balanced_def)
  have "al_fits a = (if fits c live h d then fits_count c live h d else 0)"
    using e clean_tried [of c live h d] unfolding Evaluate_balance [OF t] balance_exact [OF t b] clean_def
    by (cases "tried c live h d") (auto split: if_splits option.splits)
  moreover have "fits c live h d \<Longrightarrow> 0 < cl_concurrency c \<Longrightarrow> same_class c live < cl_concurrency c"
    by (simp add: fits_def)
  moreover have "fits c (replicate k c @ live) h d \<Longrightarrow> fits c live h d"
    using fits_count_iff [OF c(1,2), of k live h d] fits_count_iff [OF c(1,2), of 0 live h d] by simp
  ultimately show ?thesis
    using Admitted_iff [OF typed_replicate [OF t], of k] b fits_count_iff [OF c(1,2), of k live h d]
    by (auto simp: balanced_def)
qed

theorem fits_current_exact_witness:
  "typed CI [CI] host_ci disk_ci \<and>
    (\<exists>a. Evaluate CI [CI] host_ci disk_ci = Inr a \<and> al_fits a = 2 \<and>
      Admit CI (replicate 1 CI @ [CI]) host_ci disk_ci = Admitted \<and>
      Admit CI (replicate 2 CI @ [CI]) host_ci disk_ci \<noteq> Admitted)"
proof -
  have "\<not> isl (Evaluate CI [CI] host_ci disk_ci) \<and> al_fits (projr (Evaluate CI [CI] host_ci disk_ci)) = 2"
    by code_simp
  then obtain a where a: "Evaluate CI [CI] host_ci disk_ci = Inr a" "al_fits a = 2"
    by (cases "Evaluate CI [CI] host_ci disk_ci") auto
  then show ?thesis
    using fits_current_exact [OF typed_ci a(1), of 1] fits_current_exact [OF typed_ci a(1), of 2] typed_ci
    by auto
qed

subsection \<open>A host's claims over time\<close>

text \<open>
  The claims a host holds: attempts enter only when \<open>Admit\<close> says so, against the disk as it
  is at that moment, and leave in any order.
\<close>

inductive claims :: "host \<Rightarrow> job_class list \<Rightarrow> bool" for h where
  none: "claims h []"
| admit: "claims h live \<Longrightarrow> typed c live h d \<Longrightarrow> Admit c live h d = Admitted \<Longrightarrow> claims h (c # live)"
| finish: "claims h (xs @ c # ys) \<Longrightarrow> claims h (xs @ ys)"

lemma claims_within:
  assumes "claims h live" "0 \<le> h_cpu_slots h" "0 \<le> h_memory h"
  shows "(\<forall>c \<in> set live. class_typed c \<and> validate c) \<and>
    total_need cpu_need live \<le> 1000 * h_cpu_slots h \<and> total_need mem_need live \<le> h_memory h"
  using assms(1)
proof (induction rule: claims.induct)
  case (admit live c d)
  then show ?case
    by (auto simp: Admitted_iff fits_def typed_def)
next
  case (finish xs c ys)
  then have "class_typed c" "validate c" by simp_all
  from valid_needs [OF this] finish.IH show ?case by auto
qed (use assms in simp)

text \<open>
  C25. A host is never overcommitted: whatever order attempts are admitted and finish in, the
  live attempts' CPU and memory, VM overhead included, stay within the host's slots.
\<close>

theorem host_never_overcommitted:
  assumes "claims h live" "0 \<le> h_cpu_slots h" "0 \<le> h_memory h"
  shows "total_need cpu_need live \<le> 1000 * h_cpu_slots h \<and> total_need mem_need live \<le> h_memory h"
  using claims_within [OF assms] by simp

theorem host_never_overcommitted_witness:
  "claims host_ci [CI] \<and> total_need mem_need [CI] \<le> h_memory host_ci"
proof -
  have t: "typed CI [] host_ci disk_ci" "0 \<le> h_cpu_slots host_ci" "0 \<le> h_memory host_ci"
    by code_simp+
  have "Admit CI [] host_ci disk_ci = Admitted"
    by code_simp
  then have c: "claims host_ci [CI]"
    using claims.admit [OF claims.none t(1)] by simp
  then show ?thesis
    using host_never_overcommitted [OF c t(2,3)] by simp
qed

end
