(* ===== verification/AtMostOnce.thy ===== *)
theory AtMostOnce
  imports Prelude
begin

text \<open>
  The contract the durable stores share: permission to act on a key is granted at most once,
  whatever operations, failures and restarts come between. A client relies on the flag of one
  step; the provider promises that a grant is remembered and that what is remembered is never
  granted again.
\<close>

text \<open>\<open>run\<close> performs the operations in order and collects what each granted.\<close>

fun run :: "('op \<Rightarrow> 's \<Rightarrow> 's \<times> 'k option) \<Rightarrow> 'op list \<Rightarrow> 's \<Rightarrow> 's \<times> 'k list" where
  "run step [] s = (s, [])"
| "run step (x # xs) s =
     (let (s', g) = step x s; (s'', gs) = run step xs s'
      in (s'', (case g of None \<Rightarrow> gs | Some k \<Rightarrow> k # gs)))"

locale at_most_once =
  fixes step :: "'op \<Rightarrow> 's \<Rightarrow> 's \<times> 'k option"
    and settled :: "'k \<Rightarrow> 's \<Rightarrow> bool"
    and inv :: "'s \<Rightarrow> bool"
  assumes keeps_inv: "inv s \<Longrightarrow> inv (fst (step x s))"
    and grant_settles: "inv s \<Longrightarrow> snd (step x s) = Some k \<Longrightarrow> settled k (fst (step x s))"
    and settled_stays: "inv s \<Longrightarrow> settled k s \<Longrightarrow> settled k (fst (step x s))"
    and settled_denied: "inv s \<Longrightarrow> settled k s \<Longrightarrow> snd (step x s) \<noteq> Some k"
begin

lemma run_inv: "inv s \<Longrightarrow> inv (fst (run step xs s))"
  by (induction xs arbitrary: s) (auto simp: split_beta Let_def keeps_inv)

lemma settled_run:
  "inv s \<Longrightarrow> settled k s \<Longrightarrow> settled k (fst (run step xs s)) \<and> k \<notin> set (snd (run step xs s))"
proof (induction xs arbitrary: s)
  case (Cons x xs)
  show ?case
    using Cons.IH [OF keeps_inv [OF Cons.prems(1), of x] settled_stays [OF Cons.prems, of x]]
      settled_denied [OF Cons.prems, of x]
    by (auto simp: split_beta Let_def split: option.split)
qed simp

lemma grants_distinct: "inv s \<Longrightarrow> distinct (snd (run step xs s))"
proof (induction xs arbitrary: s)
  case (Cons x xs)
  note inv' = keeps_inv [OF Cons.prems, of x]
  show ?case
    using Cons.IH [OF inv'] settled_run [OF inv' grant_settles [OF Cons.prems]]
    by (auto simp: split_beta Let_def split: option.split)
qed simp

end

end
