(* ===== verification/AtomicFile.thy ===== *)
theory AtomicFile
  imports Prelude
begin

text \<open>
  How the durable stores replace a state file: a file of its own is created, written, synced and
  closed, renamed over the old one, and the directory is synced. The rename is the point at which
  the state on disk changes; whether each call succeeds is an argument.
\<close>

record file_calls =
  fc_create :: bool
  fc_write :: bool
  fc_sync :: bool
  fc_close :: bool
  fc_rename :: bool
  fc_open_dir :: bool
  fc_sync_dir :: bool

datatype save_outcome = Committed | NotCommitted | CommittedUncertain

definition replace_file :: "file_calls \<Rightarrow> save_outcome" where
  "replace_file c =
     (if \<not> fc_create c then NotCommitted
      else if \<not> (fc_write c \<and> fc_sync c) then NotCommitted
      else if \<not> fc_close c then NotCommitted
      else if \<not> fc_rename c then NotCommitted
      else if \<not> fc_open_dir c then CommittedUncertain
      else if \<not> fc_sync_dir c then CommittedUncertain
      else Committed)"

definition calls_ok :: file_calls where
  "calls_ok = \<lparr>fc_create = True, fc_write = True, fc_sync = True, fc_close = True, fc_rename = True,
     fc_open_dir = True, fc_sync_dir = True\<rparr>"

lemma replace_file_ok [simp]: "replace_file calls_ok = Committed"
  by (simp add: replace_file_def calls_ok_def)

text \<open>Success means that every call succeeded, so the state is on disk and synced.\<close>

lemma replace_file_Committed: "replace_file c = Committed \<longleftrightarrow> c = calls_ok"
  by (cases c) (auto simp: replace_file_def calls_ok_def)

end
