(* ===== verification/ProviderFence.thy ===== *)
theory ProviderFence
  imports GoText AtMostOnce AtomicFile
begin

text \<open>
  \<open>internal/providerfence/store.go\<close>: the durable identity fence. The disk holds the lock
  file's presence and the decoded contents of \<open>state.json\<close> (encoding and decoding JSON is the
  identity here, its length a parameter). Every system call whose outcome the code tests is a
  field of the environment of one transaction, so that all failures, including a write that
  reports an error after it took effect, are among the runs the theorems speak of.
\<close>

subsection \<open>Data\<close>

abbreviation maxBytes :: nat where "maxBytes \<equiv> 1048576"
abbreviation maxRecords :: nat where "maxRecords \<equiv> 2048"

definition identity :: "bytes \<Rightarrow> bool" where
  "identity s \<longleftrightarrow> ident128 s"

definition digest :: "bytes \<Rightarrow> bool" where
  "digest s \<longleftrightarrow> hex64 s"

text \<open>A phase is a string in the file; \<open>OtherPhase\<close> is any the code does not know.\<close>

datatype phase = Reserved | Starting | Unknown | Expired | Abandoned | OtherPhase bytes

record claim_record =
  f_id :: bytes
  f_binding :: bytes
  f_incarnation :: bytes
  f_token :: bytes
  f_phase :: phase
  f_expires :: "int option"  \<comment> \<open>\<open>None\<close> is the zero time\<close>

record fence_state =
  s_schema :: bytes
  s_namespace :: bytes
  s_incarnation :: bytes
  s_retired :: "bytes list"
  s_records :: "(bytes \<times> claim_record) list"  \<comment> \<open>the map, one entry for each key\<close>

record store =
  h_namespace :: bytes
  h_incarnation :: bytes

datatype fence_error =
    InvalidArgument | DirectoryRefused | LockFailed | ReadFailed | MissingState
  | StateMismatch | IncarnationFenced | InvalidRetained | SaveFailed
  | RetiredIncarnation | IncarnationsExhausted | BindingMismatch | IdentitiesExhausted
  | RandomFailed | MismatchedClaim | ClaimFenced | StartedClaim | NotObserved

text \<open>Whether each call of \<open>save\<close> succeeds.\<close>

record save_calls =
  sv_marshal :: bool
  sv_rand :: bool
  sv_file :: file_calls

text \<open>
  The environment of one transaction: the directory's checks, opening and taking the lock,
  reading the state file, the save, the clock when the scan reaches a record and when the
  mutation runs, and the random token.
\<close>

record fence_env =
  e_dir_ok :: bool
  e_open_lock :: bool
  e_lock_ok :: bool
  e_read_ok :: bool
  e_save :: save_calls
  e_scan :: "bytes \<Rightarrow> int"
  e_now :: int
  e_rand :: "bytes option"

record fence_disk =
  k_lock :: bool
  k_state :: "fence_state option"

subsection \<open>The transaction\<close>

definition schema :: bytes where
  "schema = lit ''pomar.provider-fence/v1''"

definition retained_ok :: "bytes \<times> claim_record \<Rightarrow> bool" where
  "retained_ok p \<longleftrightarrow>
     (let (i, r) = p in
      i = f_id r \<and> identity i \<and> digest (f_binding r) \<and> identity (f_incarnation r) \<and>
      (case f_phase r of
         Reserved \<Rightarrow> digest (f_token r) \<and> f_expires r \<noteq> None
       | Starting \<Rightarrow> digest (f_token r) \<and> f_expires r \<noteq> None
       | Unknown \<Rightarrow> digest (f_token r) \<and> f_expires r \<noteq> None
       | Expired \<Rightarrow> f_token r = []
       | Abandoned \<Rightarrow> f_token r = []
       | OtherPhase _ \<Rightarrow> False))"

definition expire :: "(bytes \<Rightarrow> int) \<Rightarrow> bytes \<times> claim_record \<Rightarrow> bytes \<times> claim_record" where
  "expire clock p =
     (let (i, r) = p in
      case f_expires r of
        Some t \<Rightarrow>
          if f_phase r = Reserved \<and> \<not> clock i < t then (i, r\<lparr>f_phase := Expired, f_token := []\<rparr>) else p
      | None \<Rightarrow> p)"

text \<open>The state as the transaction reads it, checked and with expired reservations fenced.\<close>

definition load :: "bool \<Rightarrow> store \<Rightarrow> fence_env \<Rightarrow> bool \<Rightarrow> fence_state option \<Rightarrow> fence_error + fence_state" where
  "load opening s e newLock file =
     bindE (guardE (e_read_ok e) ReadFailed) (\<lambda>_.
     bindE (case file of
              Some st \<Rightarrow> Inr st
            | None \<Rightarrow> bindE (guardE (opening \<and> newLock) MissingState) (\<lambda>_.
                Inr \<lparr>s_schema = schema, s_namespace = h_namespace s, s_incarnation = [],
                     s_retired = [], s_records = []\<rparr>)) (\<lambda>st.
     bindE (guardE (s_schema st = schema \<and> s_namespace st = h_namespace s \<and>
                    length (s_records st) \<le> maxRecords) StateMismatch) (\<lambda>_.
     bindE (guardE (opening \<or> s_incarnation st = h_incarnation s) IncarnationFenced) (\<lambda>_.
     bindE (guardE (list_all retained_ok (s_records st)) InvalidRetained) (\<lambda>_.
     Inr (st\<lparr>s_records := map (expire (e_scan e)) (s_records st)\<rparr>))))))"

text \<open>
  \<open>save\<close>: the state is written to a file of its own, which is then renamed over the old one;
  the rename is the point at which the state changes. \<open>enc st\<close> is the length of the state's
  encoding.
\<close>

definition save :: "(fence_state \<Rightarrow> nat) \<Rightarrow> save_calls \<Rightarrow> fence_state \<Rightarrow> save_outcome" where
  "save enc c st =
     (if \<not> sv_marshal c \<or> maxBytes < enc st then NotCommitted
      else if \<not> sv_rand c then NotCommitted
      else replace_file (sv_file c))"

definition saved :: "save_calls \<Rightarrow> bool" where
  "saved c \<longleftrightarrow> sv_marshal c \<and> sv_rand c \<and> replace_file (sv_file c) = Committed"

lemma save_saved: "saved c \<Longrightarrow> save enc c st = (if maxBytes < enc st then NotCommitted else Committed)"
  by (simp add: save_def saved_def)

text \<open>
  The state is saved whether or not the
  mutation was refused.
\<close>

definition transaction :: "(fence_state \<Rightarrow> nat) \<Rightarrow> bool \<Rightarrow> store \<Rightarrow> fence_env \<Rightarrow>
    (fence_state \<Rightarrow> (fence_error + 'a) \<times> fence_state) \<Rightarrow> fence_disk \<Rightarrow> (fence_error + 'a) \<times> fence_disk" where
  "transaction enc opening s e mutate k =
     (if \<not> e_open_lock e then (Inl LockFailed, k)
      else let newLock = (\<not> k_lock k); k = k\<lparr>k_lock := True\<rparr> in
      if \<not> e_lock_ok e then (Inl LockFailed, k)
      else case load opening s e newLock (k_state k) of
        Inl err \<Rightarrow> (Inl err, k)
      | Inr st \<Rightarrow>
          let (r, st') = mutate st in
          (case save enc (e_save e) st' of
             Committed \<Rightarrow> (r, k\<lparr>k_state := Some st'\<rparr>)
           | NotCommitted \<Rightarrow> (Inl SaveFailed, k)
           | CommittedUncertain \<Rightarrow> (Inl SaveFailed, k\<lparr>k_state := Some st'\<rparr>)))"

subsection \<open>Operations\<close>

definition reincarnate :: "claim_record \<Rightarrow> claim_record" where
  "reincarnate r =
     (case f_phase r of
        Reserved \<Rightarrow> r\<lparr>f_phase := Expired, f_token := []\<rparr>
      | Starting \<Rightarrow> r\<lparr>f_phase := Unknown\<rparr>
      | _ \<Rightarrow> r)"

definition open_mutation :: "bytes \<Rightarrow> fence_state \<Rightarrow> (fence_error + unit) \<times> fence_state" where
  "open_mutation incarnation st =
     (if s_incarnation st = incarnation then (Inr (), st)
      else if incarnation \<in> set (s_retired st) then (Inl RetiredIncarnation, st)
      else let st = (if s_incarnation st \<noteq> [] then st\<lparr>s_retired := s_retired st @ [s_incarnation st]\<rparr> else st)
      in if maxRecords < length (s_retired st) then (Inl IncarnationsExhausted, st)
         else (Inr (), st\<lparr>s_records := map (\<lambda>(i, r). (i, reincarnate r)) (s_records st),
                          s_incarnation := incarnation\<rparr>))"

definition Open :: "(fence_state \<Rightarrow> nat) \<Rightarrow> bytes \<Rightarrow> bytes \<Rightarrow> fence_env \<Rightarrow> fence_disk \<Rightarrow>
    (fence_error + store) \<times> fence_disk" where
  "Open enc namespace incarnation e k =
     (if \<not> identity namespace \<or> \<not> identity incarnation then (Inl InvalidArgument, k)
      else if \<not> e_dir_ok e then (Inl DirectoryRefused, k)
      else let s = \<lparr>h_namespace = namespace, h_incarnation = incarnation\<rparr>;
               (r, k') = transaction enc True s e (open_mutation incarnation) k
           in (bindE r (\<lambda>_. Inr s), k'))"

definition reserve_mutation :: "store \<Rightarrow> bytes \<Rightarrow> bytes \<Rightarrow> int \<Rightarrow> fence_env \<Rightarrow> fence_state \<Rightarrow>
    (fence_error + claim_record) \<times> fence_state" where
  "reserve_mutation s i binding lease e st =
     (case map_of (s_records st) i of
        Some r \<Rightarrow> (if f_binding r \<noteq> binding then (Inl BindingMismatch, st) else (Inr r, st))
      | None \<Rightarrow>
          if maxRecords \<le> length (s_records st) then (Inl IdentitiesExhausted, st)
          else (case e_rand e of
                  None \<Rightarrow> (Inl RandomFailed, st)
                | Some token \<Rightarrow>
                    let r = \<lparr>f_id = i, f_binding = binding, f_incarnation = h_incarnation s, f_token = token,
                             f_phase = Reserved, f_expires = Some (e_now e + lease)\<rparr>
                    in (Inr r, st\<lparr>s_records := put i r (s_records st)\<rparr>)))"

text \<open>The lease in nanoseconds, at most 30 seconds.\<close>

definition Reserve :: "(fence_state \<Rightarrow> nat) \<Rightarrow> store \<Rightarrow> bytes \<Rightarrow> bytes \<Rightarrow> int \<Rightarrow> fence_env \<Rightarrow> fence_disk \<Rightarrow>
    (fence_error + claim_record) \<times> fence_disk" where
  "Reserve enc s i binding lease e k =
     (if \<not> identity i \<or> \<not> digest binding \<or> lease \<le> 0 \<or> 30000000000 < lease then (Inl InvalidArgument, k)
      else transaction enc False s e (reserve_mutation s i binding lease e) k)"

definition start_mutation :: "store \<Rightarrow> bytes \<Rightarrow> bytes \<Rightarrow> bytes \<Rightarrow> fence_state \<Rightarrow>
    (fence_error + claim_record \<times> bool) \<times> fence_state" where
  "start_mutation s i binding token st =
     (case map_of (s_records st) i of
        None \<Rightarrow> (Inl MismatchedClaim, st)
      | Some r \<Rightarrow>
          if f_binding r \<noteq> binding \<or> f_token r \<noteq> token \<or> token = [] \<or> f_incarnation r \<noteq> h_incarnation s
          then (Inl MismatchedClaim, st)
          else if f_phase r = Reserved
          then let r = r\<lparr>f_phase := Starting\<rparr> in (Inr (r, True), st\<lparr>s_records := put i r (s_records st)\<rparr>)
          else if f_phase r = Starting \<or> f_phase r = Unknown then (Inr (r, False), st)
          else (Inl ClaimFenced, st))"

definition Start :: "(fence_state \<Rightarrow> nat) \<Rightarrow> store \<Rightarrow> bytes \<Rightarrow> bytes \<Rightarrow> bytes \<Rightarrow> fence_env \<Rightarrow> fence_disk \<Rightarrow>
    (fence_error + claim_record \<times> bool) \<times> fence_disk" where
  "Start enc s i binding token e k = transaction enc False s e (start_mutation s i binding token) k"

definition abandon_mutation :: "store \<Rightarrow> bytes \<Rightarrow> bytes \<Rightarrow> fence_state \<Rightarrow>
    (fence_error + claim_record) \<times> fence_state" where
  "abandon_mutation s i binding st =
     (let abandon = (\<lambda>r. let r = r\<lparr>f_phase := Abandoned, f_token := []\<rparr>
                         in (Inr r, st\<lparr>s_records := put i r (s_records st)\<rparr>))
      in case map_of (s_records st) i of
        Some r \<Rightarrow>
          if f_binding r \<noteq> binding then (Inl BindingMismatch, st)
          else if f_phase r = Starting \<or> f_phase r = Unknown then (Inl StartedClaim, st)
          else abandon r
      | None \<Rightarrow>
          if maxRecords \<le> length (s_records st) then (Inl IdentitiesExhausted, st)
          else abandon \<lparr>f_id = i, f_binding = binding, f_incarnation = h_incarnation s, f_token = [],
                        f_phase = OtherPhase [], f_expires = None\<rparr>)"

definition Abandon :: "(fence_state \<Rightarrow> nat) \<Rightarrow> store \<Rightarrow> bytes \<Rightarrow> bytes \<Rightarrow> fence_env \<Rightarrow> fence_disk \<Rightarrow>
    (fence_error + claim_record) \<times> fence_disk" where
  "Abandon enc s i binding e k =
     (if \<not> identity i \<or> \<not> digest binding then (Inl InvalidArgument, k)
      else transaction enc False s e (abandon_mutation s i binding) k)"

definition Lookup :: "(fence_state \<Rightarrow> nat) \<Rightarrow> store \<Rightarrow> bytes \<Rightarrow> fence_env \<Rightarrow> fence_disk \<Rightarrow>
    (fence_error + claim_record) \<times> fence_disk" where
  "Lookup enc s i e k =
     transaction enc False s e
       (\<lambda>st. (case map_of (s_records st) i of None \<Rightarrow> Inl NotObserved | Some r \<Rightarrow> Inr r, st)) k"

subsection \<open>Runs\<close>

text \<open>
  Any custodian, through any handle, with any environment: one operation of a run, and the
  identity to which it gave permission to execute, if it did.
\<close>

datatype fence_op =
    OpOpen bytes bytes fence_env
  | OpReserve store bytes bytes int fence_env
  | OpStart store bytes bytes bytes fence_env
  | OpAbandon store bytes bytes fence_env
  | OpLookup store bytes fence_env

definition first_start :: "bytes \<Rightarrow> fence_error + claim_record \<times> bool \<Rightarrow> bytes option" where
  "first_start i r = (case r of Inr (_, True) \<Rightarrow> Some i | _ \<Rightarrow> None)"

fun fence_step :: "(fence_state \<Rightarrow> nat) \<Rightarrow> fence_op \<Rightarrow> fence_disk \<Rightarrow> fence_disk \<times> bytes option" where
  "fence_step enc (OpOpen ns inc e) k = (snd (Open enc ns inc e k), None)"
| "fence_step enc (OpReserve s i b lease e) k = (snd (Reserve enc s i b lease e k), None)"
| "fence_step enc (OpStart s i b t e) k =
     (let (r, k') = Start enc s i b t e k in (k', first_start i r))"
| "fence_step enc (OpAbandon s i b e) k = (snd (Abandon enc s i b e k), None)"
| "fence_step enc (OpLookup s i e) k = (snd (Lookup enc s i e k), None)"

subsection \<open>What a transaction preserves\<close>

definition holds :: "(fence_state \<Rightarrow> bool) \<Rightarrow> fence_disk \<Rightarrow> bool" where
  "holds P k \<longleftrightarrow> (\<exists>st. k_state k = Some st \<and> P st)"

definition scanned :: "(bytes \<Rightarrow> int) \<Rightarrow> fence_state \<Rightarrow> fence_state" where
  "scanned clock st = st\<lparr>s_records := map (expire clock) (s_records st)\<rparr>"

lemma load_Some: "load opening s e nl (Some st) = Inr st' \<Longrightarrow> st' = scanned (e_scan e) st"
  by (auto simp: load_def scanned_def)

lemma transaction_holds:
  assumes "\<And>clock st. P st \<Longrightarrow> P (scanned clock st)" and "\<And>st. P st \<Longrightarrow> P (snd (mutate st))"
    and "holds P k"
  shows "holds P (snd (transaction enc opening s e mutate k))"
proof -
  obtain st where st: "k_state k = Some st" "P st"
    using assms(3) by (auto simp: holds_def)
  show ?thesis
  proof (cases "load opening s e (\<not> k_lock k) (Some st)")
    case (Inl err)
    then show ?thesis using st by (auto simp: transaction_def Let_def holds_def)
  next
    case (Inr st')
    then have "P (snd (mutate st'))"
      using load_Some [OF Inr] st(2) assms(1,2) by blast
    then show ?thesis
      using st Inr by (auto simp: transaction_def Let_def holds_def split_beta split: save_outcome.split)
  qed
qed

text \<open>A step preserves what its scan and every mutation preserve.\<close>

lemma step_holds:
  assumes "\<And>clock st. P st \<Longrightarrow> P (scanned clock st)"
    and "\<And>inc st. P st \<Longrightarrow> P (snd (open_mutation inc st))"
    and "\<And>s i b lease e st. P st \<Longrightarrow> P (snd (reserve_mutation s i b lease e st))"
    and "\<And>s i b t st. P st \<Longrightarrow> P (snd (start_mutation s i b t st))"
    and "\<And>s i b st. P st \<Longrightarrow> P (snd (abandon_mutation s i b st))"
    and "holds P k"
  shows "holds P (fst (fence_step enc op k))"
  using assms(6)
  by (cases op) (auto simp: Open_def Reserve_def Start_def Abandon_def Lookup_def Let_def split_beta
      intro!: transaction_holds assms(1-5))

lemma run_holds:
  assumes "\<And>k op. holds P k \<Longrightarrow> holds P (fst (fence_step enc op k))" and "holds P k"
  shows "holds P (fst (run (fence_step enc) ops k))"
  using assms(2) by (induction ops arbitrary: k) (auto simp: Let_def split_beta intro: assms(1))

lemma map_of_expire:
  "map_of (map (expire clock) m) i = map_option (\<lambda>r. snd (expire clock (i, r))) (map_of m i)"
  by (induction m) (auto simp: expire_def Let_def split_beta split: option.splits)

lemma map_of_reincarnate:
  "map_of (map (\<lambda>(i, r). (i, reincarnate r)) m) i = map_option reincarnate (map_of m i)"
  by (induction m) auto

text \<open>Two facts about one identity: it is bound to a request, it has been started.\<close>

definition bound :: "bytes \<Rightarrow> bytes \<Rightarrow> fence_state \<Rightarrow> bool" where
  "bound i b st \<longleftrightarrow> (\<exists>r. map_of (s_records st) i = Some r \<and> f_binding r = b)"

definition started :: "bytes \<Rightarrow> fence_state \<Rightarrow> bool" where
  "started i st \<longleftrightarrow> (\<exists>r. map_of (s_records st) i = Some r \<and> f_phase r \<in> {Starting, Unknown})"

lemma expire_frame [simp]:
  "f_binding (snd (expire clock (i, r))) = f_binding r"
  "f_phase r \<in> {Starting, Unknown} \<Longrightarrow> snd (expire clock (i, r)) = r"
  by (auto simp: expire_def split: option.splits)

lemma reincarnate_frame [simp]:
  "f_binding (reincarnate r) = f_binding r"
  "f_phase r \<in> {Starting, Unknown} \<Longrightarrow> f_phase (reincarnate r) = Unknown"
  by (auto simp: reincarnate_def split: phase.splits)

lemmas mutation_defs =
  open_mutation_def reserve_mutation_def start_mutation_def abandon_mutation_def scanned_def Let_def

lemma bound_step: "holds (bound i b) k \<Longrightarrow> holds (bound i b) (fst (fence_step enc op k))"
  by (rule step_holds)
    (auto simp: bound_def mutation_defs map_of_put map_of_expire map_of_reincarnate
      split: option.splits)

lemma started_step: "holds (started i) k \<Longrightarrow> holds (started i) (fst (fence_step enc op k))"
  by (rule step_holds)
    (auto simp: started_def mutation_defs map_of_put map_of_expire map_of_reincarnate
      split: option.splits)

lemma first_settles:
  assumes "snd (fence_step enc op k) = Some i"
  shows "holds (started i) (fst (fence_step enc op k))"
  using assms
  by (cases op)
    (auto simp: Start_def transaction_def start_mutation_def first_start_def Let_def split_beta
      holds_def started_def map_of_put split: sum.splits save_outcome.splits option.splits if_splits prod.splits bool.splits)

text \<open>What a transaction returns is what its mutation returned on the scanned state.\<close>

lemma transaction_Inr:
  assumes "fst (transaction enc False s e mutate k) = Inr x"
  shows "\<exists>st. k_state k = Some st \<and> s_incarnation st = h_incarnation s \<and>
    fst (mutate (scanned (e_scan e) st)) = Inr x"
  using assms
  by (auto simp: transaction_def load_def scanned_def Let_def split_beta
      split: if_splits sum.splits save_outcome.splits option.splits)

lemma started_denied:
  assumes "holds (started i) k"
  shows "snd (fence_step enc op k) \<noteq> Some i"
proof (cases op)
  case (OpStart s j b t e)
  show ?thesis
  proof
    assume "snd (fence_step enc op k) = Some i"
    then obtain r where "j = i" "fst (Start enc s i b t e k) = Inr (r, True)"
      using OpStart by (auto simp: first_start_def Let_def split_beta split: sum.splits prod.splits bool.splits)
    then obtain st where st: "k_state k = Some st"
        "fst (start_mutation s i b t (scanned (e_scan e) st)) = Inr (r, True)"
      using transaction_Inr [of enc s e "start_mutation s i b t" k] by (auto simp: Start_def)
    then show False
      using assms by (auto simp: holds_def started_def start_mutation_def scanned_def map_of_expire Let_def
          split: if_splits)
  qed
qed simp_all

interpretation fence: at_most_once "fence_step enc" "\<lambda>i. holds (started i)" "\<lambda>_. True" for enc
  by unfold_locales (auto simp: first_settles started_step started_denied)

text \<open>
  C2. Permission to execute is given at most once for each identity: in any sequence of
  operations by any custodians, with any read, write and lock failures, lost responses and new
  incarnations between them, no two \<open>Start\<close> calls for one identity return first.
\<close>

theorem first_start_at_most_once: "distinct (snd (run (fence_step enc) ops k))"
  by (rule fence.grants_distinct) simp

text \<open>
  A started claim is never released: once an identity's record is STARTING or UNKNOWN, no
  lease expiry, abandonment, reservation or new incarnation makes it anything else, and no later
  \<open>Start\<close> returns first for it.
\<close>

theorem started_never_released:
  assumes "holds (started i) k"
  shows "holds (started i) (fst (run (fence_step enc) ops k)) \<and> i \<notin> set (snd (run (fence_step enc) ops k))"
  using fence.settled_run [OF TrueI assms] .

text \<open>
  An identity stays bound: once a record exists it is never evicted, and its request digest
  never changes.
\<close>

theorem binding_never_changes:
  assumes "holds (bound i b) k"
  shows "holds (bound i b) (fst (run (fence_step enc) ops k))"
  by (rule run_holds [OF bound_step assms])

subsection \<open>Incarnations\<close>

definition superseded :: "bytes \<Rightarrow> fence_state \<Rightarrow> bool" where
  "superseded inc st \<longleftrightarrow> inc \<in> set (s_retired st) \<and> s_incarnation st \<noteq> inc"






subsection \<open>A reserved claim starts\<close>








subsection \<open>A refused opening is saved\<close>

text \<open>
  When the list of retired incarnations is full, \<open>Open\<close> refuses a new incarnation, yet
  the state it saves has the current incarnation appended to the list: each refused attempt
  makes the file longer, until its encoding passes the limit and every later save fails.
\<close>

theorem refused_open_grows_the_state:
  assumes "identity ns" "identity inc" "e_dir_ok e" "e_open_lock e" "e_lock_ok e" "e_read_ok e"
    "saved (e_save e)" "k_state k = Some st" "s_schema st = schema" "s_namespace st = ns"
    "length (s_records st) \<le> maxRecords" "list_all retained_ok (s_records st)"
    "s_incarnation st \<noteq> []" "s_incarnation st \<noteq> inc" "inc \<notin> set (s_retired st)"
    "maxRecords \<le> length (s_retired st)"
    "enc (scanned (e_scan e) st\<lparr>s_retired := s_retired st @ [s_incarnation st]\<rparr>) \<le> maxBytes"
  shows "fst (Open enc ns inc e k) = Inl IncarnationsExhausted \<and>
    (\<exists>st'. k_state (snd (Open enc ns inc e k)) = Some st' \<and>
      s_retired st' = s_retired st @ [s_incarnation st] \<and> s_incarnation st' = s_incarnation st)"
  using assms
  by (simp add: Open_def transaction_def load_def open_mutation_def scanned_def Let_def save_saved)

definition save_ok :: save_calls where
  "save_ok = \<lparr>sv_marshal = True, sv_rand = True, sv_file = calls_ok\<rparr>"

lemma saved_save_ok [simp]: "saved save_ok"
  by (simp add: saved_def save_ok_def)

definition env_ok :: fence_env where
  "env_ok = \<lparr>e_dir_ok = True, e_open_lock = True, e_lock_ok = True, e_read_ok = True, e_save = save_ok,
     e_scan = (\<lambda>_. 5), e_now = 5, e_rand = Some (replicate 64 0x61)\<rparr>"

definition full_fence :: fence_state where
  "full_fence = \<lparr>s_schema = schema, s_namespace = lit ''n'', s_incarnation = lit ''b'',
     s_retired = replicate 2048 (lit ''a''), s_records = []\<rparr>"

theorem refused_open_grows_the_state_witness:
  "\<exists>st'. k_state (snd (Open (\<lambda>_. 0) (lit ''n'') (lit ''c'') env_ok \<lparr>k_lock = True, k_state = Some full_fence\<rparr>)) = Some st' \<and>
     length (s_retired st') = 2049"
proof -
  have a: "identity (lit ''n'')" "identity (lit ''c'')" "lit ''c'' \<noteq> lit ''a''"
    by code_simp+
  show ?thesis
    using refused_open_grows_the_state [of "lit ''n''" "lit ''c''" env_ok
        "\<lparr>k_lock = True, k_state = Some full_fence\<rparr>" full_fence "\<lambda>_. 0"] a
    by (auto simp: env_ok_def full_fence_def lit_def)
qed

text \<open>A fence with one started claim, whose earlier incarnation \<open>a\<close> is retired.\<close>

definition claim_c :: claim_record where
  "claim_c = \<lparr>f_id = lit ''c'', f_binding = replicate 64 0x62, f_incarnation = lit ''b'',
     f_token = replicate 64 0x61, f_phase = Starting, f_expires = Some 9\<rparr>"

definition fence_c :: fence_disk where
  "fence_c = \<lparr>k_lock = True, k_state = Some \<lparr>s_schema = schema, s_namespace = lit ''n'',
     s_incarnation = lit ''b'', s_retired = [lit ''a''], s_records = [(lit ''c'', claim_c)]\<rparr>\<rparr>"

lemma fence_c_facts:
  "holds (started (lit ''c'')) fence_c" "holds (bound (lit ''c'') (replicate 64 0x62)) fence_c"
  "holds (superseded (lit ''a'')) fence_c"
  by (simp_all add: fence_c_def claim_c_def holds_def started_def bound_def superseded_def lit_def)

theorem started_never_released_witness:
  "holds (started (lit ''c'')) (fst (run (fence_step (\<lambda>_. 0)) [OpOpen (lit ''n'') (lit ''d'') env_ok] fence_c))"
  using started_never_released [OF fence_c_facts(1)] by blast

theorem binding_never_changes_witness:
  "holds (bound (lit ''c'') (replicate 64 0x62))
     (fst (run (fence_step (\<lambda>_. 0)) [OpOpen (lit ''n'') (lit ''d'') env_ok] fence_c))"
  by (rule binding_never_changes [OF fence_c_facts(2)])



end
