(* ===== verification/OpJournal.thy ===== *)
theory OpJournal
  imports GoText AtMostOnce
begin

text \<open>
  \<open>internal/sessiond/opjournal.go\<close>: a session's durable record of what became of each
  operation. The file is a sequence of lines, each a record or bytes that do not parse, and a
  torn tail without a newline; appending after a torn tail joins the two into one line that does
  not parse, as it does on disk. The length of a record's line is a parameter. What each write
  did is an argument, so a short write, a failed sync and a crash are all among the runs.
\<close>

subsection \<open>Data\<close>

abbreviation opPending :: bytes where "opPending \<equiv> lit ''pending''"
abbreviation opSent :: bytes where "opSent \<equiv> lit ''sent''"
abbreviation opAcceptanceUnknown :: bytes where "opAcceptanceUnknown \<equiv> lit ''acceptance_unknown''"

record op_record =
  or_id :: bytes
  or_digest :: bytes
  or_disposition :: bytes
  or_at :: int

record op_entry =
  oe_digest :: bytes
  oe_disposition :: bytes
  oe_at :: int

record op_journal =
  j_bound :: int
  j_ops :: "(bytes \<times> op_entry) list"
  j_order :: "bytes list"

datatype jline = Rec op_record | Garbled nat

record jfile =
  jf_lines :: "jline list"
  jf_torn :: nat  \<comment> \<open>bytes after the last newline\<close>

text \<open>A write and its sync: all of it, or an error after some bytes reached the file.\<close>

datatype append_outcome = AppendOk | AppendPart nat

fun line_len :: "(op_record \<Rightarrow> nat) \<Rightarrow> jline \<Rightarrow> nat" where
  "line_len len (Rec r) = len r"
| "line_len len (Garbled n) = n"

definition add_line :: "(op_record \<Rightarrow> nat) \<Rightarrow> op_record \<Rightarrow> jfile \<Rightarrow> jfile" where
  "add_line len r f =
     f\<lparr>jf_lines := jf_lines f @ [if jf_torn f = 0 then Rec r else Garbled (jf_torn f + len r)],
       jf_torn := 0\<rparr>"

text \<open>\<open>appendLocked\<close>: whether it returned no error, and the file.\<close>

definition appendLocked ::
    "(op_record \<Rightarrow> nat) \<Rightarrow> op_record \<Rightarrow> append_outcome \<Rightarrow> jfile \<Rightarrow> bool \<times> jfile" where
  "appendLocked len r oc f =
     (case oc of
        AppendOk \<Rightarrow> (True, add_line len r f)
      | AppendPart n \<Rightarrow>
          (False, if len r \<le> n then add_line len r f else f\<lparr>jf_torn := jf_torn f + n\<rparr>))"

subsection \<open>Operations\<close>

text \<open>Eviction: the oldest sent entries, as many as the journal is over its bound.\<close>

fun evict_go :: "int \<Rightarrow> bytes list \<Rightarrow> (bytes \<times> op_entry) list \<Rightarrow> bytes list \<times> (bytes \<times> op_entry) list" where
  "evict_go removed [] ops = ([], ops)"
| "evict_go removed (i # order) ops =
     (if 0 < removed \<and> (case map_of ops i of None \<Rightarrow> False | Some e \<Rightarrow> oe_disposition e = opSent)
      then evict_go (removed - 1) order (del i ops)
      else (let (kept, ops') = evict_go removed order ops in (i # kept, ops')))"

definition evictLocked :: "op_journal \<Rightarrow> op_journal" where
  "evictLocked j =
     (if int (length (j_ops j)) \<le> j_bound j then j
      else let (kept, ops) = evict_go (int (length (j_ops j)) - j_bound j) (j_order j) (j_ops j)
           in j\<lparr>j_order := kept, j_ops := ops\<rparr>)"

datatype op_error = DifferentDigest | NeverBegun | HasDisposition | WriteFailed

definition begin_op :: "(op_record \<Rightarrow> nat) \<Rightarrow> bytes \<Rightarrow> bytes \<Rightarrow> int \<Rightarrow> append_outcome \<Rightarrow>
    op_journal \<Rightarrow> jfile \<Rightarrow> (op_error + bool) \<times> op_journal \<times> jfile" where
  "begin_op len i d now oc j f =
     (case map_of (j_ops j) i of
        Some e \<Rightarrow> if oe_digest e \<noteq> d then (Inl DifferentDigest, j, f) else (Inr False, j, f)
      | None \<Rightarrow>
          let (ok, f') = appendLocked len \<lparr>or_id = i, or_digest = d, or_disposition = opPending, or_at = now\<rparr> oc f
          in if \<not> ok then (Inl WriteFailed, j, f')
             else (Inr True,
                   evictLocked (j\<lparr>j_ops := put i \<lparr>oe_digest = d, oe_disposition = opPending, oe_at = now\<rparr> (j_ops j),
                                  j_order := j_order j @ [i]\<rparr>), f'))"


text \<open>\<open>convertPending\<close>: the loop over the order, stopped by the first failed write.\<close>

fun convert_go :: "(op_record \<Rightarrow> nat) \<Rightarrow> int \<Rightarrow> (bytes \<Rightarrow> append_outcome) \<Rightarrow> bytes list \<Rightarrow>
    op_journal \<Rightarrow> jfile \<Rightarrow> bool \<times> op_journal \<times> jfile" where
  "convert_go len now oc [] j f = (True, j, f)"
| "convert_go len now oc (i # ids) j f =
     (case map_of (j_ops j) i of
        None \<Rightarrow> convert_go len now oc ids j f
      | Some e \<Rightarrow>
          if oe_disposition e = opPending
          then let (ok, f') = appendLocked len
                     \<lparr>or_id = i, or_digest = oe_digest e, or_disposition = opAcceptanceUnknown, or_at = now\<rparr> (oc i) f
               in if \<not> ok then (False, j, f')
                  else convert_go len now oc ids
                         (j\<lparr>j_ops := put i (e\<lparr>oe_disposition := opAcceptanceUnknown\<rparr>) (j_ops j)\<rparr>) f'
          else convert_go len now oc ids j f)"

definition convertPending :: "(op_record \<Rightarrow> nat) \<Rightarrow> int \<Rightarrow> (bytes \<Rightarrow> append_outcome) \<Rightarrow>
    op_journal \<Rightarrow> jfile \<Rightarrow> bool \<times> op_journal \<times> jfile" where
  "convertPending len now oc j f = convert_go len now oc (j_order j) j f"

definition status :: "bytes \<Rightarrow> op_journal \<Rightarrow> bytes" where
  "status i j = (case map_of (j_ops j) i of Some e \<Rightarrow> oe_disposition e | None \<Rightarrow> lit ''not_found'')"

text \<open>The held operations, oldest first, each with when it began.\<close>

definition held :: "op_journal \<Rightarrow> (bytes \<times> int) list" where
  "held j =
     concat (map (\<lambda>i. case map_of (j_ops j) i of
                        Some e \<Rightarrow> if oe_disposition e = opAcceptanceUnknown then [(i, oe_at e)] else []
                      | None \<Rightarrow> []) (j_order j))"

subsection \<open>Opening\<close>

abbreviation readLimit :: nat where "readLimit \<equiv> 67108864"
abbreviation maxLine :: nat where "maxLine \<equiv> 1048576"

text \<open>The whole lines within the first \<open>room\<close> bytes, and the room left after them.\<close>

fun within :: "(op_record \<Rightarrow> nat) \<Rightarrow> nat \<Rightarrow> jline list \<Rightarrow> jline list \<times> nat" where
  "within len room [] = ([], room)"
| "within len room (l # ls) =
     (if line_len len l \<le> room
      then let (taken, left) = within len (room - line_len len l) ls in (l # taken, left)
      else ([], room))"

text \<open>
  The bytes read end inside a line exactly when there is room left and more to read; then the
  file is truncated to the whole lines read.
\<close>

definition read_clean :: "(op_record \<Rightarrow> nat) \<Rightarrow> jfile \<Rightarrow> jline list \<times> jfile" where
  "read_clean len f =
     (let (taken, left) = within len readLimit (jf_lines f) in
      (taken, if 0 < left \<and> (length taken < length (jf_lines f) \<or> 0 < jf_torn f)
              then \<lparr>jf_lines = taken, jf_torn = 0\<rparr> else f))"

definition replay_one :: "jline \<Rightarrow> op_journal \<Rightarrow> op_journal" where
  "replay_one l j =
     (case l of
        Garbled n \<Rightarrow> j
      | Rec r \<Rightarrow>
          if or_id r = [] then j
          else j\<lparr>j_order := (case map_of (j_ops j) (or_id r) of None \<Rightarrow> j_order j @ [or_id r] | Some e \<Rightarrow> j_order j),
                 j_ops := put (or_id r) \<lparr>oe_digest = or_digest r, oe_disposition = or_disposition r, oe_at = or_at r\<rparr>
                   (j_ops j)\<rparr>)"

text \<open>The scanner stops at a line longer than its buffer.\<close>

definition replay :: "(op_record \<Rightarrow> nat) \<Rightarrow> int \<Rightarrow> jline list \<Rightarrow> op_journal" where
  "replay len bnd ls =
     fold replay_one (takeWhile (\<lambda>l. line_len len l \<le> maxLine) ls)
       \<lparr>j_bound = bnd, j_ops = [], j_order = []\<rparr>"

text \<open>
  \<open>openOpJournalBound\<close>: \<open>file_ok\<close> is the outcome of making the directory, opening the file,
  its checks, reading and truncating it.
\<close>

definition openOpJournalBound :: "(op_record \<Rightarrow> nat) \<Rightarrow> int \<Rightarrow> bool \<Rightarrow> int \<Rightarrow> (bytes \<Rightarrow> append_outcome) \<Rightarrow>
    jfile \<Rightarrow> op_journal option \<times> jfile" where
  "openOpJournalBound len bnd file_ok now oc f =
     (if \<not> file_ok then (None, f)
      else let (ls, f) = read_clean len f;
               (ok, j, f) = convertPending len now oc (replay len bnd ls) f
           in (if ok then Some j else None, f))"

subsection \<open>The journal's shape\<close>

definition keys :: "op_journal \<Rightarrow> bytes set" where
  "keys j = fst ` set (j_ops j)"

definition wfj :: "op_journal \<Rightarrow> bool" where
  "wfj j \<longleftrightarrow> distinct (j_order j) \<and> distinct (map fst (j_ops j)) \<and> set (j_order j) = keys j"


lemma keys_empty [simp]: "keys \<lparr>j_bound = b, j_ops = [], j_order = q\<rparr> = {}"
  by (simp add: keys_def)





text \<open>Eviction takes exactly the oldest sent entries, as many as needed or as there are.\<close>

definition sent_in :: "(bytes \<times> op_entry) list \<Rightarrow> bytes \<Rightarrow> bool" where
  "sent_in ops i \<longleftrightarrow> (case map_of ops i of None \<Rightarrow> False | Some e \<Rightarrow> oe_disposition e = opSent)"

lemma sent_in_del: "i \<noteq> k \<Longrightarrow> sent_in (del k ops) i = sent_in ops i"
  by (simp add: sent_in_def map_of_del)

lemma evict_go_Cons:
  "evict_go n (i # order) ops =
     (if 0 < n \<and> sent_in ops i then evict_go (n - 1) order (del i ops)
      else (i # fst (evict_go n order ops), snd (evict_go n order ops)))"
  by (simp add: sent_in_def split_beta Let_def)

declare evict_go.simps(2) [simp del]

lemma evict_go_spec:
  assumes "distinct order"
  shows "evict_go n order ops =
    (let gone = take (nat n) (filter (sent_in ops) order)
     in (filter (\<lambda>i. i \<notin> set gone) order, filter (\<lambda>p. fst p \<notin> set gone) ops))"
  using assms
proof (induction order arbitrary: n ops)
  case (Cons i order)
  show ?case
  proof (cases "0 < n \<and> sent_in ops i")
    case True
    have f: "filter (sent_in (del i ops)) order = filter (sent_in ops) order"
      using Cons.prems sent_in_del by (intro filter_cong) (metis distinct.simps(2))+
    have n: "nat n = Suc (nat (n - 1))" using True by linarith
    have "filter (\<lambda>x. x \<noteq> i \<and> x \<notin> G) order = filter (\<lambda>x. x \<notin> G) order" for G
      using Cons.prems by (intro filter_cong) auto
    then show ?thesis
      using True Cons.IH [of "n - 1" "del i ops"] Cons.prems
      by (simp add: evict_go_Cons Let_def f n) (simp add: del_def conj_commute)
  next
    case False
    have "i \<notin> set (take (nat n) (filter (sent_in ops) order))"
      using Cons.prems by (auto dest: in_set_takeD)
    moreover have "take (nat n) (filter (sent_in ops) (i # order)) = take (nat n) (filter (sent_in ops) order)"
      using False by auto
    ultimately show ?thesis
      using False Cons.IH [of n ops] Cons.prems by (auto simp: evict_go_Cons Let_def)
  qed
qed (simp add: Let_def)

subsection \<open>Memory and file agree\<close>

text \<open>What the journal says of an operation, the times apart.\<close>

definition says :: "op_journal \<Rightarrow> bytes \<Rightarrow> (bytes \<times> bytes) option" where
  "says j i = map_option (\<lambda>e. (oe_digest e, oe_disposition e)) (map_of (j_ops j) i)"

text \<open>
  A file a healthy service has written: no torn tail, no line beyond the scanner's buffer, and
  within what is read back.
\<close>

definition file_ok :: "(op_record \<Rightarrow> nat) \<Rightarrow> jfile \<Rightarrow> bool" where
  "file_ok len f \<longleftrightarrow> jf_torn f = 0 \<and> (\<forall>l \<in> set (jf_lines f). line_len len l \<le> maxLine) \<and>
     sum_list (map (line_len len) (jf_lines f)) \<le> readLimit"




lemma replay_bound [simp]: "j_bound (replay len bnd ls) = bnd"
proof -
  have "j_bound (fold replay_one ls j) = j_bound j" for ls j
    by (induction ls arbitrary: j) (auto simp: replay_one_def split: jline.split)
  then show ?thesis by (simp add: replay_def)
qed

lemma replay_snoc:
  "\<forall>l \<in> set ls. line_len len l \<le> maxLine \<Longrightarrow> line_len len l \<le> maxLine \<Longrightarrow>
     replay len bnd (ls @ [l]) = replay_one l (replay len bnd ls)"
  by (simp add: replay_def takeWhile_append takeWhile_eq_all_conv [THEN iffD2])


lemma says_replay_one:
  "or_id r \<noteq> [] \<Longrightarrow> says (replay_one (Rec r) j) k =
     (if k = or_id r then Some (or_digest r, or_disposition r) else says j k)"
  by (simp add: says_def replay_one_def map_of_put)


lemma file_ok_append:
  "file_ok len f \<Longrightarrow> len r \<le> maxLine \<Longrightarrow> sum_list (map (line_len len) (jf_lines f)) + len r \<le> readLimit \<Longrightarrow>
     file_ok len (add_line len r f)"
  by (auto simp: file_ok_def add_line_def)







lemma add_line_ok:
  "file_ok len (add_line len r f) \<Longrightarrow> file_ok len f \<Longrightarrow> len r \<le> maxLine"
  by (simp add: file_ok_def add_line_def)






text \<open>The file only grows, so what is read back of its end was readable before.\<close>

definition extends :: "jfile \<Rightarrow> jfile \<Rightarrow> bool" where
  "extends f f' \<longleftrightarrow> (\<exists>ls. jf_lines f' = jf_lines f @ ls)"

lemma extends_refl [simp]: "extends f f"
  by (simp add: extends_def)


lemma extends_add_line [simp]: "extends f (add_line len r f)"
  by (simp add: extends_def add_line_def)





subsection \<open>Services, crashes and restarts\<close>






definition recorded :: "(op_record \<Rightarrow> nat) \<Rightarrow> int \<Rightarrow> jfile \<Rightarrow> bytes set" where
  "recorded len bnd f = {i. says (replay len bnd (jf_lines f)) i \<noteq> None}"





lemma recorded_add_line:
  assumes "file_ok len f" "file_ok len (add_line len r f)" "or_id r \<noteq> []"
  shows "recorded len bnd (add_line len r f) = insert (or_id r) (recorded len bnd f)"
  using assms add_line_ok [OF assms(2,1)]
  by (auto simp: recorded_def add_line_def file_ok_def replay_snoc says_replay_one)

lemma recorded_extends:
  assumes "extends f f'" "file_ok len f'"
  shows "recorded len bnd f \<subseteq> recorded len bnd f'"
proof -
  obtain ls where ls: "jf_lines f' = jf_lines f @ ls" using assms(1) by (auto simp: extends_def)
  have grow: "says j i \<noteq> None \<Longrightarrow> says (fold replay_one ls j) i \<noteq> None" for i j ls
  proof (induction ls arbitrary: j)
    case (Cons l ls)
    have "says (replay_one l j) i \<noteq> None"
      using Cons.prems by (cases l) (auto simp: replay_one_def says_def map_of_put)
    then show ?case using Cons.IH by simp
  qed simp
  have "replay len bnd (jf_lines f') = fold replay_one ls (replay len bnd (jf_lines f))"
    using assms(2) ls by (simp add: replay_def file_ok_def takeWhile_eq_all_conv [THEN iffD2])
  then show ?thesis
    using grow by (auto simp: recorded_def)
qed


















subsection \<open>Restarts and eviction\<close>




definition began_a :: "op_journal \<times> jfile" where
  "began_a = snd (begin_op (\<lambda>_. 100) (lit ''a'') (lit ''d'') 1 AppendOk (replay (\<lambda>_. 100) 4096 [])
     \<lparr>jf_lines = [], jf_torn = 0\<rparr>)"

lemmas journal_eval = begin_op_def appendLocked_def add_line_def evictLocked_def replay_def replay_one_def
  openOpJournalBound_def read_clean_def convertPending_def

lemma began_a_eq:
  "began_a =
     (\<lparr>j_bound = 4096, j_ops = [(lit ''a'', \<lparr>oe_digest = lit ''d'', oe_disposition = opPending, oe_at = 1\<rparr>)],
       j_order = [lit ''a'']\<rparr>,
      \<lparr>jf_lines = [Rec \<lparr>or_id = lit ''a'', or_digest = lit ''d'', or_disposition = opPending, or_at = 1\<rparr>],
       jf_torn = 0\<rparr>)"
  by (simp add: began_a_def journal_eval)


text \<open>
  Eviction removes exactly the oldest sent entries, as many as the journal is over its
  bound or as there are: a pending or held operation is never evicted.
\<close>

theorem evict_oldest_sent:
  assumes "wfj j"
  shows "evictLocked j =
    (let over = nat (int (length (j_ops j)) - j_bound j);
         gone = take over (filter (\<lambda>i. status i j = opSent) (j_order j))
     in j\<lparr>j_order := filter (\<lambda>i. i \<notin> set gone) (j_order j), j_ops := filter (\<lambda>p. fst p \<notin> set gone) (j_ops j)\<rparr>)"
proof -
  have "sent_in (j_ops j) i \<longleftrightarrow> status i j = opSent" for i
    by (auto simp: sent_in_def status_def lit_def split: option.splits)
  then have f: "sent_in (j_ops j) = (\<lambda>i. status i j = opSent)"
    by blast
  show ?thesis
    using assms evict_go_spec [of "j_order j" "int (length (j_ops j)) - j_bound j" "j_ops j"]
    by (simp add: evictLocked_def wfj_def Let_def f)
qed

theorem evict_oldest_sent_witness:
  "wfj (fst began_a) \<and> j_order (evictLocked (fst began_a\<lparr>j_bound := 0\<rparr>)) = [lit ''a'']"
proof -
  have w: "wfj (fst began_a)" "wfj (fst began_a\<lparr>j_bound := 0\<rparr>)"
    by (simp_all add: began_a_eq wfj_def keys_def)
  have "filter (\<lambda>i. status i (fst began_a\<lparr>j_bound := 0\<rparr>) = opSent) (j_order (fst began_a)) = []"
      "j_order (fst began_a) = [lit ''a'']"
    by (simp_all add: began_a_eq status_def lit_def)
  then show ?thesis
    using evict_oldest_sent [OF w(2)] w(1) by (simp add: Let_def)
qed

subsection \<open>What a failing disk or a long journal loses\<close>


lemma within_append:
  "sum_list (map (line_len len) ls) \<le> room \<Longrightarrow> room < sum_list (map (line_len len) ls) + line_len len l \<Longrightarrow>
     within len room (ls @ l # rest) = (ls, room - sum_list (map (line_len len) ls))"
  by (induction ls arbitrary: room) (auto simp: Let_def)

text \<open>
  A journal longer than 64 MiB loses its newest records when it is opened: when the limit
  falls inside a line, the file itself is truncated before that line, whatever follows it.
\<close>

theorem long_journal_truncated:
  assumes "sum_list (map (line_len len) ls) < readLimit"
    and "readLimit < sum_list (map (line_len len) ls) + line_len len l"
  shows "read_clean len \<lparr>jf_lines = ls @ l # rest, jf_torn = t\<rparr> = (ls, \<lparr>jf_lines = ls, jf_torn = 0\<rparr>)"
  using assms within_append [of len ls readLimit l rest] by (simp add: read_clean_def)

theorem long_journal_truncated_witness:
  "read_clean (\<lambda>_. 1000000) \<lparr>jf_lines = replicate 67 (Garbled 1000000) @ Garbled 1000000 # [Garbled 7], jf_torn = 0\<rparr>
     = (replicate 67 (Garbled 1000000), \<lparr>jf_lines = replicate 67 (Garbled 1000000), jf_torn = 0\<rparr>)"
  by (rule long_journal_truncated) (simp_all add: sum_list_replicate)

end
