(* ===== verification/Json.thy ===== *)
theory Json
  imports GoText
begin

text \<open>
  The parts of \<open>encoding/json\<close> the terminal frames rest on: \<open>json.Valid\<close>, a scanner of one
  byte at a time with a stack of what it is inside of, and \<open>json.Marshal\<close> of the values the
  meta frames carry. What is marshalled is always accepted (\<open>json_valid_marshal\<close>).
\<close>

subsection \<open>The scanner\<close>

datatype jctx = ParseObjectKey | ParseObjectValue | ParseArrayValue

datatype jstate =
    BeginValue | BeginValueOrEmpty | BeginStringOrEmpty | BeginString | InString | InStringEsc
  | InStringEscU nat  \<comment> \<open>hex digits still to come\<close>
  | NumNeg | Num1 | Num0 | NumDot | NumDot0 | NumE | NumESign | NumE0
  | InWord bytes  \<comment> \<open>letters still to come\<close>
  | EndValue | EndTop | ScanError

type_synonym scan = "jstate \<times> jctx list"

definition is_space :: "byte \<Rightarrow> bool" where
  "is_space c \<longleftrightarrow> c = 32 \<or> c = 9 \<or> c = 13 \<or> c = 10"

definition is_hex :: "byte \<Rightarrow> bool" where
  "is_hex c \<longleftrightarrow> is_digit c \<or> (97 \<le> c \<and> c \<le> 102) \<or> (65 \<le> c \<and> c \<le> 70)"

abbreviation maxNestingDepth :: nat where "maxNestingDepth \<equiv> 10000"

definition push_ctx :: "jstate \<Rightarrow> jctx \<Rightarrow> jctx list \<Rightarrow> scan" where
  "push_ctx s c stack = (if length stack < maxNestingDepth then (s, c # stack) else (ScanError, c # stack))"

definition pop_ctx :: "jctx list \<Rightarrow> scan" where
  "pop_ctx stack = (if tl stack = [] then EndTop else EndValue, tl stack)"

definition scan_end_value :: "byte \<Rightarrow> jctx list \<Rightarrow> scan" where
  "scan_end_value c stack =
     (case stack of
        [] \<Rightarrow> (if is_space c then EndTop else ScanError, [])
      | x # r \<Rightarrow>
          if is_space c then (EndValue, stack)
          else (case x of
             ParseObjectKey \<Rightarrow> if c = 58 then (BeginValue, ParseObjectValue # r) else (ScanError, stack)
           | ParseObjectValue \<Rightarrow>
               if c = 44 then (BeginString, ParseObjectKey # r)
               else if c = 125 then pop_ctx stack else (ScanError, stack)
           | ParseArrayValue \<Rightarrow>
               if c = 44 then (BeginValue, stack)
               else if c = 93 then pop_ctx stack else (ScanError, stack)))"

definition scan_begin_value :: "byte \<Rightarrow> jctx list \<Rightarrow> scan" where
  "scan_begin_value c stack =
     (if is_space c then (BeginValue, stack)
      else if c = 123 then push_ctx BeginStringOrEmpty ParseObjectKey stack
      else if c = 91 then push_ctx BeginValueOrEmpty ParseArrayValue stack
      else if c = 34 then (InString, stack)
      else if c = 45 then (NumNeg, stack)
      else if c = 48 then (Num0, stack)
      else if c = 116 then (InWord (lit ''rue''), stack)
      else if c = 102 then (InWord (lit ''alse''), stack)
      else if c = 110 then (InWord (lit ''ull''), stack)
      else if 49 \<le> c \<and> c \<le> 57 then (Num1, stack)
      else (ScanError, stack))"

definition scan_begin_string :: "byte \<Rightarrow> jctx list \<Rightarrow> scan" where
  "scan_begin_string c stack =
     (if is_space c then (BeginString, stack) else if c = 34 then (InString, stack) else (ScanError, stack))"

definition scan_num0 :: "byte \<Rightarrow> jctx list \<Rightarrow> scan" where
  "scan_num0 c stack =
     (if c = 46 then (NumDot, stack) else if c = 101 \<or> c = 69 then (NumE, stack) else scan_end_value c stack)"

definition scan_esign :: "byte \<Rightarrow> jctx list \<Rightarrow> scan" where
  "scan_esign c stack = (if is_digit c then NumE0 else ScanError, stack)"

fun scan_step :: "byte \<Rightarrow> scan \<Rightarrow> scan" where
  "scan_step c (BeginValue, k) = scan_begin_value c k"
| "scan_step c (BeginValueOrEmpty, k) =
     (if is_space c then (BeginValueOrEmpty, k) else if c = 93 then scan_end_value c k else scan_begin_value c k)"
| "scan_step c (BeginStringOrEmpty, k) =
     (if is_space c then (BeginStringOrEmpty, k)
      else if c = 125 then scan_end_value c (ParseObjectValue # tl k) else scan_begin_string c k)"
| "scan_step c (BeginString, k) = scan_begin_string c k"
| "scan_step c (InString, k) =
     (if c = 34 then EndValue else if c = 92 then InStringEsc else if c < 32 then ScanError else InString, k)"
| "scan_step c (InStringEsc, k) =
     (if c \<in> {98, 102, 110, 114, 116, 92, 47, 34} then InString else if c = 117 then InStringEscU 4 else ScanError, k)"
| "scan_step c (InStringEscU n, k) =
     (if is_hex c then (if n \<le> 1 then InString else InStringEscU (n - 1)) else ScanError, k)"
| "scan_step c (NumNeg, k) = (if c = 48 then Num0 else if 49 \<le> c \<and> c \<le> 57 then Num1 else ScanError, k)"
| "scan_step c (Num1, k) = (if is_digit c then (Num1, k) else scan_num0 c k)"
| "scan_step c (Num0, k) = scan_num0 c k"
| "scan_step c (NumDot, k) = (if is_digit c then NumDot0 else ScanError, k)"
| "scan_step c (NumDot0, k) =
     (if is_digit c then (NumDot0, k) else if c = 101 \<or> c = 69 then (NumE, k) else scan_end_value c k)"
| "scan_step c (NumE, k) = (if c = 43 \<or> c = 45 then (NumESign, k) else scan_esign c k)"
| "scan_step c (NumESign, k) = scan_esign c k"
| "scan_step c (NumE0, k) = (if is_digit c then (NumE0, k) else scan_end_value c k)"
| "scan_step c (InWord [], k) = (ScanError, k)"
| "scan_step c (InWord (w # ws), k) =
     (if c = w then (if ws = [] then EndValue else InWord ws) else ScanError, k)"
| "scan_step c (EndValue, k) = scan_end_value c k"
| "scan_step c (EndTop, k) = (if is_space c then EndTop else ScanError, k)"
| "scan_step c (ScanError, k) = (ScanError, k)"

text \<open>\<open>json.Valid\<close>: the scanner takes every byte and, after a space at the end, is past the value.\<close>

definition json_valid :: "bytes \<Rightarrow> bool" where
  "json_valid s \<longleftrightarrow> fst (scan_step 32 (fold scan_step s (BeginValue, []))) = EndTop"

subsection \<open>Marshalling\<close>

datatype jvalue = JNull | JBool bool | JStr bytes | JNum int | JArr "jvalue list" | JObj "(bytes \<times> jvalue) list"

definition hex_digit :: "int \<Rightarrow> byte" where
  "hex_digit n = word_of_int (if n < 10 then 48 + n else 87 + n)"

definition escape_u :: "int \<Rightarrow> bytes" where
  "escape_u r = [92, 117, hex_digit (r div 4096 mod 16), hex_digit (r div 256 mod 16),
     hex_digit (r div 16 mod 16), hex_digit (r mod 16)]"

text \<open>
  One character of a string: a byte below \<open>0x80\<close> as it is or escaped (with HTML escaping, which
  \<open>Marshal\<close> does), a longer rune as it is, except the two line separators; an invalid byte is
  written as the replacement character.
\<close>

definition quote_byte :: "byte \<Rightarrow> bytes" where
  "quote_byte b =
     (if b = 34 \<or> b = 92 then [92, b]
      else if b = 8 then lit [CHR 0x5C, CHR ''b''] else if b = 12 then lit [CHR 0x5C, CHR ''f'']
      else if b = 10 then lit [CHR 0x5C, CHR ''n''] else if b = 13 then lit [CHR 0x5C, CHR ''r'']
      else if b = 9 then lit [CHR 0x5C, CHR ''t'']
      else if b < 32 \<or> b = 60 \<or> b = 62 \<or> b = 38 then escape_u (uint b) else [b])"

definition quote_rune :: "bytes \<Rightarrow> bytes" where
  "quote_rune s =
     (case s of [] \<Rightarrow> []
      | b # _ \<Rightarrow>
          if b < 0x80 then quote_byte b
          else let (r, n) = decode_rune s in
            if r = RuneError \<and> n = 1 then escape_u 0xFFFD
            else if r = 0x2028 \<or> r = 0x2029 then escape_u r
            else take n s)"

function quote_body :: "bytes \<Rightarrow> bytes" where
  "quote_body s =
     (if s = [] then [] else quote_rune s @ quote_body (drop (snd (decode_rune s)) s))"
  by pat_completeness auto
termination
proof (relation "measure length")
  fix s :: bytes
  assume "s \<noteq> []"
  with decode_rune_size [of s] show "(drop (snd (decode_rune s)) s, s) \<in> measure length"
    by (simp add: Suc_le_eq)
qed simp

declare quote_body.simps [simp del]

definition quote :: "bytes \<Rightarrow> bytes" where
  "quote s = 34 # quote_body s @ [34]"

fun comma_sep :: "bytes list \<Rightarrow> bytes" where
  "comma_sep [] = []"
| "comma_sep [x] = x"
| "comma_sep (x # y # r) = x @ 44 # comma_sep (y # r)"

fun marshal :: "jvalue \<Rightarrow> bytes" where
  "marshal JNull = lit ''null''"
| "marshal (JBool b) = (if b then lit ''true'' else lit ''false'')"
| "marshal (JStr s) = quote s"
| "marshal (JNum n) = itoa n"
| "marshal (JArr vs) = 91 # comma_sep (map marshal vs) @ [93]"
| "marshal (JObj fs) = 123 # comma_sep (map (\<lambda>(n, v). quote n @ 58 # marshal v) fs) @ [125]"

fun depth :: "jvalue \<Rightarrow> nat" where
  "depth JNull = 0"
| "depth (JBool b) = 0"
| "depth (JStr s) = 0"
| "depth (JNum n) = 0"
| "depth (JArr vs) = Suc (fold max (map depth vs) 0)"
| "depth (JObj fs) = Suc (fold max (map (\<lambda>(n, v). depth v) fs) 0)"

subsection \<open>What is marshalled is valid\<close>

text \<open>A scanner at the end of a value: the next separator or space is read as after any value.\<close>

definition closes :: "jstate \<Rightarrow> jctx list \<Rightarrow> bool" where
  "closes s k \<longleftrightarrow> (\<forall>c \<in> {44, 93, 125, 32}. scan_step c (s, k) = scan_end_value c k)"

definition takes :: "bytes \<Rightarrow> jstate \<Rightarrow> jctx list \<Rightarrow> jctx list \<Rightarrow> bool" where
  "takes t b k k' \<longleftrightarrow> (\<exists>s. fold scan_step t (b, k) = (s, k') \<and> closes s k')"

lemma closes_intros [simp]: "closes EndValue k" "closes Num0 k" "closes Num1 k" "closes EndTop []"
  by (simp_all add: closes_def scan_num0_def is_digit_def scan_end_value_def is_space_def)

lemma closes_pop: "closes (fst (pop_ctx (x # k))) k"
  by (simp add: pop_ctx_def)

lemma hex_digit_is_hex: "0 \<le> n \<Longrightarrow> n < 16 \<Longrightarrow> is_hex (hex_digit n)"
proof -
  assume "0 \<le> n" "n < 16"
  then have "n \<in> set (upto 0 15)" by simp
  moreover have "\<forall>n \<in> set (upto 0 15). is_hex (hex_digit n)" by code_simp
  ultimately show ?thesis by blast
qed

lemma fold_escape_u: "fold scan_step (escape_u r) (InString, k) = (InString, k)"
  by (simp add: escape_u_def hex_digit_is_hex)

lemma fold_quote_byte: "fold scan_step (quote_byte b) (InString, k) = (InString, k)"
  by (auto simp: quote_byte_def lit_def fold_escape_u)

lemma fold_high: "(\<And>b. b \<in> set t \<Longrightarrow> 0x80 \<le> b) \<Longrightarrow> fold scan_step t (InString, k) = (InString, k)"
proof (induction t)
  case (Cons b t)
  have "0x80 \<le> b" by (simp add: Cons.prems)
  then have "b \<noteq> 34" "b \<noteq> 92" "\<not> b < 32" by (auto simp: word_le_nat_alt word_less_nat_alt)
  then show ?case using Cons by simp
qed simp

lemma decode_rune_high:
  assumes "\<not> b < 0x80" "decode_rune (b # t) = (r, n)" "\<not> (r = RuneError \<and> n = 1)" "c \<in> set (take n (b # t))"
  shows "0x80 \<le> c"
proof -
  have lo: "0x80 \<le> accept_lo b" by (simp add: accept_lo_def)
  have "0x80 \<le> x" if "\<not> x < accept_lo b" for x using lo that by simp
  then show ?thesis
    using assms by (auto simp: decode_rune_def continuation_def not_less split: if_splits list.splits)
qed

lemma fold_quote_rune: "fold scan_step (quote_rune s) (InString, k) = (InString, k)"
proof (cases s)
  case (Cons b t)
  show ?thesis
    unfolding quote_rune_def Cons
    by (auto simp: fold_quote_byte fold_escape_u Let_def split_beta
        intro!: fold_high decode_rune_high [OF _ prod.collapse [symmetric]])
qed (simp add: quote_rune_def)

lemma fold_quote_body: "fold scan_step (quote_body s) (InString, k) = (InString, k)"
proof (induction s rule: quote_body.induct)
  case (1 s)
  then show ?case by (subst quote_body.simps) (simp add: fold_quote_rune)
qed

lemma fold_quote:
  "b \<in> {BeginValue, BeginValueOrEmpty, BeginString, BeginStringOrEmpty} \<Longrightarrow>
     fold scan_step (quote s) (b, k) = (EndValue, k)"
  by (auto simp: quote_def scan_begin_value_def scan_begin_string_def is_space_def fold_quote_body)

lemma fold_digits: "(\<And>c. c \<in> set t \<Longrightarrow> is_digit c) \<Longrightarrow> fold scan_step t (Num1, k) = (Num1, k)"
  by (induction t) simp_all

lemma itoa_nat_hd: "0 < n \<Longrightarrow> 49 \<le> hd (itoa_nat n) \<and> hd (itoa_nat n) \<le> 57"
proof (induction n rule: itoa_nat.induct)
  case (1 n)
  then show ?case
    by (subst (1 2) itoa_nat.simps) (auto simp: word_le_nat_alt digit_unat)
qed

lemma fold_itoa_nat:
  "fold scan_step (itoa_nat n) (NumNeg, k) = (if n = 0 then Num0 else Num1, k)"
  "fold scan_step (itoa_nat n) (BeginValue, k) = (if n = 0 then Num0 else Num1, k)"
proof -
  have 0: "itoa_nat 0 = [48]" by (subst itoa_nat.simps) (simp add: digit_def)
  have "\<exists>c t. itoa_nat n = c # t \<and> 49 \<le> c \<and> c \<le> 57 \<and> fold scan_step t (Num1, k) = (Num1, k)" if "0 < n"
    using that itoa_nat_hd [of n] itoa_nat_ne [of n] fold_digits [of "tl (itoa_nat n)" k]
    by (cases "itoa_nat n") (simp_all add: itoa_nat_digits [of _ n])
  moreover have "c \<notin> {32, 9, 13, 10, 123, 91, 34, 45, 48, 116, 102, 110}" if "49 \<le> c" "c \<le> 57" for c :: byte
    using that by auto
  ultimately show "fold scan_step (itoa_nat n) (NumNeg, k) = (if n = 0 then Num0 else Num1, k)"
      "fold scan_step (itoa_nat n) (BeginValue, k) = (if n = 0 then Num0 else Num1, k)"
    using 0 by (cases "n = 0"; fastforce simp: scan_begin_value_def is_space_def)+
qed

lemma takes_itoa: "takes (itoa n) BeginValue k k"
proof (cases "n < 0")
  case True
  then have "0 < nat (- n)" by simp
  then show ?thesis using True by (simp add: takes_def itoa_def scan_begin_value_def is_space_def fold_itoa_nat)
qed (simp add: takes_def itoa_def fold_itoa_nat)

text \<open>A value never begins with a space or a closing bracket.\<close>

lemma marshal_hd: "\<exists>c t. marshal v = c # t \<and> \<not> is_space c \<and> c \<noteq> 93"
proof (cases v)
  case (JNum n)
  have "is_digit c \<Longrightarrow> \<not> is_space c \<and> c \<noteq> 93" for c by (auto simp: is_digit_def is_space_def)
  then show ?thesis
    using JNum hd_itoa_nat [of "nat n"] by (cases "itoa_nat (nat n)") (auto simp: itoa_def is_space_def dest: arg_cong [of _ _ hd])
qed (auto simp: quote_def is_space_def lit_def)

lemma takes_empty_array:
  "takes (marshal v @ t) BeginValue k k' \<Longrightarrow> takes (marshal v @ t) BeginValueOrEmpty k k'"
  using marshal_hd [of v] by (auto simp: takes_def)

lemma takes_append_sep:
  assumes "takes t b k k'" "c \<in> {44, 93, 125}"
  shows "fold scan_step (t @ c # u) (b, k) = fold scan_step u (scan_end_value c k')"
  using assms by (auto simp: takes_def closes_def)

lemma takes_list:
  assumes "\<And>t. t \<in> set ts \<Longrightarrow> takes t b k k'" "ts \<noteq> []" "scan_end_value 44 k' = (b, k)"
  shows "takes (comma_sep ts) b k k'"
  using assms
proof (induction ts rule: comma_sep.induct)
  case (3 x y r)
  have x: "takes x b k k'" and r: "takes (comma_sep (y # r)) b k k'" using 3 by simp_all
  show ?case
    using r takes_append_sep [OF x, of 44 "comma_sep (y # r)"] "3.prems"(3) by (simp add: takes_def)
qed simp_all

lemma takes_field:
  assumes "takes t BeginValue (ParseObjectValue # k) (ParseObjectValue # k)"
  shows "takes (quote n @ 58 # t) BeginString (ParseObjectKey # k) (ParseObjectValue # k)"
  using assms by (simp add: takes_def fold_quote scan_end_value_def is_space_def)

lemma fold_max_start: "a \<le> fold max xs (a :: nat)"
  by (induction xs arbitrary: a) (auto intro: le_trans [OF max.cobounded2])

lemma fold_max_mem: "x \<in> set xs \<Longrightarrow> x \<le> fold max xs (a :: nat)"
proof (induction xs arbitrary: a)
  case (Cons y ys)
  then show ?case using le_trans [OF max.cobounded1 fold_max_start [of "max y a" ys]] by auto
qed simp

lemma takes_array:
  assumes "length k < maxNestingDepth"
    and "\<And>v. v \<in> set vs \<Longrightarrow> takes (marshal v) BeginValue (ParseArrayValue # k) (ParseArrayValue # k)"
  shows "takes (marshal (JArr vs)) BeginValue k k"
proof (cases vs)
  case Nil
  then show ?thesis
    using assms(1) closes_pop [of ParseArrayValue k]
    by (simp add: takes_def scan_begin_value_def is_space_def push_ctx_def scan_end_value_def pop_ctx_def)
next
  case (Cons v r)
  let ?k = "ParseArrayValue # k"
  have "takes (comma_sep (map marshal vs)) BeginValue ?k ?k"
    using assms(2) Cons by (intro takes_list) (auto simp: scan_end_value_def is_space_def)
  moreover have "\<exists>t. comma_sep (map marshal vs) = marshal v @ t"
    unfolding Cons by (cases "map marshal r") auto
  ultimately have "takes (comma_sep (map marshal vs)) BeginValueOrEmpty ?k ?k"
    using takes_empty_array by metis
  from takes_append_sep [OF this, of 93 "[]"] show ?thesis
    using assms(1) closes_pop [of ParseArrayValue k]
    by (simp add: takes_def scan_begin_value_def is_space_def push_ctx_def scan_end_value_def pop_ctx_def)
qed

lemma takes_object:
  assumes "length k < maxNestingDepth"
    and "\<And>n v. (n, v) \<in> set fs \<Longrightarrow> takes (marshal v) BeginValue (ParseObjectValue # k) (ParseObjectValue # k)"
  shows "takes (marshal (JObj fs)) BeginValue k k"
proof (cases fs)
  case Nil
  then show ?thesis
    using assms(1) closes_pop [of ParseObjectValue k]
    by (simp add: takes_def scan_begin_value_def is_space_def push_ctx_def scan_end_value_def pop_ctx_def)
next
  case (Cons f r)
  let ?k = "ParseObjectKey # k" and ?t = "comma_sep (map (\<lambda>(n, v). quote n @ 58 # marshal v) fs)"
  have b: "takes ?t BeginString ?k (ParseObjectValue # k)"
  proof (rule takes_list)
    fix t
    assume "t \<in> set (map (\<lambda>(n, v). quote n @ 58 # marshal v) fs)"
    then show "takes t BeginString ?k (ParseObjectValue # k)" by (auto intro!: takes_field assms(2))
  qed (use Cons in \<open>simp_all add: scan_end_value_def is_space_def\<close>)
  have "\<exists>t. ?t = 34 # t"
    unfolding Cons by (cases "map (\<lambda>(n, v). quote n @ 58 # marshal v) r") (auto simp: quote_def split_beta)
  with b have "takes ?t BeginStringOrEmpty ?k (ParseObjectValue # k)"
    by (auto simp: takes_def is_space_def)
  from takes_append_sep [OF this, of 125 "[]"] show ?thesis
    using assms(1) closes_pop [of ParseObjectValue k]
    by (simp add: takes_def scan_begin_value_def is_space_def push_ctx_def scan_end_value_def pop_ctx_def)
qed

lemma takes_marshal: "length k + depth v \<le> maxNestingDepth \<Longrightarrow> takes (marshal v) BeginValue k k"
proof (induction v arbitrary: k)
  case JNull
  then show ?case by (simp add: takes_def lit_def scan_begin_value_def is_space_def)
next
  case (JBool b)
  then show ?case by (cases b) (simp_all add: takes_def lit_def scan_begin_value_def is_space_def)
next
  case (JStr s)
  then show ?case by (simp add: takes_def fold_quote)
next
  case (JNum n)
  then show ?case by (simp add: takes_itoa)
next
  case (JArr vs)
  have "length (ParseArrayValue # k) + depth v \<le> maxNestingDepth" if "v \<in> set vs" for v
    using JArr.prems fold_max_mem [of "depth v" "map depth vs" 0] that by simp
  then show ?case using JArr by (intro takes_array) auto
next
  case (JObj fs)
  have d: "length (ParseObjectValue # k) + depth v \<le> maxNestingDepth" if "(n, v) \<in> set fs" for n v
    using JObj.prems fold_max_mem [of "depth v" "map (\<lambda>(n, v). depth v) fs" 0] that by force
  have "takes (marshal v) BeginValue (ParseObjectValue # k) (ParseObjectValue # k)" if "(n, v) \<in> set fs" for n v
    using JObj.IH [OF that _ d [OF that]] by simp
  then show ?case using JObj.prems by (intro takes_object) auto
qed

lemma json_valid_marshal: "depth v \<le> maxNestingDepth \<Longrightarrow> json_valid (marshal v)"
  using takes_marshal [of "[]" v]
  by (auto simp: takes_def closes_def json_valid_def scan_end_value_def is_space_def)

end
