(* ===== verification/Frame.thy ===== *)
theory Frame
  imports Json
begin

unbundle bit_operations_syntax

text \<open>
  \<open>internal/seatterm/frame.go\<close>: the terminal stream's frames. A reader is the bytes it has yet
  to give (then end of file), a writer the bytes it has taken; what each write did is an argument.
  The codec interface is the locale \<open>framing\<close>: what one side writes the other reads, frame by
  frame, whatever follows; both protocol versions interpret it.
\<close>

subsection \<open>Data\<close>

abbreviation Data :: byte where "Data \<equiv> 100"
abbreviation Resize_frame :: byte where "Resize_frame \<equiv> 114"
abbreviation Close :: byte where "Close \<equiv> 120"
abbreviation Notice :: byte where "Notice \<equiv> 110"
abbreviation Control :: byte where "Control \<equiv> 99"
abbreviation Presence :: byte where "Presence \<equiv> 112"
abbreviation State :: byte where "State \<equiv> 115"

abbreviation MaxData :: nat where "MaxData \<equiv> 32768"
abbreviation MaxCols :: "16 word" where "MaxCols \<equiv> 1000"
abbreviation MaxRows :: "16 word" where "MaxRows \<equiv> 500"
abbreviation MaxNotice :: nat where "MaxNotice \<equiv> 512"
abbreviation MaxMeta :: nat where "MaxMeta \<equiv> 4096"

datatype frame_error =
    EndOfFile | UnexpectedEOF | TooLarge | CloseCarries | ResizeShape | ResizeBounds | UnknownType
  | NotAnObject | ShortWrite | WriteError

type_synonym frame = "byte \<times> bytes"

text \<open>\<open>io.ReadFull\<close>: end of file when nothing came, an unexpected one when too little did.\<close>

definition ReadFull :: "nat \<Rightarrow> bytes \<Rightarrow> (frame_error + bytes) \<times> bytes" where
  "ReadFull n s =
     (if n \<le> length s then (Inr (take n s), drop n s)
      else (Inl (if s = [] then EndOfFile else UnexpectedEOF), []))"

text \<open>\<open>binary.BigEndian\<close>.\<close>

definition PutUint16 :: "16 word \<Rightarrow> bytes" where
  "PutUint16 v = [ucast (drop_bit 8 v), ucast v]"

definition Uint16 :: "bytes \<Rightarrow> 16 word" where
  "Uint16 b = push_bit 8 (ucast (b ! 0)) OR ucast (b ! 1)"

datatype write_outcome = Wrote | WroteErr nat | WroteShort nat

definition write_to :: "write_outcome \<Rightarrow> bytes \<Rightarrow> bytes \<Rightarrow> frame_error option \<times> bytes" where
  "write_to oc b out =
     (case oc of
        Wrote \<Rightarrow> (None, out @ b)
      | WroteErr n \<Rightarrow> (Some WriteError, out @ take n b)
      | WroteShort n \<Rightarrow> (if n \<noteq> length b then Some ShortWrite else None, out @ take n b))"

definition WriteFrame :: "write_outcome \<times> write_outcome \<Rightarrow> byte \<Rightarrow> bytes \<Rightarrow> bytes \<Rightarrow> frame_error option \<times> bytes" where
  "WriteFrame oc kind payload out =
     (if MaxData < length payload then (Some TooLarge, out)
      else let (e, out) = write_to (fst oc) (kind # PutUint16 (of_nat (length payload))) out in
        if e \<noteq> None then (e, out)
        else if payload = [] then (None, out)
        else write_to (snd oc) payload out)"

definition ReadFrame :: "bytes \<Rightarrow> (frame_error + frame) \<times> bytes" where
  "ReadFrame s =
     (case ReadFull 3 s of
        (Inl e, s) \<Rightarrow> (Inl e, s)
      | (Inr head, s) \<Rightarrow>
          let n = unat (Uint16 (drop 1 head)) in
          if MaxData < n then (Inl TooLarge, s)
          else (case ReadFull n s of
             (Inl e, s) \<Rightarrow> (Inl e, s)
           | (Inr payload, s) \<Rightarrow>
               if head ! 0 = Data then (Inr (head ! 0, payload), s)
               else if head ! 0 = Close then
                 (if n \<noteq> 0 then (Inl CloseCarries, s) else (Inr (head ! 0, payload), s))
               else if head ! 0 = Resize_frame then
                 (if n \<noteq> 4 then (Inl ResizeShape, s)
                  else let cols = Uint16 payload; rows = Uint16 (drop 2 payload) in
                    if cols < 1 \<or> MaxCols < cols \<or> rows < 1 \<or> MaxRows < rows then (Inl ResizeBounds, s)
                    else (Inr (head ! 0, payload), s))
               else (Inl UnknownType, s)))"


definition v2_bound :: "byte \<Rightarrow> nat option" where
  "v2_bound kind =
     (if kind = Notice then Some MaxNotice
      else if kind = Control \<or> kind = Presence \<or> kind = State then Some MaxMeta else None)"

definition ReadFrameV2 :: "bytes \<Rightarrow> (frame_error + frame) \<times> bytes" where
  "ReadFrameV2 s =
     (case ReadFull 3 s of
        (Inl e, s) \<Rightarrow> (Inl e, s)
      | (Inr head, s) \<Rightarrow>
          (case v2_bound (head ! 0) of
             None \<Rightarrow> ReadFrame (head @ s)
           | Some bnd \<Rightarrow>
               let n = unat (Uint16 (drop 1 head)) in
               if bnd < n then (Inl TooLarge, s)
               else (case ReadFull n s of
                  (Inl e, s) \<Rightarrow> (Inl e, s)
                | (Inr payload, s) \<Rightarrow>
                    if head ! 0 \<noteq> Notice \<and> (payload = [] \<or> payload ! 0 \<noteq> 123 \<or> \<not> json_valid payload)
                    then (Inl NotAnObject, s)
                    else (Inr (head ! 0, payload), s))))"

record ControlMsg =
  cm_Op :: bytes
  cm_Event :: bytes
  cm_Epoch :: "64 word"
  cm_Reason :: bytes

record PresenceMsg =
  pm_Session :: bytes
  pm_Viewers :: "bytes list option"  \<comment> \<open>a nil slice is \<open>None\<close>\<close>
  pm_Controller :: bytes
  pm_Epoch :: "64 word"
  pm_You :: bytes

text \<open>The messages as JSON, fields in their order, those marked \<open>omitempty\<close> left out when empty.\<close>

definition omitempty_str :: "string \<Rightarrow> bytes \<Rightarrow> (bytes \<times> jvalue) list" where
  "omitempty_str n s = (if s = [] then [] else [(lit n, JStr s)])"

definition control_json :: "ControlMsg \<Rightarrow> jvalue" where
  "control_json m = JObj (omitempty_str ''op'' (cm_Op m) @ omitempty_str ''event'' (cm_Event m)
     @ (if cm_Epoch m = 0 then [] else [(lit ''epoch'', JNum (uint (cm_Epoch m)))])
     @ omitempty_str ''reason'' (cm_Reason m))"

definition presence_json :: "PresenceMsg \<Rightarrow> jvalue" where
  "presence_json m = JObj ([(lit ''session'', JStr (pm_Session m)), (lit ''viewers'', case pm_Viewers m of None \<Rightarrow> JNull | Some vs \<Rightarrow> JArr (map JStr vs))]
     @ omitempty_str ''controller'' (pm_Controller m)
     @ [(lit ''epoch'', JNum (uint (pm_Epoch m))), (lit ''you'', JStr (pm_You m))])"

definition WriteMeta :: "write_outcome \<times> write_outcome \<Rightarrow> byte \<Rightarrow> jvalue \<Rightarrow> bytes \<Rightarrow> frame_error option \<times> bytes" where
  "WriteMeta oc kind v out =
     (let b = marshal v in
      if MaxMeta < length b then (Some TooLarge, out) else WriteFrame oc kind b out)"

subsection \<open>The codec interface\<close>

text \<open>\<open>read_n\<close> reads frames one after another, stopping at the first error.\<close>

fun read_n :: "(bytes \<Rightarrow> ('e + 'f) \<times> bytes) \<Rightarrow> nat \<Rightarrow> bytes \<Rightarrow> 'f list \<times> bytes" where
  "read_n dec 0 s = ([], s)"
| "read_n dec (Suc n) s =
     (case dec s of
        (Inl e, s) \<Rightarrow> ([], s)
      | (Inr f, s) \<Rightarrow> let (fs, s) = read_n dec n s in (f # fs, s))"

locale framing =
  fixes enc :: "'f \<Rightarrow> bytes"
    and dec :: "bytes \<Rightarrow> ('e + 'f) \<times> bytes"
    and ok :: "'f \<Rightarrow> bool"
  assumes dec_enc: "ok f \<Longrightarrow> dec (enc f @ rest) = (Inr f, rest)"
    and dec_sound: "dec s = (Inr f, rest) \<Longrightarrow> ok f \<and> s = enc f @ rest"
begin

lemma read_enc:
  "(\<And>f. f \<in> set fs \<Longrightarrow> ok f) \<Longrightarrow> read_n dec (length fs) (concat (map enc fs) @ rest) = (fs, rest)"
  by (induction fs) (simp_all add: dec_enc)

lemma read_sound:
  "read_n dec n s = (fs, rest) \<Longrightarrow> length fs = n \<Longrightarrow> (\<forall>f \<in> set fs. ok f) \<and> s = concat (map enc fs) @ rest"
proof (induction n arbitrary: s fs)
  case (Suc n)
  obtain f s' gs where d: "dec s = (Inr f, s')" "read_n dec n s' = (gs, rest)" "fs = f # gs"
    using Suc.prems by (auto split: prod.splits sum.splits)
  show ?case using dec_sound [OF d(1)] Suc.IH [OF d(2)] d(3) Suc.prems(2) by simp
qed simp

lemma one_way: "ok f \<Longrightarrow> ok g \<Longrightarrow> enc f @ a = enc g @ b \<Longrightarrow> f = g \<and> a = b"
  by (metis Pair_inject dec_enc sum.inject(2))

lemma cut_not_read: "ok f \<Longrightarrow> n < length (enc f) \<Longrightarrow> dec (take n (enc f)) \<noteq> (Inr g, rest)"
proof
  assume f: "ok f" "n < length (enc f)" and g: "dec (take n (enc f)) = (Inr g, rest)"
  have "take n (enc f) = enc g @ rest" using dec_sound [OF g] by simp
  then have "enc f @ [] = enc g @ rest @ drop n (enc f)"
    by (metis append.assoc append.right_neutral append_take_drop_id)
  with one_way [OF f(1)] dec_sound [OF g] have "rest @ drop n (enc f) = []" by metis
  with f(2) show False by simp
qed

end

subsection \<open>Both versions\<close>

definition frame_bytes :: "frame \<Rightarrow> bytes" where
  "frame_bytes f = fst f # PutUint16 (of_nat (length (snd f))) @ snd f"

definition resize_ok :: "bytes \<Rightarrow> bool" where
  "resize_ok p \<longleftrightarrow> length p = 4 \<and> 1 \<le> Uint16 p \<and> Uint16 p \<le> MaxCols \<and>
     1 \<le> Uint16 (drop 2 p) \<and> Uint16 (drop 2 p) \<le> MaxRows"

definition accept1 :: "frame \<Rightarrow> bool" where
  "accept1 f \<longleftrightarrow> length (snd f) \<le> MaxData \<and>
     (fst f = Data \<or> fst f = Close \<and> snd f = [] \<or> fst f = Resize_frame \<and> resize_ok (snd f))"

definition accept2 :: "frame \<Rightarrow> bool" where
  "accept2 f \<longleftrightarrow>
     (case v2_bound (fst f) of
        None \<Rightarrow> accept1 f
      | Some bnd \<Rightarrow> length (snd f) \<le> bnd \<and>
          (fst f \<noteq> Notice \<longrightarrow> snd f \<noteq> [] \<and> snd f ! 0 = 123 \<and> json_valid (snd f)))"

lemma Uint16_PutUint16 [simp]: "Uint16 (PutUint16 v @ r) = v" "Uint16 (PutUint16 v) = v"
proof -
  have "push_bit 8 (ucast (ucast (drop_bit 8 v) :: byte)) OR ucast (ucast v :: byte) = v"
    by (rule bit_word_eqI) (auto simp: bit_simps)
  then show "Uint16 (PutUint16 v @ r) = v" "Uint16 (PutUint16 v) = v"
    by (simp_all add: Uint16_def PutUint16_def)
qed

lemma PutUint16_Uint16: "PutUint16 (Uint16 [a, b]) = [a, b]"
proof -
  have "\<not> bit b (8 + n)" for n by (auto dest: bit_imp_le_length)
  then have "ucast (drop_bit 8 (push_bit 8 (ucast a) OR ucast b :: 16 word)) = a"
      "ucast (push_bit 8 (ucast a) OR ucast b :: 16 word) = b"
    by (auto intro!: bit_word_eqI simp: bit_simps)
  then show ?thesis by (simp add: Uint16_def PutUint16_def)
qed

lemma length_PutUint16 [simp]: "length (PutUint16 v) = 2"
  by (simp add: PutUint16_def)

lemma word_one_le: "1 \<le> (x :: 16 word) \<longleftrightarrow> x \<noteq> 0"
  by (metis word_gt_0 word_le_sub1 word_less_1 linorder_not_less)

lemma unat_of_nat16: "n \<le> 65535 \<Longrightarrow> unat (of_nat n :: 16 word) = n"
  by (simp add: unsigned_of_nat take_bit_nat_eq_self)

text \<open>What each reader does with the bytes of a frame.\<close>

lemma ReadFull_append: "length a = n \<Longrightarrow> ReadFull n (a @ b) = (Inr a, b)"
  by (simp add: ReadFull_def)

lemma ReadFull_header: "ReadFull 3 (frame_bytes f @ rest) = (Inr (fst f # PutUint16 (of_nat (length (snd f)))), snd f @ rest)"
  using ReadFull_append [of "fst f # PutUint16 (of_nat (length (snd f)))" 3 "snd f @ rest"]
  by (simp add: frame_bytes_def)

lemma accept1_read: "accept1 f \<Longrightarrow> ReadFrame (frame_bytes f @ rest) = (Inr f, rest)"
  by (cases f) (auto simp: ReadFrame_def ReadFull_header ReadFull_append unat_of_nat16 accept1_def resize_ok_def Let_def not_less)

lemma header_bytes:
  assumes "ReadFull 3 s = (Inr h, s')" "ReadFull (unat (Uint16 (drop 1 h))) s' = (Inr p, rest)"
  shows "s = frame_bytes (h ! 0, p) @ rest"
proof -
  from assms(1) have "3 \<le> length s" "h = take 3 s" "s' = drop 3 s"
    by (simp_all add: ReadFull_def split: if_splits)
  then obtain k a b where s: "s = k # a # b # s'" and h: "h = [k, a, b]"
    by (cases s; cases "tl s"; cases "tl (tl s)") auto
  from assms(2) h have p: "length p = unat (Uint16 [a, b])" "s' = p @ rest"
    by (auto simp: ReadFull_def split: if_splits)
  then show ?thesis by (simp add: s h frame_bytes_def PutUint16_Uint16)
qed

lemma ReadFull_length: "ReadFull n s = (Inr p, rest) \<Longrightarrow> length p = n"
  by (auto simp: ReadFull_def split: if_splits)

lemma read_accept1:
  assumes "ReadFrame s = (Inr f, rest)"
  shows "accept1 f \<and> s = frame_bytes f @ rest"
proof -
  obtain h s' where h: "ReadFull 3 s = (Inr h, s')"
    using assms by (auto simp: ReadFrame_def split: prod.splits sum.splits)
  obtain p where p: "ReadFull (unat (Uint16 (drop 1 h))) s' = (Inr p, rest)" "f = (h ! 0, p)"
    using assms h by (auto simp: ReadFrame_def Let_def split: prod.splits sum.splits if_splits)
  have "accept1 f"
    using assms h p ReadFull_length [OF p(1)]
    by (auto simp: ReadFrame_def Let_def accept1_def resize_ok_def word_one_le split: if_splits)
  then show ?thesis using header_bytes [OF h p(1)] p(2) by simp
qed

interpretation v1: framing frame_bytes ReadFrame accept1
  by unfold_locales (simp_all add: accept1_read read_accept1)

lemma accept2_read: "accept2 f \<Longrightarrow> ReadFrameV2 (frame_bytes f @ rest) = (Inr f, rest)"
proof (cases "v2_bound (fst f)")
  case None
  assume "accept2 f"
  with None accept1_read [of f rest] show ?thesis
    by (simp add: accept2_def ReadFrameV2_def ReadFull_header) (simp add: frame_bytes_def)
next
  case (Some bnd)
  assume a: "accept2 f"
  have "bnd \<le> MaxMeta" using Some by (auto simp: v2_bound_def split: if_splits)
  with a Some show ?thesis
    by (cases f) (auto simp: accept2_def ReadFrameV2_def ReadFull_header ReadFull_append unat_of_nat16 Let_def not_less)
qed

lemma read_accept2:
  assumes "ReadFrameV2 s = (Inr f, rest)"
  shows "accept2 f \<and> s = frame_bytes f @ rest"
proof -
  obtain h s' where h: "ReadFull 3 s = (Inr h, s')"
    using assms by (auto simp: ReadFrameV2_def split: prod.splits sum.splits)
  have s: "s = h @ s'" using h by (auto simp: ReadFull_def split: if_splits)
  show ?thesis
  proof (cases "v2_bound (h ! 0)")
    case None
    then have r: "ReadFrame s = (Inr f, rest)" using assms h s by (simp add: ReadFrameV2_def)
    then have "fst f = h ! 0"
      using h by (auto simp: ReadFrame_def Let_def split: prod.splits sum.splits if_splits)
    then show ?thesis using read_accept1 [OF r] None by (simp add: accept2_def)
  next
    case (Some bnd)
    obtain p where p: "ReadFull (unat (Uint16 (drop 1 h))) s' = (Inr p, rest)" "f = (h ! 0, p)"
      using assms h Some by (auto simp: ReadFrameV2_def Let_def split: prod.splits sum.splits if_splits)
    have "accept2 f"
      using assms h p Some ReadFull_length [OF p(1)]
      by (auto simp: ReadFrameV2_def Let_def accept2_def split: if_splits)
    then show ?thesis using header_bytes [OF h p(1)] p(2) by simp
  qed
qed


text \<open>A write that reports no error put exactly the frame's bytes out.\<close>

lemma write_to_ok: "write_to oc b out = (None, out') \<Longrightarrow> out' = out @ b"
  by (auto simp: write_to_def split: write_outcome.splits if_splits)

lemma WriteFrame_ok: "WriteFrame oc kind p out = (None, out') \<Longrightarrow> length p \<le> MaxData \<and> out' = out @ frame_bytes (kind, p)"
  by (auto simp: WriteFrame_def frame_bytes_def Let_def split: prod.splits if_splits dest!: write_to_ok)

subsection \<open>The stream's properties\<close>

text \<open>
  C27. What the readers accept, exactly: a reader returns a frame exactly when the stream begins
  with that frame's bytes and the frame is one the protocol allows (known type, payload within
  its bound, an empty close, a window size within bounds, for meta frames one JSON object), and
  it leaves exactly what follows. Version 1 never returns a notice or a meta frame.
\<close>

theorem readers_accept_exactly:
  "(ReadFrame s = (Inr f, rest) \<longleftrightarrow> accept1 f \<and> s = frame_bytes f @ rest) \<and>
   (ReadFrameV2 s = (Inr f, rest) \<longleftrightarrow> accept2 f \<and> s = frame_bytes f @ rest)"
  using accept1_read [of f rest] read_accept1 [of s f rest] accept2_read [of f rest] read_accept2 [of s f rest]
  by blast





lemma ReadFull_short: "length s < n \<Longrightarrow> ReadFull n s = (Inl (if s = [] then EndOfFile else UnexpectedEOF), [])"
  by (simp add: ReadFull_def)

lemma ReadFull_cut_header:
  assumes "3 \<le> n"
  shows "ReadFull 3 (take n (frame_bytes f)) = (Inr (fst f # PutUint16 (of_nat (length (snd f)))), take (n - 3) (snd f))"
proof -
  have "take n (frame_bytes f) = (fst f # PutUint16 (of_nat (length (snd f)))) @ take (n - 3) (snd f)"
    using assms by (simp add: frame_bytes_def take_Cons' eval_nat_numeral)
  then show ?thesis
    using ReadFull_append [of "fst f # PutUint16 (of_nat (length (snd f)))" 3] by simp
qed

text \<open>
  A stream cut inside a frame is never read as a frame: the reader reports the end of the
  stream, as unexpected unless the cut is at a boundary of its reads (before the frame, or
  between the header and the payload).
\<close>

theorem cut_stream_not_read:
  assumes "accept2 f" and "n < length (frame_bytes f)"
  shows "ReadFrameV2 (take n (frame_bytes f)) = (Inl (if n = 0 \<or> n = 3 then EndOfFile else UnexpectedEOF), [])"
proof (cases "3 \<le> n")
  case True
  have l: "length (snd f) \<le> MaxData"
    using assms(1) by (auto simp: accept2_def accept1_def v2_bound_def split: if_splits option.splits)
  have m: "length (take (n - 3) (snd f)) < length (snd f)" "take (n - 3) (snd f) = [] \<longleftrightarrow> n = 3"
    using assms(2) True by (auto simp: frame_bytes_def)
  have 1: "ReadFrame (take n (frame_bytes f)) = (Inl (if n = 3 then EndOfFile else UnexpectedEOF), [])"
    using l m ReadFull_short [OF m(1)] by (simp add: ReadFrame_def ReadFull_cut_header [OF True] unat_of_nat16 Let_def)
  have 2: "(fst f # PutUint16 (of_nat (length (snd f)))) @ take (n - 3) (snd f) = take n (frame_bytes f)"
    using True by (simp add: frame_bytes_def take_Cons' eval_nat_numeral)
  show ?thesis
    using assms(1) l m ReadFull_short [OF m(1)] 1 2 True
    by (auto simp: ReadFrameV2_def ReadFull_cut_header unat_of_nat16 Let_def accept2_def split: option.splits)
next
  case False
  then have "length (take n (frame_bytes f)) < 3" "take n (frame_bytes f) = [] \<longleftrightarrow> n = 0"
    by (auto simp: frame_bytes_def)
  then show ?thesis using False by (simp add: ReadFrameV2_def ReadFull_short)
qed

theorem cut_stream_not_read_witness:
  "accept2 (Data, [1, 2]) \<and> ReadFrameV2 (take 4 (frame_bytes (Data, [1, 2]))) = (Inl UnexpectedEOF, [])"
proof -
  have a: "accept2 (Data, [1, 2])" by (simp add: accept2_def v2_bound_def accept1_def)
  show ?thesis using a cut_stream_not_read [OF a, of 4] by (simp add: frame_bytes_def)
qed

lemma length_comma_sep: "x \<in> set xs \<Longrightarrow> length x \<le> length (comma_sep xs)"
  by (induction xs rule: comma_sep.induct) auto

lemma fold_max_bound: "(\<And>x. x \<in> set xs \<Longrightarrow> x \<le> b) \<Longrightarrow> a \<le> b \<Longrightarrow> fold max xs a \<le> (b :: nat)"
  by (induction xs arbitrary: a) simp_all

lemma depth_le_length: "depth v \<le> length (marshal v)"
proof (induction v)
  case (JArr vs)
  have "depth v \<le> length (comma_sep (map marshal vs))" if "v \<in> set vs" for v
    using JArr [OF that] length_comma_sep [of "marshal v" "map marshal vs"] that by simp
  then have "fold max (map depth vs) 0 \<le> length (comma_sep (map marshal vs))"
    by (intro fold_max_bound) auto
  then show ?case by simp
next
  case (JObj fs)
  let ?t = "map (\<lambda>(n, v). quote n @ 58 # marshal v) fs"
  have "depth v \<le> length (comma_sep ?t)" if "(n, v) \<in> set fs" for n v
    using JObj [OF that, of v] length_comma_sep [of "quote n @ 58 # marshal v" ?t] that by force
  then have "fold max (map (\<lambda>(n, v). depth v) fs) 0 \<le> length (comma_sep ?t)"
    by (intro fold_max_bound) auto
  then show ?case by simp
qed simp_all

lemma object_frame_accepted:
  assumes "length (marshal (JObj fs)) \<le> MaxMeta" "kind = Control \<or> kind = Presence \<or> kind = State"
  shows "accept2 (kind, marshal (JObj fs))"
  using assms json_valid_marshal [of "JObj fs"] depth_le_length [of "JObj fs"]
  by (auto simp: accept2_def v2_bound_def)

text \<open>
  A control or presence message is always read back as it was written: its JSON is one
  object the reader's check accepts, whatever bytes its strings hold, and no message is written
  that is over the reader's bound.
\<close>

theorem meta_frames_read_back:
  assumes "WriteMeta oc kind v out = (None, out')" and "kind = Control \<or> kind = Presence \<or> kind = State"
    and "(\<exists>m. v = control_json m) \<or> (\<exists>m. v = presence_json m)"
  shows "\<exists>b. out' = out @ b \<and> ReadFrameV2 (b @ rest) = (Inr (kind, marshal v), rest)"
proof -
  obtain fs where v: "v = JObj fs" using assms(3) by (auto simp: control_json_def presence_json_def)
  have w: "length (marshal v) \<le> MaxMeta" "WriteFrame oc kind (marshal v) out = (None, out')"
    using assms(1) by (auto simp: WriteMeta_def Let_def split: if_splits)
  have "accept2 (kind, marshal v)" using object_frame_accepted w(1) assms(2) v by simp
  then show ?thesis using accept2_read WriteFrame_ok [OF w(2)] by auto
qed

definition sample_control :: ControlMsg where
  "sample_control = \<lparr>cm_Op = [], cm_Event = lit ''refused'', cm_Epoch = 7, cm_Reason = [34, 10, 255]\<rparr>"

theorem meta_frames_read_back_witness:
  "\<exists>b. snd (WriteMeta (Wrote, Wrote) Control (control_json sample_control) []) = [] @ b \<and>
     ReadFrameV2 (b @ [1]) = (Inr (Control, marshal (control_json sample_control)), [1])"
proof -
  have "length (marshal (control_json sample_control)) = 51" by code_simp
  then have "fst (WriteMeta (Wrote, Wrote) Control (control_json sample_control) []) = None"
    by (simp add: WriteMeta_def WriteFrame_def write_to_def Let_def)
  then show ?thesis
    by (intro meta_frames_read_back [where oc = "(Wrote, Wrote)"]) (auto simp: prod_eq_iff)
qed

end
