(* ===== verification/ServiceUpgrade.thy ===== *)
theory ServiceUpgrade
  imports GoText
begin

text \<open>
  \<open>internal/serviceupgrade/transaction.go\<close>: the upgrade of a running service's two binaries,
  and its rollback. The driver is an interface in the code and a parameter here: each method is
  a function of a world, and says whether it returned an error. Every call and whether it
  succeeded is added to a trace, so that the properties are about which calls a run makes and in
  which order, whatever the driver does.
\<close>

subsection \<open>Data\<close>

record observed =
  ob_Pin :: bytes
  ob_History :: bytes
  ob_KeyID :: bytes
  ob_PID :: int
  ob_Birth :: bytes
  ob_Capacity :: bytes
  ob_CallerHistory :: bytes
  ob_OwnerCapacity :: bytes
  ob_CallerCapacity :: bytes

definition no_observation :: observed where
  "no_observation = \<lparr>ob_Pin = [], ob_History = [], ob_KeyID = [], ob_PID = 0, ob_Birth = [], ob_Capacity = [],
     ob_CallerHistory = [], ob_OwnerCapacity = [], ob_CallerCapacity = []\<rparr>"

record upgrade_journal =
  uj_Schema :: bytes
  uj_ManifestSHA :: bytes
  uj_Phase :: bytes
  uj_Before :: observed
  uj_Archive :: bytes
  uj_SigningPolicy :: bytes

definition no_journal :: upgrade_journal where
  "no_journal = \<lparr>uj_Schema = [], uj_ManifestSHA = [], uj_Phase = [], uj_Before = no_observation,
     uj_Archive = [], uj_SigningPolicy = []\<rparr>"

record 'w driver =
  d_SigningPolicy :: bytes
  d_Check :: "'w \<Rightarrow> bool \<times> 'w"
  d_Observe :: "'w \<Rightarrow> observed option \<times> 'w"
  d_Archive :: "observed \<Rightarrow> 'w \<Rightarrow> bytes option \<times> 'w"
  d_Save :: "upgrade_journal \<Rightarrow> 'w \<Rightarrow> bool \<times> 'w"
  d_Fence :: "'w \<Rightarrow> bool \<times> 'w"
  d_Stop :: "observed \<Rightarrow> 'w \<Rightarrow> bool \<times> 'w"
  d_Replace :: "'w \<Rightarrow> bool \<times> 'w"
  d_Start :: "'w \<Rightarrow> bool \<times> 'w"
  d_Verify :: "observed \<Rightarrow> 'w \<Rightarrow> bool \<times> 'w"
  d_Open :: "'w \<Rightarrow> bool \<times> 'w"
  d_Restore :: "upgrade_journal \<Rightarrow> 'w \<Rightarrow> bool \<times> 'w"

datatype call =
    Check | Observe | Archive observed | Save upgrade_journal | Fence | Stop observed | Replace
  | StartService | Verify observed | OpenAdmission | Restore upgrade_journal

type_synonym trace = "(call \<times> bool) list"

type_synonym 'w sys = "'w \<times> trace"

text \<open>One call of the driver, recorded.\<close>

definition invoke :: "call \<Rightarrow> ('w \<Rightarrow> bool \<times> 'w) \<Rightarrow> 'w sys \<Rightarrow> bool \<times> 'w sys" where
  "invoke c f s = (let (ok, w) = f (fst s) in (ok, w, snd s @ [(c, ok)]))"

definition invoke_get :: "call \<Rightarrow> ('w \<Rightarrow> 'a option \<times> 'w) \<Rightarrow> 'w sys \<Rightarrow> 'a option \<times> 'w sys" where
  "invoke_get c f s = (let (r, w) = f (fst s) in (r, w, snd s @ [(c, r \<noteq> None)]))"

subsection \<open>Operations\<close>

definition Inspect :: "'w driver \<Rightarrow> 'w sys \<Rightarrow> observed option \<times> 'w sys" where
  "Inspect d s =
     (let (ok, s) = invoke Check (d_Check d) s in
      if \<not> ok then (None, s) else invoke_get Observe (d_Observe d) s)"

text \<open>The actions of \<open>Apply\<close>, each with its phase, in the order of the code's table.\<close>

definition stop_action :: "'w driver \<Rightarrow> observed \<Rightarrow> 'w sys \<Rightarrow> bool \<times> 'w sys" where
  "stop_action d before s =
     (case invoke_get Observe (d_Observe d) s of
        (None, s) \<Rightarrow> (False, s)
      | (Some now, s) \<Rightarrow>
          if now \<noteq> before then (False, s) else invoke (Stop before) (d_Stop d before) s)"

definition operations :: "'w driver \<Rightarrow> observed \<Rightarrow> (bytes \<times> ('w sys \<Rightarrow> bool \<times> 'w sys)) list" where
  "operations d before =
     [(lit ''fencing'', invoke Fence (d_Fence d)),
      (lit ''stopping'', stop_action d before),
      (lit ''installing'', invoke Replace (d_Replace d)),
      (lit ''starting'', invoke StartService (d_Start d)),
      (lit ''verifying'', invoke (Verify before) (d_Verify d before)),
      (lit ''opening'', invoke OpenAdmission (d_Open d))]"

text \<open>\<open>step\<close>: intent is saved before its effect.\<close>

definition upgrade_step :: "'w driver \<Rightarrow> upgrade_journal \<Rightarrow> ('w sys \<Rightarrow> bool \<times> 'w sys) \<Rightarrow> 'w sys \<Rightarrow> bool \<times> 'w sys" where
  "upgrade_step d j act s =
     (let (ok, s) = invoke (Save j) (d_Save d j) s in if \<not> ok then (False, s) else act s)"

fun apply_loop :: "'w driver \<Rightarrow> upgrade_journal \<Rightarrow> (bytes \<times> ('w sys \<Rightarrow> bool \<times> 'w sys)) list \<Rightarrow> 'w sys \<Rightarrow>
    (bool \<times> upgrade_journal) \<times> 'w sys" where
  "apply_loop d j [] s = ((True, j), s)"
| "apply_loop d j ((phase, act) # ops) s =
     (let j = j\<lparr>uj_Phase := phase\<rparr>; (ok, s) = upgrade_step d j act s in
      if \<not> ok then ((False, j), s) else apply_loop d j ops s)"

definition upgrade_schema :: bytes where
  "upgrade_schema = lit ''pomar.service-upgrade-journal/v1''"

datatype upgrade_error =
    InspectFailed | ArchiveFailed | UpgradeIncomplete | CompletionUnsaved | NotTheOriginal | RollbackFailed

definition Apply :: "'w driver \<Rightarrow> bytes \<Rightarrow> 'w sys \<Rightarrow> (upgrade_journal \<times> upgrade_error option) \<times> 'w sys" where
  "Apply d manifestSHA s =
     (case Inspect d s of
        (None, s) \<Rightarrow> ((no_journal, Some InspectFailed), s)
      | (Some before, s) \<Rightarrow>
          (case invoke_get (Archive before) (d_Archive d before) s of
             (None, s) \<Rightarrow> ((no_journal, Some ArchiveFailed), s)
           | (Some archive, s) \<Rightarrow>
               let j = \<lparr>uj_Schema = upgrade_schema, uj_ManifestSHA = manifestSHA, uj_Phase = lit ''prepared'',
                        uj_Before = before, uj_Archive = archive, uj_SigningPolicy = d_SigningPolicy d\<rparr>;
                   ((ok, j), s) = apply_loop d j (operations d before) s
               in if \<not> ok then ((j, Some UpgradeIncomplete), s)
                  else let j = j\<lparr>uj_Phase := lit ''complete''\<rparr>; (ok, s) = invoke (Save j) (d_Save d j) s
                  in (if ok then (j, None) else (j, Some CompletionUnsaved), s)))"

text \<open>\<open>Rollback\<close>, its calls one after the other; the journal returned has the phase last set.\<close>

fun run_calls :: "('w sys \<Rightarrow> bool \<times> 'w sys) list \<Rightarrow> 'w sys \<Rightarrow> bool \<times> 'w sys" where
  "run_calls [] s = (True, s)"
| "run_calls (f # fs) s = (let (ok, s) = f s in if \<not> ok then (False, s) else run_calls fs s)"

definition Rollback :: "'w driver \<Rightarrow> upgrade_journal \<Rightarrow> bytes \<Rightarrow> 'w sys \<Rightarrow>
    (upgrade_journal \<times> upgrade_error option) \<times> 'w sys" where
  "Rollback d j manifestSHA s =
     (if uj_Schema j \<noteq> upgrade_schema \<or> uj_ManifestSHA j \<noteq> manifestSHA \<or> uj_Archive j = [] \<or>
         uj_SigningPolicy j \<noteq> d_SigningPolicy d
      then ((j, Some NotTheOriginal), s)
      else let (ok, s) = invoke Check (d_Check d) s in
      if \<not> ok then ((j, Some RollbackFailed), s)
      else let j = j\<lparr>uj_Phase := lit ''rolling-back''\<rparr>;
               (ok, s) = run_calls
                 [invoke (Save j) (d_Save d j), invoke Fence (d_Fence d), invoke (Restore j) (d_Restore d j),
                  invoke StartService (d_Start d), invoke (Verify (uj_Before j)) (d_Verify d (uj_Before j)),
                  invoke OpenAdmission (d_Open d)] s
           in if \<not> ok then ((j, Some RollbackFailed), s)
           else let j = j\<lparr>uj_Phase := lit ''rolled-back''\<rparr>; (ok, s) = invoke (Save j) (d_Save d j) s
           in (if ok then (j, None) else (j, Some CompletionUnsaved), s))"

subsection \<open>Runs follow a plan\<close>

text \<open>
  A run that follows a plan made its calls in the plan's order, all successful but possibly the
  last, and made all of them successfully exactly when it reports success.
\<close>

fun follows :: "call list \<Rightarrow> bool \<Rightarrow> trace \<Rightarrow> bool" where
  "follows [] ok t \<longleftrightarrow> ok \<and> t = []"
| "follows (c # cs) ok t \<longleftrightarrow>
     \<not> ok \<and> t = [(c, False)] \<or> \<not> ok \<and> cs \<noteq> [] \<and> t = [(c, True)] \<or>
     (\<exists>t'. t = (c, True) # t' \<and> follows cs ok t')"

definition made :: "call list \<Rightarrow> trace" where
  "made cs = map (\<lambda>c. (c, True)) cs"

lemma follows_append: "follows p1 True t1 \<Longrightarrow> follows p2 ok t2 \<Longrightarrow> follows (p1 @ p2) ok (t1 @ t2)"
  by (induction p1 arbitrary: t1) auto

lemma follows_stop: "follows p1 False t \<Longrightarrow> follows (p1 @ p2) False t"
  by (induction p1 arbitrary: t) auto

lemma follows_early: "follows p1 True t \<Longrightarrow> p1 \<noteq> [] \<Longrightarrow> p2 \<noteq> [] \<Longrightarrow> follows (p1 @ p2) False t"
proof (induction p1 arbitrary: t)
  case (Cons c cs)
  then show ?case by (cases cs) auto
qed simp

lemma follows_ok: "follows p True t \<longleftrightarrow> t = made p"
  by (induction p arbitrary: t) (auto simp: made_def)

lemma follows_prefix:
  "follows p ok t \<Longrightarrow> \<exists>q. p = map fst t @ q \<and> (\<forall>e \<in> set (butlast t). snd e) \<and> (ok \<longleftrightarrow> t = made p)"
proof (induction p arbitrary: t)
  case (Cons c cs)
  show ?case
  proof (cases "\<exists>t'. t = (c, True) # t' \<and> follows cs ok t'")
    case True
    then obtain t' where t: "t = (c, True) # t'" "follows cs ok t'" by blast
    from Cons.IH [OF t(2)] show ?thesis by (auto simp: t(1) made_def)
  next
    case False
    then show ?thesis using Cons.prems by (cases cs) (auto simp: made_def)
  qed
qed (auto simp: made_def)

definition goes :: "call list \<Rightarrow> bool \<Rightarrow> 'w sys \<Rightarrow> 'w sys \<Rightarrow> bool" where
  "goes plan ok s s' \<longleftrightarrow> (\<exists>t. snd s' = snd s @ t \<and> follows plan ok t)"

lemma goes_Nil: "goes [] True s s"
  by (simp add: goes_def)

lemma goes_append: "goes p1 True s s1 \<Longrightarrow> goes p2 ok s1 s2 \<Longrightarrow> goes (p1 @ p2) ok s s2"
  using follows_append by (fastforce simp: goes_def)

lemma goes_stop: "goes p1 False s s1 \<Longrightarrow> goes (p1 @ p2) False s s1"
  using follows_stop by (fastforce simp: goes_def)

lemma goes_early: "goes p1 True s s1 \<Longrightarrow> p1 \<noteq> [] \<Longrightarrow> p2 \<noteq> [] \<Longrightarrow> goes (p1 @ p2) False s s1"
  using follows_early by (fastforce simp: goes_def)

lemma goes_then:
  assumes "goes p1 ok1 s s1" "ok1 \<Longrightarrow> goes p2 ok s1 s'" "\<not> ok1 \<Longrightarrow> \<not> ok \<and> s' = s1"
  shows "goes (p1 @ p2) ok s s'"
  using assms goes_append [of p1 s s1 p2 ok s'] goes_stop [of p1 s s1 p2] by (cases ok1) auto

lemma goes_invoke: "invoke c f s = (ok, s') \<Longrightarrow> goes [c] ok s s'"
  by (auto simp: invoke_def goes_def Let_def split: prod.splits)

lemma goes_invoke_get: "invoke_get c f s = (r, s') \<Longrightarrow> goes [c] (r \<noteq> None) s s'"
  by (auto simp: invoke_get_def goes_def Let_def split: prod.splits)

text \<open>An action keeps to its part of the plan, whatever state it starts in.\<close>

definition keeps :: "call list \<Rightarrow> ('w sys \<Rightarrow> bool \<times> 'w sys) \<Rightarrow> bool" where
  "keeps plan act \<longleftrightarrow> (\<forall>s ok s'. act s = (ok, s') \<longrightarrow> goes plan ok s s')"

lemma keepsD: "keeps plan act \<Longrightarrow> act s = (ok, s') \<Longrightarrow> goes plan ok s s'"
  unfolding keeps_def by blast

lemma keeps_invoke: "keeps [c] (invoke c f)"
  unfolding keeps_def using goes_invoke by blast

lemma keeps_stop_action: "keeps [Observe, Stop before] (stop_action d before)"
  unfolding keeps_def
proof (intro allI impI)
  fix s ok s'
  assume a: "stop_action d before s = (ok, s')"
  obtain r s1 where o: "invoke_get Observe (d_Observe d) s = (r, s1)" by (rule prod.exhaust)
  note g = goes_invoke_get [OF o]
  show "goes [Observe, Stop before] ok s s'"
  proof (cases "r = Some before")
    case True
    then have "goes [Stop before] ok s1 s'"
      using a o goes_invoke by (simp add: stop_action_def)
    from goes_append [OF _ this, of "[Observe]" s] g True show ?thesis by simp
  next
    case False
    then have "\<not> ok" "s' = s1" using a o by (auto simp: stop_action_def split: option.splits)
    then show ?thesis
      using g goes_stop [of "[Observe]" s s1 "[Stop before]"] goes_early [of "[Observe]" s s1 "[Stop before]"]
      by (cases "r = None") auto
  qed
qed

lemma goes_upgrade_step:
  assumes p: "keeps p act" and a: "upgrade_step d j act s = (ok, s')"
  shows "goes (Save j # p) ok s s'"
proof -
  obtain o1 s1 where o: "invoke (Save j) (d_Save d j) s = (o1, s1)" by (rule prod.exhaust)
  show ?thesis
    using a o keepsD [OF p, of s1 ok s'] goes_invoke [OF o] goes_stop [of "[Save j]" s s1 p] goes_append [of "[Save j]" s s1 p ok s']
    by (cases o1) (auto simp: upgrade_step_def)
qed

text \<open>The plan of the loop: each phase is saved, then its calls are made.\<close>

definition phase_calls :: "observed \<Rightarrow> (bytes \<times> call list) list" where
  "phase_calls before =
     [(lit ''fencing'', [Fence]), (lit ''stopping'', [Observe, Stop before]), (lit ''installing'', [Replace]),
      (lit ''starting'', [StartService]), (lit ''verifying'', [Verify before]), (lit ''opening'', [OpenAdmission])]"

definition loop_plan :: "upgrade_journal \<Rightarrow> (bytes \<times> call list) list \<Rightarrow> call list" where
  "loop_plan j pcs = concat (map (\<lambda>(ph, cs). Save (j\<lparr>uj_Phase := ph\<rparr>) # cs) pcs)"

lemma goes_loop:
  assumes "list_all2 (\<lambda>(ph, cs) (ph', act). ph = ph' \<and> keeps cs act) pcs ops" "apply_loop d j ops s = ((ok, j'), s')"
  shows "goes (loop_plan j pcs) ok s s' \<and> (\<exists>ph. j' = j\<lparr>uj_Phase := ph\<rparr>)"
  using assms
proof (induction pcs ops arbitrary: j s rule: list_all2_induct)
  case Nil
  then show ?case by (auto simp: loop_plan_def goes_Nil intro: exI [of _ "uj_Phase j"])
next
  case (Cons x pcs y ops)
  obtain ph cs act where xy: "x = (ph, cs)" "y = (ph, act)" "keeps cs act" using Cons.hyps by auto
  let ?j = "j\<lparr>uj_Phase := ph\<rparr>"
  obtain o1 s1 where o: "upgrade_step d ?j act s = (o1, s1)" by (rule prod.exhaust)
  have g: "goes (Save ?j # cs) o1 s s1" by (rule goes_upgrade_step [OF xy(3) o])
  have l: "loop_plan j (x # pcs) = (Save ?j # cs) @ loop_plan ?j pcs" by (simp add: loop_plan_def xy)
  have "goes ((Save ?j # cs) @ loop_plan ?j pcs) ok s s'"
    using Cons.prems o Cons.IH [of ?j s1] by (intro goes_then [OF g]) (auto simp: xy)
  moreover have "\<exists>ph. j' = j\<lparr>uj_Phase := ph\<rparr>"
    using Cons.prems o Cons.IH [of ?j s1] by (cases o1) (auto simp: xy)
  ultimately show ?case unfolding l by simp
qed

lemma operations_keep:
  "list_all2 (\<lambda>(ph, cs) (ph', act). ph = ph' \<and> keeps cs act) (phase_calls before) (operations d before)"
  by (simp add: phase_calls_def operations_def keeps_invoke keeps_stop_action)

definition journal_of :: "'w driver \<Rightarrow> bytes \<Rightarrow> observed \<Rightarrow> bytes \<Rightarrow> bytes \<Rightarrow> upgrade_journal" where
  "journal_of d m before archive ph =
     \<lparr>uj_Schema = upgrade_schema, uj_ManifestSHA = m, uj_Phase = ph, uj_Before = before, uj_Archive = archive,
      uj_SigningPolicy = d_SigningPolicy d\<rparr>"

definition apply_plan :: "'w driver \<Rightarrow> bytes \<Rightarrow> observed \<Rightarrow> bytes \<Rightarrow> call list" where
  "apply_plan d m before archive =
     (let saved = (\<lambda>ph. Save (journal_of d m before archive (lit ph))) in
     [Check, Observe, Archive before,
      saved ''fencing'', Fence,
      saved ''stopping'', Observe, Stop before,
      saved ''installing'', Replace,
      saved ''starting'', StartService,
      saved ''verifying'', Verify before,
      saved ''opening'', OpenAdmission,
      saved ''complete''])"

definition rollback_plan :: "upgrade_journal \<Rightarrow> call list" where
  "rollback_plan j =
     [Check, Save (j\<lparr>uj_Phase := lit ''rolling-back''\<rparr>), Fence, Restore (j\<lparr>uj_Phase := lit ''rolling-back''\<rparr>),
      StartService, Verify (uj_Before j), OpenAdmission, Save (j\<lparr>uj_Phase := lit ''rolled-back''\<rparr>)]"

lemma goes_Inspect: "Inspect d s = (r, s') \<Longrightarrow> goes [Check, Observe] (r \<noteq> None) s s'"
proof -
  assume a: "Inspect d s = (r, s')"
  obtain o1 s1 where o: "invoke Check (d_Check d) s = (o1, s1)" by (rule prod.exhaust)
  note g = goes_invoke [OF o]
  show ?thesis
  proof (cases o1)
    case True
    then have "goes [Observe] (r \<noteq> None) s1 s'" using a o goes_invoke_get by (simp add: Inspect_def)
    with goes_append g True show ?thesis by fastforce
  next
    case False
    then show ?thesis using a o g goes_stop [of "[Check]" s s1 "[Observe]"] by (simp add: Inspect_def)
  qed
qed

lemma goes_run_calls: "list_all2 (\<lambda>c f. keeps [c] f) cs fs \<Longrightarrow> run_calls fs s = (ok, s') \<Longrightarrow> goes cs ok s s'"
proof (induction cs fs arbitrary: s rule: list_all2_induct)
  case (Cons c cs f fs)
  obtain o1 s1 where o: "f s = (o1, s1)" by (rule prod.exhaust)
  have "goes [c] o1 s s1" by (rule keepsD [OF Cons.hyps(1) o])
  then show ?case
    using Cons.prems Cons.IH [of s1] o goes_append [of "[c]" s s1 cs ok s'] goes_stop [of "[c]" s s1 cs]
    by (cases o1) auto
qed (simp add: goes_Nil)

lemma goes_Apply:
  assumes "Apply d m s = ((j, e), s')"
  shows "\<exists>before archive. goes (apply_plan d m before archive) (e = None) s s'"
proof -
  obtain r1 s1 where i: "Inspect d s = (r1, s1)" by (rule prod.exhaust)
  note g1 = goes_Inspect [OF i]
  show ?thesis
  proof (cases r1)
    case None
    then have "s' = s1" "e \<noteq> None" using assms i by (auto simp: Apply_def)
    then show ?thesis
      using goes_stop [of "[Check, Observe]" s s1] g1 None by (force simp: apply_plan_def Let_def)
  next
    case (Some before)
    obtain r2 s2 where a: "invoke_get (Archive before) (d_Archive d before) s1 = (r2, s2)" by (rule prod.exhaust)
    have g2: "goes [Check, Observe, Archive before] (r2 \<noteq> None) s s2"
      using goes_append [OF _ goes_invoke_get [OF a], of "[Check, Observe]"] g1 Some by simp
    show ?thesis
    proof (cases r2)
      case None
      then have "s' = s2" "e \<noteq> None" using assms i a Some by (auto simp: Apply_def)
      then show ?thesis
        using goes_stop [of "[Check, Observe, Archive before]" s s2] g2 None by (force simp: apply_plan_def Let_def)
    next
      case arch: (Some archive)
      let ?j = "journal_of d m before archive (lit ''prepared'')"
      obtain ok j3 s3 where l: "apply_loop d ?j (operations d before) s2 = ((ok, j3), s3)" by (metis prod.exhaust)
      note g3 = goes_loop [OF operations_keep l]
      let ?p = "[Check, Observe, Archive before] @ loop_plan ?j (phase_calls before)"
      have j3: "j3\<lparr>uj_Phase := ph\<rparr> = journal_of d m before archive ph" for ph
        using g3 by (auto simp: journal_of_def)
      have plan: "apply_plan d m before archive = ?p @ [Save (journal_of d m before archive (lit ''complete''))]"
        by (simp add: apply_plan_def loop_plan_def phase_calls_def journal_of_def Let_def)
      have g: "goes ?p ok s s3" using goes_append [OF _ conjunct1 [OF g3], of "[Check, Observe, Archive before]" s] g2 arch by simp
      obtain o4 s4 where c: "invoke (Save (j3\<lparr>uj_Phase := lit ''complete''\<rparr>)) (d_Save d (j3\<lparr>uj_Phase := lit ''complete''\<rparr>)) s3 = (o4, s4)"
        by (rule prod.exhaust)
      have out: "(e = None) = (ok \<and> o4)" "s' = (if ok then s4 else s3)"
        using assms i a Some arch l c by (auto simp: Apply_def journal_of_def Let_def split: if_splits)
      have "goes (?p @ [Save (journal_of d m before archive (lit ''complete''))]) (e = None) s s'"
        using goes_invoke [OF c] out j3 by (intro goes_then [OF g]) auto
      then show ?thesis unfolding plan [symmetric] by blast
    qed
  qed
qed

lemma goes_Rollback:
  assumes "Rollback d j m s = ((j', e), s')" "e \<noteq> Some NotTheOriginal"
  shows "goes (rollback_plan j) (e = None) s s'"
proof -
  let ?r = "j\<lparr>uj_Phase := lit ''rolling-back''\<rparr>" and ?c = "j\<lparr>uj_Phase := lit ''rolled-back''\<rparr>"
  let ?cs = "[Save ?r, Fence, Restore ?r, StartService, Verify (uj_Before j), OpenAdmission]"
  let ?fs = "[invoke (Save ?r) (d_Save d ?r), invoke Fence (d_Fence d), invoke (Restore ?r) (d_Restore d ?r),
    invoke StartService (d_Start d), invoke (Verify (uj_Before j)) (d_Verify d (uj_Before j)),
    invoke OpenAdmission (d_Open d)]"
  obtain o1 s1 where o1: "invoke Check (d_Check d) s = (o1, s1)" by (rule prod.exhaust)
  obtain o2 s2 where o2: "run_calls ?fs s1 = (o2, s2)" by (rule prod.exhaust)
  obtain o3 s3 where o3: "invoke (Save ?c) (d_Save d ?c) s2 = (o3, s3)" by (rule prod.exhaust)
  have out: "(e = None) = (o1 \<and> o2 \<and> o3)" "s' = (if o1 then if o2 then s3 else s2 else s1)"
    using assms o1 o2 o3 by (auto simp: Rollback_def Let_def simp del: run_calls.simps split: if_splits)
  have g2: "goes ?cs o2 s1 s2" by (rule goes_run_calls [OF _ o2]) (simp add: keeps_invoke)
  have "goes (?cs @ [Save ?c]) (e = None) s1 s'" if o1
    using goes_invoke [OF o3] out that by (intro goes_then [OF g2]) auto
  then have "goes ([Check] @ ?cs @ [Save ?c]) (e = None) s s'"
    using out by (intro goes_then [OF goes_invoke [OF o1]]) auto
  then show ?thesis by (simp add: rollback_plan_def)
qed

lemma goes_trace:
  assumes "goes plan ok (w, []) (w', tr)"
  shows "\<exists>rest. plan = map fst tr @ rest \<and> (\<forall>e \<in> set (butlast tr). snd e) \<and> (ok \<longleftrightarrow> tr = made plan)"
  using assms follows_prefix [of plan ok tr] by (simp add: goes_def)

lemma split_plan:
  assumes "plan = map fst tr @ rest" "\<forall>e \<in> set (butlast tr). snd e" "tr = pre @ (c, ok) # post"
  shows "\<exists>n < length plan. plan ! n = c \<and> pre = made (take n plan)"
proof -
  have "butlast tr = pre @ butlast ((c, ok) # post)" using assms(3) by (simp add: butlast_append)
  then have "\<forall>e \<in> set pre. snd e" using assms(2) by simp
  then have "pre = made (map fst pre)" by (induction pre) (auto simp: made_def prod_eq_iff)
  moreover have "plan ! length pre = c" "map fst pre = take (length pre) plan" "length pre < length plan"
    using assms(1,3) by (simp_all add: nth_append)
  ultimately show ?thesis by metis
qed

lemma apply_trace:
  assumes "Apply d m (w, []) = ((j, e), (w', tr))"
  shows "\<exists>before archive rest. apply_plan d m before archive = map fst tr @ rest \<and>
    (\<forall>x \<in> set (butlast tr). snd x) \<and> (e = None \<longleftrightarrow> tr = made (apply_plan d m before archive))"
proof -
  obtain before archive where "goes (apply_plan d m before archive) (e = None) (w, []) (w', tr)"
    using goes_Apply [OF assms] by blast
  from goes_trace [OF this] show ?thesis by blast
qed

lemma rollback_trace:
  assumes "Rollback d j0 m (w, []) = ((j, e), (w', tr))" "e \<noteq> Some NotTheOriginal"
  shows "\<exists>rest. rollback_plan j0 = map fst tr @ rest \<and> (\<forall>x \<in> set (butlast tr). snd x) \<and>
    (e = None \<longleftrightarrow> tr = made (rollback_plan j0))"
  using goes_trace [OF goes_Rollback [OF assms]] by blast

lemma length_apply_plan: "length (apply_plan d m before archive) = 17"
  by (simp add: apply_plan_def Let_def)

lemma length_rollback_plan: "length (rollback_plan j) = 8"
  by (simp add: rollback_plan_def)

lemma apply_effect:
  assumes "Apply d m (w, []) = ((j, e), (w', pre @ (c, ok) # post))"
  shows "\<exists>before archive n. n < 17 \<and> apply_plan d m before archive ! n = c \<and>
    pre = made (take n (apply_plan d m before archive))"
proof -
  obtain before archive rest where "apply_plan d m before archive = map fst (pre @ (c, ok) # post) @ rest"
      "\<forall>x \<in> set (butlast (pre @ (c, ok) # post)). snd x"
    using apply_trace [OF assms] by blast
  from split_plan [OF this refl, unfolded length_apply_plan] show ?thesis by blast
qed

lemma rollback_effect:
  assumes "Rollback d j0 m (w, []) = ((j, e), (w', pre @ (c, ok) # post))"
  shows "\<exists>n < 8. rollback_plan j0 ! n = c \<and> pre = made (take n (rollback_plan j0))"
proof -
  have "e \<noteq> Some NotTheOriginal"
    using assms by (auto simp: Rollback_def Let_def simp del: run_calls.simps split: if_splits prod.splits)
  then obtain rest where "rollback_plan j0 = map fst (pre @ (c, ok) # post) @ rest"
      "\<forall>x \<in> set (butlast (pre @ (c, ok) # post)). snd x"
    using rollback_trace [OF assms] by blast
  from split_plan [OF this refl] show ?thesis by (simp add: length_rollback_plan)
qed

lemma less_17: "n < 17 \<Longrightarrow> n \<in> {0, 1, 2, 3, 4, 5, 6, 7, 8, 9, 10, 11, 12, 13, 14, 15, 16 :: nat}"
  by (simp add: numeral_eq_Suc less_Suc_eq)

subsection \<open>What a run does to the service\<close>

text \<open>
  C18. An upgrade follows its plan: whatever the driver does, the calls of \<open>Apply\<close> are a prefix
  of check, observe, archive, then fence, stop (after observing the same service again), replace,
  start, verify and open, each after its phase was saved, and the completion; every call but the
  last succeeded, and \<open>Apply\<close> reports success exactly when the whole plan was carried out. A
  rollback that is not refused follows its own plan in the same way.
\<close>

theorem upgrade_follows_plan:
  "(Apply d m (w, []) = ((j, e), (w', tr)) \<longrightarrow>
     (\<exists>before archive rest. apply_plan d m before archive = map fst tr @ rest \<and>
        (\<forall>x \<in> set (butlast tr). snd x) \<and> (e = None \<longleftrightarrow> tr = made (apply_plan d m before archive)))) \<and>
   (Rollback d j0 m (w, []) = ((j, e), (w', tr)) \<and> e \<noteq> Some NotTheOriginal \<longrightarrow>
     (\<exists>rest. rollback_plan j0 = map fst tr @ rest \<and> (\<forall>x \<in> set (butlast tr). snd x) \<and>
        (e = None \<longleftrightarrow> tr = made (rollback_plan j0))))"
proof (intro conjI impI)
  assume "Apply d m (w, []) = ((j, e), (w', tr))"
  then show "\<exists>before archive rest. apply_plan d m before archive = map fst tr @ rest \<and>
    (\<forall>x \<in> set (butlast tr). snd x) \<and> (e = None \<longleftrightarrow> tr = made (apply_plan d m before archive))"
    by (rule apply_trace)
next
  assume "Rollback d j0 m (w, []) = ((j, e), (w', tr)) \<and> e \<noteq> Some NotTheOriginal"
  then show "\<exists>rest. rollback_plan j0 = map fst tr @ rest \<and> (\<forall>x \<in> set (butlast tr). snd x) \<and>
    (e = None \<longleftrightarrow> tr = made (rollback_plan j0))"
    by (elim conjE) (rule rollback_trace)
qed

definition last_saved :: "trace \<Rightarrow> bytes option" where
  "last_saved tr =
     (case rev (filter (\<lambda>x. case x of (Save j, True) \<Rightarrow> True | _ \<Rightarrow> False) tr) of
        (Save j, _) # _ \<Rightarrow> Some (uj_Phase j) | _ \<Rightarrow> None)"

fun intent :: "call \<Rightarrow> bytes option" where
  "intent Fence = Some (lit ''fencing'')"
| "intent (Stop _) = Some (lit ''stopping'')"
| "intent Replace = Some (lit ''installing'')"
| "intent StartService = Some (lit ''starting'')"
| "intent OpenAdmission = Some (lit ''opening'')"
| "intent _ = None"

text \<open>
  C17. A crash cannot look like no change: whenever an upgrade makes a call that changes the
  service (fence, stop, replace, start, open), the journal saved last before it names exactly
  that intent.
\<close>

theorem intent_saved_before_effect:
  assumes "Apply d m (w, []) = ((j, e), (w', pre @ (c, ok) # post))" and "intent c = Some ph"
  shows "last_saved pre = Some ph"
proof -
  obtain before archive n where n: "n < 17" "apply_plan d m before archive ! n = c"
      "pre = made (take n (apply_plan d m before archive))"
    using apply_effect [OF assms(1)] by blast
  show ?thesis
    using less_17 [OF n(1)] n(2,3) assms(2)
    by (elim insertE) (auto simp: apply_plan_def Let_def made_def last_saved_def journal_of_def)
qed

text \<open>
  Admission is reopened only on a verified service: when an upgrade or a rollback opens
  admission, verification against the observation it started from has just succeeded, and in an
  upgrade the stopped process was the one observed.
\<close>

theorem admission_opened_only_verified:
  assumes "(Apply d m (w, []) = ((j, e), (w', pre @ (OpenAdmission, ok) # post)) \<and> Q = (\<lambda>b. (Stop b, True) \<in> set pre)) \<or>
    (Rollback d j0 m (w, []) = ((j, e), (w', pre @ (OpenAdmission, ok) # post)) \<and>
       Q = (\<lambda>b. b = uj_Before j0 \<and> (Restore (j0\<lparr>uj_Phase := lit ''rolling-back''\<rparr>), True) \<in> set pre))"
  shows "\<exists>before. (Verify before, True) \<in> set pre \<and> Q before"
  using assms
proof
  assume a: "Apply d m (w, []) = ((j, e), (w', pre @ (OpenAdmission, ok) # post)) \<and> Q = (\<lambda>b. (Stop b, True) \<in> set pre)"
  obtain before archive n where n: "n < 17" "apply_plan d m before archive ! n = OpenAdmission"
      "pre = made (take n (apply_plan d m before archive))"
    using apply_effect [OF conjunct1 [OF a]] by blast
  show ?thesis
    using less_17 [OF n(1)] n(2,3) a by (elim insertE) (auto simp: apply_plan_def Let_def made_def)
next
  assume a: "Rollback d j0 m (w, []) = ((j, e), (w', pre @ (OpenAdmission, ok) # post)) \<and>
       Q = (\<lambda>b. b = uj_Before j0 \<and> (Restore (j0\<lparr>uj_Phase := lit ''rolling-back''\<rparr>), True) \<in> set pre)"
  obtain n where n: "n < 8" "rollback_plan j0 ! n = OpenAdmission" "pre = made (take n (rollback_plan j0))"
    using rollback_effect [OF conjunct1 [OF a]] by blast
  then have "n \<in> {0, 1, 2, 3, 4, 5, 6, 7}" by (simp add: numeral_eq_Suc less_Suc_eq)
  then show ?thesis
    using n(2,3) a by (elim insertE) (auto simp: rollback_plan_def made_def)
qed

text \<open>
  Every journal an upgrade saves can be rolled back: when the archive it names is not empty, a
  rollback with that journal, the same manifest and the same signing policy is not refused.
\<close>

theorem saved_journal_can_roll_back:
  assumes "Apply d m (w, []) = ((j, e), (w', tr))" and "(Save j', ok) \<in> set tr" and "uj_Archive j' \<noteq> []"
  shows "snd (fst (Rollback d j' m s)) \<noteq> Some NotTheOriginal"
proof -
  obtain before archive rest where "apply_plan d m before archive = map fst tr @ rest"
    using apply_trace [OF assms(1)] by blast
  moreover have "Save j' \<in> set (map fst tr)" using assms(2) by force
  ultimately have "Save j' \<in> set (apply_plan d m before archive)" by (metis Un_iff set_append)
  then have "uj_Schema j' = upgrade_schema" "uj_ManifestSHA j' = m" "uj_SigningPolicy j' = d_SigningPolicy d"
    by (auto simp: apply_plan_def Let_def journal_of_def)
  then show ?thesis using assms(3) by (auto simp: Rollback_def Let_def split_beta split: if_splits)
qed

subsection \<open>A driver whose calls all succeed\<close>

definition good_driver :: "unit driver" where
  "good_driver = \<lparr>d_SigningPolicy = lit ''p'', d_Check = Pair True, d_Observe = Pair (Some no_observation),
     d_Archive = (\<lambda>_. Pair (Some (lit ''a''))), d_Save = (\<lambda>_. Pair True), d_Fence = Pair True,
     d_Stop = (\<lambda>_. Pair True), d_Replace = Pair True, d_Start = Pair True, d_Verify = (\<lambda>_. Pair True),
     d_Open = Pair True, d_Restore = (\<lambda>_. Pair True)\<rparr>"

abbreviation good_plan :: "call list" where
  "good_plan \<equiv> apply_plan good_driver (lit ''m'') no_observation (lit ''a'')"

abbreviation good_journal :: "bytes \<Rightarrow> upgrade_journal" where
  "good_journal \<equiv> journal_of good_driver (lit ''m'') no_observation (lit ''a'')"

lemma good_apply:
  "Apply good_driver (lit ''m'') ((), []) = ((good_journal (lit ''complete''), None), ((), made good_plan))"
  by (simp add: Apply_def Inspect_def invoke_def invoke_get_def operations_def stop_action_def upgrade_step_def
      good_driver_def apply_plan_def journal_of_def made_def Let_def)

lemma good_split:
  "made good_plan = made (take 15 good_plan) @ (OpenAdmission, True) # made (drop 16 good_plan)"
  "made good_plan = made (take 9 good_plan) @ (Replace, True) # made (drop 10 good_plan)"
  by (simp_all add: apply_plan_def Let_def made_def)

theorem upgrade_follows_plan_witness:
  "\<exists>before archive rest. apply_plan good_driver (lit ''m'') before archive = map fst (made good_plan) @ rest"
  using upgrade_follows_plan [of good_driver "lit ''m''" "()" "good_journal (lit ''complete'')" None "()" "made good_plan"]
    good_apply by blast

theorem intent_saved_before_effect_witness:
  "last_saved (made (take 9 good_plan)) = Some (lit ''installing'')"
  by (rule intent_saved_before_effect [where c = Replace, OF good_apply [unfolded good_split(2)]]) simp

theorem admission_opened_only_verified_witness:
  "\<exists>before. (Verify before, True) \<in> set (made (take 15 good_plan)) \<and> (Stop before, True) \<in> set (made (take 15 good_plan))"
  by (rule admission_opened_only_verified
      [where Q = "\<lambda>b. (Stop b, True) \<in> set (made (take 15 good_plan))", OF disjI1, OF conjI,
       OF good_apply [unfolded good_split(1)] refl])

theorem saved_journal_can_roll_back_witness:
  "snd (fst (Rollback good_driver (good_journal (lit ''opening'')) (lit ''m'') ((), []))) \<noteq> Some NotTheOriginal"
proof (rule saved_journal_can_roll_back [OF good_apply])
  show "(Save (good_journal (lit ''opening'')), True) \<in> set (made good_plan)"
    by (simp add: apply_plan_def Let_def made_def)
qed (simp add: journal_of_def lit_def)

end
