(* ===== verification/AgentData.thy ===== *)
theory AgentData
  imports Json AtomicFile
begin

text \<open>
  The data of \<open>internal/agentenv\<close>: a session's retained state, as \<open>state.go\<close>,
  \<open>continuation.go\<close>, \<open>controller.go\<close>, \<open>adapter_selection.go\<close> and
  \<open>reconcile.go\<close> declare it. Go's maps are lists of entries with one entry a key; JSON values a
  message carries without being looked into are their bytes; times are their printed form.
\<close>

record task =
  t_OperationID :: bytes
  t_Incarnation :: bytes
  t_Text :: bytes

definition task_json :: "task \<Rightarrow> jvalue" where
  "task_json t = JObj [(lit ''operation_id'', JStr (t_OperationID t)),
     (lit ''expected_incarnation'', JStr (t_Incarnation t)), (lit ''text'', JStr (t_Text t))]"

record completion_observation =
  co_Incarnation :: bytes
  co_OperationID :: bytes
  co_SourceMethod :: bytes
  co_ObservedAt :: bytes

record operation =
  op_ID :: bytes
  op_Incarnation :: bytes
  op_InputHash :: bytes
  op_State :: bytes
  op_TurnID :: bytes
  op_ThreadID :: bytes
  op_ActorAcknowledged :: bool
  op_Completion :: bytes
  op_CompletionObservation :: "completion_observation option"

record agent_event =
  ev_Sequence :: nat
  ev_Incarnation :: bytes
  ev_Method :: bytes
  ev_RequestID :: bytes
  ev_Params :: bytes
  ev_ParamsSHA256 :: bytes
  ev_PermissionID :: bytes

record rejected_event =
  re_Incarnation :: bytes
  re_CurrentIncarnation :: bytes
  re_Method :: bytes
  re_ThreadID :: bytes
  re_TurnID :: bytes
  re_OperationID :: bytes
  re_ParamsSHA256 :: bytes
  re_Reason :: bytes

record agent_control =
  c_ID :: bytes
  c_Kind :: bytes
  c_Incarnation :: bytes
  c_InputHash :: bytes
  c_State :: bytes
  c_Evidence :: bytes
  c_Refusal :: bytes

record model_observation =
  mo_Status :: bytes
  mo_Model :: bytes
  mo_Provider :: bytes
  mo_ThreadID :: bytes
  mo_IncarnationID :: bytes
  mo_OperationID :: bytes
  mo_ObservedAt :: bytes
  mo_SourceMethod :: bytes

definition unknown_model :: model_observation where
  "unknown_model = \<lparr>mo_Status = lit ''unknown'', mo_Model = [], mo_Provider = [], mo_ThreadID = [],
     mo_IncarnationID = [], mo_OperationID = [], mo_ObservedAt = [], mo_SourceMethod = []\<rparr>"

record adapter_selection =
  as_Provider :: bytes
  as_Name :: bytes
  as_Version :: bytes
  as_Platform :: bytes
  as_Executable :: bytes
  as_ExecutableSHA256 :: bytes
  as_ConfigurationSHA256 :: bytes

record controller_binding =
  cb_EnvironmentID :: bytes
  cb_SessionID :: bytes
  cb_WorkspaceID :: bytes
  cb_ScopeID :: bytes
  cb_Incarnation :: bytes
  cb_OperationID :: bytes
  cb_InputSHA256 :: bytes
  cb_ThreadID :: bytes
  cb_TurnID :: bytes
  cb_NativeRequestID :: bytes
  cb_CallID :: bytes

record controller_reply =
  cy_ReplyID :: bytes
  cy_Binding :: controller_binding
  cy_Text :: bytes
  cy_Success :: bool

record controller_request =
  cq_ID :: bytes
  cq_Binding :: controller_binding
  cq_Capability :: bytes
  cq_Data :: bytes
  cq_NativeParamsSHA256 :: bytes
  cq_State :: bytes
  cq_Reply :: "controller_reply option"
  cq_ReplySHA256 :: bytes

record reconcile_request =
  rq_OperationID :: bytes
  rq_SessionID :: bytes
  rq_Incarnation :: bytes
  rq_LaunchOperation :: bytes
  rq_FenceOperation :: bytes

record reconciliation =
  rc_Request :: reconcile_request
  rc_InputSHA256 :: bytes
  rc_HistoricalExecution :: bytes
  rc_ObservedAt :: bytes
  rc_CurrentScope :: bytes
  rc_ReplacementEligible :: bool
  rc_EvidenceFile :: bytes
  rc_EvidenceSHA256 :: bytes
  rc_OriginalConfigSHA256 :: bytes
  rc_OriginalStatusSHA256 :: bytes
  rc_OriginalHelperExitSHA256 :: bytes
  rc_Issues :: "bytes list"

record workspace_inventory =
  wi_Head :: bytes
  wi_Status :: bytes
  wi_DiffSHA256 :: bytes

record continuation_request =
  k_DispositionID :: bytes
  k_IntentRef :: bytes
  k_AuthorityRef :: bytes
  k_ResponsibleOwner :: bytes
  k_EnvironmentID :: bytes
  k_WorkspaceID :: bytes
  k_SessionID :: bytes
  k_OriginalOperation :: bytes
  k_OriginalIncarnation :: bytes
  k_OriginalInputSHA256 :: bytes
  k_OriginalThreadID :: bytes
  k_OriginalTurnID :: bytes
  k_OriginalFenceOperation :: bytes
  k_PredecessorIncarnation :: bytes
  k_PredecessorFenceOperation :: bytes
  k_LaunchOperation :: bytes
  k_WorkspaceInventorySHA256 :: bytes
  k_RecoveryDescription :: bytes
  k_ExternalActionInventory :: bytes
  k_Successor :: task

record continuation_binding =
  b_Request :: continuation_request
  b_RequestSHA256 :: bytes
  b_Decision :: bytes
  b_Original :: operation
  b_OriginalFence :: reconciliation
  b_PredecessorFence :: reconciliation
  b_Inventory :: workspace_inventory
  b_Successor :: task
  b_SuccessorInputSHA256 :: bytes
  b_SuccessorThreadID :: bytes
  b_BoundAt :: bytes

record agent_state =
  a_AdapterSelection :: "adapter_selection option"
  a_ControllerCapabilities :: "bytes list"
  a_ControllerRequests :: "(bytes \<times> controller_request) list"
  a_EnvironmentID :: bytes
  a_SessionID :: bytes
  a_Incarnation :: bytes
  a_ThreadID :: bytes
  a_Operations :: "(bytes \<times> operation) list"
  a_Events :: "agent_event list"
  a_RejectedEvents :: "rejected_event list"
  a_Controls :: "(bytes \<times> agent_control) list"
  a_Continuations :: "(bytes \<times> continuation_binding) list"
  a_ContractVersion :: bytes
  a_WorkspaceID :: bytes
  a_SourceSHA :: bytes
  a_ScopeID :: bytes
  a_RequestedModel :: bytes
  a_RequestedProvider :: bytes
  a_ModelObservation :: model_observation
  a_ModelObservations :: "model_observation list"

text \<open>The store: its state in memory, and whether a write failed (\<open>fatal\<close>).\<close>

record agent_store =
  g_s :: agent_state
  g_fatal :: bool

definition validID :: "bytes \<Rightarrow> bool" where
  "validID s \<longleftrightarrow> ident128 s"

end
