(* ===== verification/AgentStore.thy ===== *)
theory AgentStore
  imports AgentData AtMostOnce
begin

text \<open>
  \<open>internal/agentenv/state.go\<close>, the store's part of \<open>continuation.go\<close>, and
  \<open>evidence_projection.go\<close>: a session's durable record of what was submitted to the actor
  and what is known of it. An operation decides on the state in memory whether to refuse, to
  answer from what is retained, or to commit a new state; a commit changes memory and then
  replaces the file, and a failure leaves the store unusable. The hash, the length of the encoded
  state, the decoded form of a message and the time are arguments.
\<close>

subsection \<open>Decisions and commits\<close>

datatype agent_error =
  ErrStale | ErrConflict | ErrBusy | JournalUncertain | DecodeFailed | SaveError | Message string

datatype 'r decision = Refuse agent_error | Answer 'r | Commit agent_state 'r

record persist_calls =
  pc_marshal :: bool
  pc_file :: file_calls

record agent_disk =
  ad_session :: "agent_state option"
  ad_identity :: bool

abbreviation maxJournal :: nat where "maxJournal \<equiv> 16777216"

definition persist :: "(agent_state \<Rightarrow> nat) \<Rightarrow> persist_calls \<Rightarrow> agent_state \<Rightarrow> save_outcome" where
  "persist len c st =
     (if \<not> pc_marshal c then NotCommitted
      else if maxJournal < len st then NotCommitted
      else replace_file (pc_file c))"

definition save_store :: "(agent_state \<Rightarrow> nat) \<Rightarrow> persist_calls \<Rightarrow> agent_store \<Rightarrow> agent_disk \<Rightarrow>
    bool \<times> agent_store \<times> agent_disk" where
  "save_store len c m k =
     (case persist len c (g_s m) of
        Committed \<Rightarrow> (True, m, k\<lparr>ad_session := Some (g_s m)\<rparr>)
      | NotCommitted \<Rightarrow> (False, m\<lparr>g_fatal := True\<rparr>, k)
      | CommittedUncertain \<Rightarrow> (False, m\<lparr>g_fatal := True\<rparr>, k\<lparr>ad_session := Some (g_s m)\<rparr>))"

type_synonym 'r outcome = "(agent_error + 'r) \<times> agent_store \<times> agent_disk"

definition perform :: "(agent_state \<Rightarrow> nat) \<Rightarrow> persist_calls \<Rightarrow> agent_store \<Rightarrow> agent_disk \<Rightarrow> 'r decision \<Rightarrow> 'r outcome" where
  "perform len c m k d =
     (case d of
        Refuse e \<Rightarrow> (Inl e, m, k)
      | Answer r \<Rightarrow> (Inr r, m, k)
      | Commit st r \<Rightarrow>
          let (ok, m, k) = save_store len c (m\<lparr>g_s := st\<rparr>) k in (if ok then Inr r else Inl SaveError, m, k))"

definition check :: "bytes \<Rightarrow> agent_store \<Rightarrow> agent_error option" where
  "check inc m =
     (if g_fatal m then Some JournalUncertain
      else if inc \<noteq> a_Incarnation (g_s m) then Some ErrStale else None)"

definition checked :: "bytes \<Rightarrow> agent_store \<Rightarrow> 'r decision \<Rightarrow> 'r decision" where
  "checked inc m d = (case check inc m of Some e \<Rightarrow> Refuse e | None \<Rightarrow> d)"

subsection \<open>Continuations\<close>

definition closedUnresolved :: "bytes \<Rightarrow> agent_state \<Rightarrow> bool" where
  "closedUnresolved i st \<longleftrightarrow>
     list_ex (\<lambda>(_, b). op_ID (b_Original b) = i \<and> b_Decision b = lit ''closed_unresolved'') (a_Continuations st)"

text \<open>The completion of an operation, empty when there is none, as a lookup in Go's map gives it.\<close>

definition completion_of :: "bytes \<Rightarrow> agent_state \<Rightarrow> bytes" where
  "completion_of i st = (case map_of (a_Operations st) i of None \<Rightarrow> [] | Some op \<Rightarrow> op_Completion op)"

definition continuedBy :: "bytes \<Rightarrow> bytes \<Rightarrow> agent_state \<Rightarrow> bool" where
  "continuedBy original successor st =
     (case List.find (\<lambda>(_, b). op_ID (b_Original b) = original \<and> b_Decision b = lit ''closed_unresolved'')
        (a_Continuations st) of
        None \<Rightarrow> False
      | Some (_, b) \<Rightarrow>
          t_OperationID (b_Successor b) = successor \<or> completion_of (t_OperationID (b_Successor b)) st \<noteq> [])"

definition continuationLocked :: "bytes \<Rightarrow> bytes \<Rightarrow> agent_store \<Rightarrow> agent_error + continuation_binding option" where
  "continuationLocked disposition hash m =
     (case check (a_Incarnation (g_s m)) m of
        Some e \<Rightarrow> Inl e
      | None \<Rightarrow>
          (case map_of (a_Continuations (g_s m)) disposition of
             Some old \<Rightarrow> if b_RequestSHA256 old \<noteq> hash then Inl ErrConflict else Inr (Some old)
           | None \<Rightarrow> Inr None))"

definition fence_bound :: "reconciliation \<Rightarrow> bytes \<Rightarrow> bytes \<Rightarrow> agent_state \<Rightarrow> bool" where
  "fence_bound r inc operation st \<longleftrightarrow>
     rq_Incarnation (rc_Request r) = inc \<and> rq_OperationID (rc_Request r) = operation \<and>
     rq_SessionID (rc_Request r) = a_SessionID st \<and> rc_ReplacementEligible r \<and>
     rc_CurrentScope r = lit ''fenced_now'' \<and> length (rc_EvidenceSHA256 r) = 64"

definition same_original :: "operation \<Rightarrow> continuation_request \<Rightarrow> agent_state \<Rightarrow> bool" where
  "same_original o1 r st \<longleftrightarrow>
     op_Incarnation o1 = k_OriginalIncarnation r \<and> op_InputHash o1 = k_OriginalInputSHA256 r \<and>
     op_TurnID o1 = k_OriginalTurnID r \<and> op_Completion o1 = [] \<and> op_State o1 = lit ''acceptance_unknown'' \<and>
     k_OriginalThreadID r = a_ThreadID st \<and> (op_ThreadID o1 = [] \<or> op_ThreadID o1 = k_OriginalThreadID r)"

definition bindContinuation :: "(bytes \<Rightarrow> bytes) \<Rightarrow> bytes \<Rightarrow> continuation_binding \<Rightarrow> agent_store \<Rightarrow>
    continuation_binding decision" where
  "bindContinuation sha now binding m =
     (let r = b_Request binding; st = g_s m; succ = k_Successor r in
      case continuationLocked (k_DispositionID r) (b_RequestSHA256 binding) m of
        Inl e \<Rightarrow> Refuse e
      | Inr (Some old) \<Rightarrow> Answer old
      | Inr None \<Rightarrow>
      checked (t_Incarnation succ) m (
      if \<not> validID (k_DispositionID r) \<or> \<not> validID (t_OperationID succ) \<or> k_IntentRef r = [] \<or> k_AuthorityRef r = [] \<or>
         k_ResponsibleOwner r = [] \<or> t_Text succ = [] \<or> 65536 < length (t_Text succ) \<or>
         k_RecoveryDescription r = [] \<or> k_ExternalActionInventory r = []
      then Refuse (Message ''continuation lacks intent/disposition binding'')
      else if k_EnvironmentID r \<noteq> a_EnvironmentID st \<or> k_WorkspaceID r \<noteq> a_WorkspaceID st \<or> k_SessionID r \<noteq> a_SessionID st \<or>
         t_OperationID succ = k_OriginalOperation r \<or> t_Incarnation succ = k_OriginalIncarnation r \<or>
         t_Incarnation succ = k_PredecessorIncarnation r
      then Refuse ErrConflict
      else case map_of (a_Operations st) (k_OriginalOperation r) of
        None \<Rightarrow> Refuse (Message ''original unresolved identity differs'')
      | Some original \<Rightarrow>
      if \<not> same_original original r st then Refuse (Message ''original unresolved identity differs'')
      else if list_ex (\<lambda>(_, old). op_ID (b_Original old) = op_ID original \<or>
                t_OperationID (b_Successor old) = t_OperationID succ) (a_Continuations st)
      then Refuse ErrConflict
      else if list_ex (\<lambda>(_, op). op_ID op = t_OperationID succ \<or>
                (op_ID op \<noteq> op_ID original \<and> op_Completion op = [] \<and> \<not> closedUnresolved (op_ID op) st)) (a_Operations st)
      then Refuse ErrBusy
      else if map_of (a_Controls st) (t_OperationID succ) \<noteq> None then Refuse ErrConflict
      else if \<not> fence_bound (b_OriginalFence binding) (k_OriginalIncarnation r) (k_OriginalFenceOperation r) st \<or>
              \<not> fence_bound (b_PredecessorFence binding) (k_PredecessorIncarnation r) (k_PredecessorFenceOperation r) st
      then Refuse (Message ''continuation lacks confirmed scope evidence'')
      else if wi_Head (b_Inventory binding) \<noteq> a_SourceSHA st \<or> wi_Status (b_Inventory binding) \<noteq> [] \<or>
              wi_DiffSHA256 (b_Inventory binding) \<noteq> sha []
      then Refuse (Message ''this bounded continuation requires inspected unchanged baseline; retain unexpected work'')
      else let binding = binding\<lparr>b_Original := original, b_Decision := lit ''closed_unresolved'', b_BoundAt := now,
                 b_Successor := succ, b_SuccessorInputSHA256 := sha (marshal (task_json succ))\<rparr>
           in Commit (st\<lparr>a_Continuations := put (k_DispositionID r) binding (a_Continuations st),
                         a_ThreadID := [], a_ModelObservation := unknown_model\<rparr>) binding))"

definition ResultSnapshot :: "agent_store \<Rightarrow> agent_error + agent_state" where
  "ResultSnapshot m =
     (let st = g_s m in
      case check (a_Incarnation st) m of
        Some e \<Rightarrow> Inl e
      | None \<Rightarrow>
          (case List.find (\<lambda>(_, b). case map_of (a_Operations st) (t_OperationID (b_Successor b)) of
                    None \<Rightarrow> True
                  | Some op \<Rightarrow> op_Completion op = [] \<or> op_ID op \<noteq> t_OperationID (b_Successor b) \<or>
                      op_Incarnation op \<noteq> t_Incarnation (b_Successor b) \<or> op_InputHash op \<noteq> b_SuccessorInputSHA256 b)
                (a_Continuations st) of
             Some (_, b) \<Rightarrow> Inl (if completion_of (t_OperationID (b_Successor b)) st = [] then ErrBusy else ErrConflict)
           | None \<Rightarrow>
               if list_ex (\<lambda>(_, op). op_Completion op = [] \<and> \<not> closedUnresolved (op_ID op) st) (a_Operations st)
               then Inl ErrBusy else Inr st))"

subsection \<open>Submissions\<close>

definition new_operation :: "bytes \<Rightarrow> bytes \<Rightarrow> bytes \<Rightarrow> operation" where
  "new_operation i inc hash = \<lparr>op_ID = i, op_Incarnation = inc, op_InputHash = hash, op_State = lit ''dispatching'',
     op_TurnID = [], op_ThreadID = [], op_ActorAcknowledged = False, op_Completion = [],
     op_CompletionObservation = None\<rparr>"

text \<open>\<open>Begin\<close>: the operation, and whether to dispatch it.\<close>

definition Begin :: "(bytes \<Rightarrow> bytes) \<Rightarrow> task \<Rightarrow> agent_store \<Rightarrow> (operation \<times> bool) decision" where
  "Begin sha t m =
     (let st = g_s m; i = t_OperationID t; hash = sha (marshal (task_json t)) in
      checked (t_Incarnation t) m (
      if \<not> validID i \<or> length (t_Text t) = 0 \<or> 65536 < length (t_Text t)
      then Refuse (Message ''invalid operation id or task size'')
      else if map_of (a_Controls st) i \<noteq> None then Refuse ErrConflict
      else case map_of (a_Operations st) i of
        Some existing \<Rightarrow> if op_InputHash existing \<noteq> hash then Refuse ErrConflict else Answer (existing, False)
      | None \<Rightarrow>
          if list_ex (\<lambda>(_, e). op_Completion e = [] \<and> \<not> continuedBy (op_ID e) i st) (a_Operations st)
          then Refuse ErrBusy
          else if list_ex (\<lambda>(_, b). t_OperationID (b_Successor b) = i \<and> b_SuccessorInputSHA256 b \<noteq> hash) (a_Continuations st)
          then Refuse ErrConflict
          else let op = new_operation i (t_Incarnation t) hash
               in Commit (st\<lparr>a_Operations := put i op (a_Operations st)\<rparr>) (op, True)))"

definition set_thread :: "bytes \<Rightarrow> bytes \<Rightarrow> agent_store \<Rightarrow> unit decision" where
  "set_thread inc i m =
     checked inc m (
     if i = [] then Refuse (Message ''empty thread id'') else Commit ((g_s m)\<lparr>a_ThreadID := i\<rparr>) ())"

text \<open>A thread response: the thread's identity, the model and its provider.\<close>

record thread_response =
  tr_ThreadID :: bytes
  tr_Model :: bytes
  tr_Provider :: bytes

definition ObserveModel :: "bytes \<Rightarrow> bytes \<Rightarrow> bytes \<Rightarrow> bytes \<Rightarrow> thread_response option \<Rightarrow> agent_store \<Rightarrow> unit decision" where
  "ObserveModel now inc operation method raw m =
     (case raw of
        None \<Rightarrow> Refuse DecodeFailed
      | Some out \<Rightarrow>
      let st = g_s m; thread = tr_ThreadID out in
      if thread = [] then Refuse (Message ''thread response lacks identity'')
      else checked inc m (
      if method \<noteq> lit ''thread/start'' \<and> method \<noteq> lit ''thread/resume''
      then Refuse (Message ''unsupported observation source'')
      else if \<not> validID operation then Refuse (Message ''invalid observation operation'')
      else let found = map_of (a_Operations st) operation in
      if (case found of Some op \<Rightarrow> op_Incarnation op \<noteq> inc | None \<Rightarrow> False) then Refuse ErrStale
      else if found = None \<and> (case map_of (a_Controls st) operation of None \<Rightarrow> True | Some c \<Rightarrow> c_Incarnation c \<noteq> inc)
      then Refuse (Message ''model observation requires retained operation'')
      else if method = lit ''thread/resume'' \<and> thread \<noteq> a_ThreadID st
      then Refuse (Message ''resumed thread identity mismatch'')
      else if method = lit ''thread/start'' \<and>
              (case found of Some op \<Rightarrow> op_ThreadID op \<noteq> [] \<and> op_ThreadID op \<noteq> thread | None \<Rightarrow> False)
      then Refuse ErrConflict
      else let st = (case found of
                 Some op \<Rightarrow> st\<lparr>a_Operations := put operation (op\<lparr>op_ThreadID := thread\<rparr>) (a_Operations st)\<rparr> | None \<Rightarrow> st);
               st = st\<lparr>a_ThreadID := thread,
                       a_Continuations := map (\<lambda>(i, b). (i, if t_OperationID (b_Successor b) = operation
                          then b\<lparr>b_SuccessorThreadID := thread\<rparr> else b)) (a_Continuations st),
                       a_ModelObservation := unknown_model\<rparr>;
               seen = \<lparr>mo_Status = lit ''observed'', mo_Model = tr_Model out, mo_Provider = tr_Provider out,
                       mo_ThreadID = thread, mo_IncarnationID = inc, mo_OperationID = operation,
                       mo_ObservedAt = now, mo_SourceMethod = method\<rparr>
           in Commit (if tr_Model out \<noteq> [] \<and> tr_Provider out \<noteq> []
                      then st\<lparr>a_ModelObservation := seen, a_ModelObservations := a_ModelObservations st @ [seen]\<rparr>
                      else st) ()))"

definition Accepted :: "bytes \<Rightarrow> bytes \<Rightarrow> bytes \<Rightarrow> agent_store \<Rightarrow> unit decision" where
  "Accepted inc operation turn m =
     (let st = g_s m in
      checked inc m (
      case map_of (a_Operations st) operation of
        None \<Rightarrow> Refuse ErrStale
      | Some op \<Rightarrow>
          if op_Incarnation op \<noteq> inc then Refuse ErrStale
          else if turn = [] then Refuse (Message ''empty turn id'')
          else if op_TurnID op \<noteq> [] \<and> op_TurnID op \<noteq> turn then Refuse ErrConflict
          else let op = op\<lparr>op_TurnID := turn\<rparr>;
                   op = (if op_ThreadID op = [] then op\<lparr>op_ThreadID := a_ThreadID st\<rparr> else op);
                   op = (if op_Completion op = [] then op\<lparr>op_State := lit ''accepted''\<rparr> else op)
               in Commit (st\<lparr>a_Operations := put operation op (a_Operations st)\<rparr>) ()))"

definition set_unknown :: "bytes \<Rightarrow> bytes \<Rightarrow> agent_store \<Rightarrow> unit decision" where
  "set_unknown inc operation m =
     (let st = g_s m in
      checked inc m (
      case map_of (a_Operations st) operation of
        None \<Rightarrow> Refuse (Message ''unknown operation'')
      | Some op \<Rightarrow>
          Commit (if op_Completion op = [] \<and> op_TurnID op = []
                  then st\<lparr>a_Operations := put operation (op\<lparr>op_State := lit ''acceptance_unknown''\<rparr>) (a_Operations st)\<rparr>
                  else st) ()))"

subsection \<open>Events\<close>

text \<open>An event's parameters, as far as they are looked into.\<close>

record event_params =
  ep_ThreadID :: bytes
  ep_TurnID :: bytes
  ep_Turn :: "(bytes \<times> bytes) option"  \<comment> \<open>its identity and status\<close>
  ep_code :: "int option"
  ep_willRetry :: "bool option"

definition turn_id :: "event_params \<Rightarrow> bytes" where
  "turn_id p = (case ep_Turn p of None \<Rightarrow> [] | Some t \<Rightarrow> fst t)"

definition turn_status :: "event_params \<Rightarrow> bytes" where
  "turn_status p = (case ep_Turn p of None \<Rightarrow> [] | Some t \<Rightarrow> snd t)"

definition projectLifecycleEvidence :: "(bytes \<Rightarrow> bytes) \<Rightarrow> bytes \<Rightarrow> bytes \<Rightarrow> event_params \<Rightarrow> bytes \<times> bytes" where
  "projectLifecycleEvidence sha method raw p =
     (if method \<noteq> lit ''error'' \<and> method \<noteq> lit ''turn/started'' \<and> method \<noteq> lit ''turn/completed'' then (raw, [])
      else let diagnostic = (case ep_code p of None \<Rightarrow> [] | Some n \<Rightarrow> [(lit ''code'', JNum n)])
                 @ [(lit ''message'', JStr (lit ''provider error; private diagnostic details omitted''))];
               err = (if method = lit ''error'' then [(lit ''error'', JObj diagnostic)] else []);
               thread = (if ep_ThreadID p \<noteq> [] then [(lit ''threadId'', JStr (ep_ThreadID p))] else []);
               turn = (case ep_Turn p of None \<Rightarrow> [] | Some (i, status) \<Rightarrow>
                 [(lit ''turn'', JObj ((lit ''id'', JStr i) # (if status = [] then [] else [(lit ''status'', JStr status)])))]);
               turnId = (if ep_TurnID p \<noteq> [] then [(lit ''turnId'', JStr (ep_TurnID p))] else []);
               retry = (if method = lit ''error''
                 then (case ep_willRetry p of None \<Rightarrow> [] | Some b \<Rightarrow> [(lit ''willRetry'', JBool b)]) else [])
           in (marshal (JObj (err @ thread @ turn @ turnId @ retry)), sha raw))"

definition permissionKey :: "(bytes \<Rightarrow> bytes) \<Rightarrow> bytes \<Rightarrow> bytes \<Rightarrow> bytes" where
  "permissionKey sha inc i = sha (inc @ [0] @ i)"

abbreviation maxParams :: nat where "maxParams \<equiv> 262144"

definition rejectStaleEvent :: "(bytes \<Rightarrow> bytes) \<Rightarrow> bytes \<Rightarrow> bytes \<Rightarrow> bytes \<Rightarrow> event_params option \<Rightarrow>
    agent_store \<Rightarrow> (agent_error + unit) decision" where
  "rejectStaleEvent sha inc method raw decoded m =
     (let st = g_s m in
      if 1024 \<le> length (a_RejectedEvents st) \<or> maxParams < length raw then Refuse ErrStale
      else case decoded of
        None \<Rightarrow> Refuse ErrStale
      | Some p \<Rightarrow>
          let turn = (if ep_TurnID p = [] then turn_id p else ep_TurnID p);
              operation = (case List.find (\<lambda>(_, op). op_Incarnation op = inc \<and> op_TurnID op \<noteq> [] \<and> op_TurnID op = turn \<and>
                  (op_ThreadID op = [] \<or> op_ThreadID op = ep_ThreadID p)) (a_Operations st) of
                None \<Rightarrow> [] | Some (i, _) \<Rightarrow> i);
              rejected = \<lparr>re_Incarnation = inc, re_CurrentIncarnation = a_Incarnation st, re_Method = method,
                re_ThreadID = ep_ThreadID p, re_TurnID = turn, re_OperationID = operation,
                re_ParamsSHA256 = sha raw, re_Reason = lit ''stale incarnation''\<rparr>
          in Commit (st\<lparr>a_RejectedEvents := a_RejectedEvents st @ [rejected]\<rparr>) (Inl ErrStale))"

definition terminal_status :: "bytes \<Rightarrow> bool" where
  "terminal_status s \<longleftrightarrow> s = lit ''completed'' \<or> s = lit ''failed'' \<or> s = lit ''interrupted''"

text \<open>What an event does to one operation.\<close>

definition observe_operation :: "bytes \<Rightarrow> bytes \<Rightarrow> bytes \<Rightarrow> event_params \<Rightarrow> operation \<Rightarrow> operation" where
  "observe_operation inc method turn p op =
     (if op_Incarnation op \<noteq> inc \<or> op_Completion op \<noteq> [] then op
      else if op_TurnID op \<noteq> [] \<and> op_TurnID op \<noteq> turn then op
      else let op = (if method = lit ''turn/started''
                     then let op = op\<lparr>op_TurnID := turn, op_State := lit ''accepted'', op_ActorAcknowledged := True\<rparr>
                          in if op_ThreadID op = [] then op\<lparr>op_ThreadID := ep_ThreadID p\<rparr> else op
                     else op)
           in if method = lit ''turn/completed'' \<and> turn \<noteq> []
              then op\<lparr>op_TurnID := turn, op_Completion := turn_status p, op_State := lit ''finished''\<rparr> else op)"

definition Observe_decision :: "(bytes \<Rightarrow> bytes) \<Rightarrow> bytes \<Rightarrow> bytes \<Rightarrow> bytes \<Rightarrow> bytes \<Rightarrow> event_params option \<Rightarrow>
    agent_store \<Rightarrow> (agent_error + unit) decision" where
  "Observe_decision sha inc method requestID raw decoded m =
     (let st = g_s m in
      case check inc m of
        Some e \<Rightarrow> if e = ErrStale then rejectStaleEvent sha inc method raw decoded m else Refuse e
      | None \<Rightarrow>
      if 8192 \<le> length (a_Events st) \<or> maxParams < length raw then Refuse (Message ''agent event limit reached'')
      else case decoded of
        None \<Rightarrow> Refuse DecodeFailed
      | Some p \<Rightarrow>
      if ep_ThreadID p \<noteq> [] \<and> ep_ThreadID p \<noteq> a_ThreadID st then Refuse (Message ''actor event belongs to another thread'')
      else if (method = lit ''turn/started'' \<or> method = lit ''turn/completed'') \<and> (ep_ThreadID p = [] \<or> turn_id p = [])
      then Refuse (Message ''turn event lacks thread or turn identity'')
      else if method = lit ''turn/completed'' \<and> \<not> terminal_status (turn_status p)
      then Refuse (Message ''unknown completion status'')
      else let (projected, hash) = projectLifecycleEvidence sha method raw p;
               event = \<lparr>ev_Sequence = length (a_Events st) + 1, ev_Incarnation = inc, ev_Method = method,
                 ev_RequestID = requestID, ev_Params = projected, ev_ParamsSHA256 = hash,
                 ev_PermissionID = (if requestID \<noteq> [] then permissionKey sha inc requestID else [])\<rparr>;
               turn = (if ep_TurnID p = [] then turn_id p else ep_TurnID p)
           in Commit (st\<lparr>a_Events := a_Events st @ [event],
                a_Operations := map (\<lambda>(i, op). (i, observe_operation inc method turn p op)) (a_Operations st)\<rparr>) (Inr ()))"

subsection \<open>Recovery\<close>

text \<open>The turns of a resumed thread by identity; an empty or repeated identity is refused.\<close>

fun turn_table :: "(bytes \<times> bytes) list \<Rightarrow> (bytes \<times> bytes) list \<Rightarrow> agent_error + (bytes \<times> bytes) list" where
  "turn_table [] seen = Inr seen"
| "turn_table ((i, status) # turns) seen =
     (if i = [] then Inl (Message ''retained turn lacks identity'')
      else if map_of seen i \<noteq> None then Inl (Message ''duplicate retained turn identity'')
      else turn_table turns (put i status seen))"

definition recover_operation :: "bytes \<Rightarrow> bytes \<Rightarrow> bytes \<Rightarrow> bytes \<Rightarrow> (bytes \<times> bytes) list \<Rightarrow> agent_state \<Rightarrow>
    bytes \<Rightarrow> operation \<Rightarrow> operation" where
  "recover_operation now inc operation thread turns st i op =
     (if op_Incarnation op = inc \<or> op_Completion op \<noteq> [] \<or> op_TurnID op = [] \<or> closedUnresolved i st \<or>
         (op_ThreadID op \<noteq> [] \<and> op_ThreadID op \<noteq> thread)
      then op
      else case map_of turns (op_TurnID op) of
        None \<Rightarrow> op
      | Some status \<Rightarrow>
          if \<not> terminal_status status then op
          else op\<lparr>op_State := lit ''finished'', op_Completion := status,
                  op_CompletionObservation := Some \<lparr>co_Incarnation = inc, co_OperationID = operation,
                    co_SourceMethod = lit ''thread/resume'', co_ObservedAt = now\<rparr>\<rparr>)"

definition ObserveRecoveredTurns :: "bytes \<Rightarrow> bytes \<Rightarrow> bytes \<Rightarrow> (bytes \<times> (bytes \<times> bytes) list) option \<Rightarrow>
    agent_store \<Rightarrow> unit decision" where
  "ObserveRecoveredTurns now inc operation raw m =
     (let st = g_s m in
      case raw of
        None \<Rightarrow> Refuse DecodeFailed
      | Some (thread, turns) \<Rightarrow>
      checked inc m (
      if (case map_of (a_Controls st) operation of
            None \<Rightarrow> True | Some c \<Rightarrow> c_Kind c \<noteq> lit ''resume'' \<or> c_Incarnation c \<noteq> inc) \<or>
         thread \<noteq> a_ThreadID st \<or> thread = []
      then Refuse (Message ''recovery observation is not bound to the resumed thread/control'')
      else case turn_table turns [] of
        Inl e \<Rightarrow> Refuse e
      | Inr table \<Rightarrow>
          Commit (st\<lparr>a_Operations :=
            map (\<lambda>(i, op). (i, recover_operation now inc operation thread table st i op)) (a_Operations st)\<rparr>) ()))"

subsection \<open>Controls and the source\<close>

text \<open>\<open>BindSource\<close> is the one write that does not look at \<open>fatal\<close>.\<close>

definition BindSource :: "bytes \<Rightarrow> agent_store \<Rightarrow> unit decision" where
  "BindSource sha1 m =
     (let st = g_s m in
      if a_SourceSHA st \<noteq> [] \<and> a_SourceSHA st \<noteq> sha1 then Refuse (Message ''workspace source baseline changed'')
      else Commit (st\<lparr>a_SourceSHA := sha1\<rparr>) ())"

definition BeginControl :: "(bytes \<Rightarrow> bytes) \<Rightarrow> bytes \<Rightarrow> bytes \<Rightarrow> bytes \<Rightarrow> jvalue \<Rightarrow> agent_store \<Rightarrow> (agent_control \<times> bool) decision" where
  "BeginControl sha kind i inc payload m =
     (let st = g_s m;
          hash = sha (marshal (JObj [(lit ''expected_incarnation'', JStr inc), (lit ''kind'', JStr kind), (lit ''payload'', payload)]))
      in checked inc m (
      if \<not> validID i then Refuse (Message ''invalid operation id'')
      else if map_of (a_Operations st) i \<noteq> None then Refuse ErrConflict
      else case map_of (a_Controls st) i of
        Some existing \<Rightarrow> if c_InputHash existing \<noteq> hash then Refuse ErrConflict else Answer (existing, False)
      | None \<Rightarrow>
          let c = \<lparr>c_ID = i, c_Kind = kind, c_Incarnation = inc, c_InputHash = hash, c_State = lit ''dispatching'',
                   c_Evidence = [], c_Refusal = []\<rparr>
          in Commit (st\<lparr>a_Controls := put i c (a_Controls st)\<rparr>) (c, True)))"

definition with_control :: "bytes \<Rightarrow> agent_store \<Rightarrow> (agent_control \<Rightarrow> agent_control) \<Rightarrow> unit decision" where
  "with_control i m f =
     (let st = g_s m in
      case map_of (a_Controls st) i of
        None \<Rightarrow> Refuse (Message ''unknown control operation'')
      | Some c \<Rightarrow> checked (c_Incarnation c) m (Commit (st\<lparr>a_Controls := put i (f c) (a_Controls st)\<rparr>) ()))"

definition FinishControl :: "bytes \<Rightarrow> bool \<Rightarrow> agent_store \<Rightarrow> unit decision" where
  "FinishControl i known m =
     with_control i m (\<lambda>c. c\<lparr>c_State := if known then lit ''sent'' else lit ''acceptance_unknown''\<rparr>)"

definition UnsupportedControl :: "bytes \<Rightarrow> agent_store \<Rightarrow> unit decision" where
  "UnsupportedControl i m = with_control i m (\<lambda>c. c\<lparr>c_State := lit ''unsupported''\<rparr>)"

definition RefusePermission :: "bytes \<Rightarrow> agent_store \<Rightarrow> unit decision" where
  "RefusePermission i m =
     (case map_of (a_Controls (g_s m)) i of
        None \<Rightarrow> Refuse (Message ''permission refusal requires an undispatched control'')
      | Some c \<Rightarrow>
          if c_Kind c \<noteq> lit ''permission'' \<or> c_State c \<noteq> lit ''dispatching''
          then Refuse (Message ''permission refusal requires an undispatched control'')
          else with_control i m (\<lambda>c. c\<lparr>c_State := lit ''refused'', c_Evidence := lit ''durable_non_acceptance'',
                 c_Refusal := lit ''unknown or already answered permission request''\<rparr>))"

subsection \<open>Opening\<close>

text \<open>
  What the system calls of \<open>Open\<close> report: the directory's checks, the lock, reading and decoding
  the journal (a missing one is missing on the disk), the marker's presence and the two writes.
\<close>

record open_calls =
  oc_dir :: bool
  oc_lock :: bool
  oc_read :: bool
  oc_persist :: persist_calls
  oc_marker :: bool

definition fresh_state :: "bytes \<Rightarrow> bytes \<Rightarrow> bytes \<Rightarrow> agent_state" where
  "fresh_state environment session inc =
     \<lparr>a_AdapterSelection = None, a_ControllerCapabilities = [], a_ControllerRequests = [],
      a_EnvironmentID = environment, a_SessionID = session, a_Incarnation = inc, a_ThreadID = [],
      a_Operations = [], a_Events = [], a_RejectedEvents = [], a_Controls = [], a_Continuations = [],
      a_ContractVersion = [], a_WorkspaceID = [], a_SourceSHA = [], a_ScopeID = [], a_RequestedModel = [],
      a_RequestedProvider = [], a_ModelObservation = \<lparr>mo_Status = [], mo_Model = [], mo_Provider = [], mo_ThreadID = [],
        mo_IncarnationID = [], mo_OperationID = [], mo_ObservedAt = [], mo_SourceMethod = []\<rparr>,
      a_ModelObservations = []\<rparr>"

text \<open>What a new incarnation makes of what it finds: nothing in flight is known to have been accepted.\<close>

definition reopen_operation :: "operation \<Rightarrow> operation" where
  "reopen_operation op = (if op_Completion op = [] then op\<lparr>op_State := lit ''acceptance_unknown''\<rparr> else op)"

definition reopen_control :: "agent_control \<Rightarrow> agent_control" where
  "reopen_control c = (if c_State c = lit ''dispatching'' then c\<lparr>c_State := lit ''acceptance_unknown''\<rparr> else c)"

definition reopen_request :: "bytes \<Rightarrow> controller_request \<Rightarrow> controller_request" where
  "reopen_request inc q =
     (let q = (if cq_State q = lit ''dispatching'' then q\<lparr>cq_State := lit ''acceptance_unknown''\<rparr> else q)
      in if cq_State q = lit ''pending'' \<and> cb_Incarnation (cq_Binding q) \<noteq> inc then q\<lparr>cq_State := lit ''fenced''\<rparr> else q)"

definition reopened :: "bytes \<Rightarrow> agent_state \<Rightarrow> agent_state" where
  "reopened inc st = st\<lparr>a_Incarnation := inc,
     a_Operations := map (\<lambda>(i, op). (i, reopen_operation op)) (a_Operations st),
     a_Controls := map (\<lambda>(i, c). (i, reopen_control c)) (a_Controls st)\<rparr>"

definition open_state :: "(agent_state \<Rightarrow> nat) \<Rightarrow> bytes \<Rightarrow> bytes \<Rightarrow> bytes \<Rightarrow> bool \<Rightarrow> agent_disk \<Rightarrow> agent_error + agent_state" where
  "open_state len environment session inc read_ok k =
     (if \<not> read_ok then Inl (Message ''journal unreadable'')
      else case ad_session k of
        Some st \<Rightarrow>
          if maxJournal < len st then Inl (Message ''agent journal exceeds limit'')
          else if a_EnvironmentID st \<noteq> environment \<or> a_SessionID st \<noteq> session
          then Inl (Message ''stored identity mismatch'')
          else if a_Incarnation st = inc
          then Inl (Message ''broker restart requires a new fenced actor incarnation; surviving broker reconnect uses its existing socket'')
          else Inr (reopened inc st)
      | None \<Rightarrow>
          if ad_identity k then Inl (Message ''retained journal missing; acceptance evidence unknown'')
          else Inr (fresh_state environment session inc))"

definition agent_Open :: "(agent_state \<Rightarrow> nat) \<Rightarrow> bytes \<Rightarrow> bytes \<Rightarrow> bytes \<Rightarrow> open_calls \<Rightarrow> agent_disk \<Rightarrow>
    (agent_error + agent_store) \<times> agent_disk" where
  "agent_Open len environment session inc c k =
     (if \<not> validID environment \<or> \<not> validID session \<or> \<not> validID inc
      then (Inl (Message ''invalid environment, session or incarnation id''), k)
      else if \<not> oc_dir c then (Inl (Message ''agent state directory must be private and not redirected''), k)
      else if \<not> oc_lock c then (Inl (Message ''agent store already owned''), k)
      else case open_state len environment session inc (oc_read c) k of
        Inl e \<Rightarrow> (Inl e, k)
      | Inr st \<Rightarrow>
          let st = st\<lparr>a_ControllerRequests := map (\<lambda>(i, q). (i, reopen_request inc q)) (a_ControllerRequests st),
                     a_ContractVersion := lit ''pomar.agent/v1'', a_ModelObservation := unknown_model,
                     a_WorkspaceID := lit ''workspace-'' @ environment, a_ScopeID := lit ''scope-'' @ inc\<rparr>
          in (case persist len (oc_persist c) st of
                NotCommitted \<Rightarrow> (Inl SaveError, k)
              | CommittedUncertain \<Rightarrow> (Inl SaveError, k\<lparr>ad_session := Some st\<rparr>)
              | Committed \<Rightarrow>
                  if \<not> ad_identity k \<and> \<not> oc_marker c then (Inl (Message ''identity write failed''), k\<lparr>ad_session := Some st\<rparr>)
                  else (Inr \<lparr>g_s = st, g_fatal = False\<rparr>, k\<lparr>ad_session := Some st, ad_identity := True\<rparr>)))"

end
