(* ===== verification/Controller.thy ===== *)
theory Controller
  imports AgentStore
begin

text \<open>
  \<open>internal/agentenv/controller.go\<close> and \<open>adapter_selection.go\<close>: the owner's configuration
  of a session, and the requests the actor makes of a controller with their replies. The broker's
  fields they read are a record; a message's strictly decoded form is an argument.
\<close>

record broker =
  br_incarnation :: bytes
  br_actor :: bool
  br_resumeFailure :: bool
  br_controllerReady :: bool
  br_controllerPending :: "(bytes \<times> bytes) list"

subsection \<open>Configuration\<close>

text \<open>\<open>^[a-z][a-z0-9_]{0,63}$\<close>\<close>

definition capabilityName :: "bytes \<Rightarrow> bool" where
  "capabilityName s \<longleftrightarrow> s \<noteq> [] \<and> length s \<le> 64 \<and> 0x61 \<le> hd s \<and> hd s \<le> 0x7a \<and>
     list_all (\<lambda>c. (0x61 \<le> c \<and> c \<le> 0x7a) \<or> (0x30 \<le> c \<and> c \<le> 0x39) \<or> c = 0x5f) (tl s)"

fun capabilities_ok :: "bytes list \<Rightarrow> bytes list \<Rightarrow> bool" where
  "capabilities_ok [] seen \<longleftrightarrow> True"
| "capabilities_ok (n # names) seen \<longleftrightarrow>
     capabilityName n \<and> n \<notin> set seen \<and> capabilities_ok names (n # seen)"

definition ValidateControllerCapabilities :: "bytes list \<Rightarrow> agent_error option" where
  "ValidateControllerCapabilities names =
     (if 16 < length names then Some (Message ''too many controller capabilities'')
      else if \<not> capabilities_ok names [] then Some (Message ''invalid controller capability'') else None)"

definition ConfigureController :: "bytes list \<Rightarrow> broker \<Rightarrow> agent_store \<Rightarrow> unit decision" where
  "ConfigureController names b m =
     (let st = g_s m in
      case ValidateControllerCapabilities names of
        Some e \<Rightarrow> Refuse e
      | None \<Rightarrow>
      if br_actor b then Refuse (Message ''controller configuration requires an uninitialized broker'')
      else checked (br_incarnation b) m (
      if a_ThreadID st \<noteq> [] \<and> names \<noteq> a_ControllerCapabilities st then Refuse ErrConflict
      else Commit (st\<lparr>a_ControllerCapabilities := names\<rparr>) ()))"

definition supported_adapter :: "adapter_selection \<Rightarrow> bool" where
  "supported_adapter s \<longleftrightarrow>
     (as_Provider s = lit ''openai'' \<and> as_Name s = lit ''codex-app-server'') \<or>
     (as_Provider s = lit ''anthropic'' \<and> as_Name s = lit ''claude-code'')"

definition pinned_adapter :: "adapter_selection \<Rightarrow> bool" where
  "pinned_adapter s \<longleftrightarrow>
     as_Executable s \<noteq> [] \<and> hd (as_Executable s) = 47 \<and> length (as_Executable s) \<le> 4096 \<and>
     hex64 (as_ExecutableSHA256 s) \<and> hex64 (as_ConfigurationSHA256 s) \<and>
     as_Version s \<noteq> [] \<and> length (as_Version s) \<le> 64 \<and> as_Platform s \<noteq> [] \<and> length (as_Platform s) \<le> 32"

definition ConfigureAdapterSelection :: "adapter_selection \<Rightarrow> broker \<Rightarrow> agent_store \<Rightarrow> unit decision" where
  "ConfigureAdapterSelection s b m =
     (let st = g_s m in
      if br_actor b then Refuse (Message ''adapter selection requires an uninitialized broker'')
      else if \<not> pinned_adapter s then Refuse (Message ''adapter selection requires a pinned executable and configuration'')
      else if \<not> supported_adapter s then Refuse (Message ''unsupported owner adapter selection'')
      else checked (br_incarnation b) m (
      case a_AdapterSelection st of
        Some old \<Rightarrow> if old \<noteq> s then Refuse ErrConflict else Answer ()
      | None \<Rightarrow>
          if a_ThreadID st \<noteq> []
          then Refuse (Message ''retained thread has no adapter binding; continue its previous binary or use a distinct environment'')
          else Commit (st\<lparr>a_AdapterSelection := Some s\<rparr>) ()))"

definition qualifiedController :: "adapter_selection option \<Rightarrow> bool" where
  "qualifiedController selection =
     (case selection of
        None \<Rightarrow> False
      | Some s \<Rightarrow>
          let darwin = as_Platform s = lit ''darwin/arm64''; linux = as_Platform s = lit ''linux/arm64'';
              hash = as_ExecutableSHA256 s in
          if as_Provider s = lit ''anthropic'' \<and> as_Name s = lit ''claude-code'' \<and> as_Version s = lit ''2.1.280''
          then (darwin \<and> hash = lit ''387a5c5dcdbb815085edf0baf79591f9d8894efe922bceaf3d75b1b08055229d'') \<or>
               (linux \<and> hash = lit ''92f2b4fd05d0bdcf7b9a0d4e0ecef4a1e4b368b290cd8fd07cff9a50013f45a2'')
          else if as_Provider s \<noteq> lit ''openai'' \<or> as_Name s \<noteq> lit ''codex-app-server'' \<or> as_Version s \<noteq> lit ''0.160.0''
          then False
          else (linux \<and> hash = lit ''50b06603bdcdac39b714f5c3e68583c002b8ad8779ebfdaaf4932ff016b379c0'') \<or>
               (darwin \<and> hash = lit ''112fae7a5a1223e673c8a1791d32338f37df8b527ff1159bb8adac6c4dbf1b4b''))"

subsection \<open>Requests\<close>

abbreviation controllerTextLimit :: nat where "controllerTextLimit \<equiv> 32768"

text \<open>
  A tool call: its identity in canonical form (\<open>None\<close> when it is not a valid one), its
  parameters' bytes, and what they decode to under the strict decoder.
\<close>

record tool_call =
  tc_NativeID :: "bytes option"
  tc_Params :: bytes
  tc_ThreadID :: bytes
  tc_TurnID :: bytes
  tc_CallID :: bytes
  tc_Tool :: bytes
  tc_Namespace :: bytes
  tc_Arguments :: "(bytes \<times> bytes) option"  \<comment> \<open>capability and data\<close>

definition binding_json :: "controller_binding \<Rightarrow> bytes" where
  "binding_json b =
     123 # comma_sep [quote (lit ''environment_id'') @ 58 # quote (cb_EnvironmentID b),
       quote (lit ''session_id'') @ 58 # quote (cb_SessionID b), quote (lit ''workspace_id'') @ 58 # quote (cb_WorkspaceID b),
       quote (lit ''scope_id'') @ 58 # quote (cb_ScopeID b), quote (lit ''incarnation'') @ 58 # quote (cb_Incarnation b),
       quote (lit ''operation_id'') @ 58 # quote (cb_OperationID b), quote (lit ''input_sha256'') @ 58 # quote (cb_InputSHA256 b),
       quote (lit ''thread_id'') @ 58 # quote (cb_ThreadID b), quote (lit ''turn_id'') @ 58 # quote (cb_TurnID b),
       quote (lit ''native_request_id'') @ 58 # cb_NativeRequestID b,
       quote (lit ''call_id'') @ 58 # quote (cb_CallID b)] @ [125]"

definition request_binding :: "broker \<Rightarrow> agent_state \<Rightarrow> operation \<Rightarrow> bytes \<Rightarrow> tool_call \<Rightarrow> controller_binding" where
  "request_binding b st op native call =
     \<lparr>cb_EnvironmentID = a_EnvironmentID st, cb_SessionID = a_SessionID st, cb_WorkspaceID = a_WorkspaceID st,
      cb_ScopeID = a_ScopeID st, cb_Incarnation = br_incarnation b, cb_OperationID = op_ID op,
      cb_InputSHA256 = op_InputHash op, cb_ThreadID = tc_ThreadID call, cb_TurnID = tc_TurnID call,
      cb_NativeRequestID = native, cb_CallID = tc_CallID call\<rparr>"

text \<open>\<open>observeControllerRequest\<close>: the request to keep as pending, unless it is a repetition.\<close>

definition observeControllerRequest :: "(bytes \<Rightarrow> bytes) \<Rightarrow> tool_call \<Rightarrow> broker \<Rightarrow> agent_store \<Rightarrow>
    (bytes \<times> bytes) option decision" where
  "observeControllerRequest sha call b m =
     (let st = g_s m in
      case tc_NativeID call of
        None \<Rightarrow> Refuse (Message ''controller request unsupported or unbound'')
      | Some native \<Rightarrow>
      if \<not> br_controllerReady b \<or> br_resumeFailure b \<or> 49152 < length (tc_Params call)
      then Refuse (Message ''controller request unsupported or unbound'')
      else if tc_Tool call \<noteq> lit ''pomar_controller_request'' \<or> tc_Namespace call \<noteq> [] \<or> tc_CallID call = [] \<or>
              128 < length (tc_CallID call)
      then Refuse (Message ''invalid native controller request'')
      else case tc_Arguments call of
        None \<Rightarrow> Refuse (Message ''invalid controller arguments'')
      | Some (capability, data) \<Rightarrow>
      if controllerTextLimit < length data \<or> \<not> valid_utf8 data then Refuse (Message ''invalid controller arguments'')
      else checked (br_incarnation b) m (
      if capability \<notin> set (a_ControllerCapabilities st) \<or> tc_ThreadID call = [] \<or> tc_ThreadID call \<noteq> a_ThreadID st \<or>
         tc_TurnID call = []
      then Refuse (Message ''controller capability or thread unavailable'')
      else case List.find (\<lambda>(_, op). op_Incarnation op = br_incarnation b \<and> op_ThreadID op = tc_ThreadID call \<and>
                  op_TurnID op = tc_TurnID call \<and> op_Completion op = []) (a_Operations st) of
        None \<Rightarrow> Refuse ErrStale
      | Some (_, op) \<Rightarrow>
      if op_ID op = [] then Refuse ErrStale
      else let binding = request_binding b st op native call;
               i = sha (binding_json binding);
               request = \<lparr>cq_ID = i, cq_Binding = binding, cq_Capability = capability, cq_Data = data,
                 cq_NativeParamsSHA256 = sha (tc_Params call), cq_State = lit ''pending'', cq_Reply = None, cq_ReplySHA256 = []\<rparr>
           in case List.find (\<lambda>(_, q). cb_Incarnation (cq_Binding q) = br_incarnation b \<and>
                  (cb_NativeRequestID (cq_Binding q) = native \<or> cb_CallID (cq_Binding q) = tc_CallID call))
                (a_ControllerRequests st) of
             Some (j, q) \<Rightarrow>
               if j \<noteq> i \<or> cq_NativeParamsSHA256 q \<noteq> cq_NativeParamsSHA256 request then Refuse ErrConflict else Answer None
           | None \<Rightarrow>
               if 1024 \<le> length (a_ControllerRequests st) then Refuse (Message ''controller request limit reached'')
               else Commit (st\<lparr>a_ControllerRequests := put i request (a_ControllerRequests st)\<rparr>) (Some (i, native))))"

definition reply_json :: "controller_reply \<Rightarrow> jvalue" where
  "reply_json r = JObj [(lit ''contentItems'', JArr [JObj [(lit ''text'', JStr (cy_Text r)), (lit ''type'', JStr (lit ''inputText''))]]),
     (lit ''success'', JBool (cy_Success r))]"

text \<open>
  \<open>ReplyController\<close> up to the native write: the retained request, and the native identity to
  answer when this reply is the one to be written.
\<close>

definition reply_begin :: "(bytes \<Rightarrow> bytes) \<Rightarrow> bytes \<Rightarrow> controller_reply \<Rightarrow> broker \<Rightarrow> agent_store \<Rightarrow>
    (controller_request \<times> bytes option) decision" where
  "reply_begin sha i reply b m =
     (let st = g_s m in
      checked (cb_Incarnation (cy_Binding reply)) m (
      case map_of (a_ControllerRequests st) i of
        None \<Rightarrow> Refuse (Message ''unknown controller request'')
      | Some request \<Rightarrow>
      if binding_json (cq_Binding request) \<noteq> binding_json (cy_Binding reply) \<or>
         br_incarnation b \<noteq> cb_Incarnation (cy_Binding reply)
      then Refuse ErrStale
      else if \<not> validID (cy_ReplyID reply) \<or> controllerTextLimit < length (cy_Text reply) \<or> \<not> valid_utf8 (cy_Text reply)
      then Refuse (Message ''invalid controller reply'')
      else let hash = sha (marshal (reply_json reply)) in
      case cq_Reply request of
        Some old \<Rightarrow>
          if cy_ReplyID old \<noteq> cy_ReplyID reply \<or> cq_ReplySHA256 request \<noteq> hash then Refuse ErrConflict
          else Answer (request, None)
      | None \<Rightarrow>
      if list_ex (\<lambda>(_, q). case cq_Reply q of None \<Rightarrow> False | Some r \<Rightarrow> cy_ReplyID r = cy_ReplyID reply) (a_ControllerRequests st)
      then Refuse ErrConflict
      else let op = map_of (a_Operations st) (cb_OperationID (cq_Binding request)) in
      case map_of (br_controllerPending b) i of
        None \<Rightarrow> Refuse ErrStale
      | Some native \<Rightarrow>
          if \<not> br_controllerReady b \<or> br_resumeFailure b \<or>
             (case op of None \<Rightarrow> True | Some op \<Rightarrow> op_Completion op \<noteq> [] \<or> op_Incarnation op \<noteq> br_incarnation b \<or>
                op_TurnID op \<noteq> cb_TurnID (cq_Binding request))
          then Refuse ErrStale
          else let request = request\<lparr>cq_Reply := Some (reply\<lparr>cy_Binding := cq_Binding request\<rparr>),
                     cq_ReplySHA256 := hash, cq_State := lit ''dispatching''\<rparr>
               in Commit (st\<lparr>a_ControllerRequests := put i request (a_ControllerRequests st)\<rparr>) (request, Some native)))"

text \<open>And after it: \<open>request\<close> is the one committed before, \<open>written\<close> whether the write succeeded.\<close>

definition reply_end :: "bytes \<Rightarrow> controller_request \<Rightarrow> bool \<Rightarrow> broker \<Rightarrow> agent_store \<Rightarrow> controller_request decision" where
  "reply_end i request written b m =
     (let st = g_s m;
          request = request\<lparr>cq_State := if written then lit ''written'' else lit ''acceptance_unknown''\<rparr>
      in checked (br_incarnation b) m (
         Commit (st\<lparr>a_ControllerRequests := put i request (a_ControllerRequests st)\<rparr>) request))"

end
