(* ===== verification/AgentRuns.thy ===== *)
theory AgentRuns
  imports Controller
begin

text \<open>
  Runs of an agent's store: any sequence of its operations, with any of their writes failing,
  crashes at any point, and openings by new incarnations. A step that dispatches an operation to
  the actor says so; the properties are about all runs.
\<close>

subsection \<open>Steps\<close>

datatype store_op =
    DoBegin task
  | DoThread bytes bytes
  | DoModel bytes bytes bytes bytes "thread_response option"
  | DoAccepted bytes bytes bytes
  | DoUnknown bytes bytes
  | DoObserve bytes bytes bytes bytes "event_params option"
  | DoRecover bytes bytes bytes "(bytes \<times> (bytes \<times> bytes) list) option"
  | DoBindSource bytes
  | DoBeginControl bytes bytes bytes jvalue
  | DoFinishControl bytes bool
  | DoUnsupportedControl bytes
  | DoRefusePermission bytes
  | DoContinue bytes continuation_binding
  | DoConfigure "bytes list" broker
  | DoSelect adapter_selection broker
  | DoRequest tool_call broker
  | DoReply bytes controller_reply broker
  | DoReplied bytes controller_request bool broker

text \<open>Each operation's decision, with the identity it dispatches.\<close>

definition silent :: "'r decision \<Rightarrow> bytes option decision" where
  "silent d = map_decision (\<lambda>_. None) d"

fun decide :: "(bytes \<Rightarrow> bytes) \<Rightarrow> store_op \<Rightarrow> agent_store \<Rightarrow> bytes option decision" where
  "decide sha (DoBegin t) m = map_decision (\<lambda>(op, d). if d then Some (op_ID op) else None) (Begin sha t m)"
| "decide sha (DoThread inc i) m = silent (set_thread inc i m)"
| "decide sha (DoModel now inc operation method raw) m = silent (ObserveModel now inc operation method raw m)"
| "decide sha (DoAccepted inc operation turn) m = silent (Accepted inc operation turn m)"
| "decide sha (DoUnknown inc operation) m = silent (set_unknown inc operation m)"
| "decide sha (DoObserve inc method requestID raw decoded) m = silent (Observe_decision sha inc method requestID raw decoded m)"
| "decide sha (DoRecover now inc operation raw) m = silent (ObserveRecoveredTurns now inc operation raw m)"
| "decide sha (DoBindSource s) m = silent (BindSource s m)"
| "decide sha (DoBeginControl kind i inc payload) m =
     map_decision (\<lambda>(c, d). if d then Some (c_ID c) else None) (BeginControl sha kind i inc payload m)"
| "decide sha (DoFinishControl i known) m = silent (FinishControl i known m)"
| "decide sha (DoUnsupportedControl i) m = silent (UnsupportedControl i m)"
| "decide sha (DoRefusePermission i) m = silent (RefusePermission i m)"
| "decide sha (DoContinue now b) m = silent (bindContinuation sha now b m)"
| "decide sha (DoConfigure names br) m = silent (ConfigureController names br m)"
| "decide sha (DoSelect s br) m = silent (ConfigureAdapterSelection s br m)"
| "decide sha (DoRequest call br) m = silent (observeControllerRequest sha call br m)"
| "decide sha (DoReply i r br) m = silent (reply_begin sha i r br m)"
| "decide sha (DoReplied i q w br) m = silent (reply_end i q w br m)"

record agent_sys =
  y_store :: "agent_store option"
  y_disk :: agent_disk

datatype agent_op =
    Do store_op persist_calls
  | Crash
  | Restart bytes bytes bytes open_calls

fun agent_step :: "(bytes \<Rightarrow> bytes) \<Rightarrow> (agent_state \<Rightarrow> nat) \<Rightarrow> agent_op \<Rightarrow> agent_sys \<Rightarrow> agent_sys \<times> bytes option" where
  "agent_step sha len (Do x c) y =
     (case y_store y of
        None \<Rightarrow> (y, None)
      | Some m \<Rightarrow>
          let (r, m, k) = perform len c m (y_disk y) (decide sha x m)
          in (\<lparr>y_store = Some m, y_disk = k\<rparr>, case r of Inl e \<Rightarrow> None | Inr g \<Rightarrow> g))"
| "agent_step sha len Crash y = (y\<lparr>y_store := None\<rparr>, None)"
| "agent_step sha len (Restart environment session inc c) y =
     (let (r, k) = agent_Open len environment session inc c (y_disk y)
      in (\<lparr>y_store = (case r of Inl e \<Rightarrow> None | Inr m \<Rightarrow> Some m), y_disk = k\<rparr>, None))"

subsection \<open>What a commit keeps\<close>

definition commits :: "(agent_state \<Rightarrow> bool) \<Rightarrow> 'r decision \<Rightarrow> bool" where
  "commits P d \<longleftrightarrow> (\<forall>st r. d = Commit st r \<longrightarrow> P st)"

lemma commits_simps [simp]:
  "commits P (Refuse e)" "commits P (Answer r)" "commits P (Commit st r) \<longleftrightarrow> P st"
  by (simp_all add: commits_def)

lemma commits_map [simp]: "commits P (map_decision f d) \<longleftrightarrow> commits P d"
  by (cases d) simp_all

lemma commits_silent [simp]: "commits P (silent d) \<longleftrightarrow> commits P d"
  by (simp add: silent_def)

lemma commits_checked: "commits P d \<Longrightarrow> commits P (checked inc m d)"
  by (simp add: checked_def split: option.split)

lemma commits_if: "(b \<Longrightarrow> commits P d) \<Longrightarrow> (\<not> b \<Longrightarrow> commits P e) \<Longrightarrow> commits P (if b then d else e)"
  by simp

lemma commits_option:
  "(x = None \<Longrightarrow> commits P d) \<Longrightarrow> (\<And>y. x = Some y \<Longrightarrow> commits P (f y)) \<Longrightarrow> commits P (case x of None \<Rightarrow> d | Some y \<Rightarrow> f y)"
  by (simp split: option.split)

lemma commits_sum:
  "(\<And>y. x = Inl y \<Longrightarrow> commits P (f y)) \<Longrightarrow> (\<And>y. x = Inr y \<Longrightarrow> commits P (g y)) \<Longrightarrow>
     commits P (case x of Inl y \<Rightarrow> f y | Inr y \<Rightarrow> g y)"
  by (simp split: sum.split)

lemma commits_prod: "(\<And>a b. x = (a, b) \<Longrightarrow> commits P (f a b)) \<Longrightarrow> commits P (case x of (a, b) \<Rightarrow> f a b)"
  by (simp split: prod.split)

lemmas commits_intros = commits_checked commits_if commits_option commits_sum commits_prod

text \<open>An operation's identity, input and known outcome; a control's identity and input; a binding.\<close>

definition op_kept :: "operation \<Rightarrow> operation \<Rightarrow> bool" where
  "op_kept x y \<longleftrightarrow> op_ID y = op_ID x \<and> op_Incarnation y = op_Incarnation x \<and> op_InputHash y = op_InputHash x \<and>
     (op_Completion x \<noteq> [] \<longrightarrow> op_Completion y = op_Completion x) \<and> (op_TurnID x \<noteq> [] \<longrightarrow> op_TurnID y = op_TurnID x)"

definition control_kept :: "agent_control \<Rightarrow> agent_control \<Rightarrow> bool" where
  "control_kept x y \<longleftrightarrow> c_ID y = c_ID x \<and> c_Kind y = c_Kind x \<and> c_Incarnation y = c_Incarnation x \<and>
     c_InputHash y = c_InputHash x"

definition binding_kept :: "continuation_binding \<Rightarrow> continuation_binding \<Rightarrow> bool" where
  "binding_kept x y \<longleftrightarrow> y = x\<lparr>b_SuccessorThreadID := b_SuccessorThreadID y\<rparr>"

definition grows :: "'a list \<Rightarrow> 'a list \<Rightarrow> bool" where
  "grows x y \<longleftrightarrow> (\<exists>z. y = x @ z)"

definition fixed :: "bytes \<Rightarrow> bytes \<Rightarrow> bool" where
  "fixed x y \<longleftrightarrow> x = [] \<or> y = x"

definition store_extends :: "agent_state \<Rightarrow> agent_state \<Rightarrow> bool" where
  "store_extends s t \<longleftrightarrow>
     kept op_kept (a_Operations s) (a_Operations t) \<and> kept control_kept (a_Controls s) (a_Controls t) \<and>
     kept binding_kept (a_Continuations s) (a_Continuations t) \<and>
     grows (a_Events s) (a_Events t) \<and> grows (a_RejectedEvents s) (a_RejectedEvents t) \<and>
     a_EnvironmentID t = a_EnvironmentID s \<and> a_SessionID t = a_SessionID s \<and>
     fixed (a_SourceSHA s) (a_SourceSHA t) \<and>
     (a_AdapterSelection s \<noteq> None \<longrightarrow> a_AdapterSelection t = a_AdapterSelection s)"

lemma kept_refls [simp]:
  "op_kept x x" "control_kept c c" "binding_kept b b" "grows l l" "fixed s s"
  "kept op_kept ops ops" "kept control_kept cs cs" "kept binding_kept bs bs"
  by (simp_all add: op_kept_def control_kept_def binding_kept_def grows_def fixed_def kept_refl)

lemma grows_snoc [simp]: "grows l (l @ x)"
  by (simp add: grows_def)

lemma store_extends_refl [simp]: "store_extends s s"
  by (simp add: store_extends_def)

lemma kept_transs:
  "op_kept x y \<Longrightarrow> op_kept y z \<Longrightarrow> op_kept x z"
  "control_kept c d \<Longrightarrow> control_kept d e \<Longrightarrow> control_kept c e"
  "binding_kept b b' \<Longrightarrow> binding_kept b' b'' \<Longrightarrow> binding_kept b b''"
  by (auto simp: op_kept_def control_kept_def) (cases b; cases b'; cases b''; simp add: binding_kept_def)

lemma store_extends_trans: "store_extends s t \<Longrightarrow> store_extends t u \<Longrightarrow> store_extends s u"
  unfolding store_extends_def
  by (elim conjE, intro conjI)
    (blast intro: kept_trans kept_transs | force simp: grows_def fixed_def)+

text \<open>The shapes of the states that are committed.\<close>

lemma store_extends_updates [simp]:
  "store_extends s (s\<lparr>a_ThreadID := x\<rparr>)" "store_extends s (s\<lparr>a_ControllerCapabilities := n\<rparr>)"
  "store_extends s (s\<lparr>a_ControllerRequests := q\<rparr>)"
  "store_extends s (s\<lparr>a_RejectedEvents := a_RejectedEvents s @ r\<rparr>)"
  "a_AdapterSelection s = None \<Longrightarrow> store_extends s (s\<lparr>a_AdapterSelection := v\<rparr>)"
  "fixed (a_SourceSHA s) h \<Longrightarrow> store_extends s (s\<lparr>a_SourceSHA := h\<rparr>)"
  by (simp_all add: store_extends_def)

lemma store_extends_put_op:
  "(\<And>x. map_of (a_Operations s) i = Some x \<Longrightarrow> op_kept x op) \<Longrightarrow> store_extends s (s\<lparr>a_Operations := put i op (a_Operations s)\<rparr>)"
  by (simp add: store_extends_def kept_put)

lemma store_extends_put_control:
  "(\<And>x. map_of (a_Controls s) i = Some x \<Longrightarrow> control_kept x c) \<Longrightarrow> store_extends s (s\<lparr>a_Controls := put i c (a_Controls s)\<rparr>)"
  by (simp add: store_extends_def kept_put)

lemma keeps_Begin: "commits (store_extends (g_s m)) (Begin sha t m)"
  unfolding Begin_def Let_def by (intro commits_intros) (auto intro!: store_extends_put_op)

lemma keeps_set_thread: "commits (store_extends (g_s m)) (set_thread inc i m)"
  unfolding set_thread_def by (intro commits_intros) simp_all

lemma keeps_Accepted: "commits (store_extends (g_s m)) (Accepted inc operation turn m)"
  unfolding Accepted_def Let_def
  by (intro commits_intros) (auto intro!: store_extends_put_op simp: op_kept_def)

lemma keeps_set_unknown: "commits (store_extends (g_s m)) (set_unknown inc operation m)"
  unfolding set_unknown_def Let_def
  by (intro commits_intros) (auto intro!: store_extends_put_op simp: op_kept_def)

lemma keeps_ObserveModel: "commits (store_extends (g_s m)) (ObserveModel now inc operation method raw m)"
proof -
  have b: "kept binding_kept cs (map (\<lambda>(i, b). (i, if t_OperationID (b_Successor b) = operation
      then b\<lparr>b_SuccessorThreadID := x\<rparr> else b)) cs)" for cs x
    by (rule kept_map) (simp add: binding_kept_def)
  show ?thesis
    unfolding ObserveModel_def Let_def
    by (intro commits_intros) (auto simp: store_extends_def b op_kept_def intro!: kept_put split: option.splits)
qed

lemma observe_operation_kept: "op_kept op (observe_operation inc method turn p op)"
  by (auto simp: observe_operation_def op_kept_def Let_def)

lemma keeps_Observe: "commits (store_extends (g_s m)) (Observe_decision sha inc method requestID raw decoded m)"
proof -
  have o: "kept op_kept ops (map (\<lambda>(i, op). (i, observe_operation inc method turn p op)) ops)" for ops turn p
    by (rule kept_map) (rule observe_operation_kept)
  show ?thesis
    unfolding Observe_decision_def rejectStaleEvent_def Let_def
    by (intro commits_intros) (auto simp: store_extends_def o)
qed

lemma keeps_Recover: "commits (store_extends (g_s m)) (ObserveRecoveredTurns now inc operation raw m)"
proof -
  have "op_kept op (recover_operation now inc operation thread turns st i op)" for thread turns st i op
    by (auto simp: recover_operation_def op_kept_def split: option.split)
  then have "store_extends s (s\<lparr>a_Operations := map (\<lambda>(i, op). (i, recover_operation now inc operation thread turns st i op)) (a_Operations s)\<rparr>)"
    for s thread turns st by (simp add: store_extends_def kept_map)
  then show ?thesis
    unfolding ObserveRecoveredTurns_def Let_def by (intro commits_intros) simp_all
qed

lemma keeps_BindSource: "commits (store_extends (g_s m)) (BindSource h m)"
  unfolding BindSource_def Let_def by (intro commits_intros) (auto simp: fixed_def)

lemma keeps_BeginControl: "commits (store_extends (g_s m)) (BeginControl sha kind i inc payload m)"
  unfolding BeginControl_def Let_def by (intro commits_intros) (auto intro!: store_extends_put_control)

lemma keeps_with_control: "(\<And>c. control_kept c (f c)) \<Longrightarrow> commits (store_extends (g_s m)) (with_control i m f)"
  unfolding with_control_def Let_def by (intro commits_intros) (auto intro!: store_extends_put_control)

lemma keeps_controls:
  "commits (store_extends (g_s m)) (FinishControl i known m)" "commits (store_extends (g_s m)) (UnsupportedControl i m)"
  "commits (store_extends (g_s m)) (RefusePermission i m)"
  unfolding FinishControl_def UnsupportedControl_def RefusePermission_def
  by (intro commits_intros keeps_with_control; simp add: control_kept_def)+

lemma continuationLocked_None: "continuationLocked i h m = Inr None \<Longrightarrow> map_of (a_Continuations (g_s m)) i = None"
  by (auto simp: continuationLocked_def split: option.splits if_splits)

lemma keeps_continuation: "commits (store_extends (g_s m)) (bindContinuation sha now b m)"
  unfolding bindContinuation_def Let_def
  by (intro commits_intros) (auto simp: store_extends_def intro!: kept_put dest: continuationLocked_None)

lemma keeps_controller:
  "commits (store_extends (g_s m)) (ConfigureController names br m)"
  "commits (store_extends (g_s m)) (ConfigureAdapterSelection sel br m)"
  "commits (store_extends (g_s m)) (observeControllerRequest sha call br m)"
  "commits (store_extends (g_s m)) (reply_begin sha i reply br m)"
  "commits (store_extends (g_s m)) (reply_end i q w br m)"
  unfolding ConfigureController_def ConfigureAdapterSelection_def observeControllerRequest_def reply_begin_def
    reply_end_def Let_def
  by (intro commits_intros; simp)+

lemma decide_keeps: "commits (store_extends (g_s m)) (decide sha x m)"
  by (cases x) (simp_all add: keeps_Begin keeps_set_thread keeps_ObserveModel keeps_Accepted keeps_set_unknown keeps_Observe
      keeps_Recover keeps_BindSource keeps_BeginControl keeps_controls keeps_continuation keeps_controller)

text \<open>A new incarnation keeps all of it, too.\<close>

lemma reopen_keeps:
  "store_extends st ((reopened inc st)\<lparr>a_ControllerRequests := q, a_ContractVersion := v, a_ModelObservation := o1,
     a_WorkspaceID := w, a_ScopeID := p\<rparr>)"
proof -
  have "kept op_kept (a_Operations st) (map (\<lambda>(i, op). (i, reopen_operation op)) (a_Operations st))"
    by (rule kept_map) (simp add: reopen_operation_def op_kept_def)
  moreover have "kept control_kept (a_Controls st) (map (\<lambda>(i, c). (i, reopen_control c)) (a_Controls st))"
    by (rule kept_map) (simp add: reopen_control_def control_kept_def)
  ultimately show ?thesis by (simp add: store_extends_def reopened_def)
qed

lemma open_store_extends:
  assumes "agent_Open len environment session inc c k = (r, k')" "ad_session k = Some st"
  shows "\<exists>st'. ad_session k' = Some st' \<and> store_extends st st' \<and> (\<forall>m. r = Inr m \<longrightarrow> g_s m = st')"
  using assms
  by (auto simp: agent_Open_def open_state_def Let_def reopen_keeps split: if_splits sum.splits save_outcome.splits)

subsection \<open>Facts that last\<close>

text \<open>A fact is durable when it holds of the journal on disk and, if there is one, of the store.\<close>

definition durable :: "(agent_state \<Rightarrow> bool) \<Rightarrow> agent_sys \<Rightarrow> bool" where
  "durable P y \<longleftrightarrow> (\<exists>st. ad_session (y_disk y) = Some st \<and> P st) \<and> (\<forall>m. y_store y = Some m \<longrightarrow> P (g_s m))"

definition lasting :: "(agent_state \<Rightarrow> bool) \<Rightarrow> bool" where
  "lasting P \<longleftrightarrow> (\<forall>s t. P s \<longrightarrow> store_extends s t \<longrightarrow> P t)"

lemma perform_cases:
  "perform len c m k d = (r, m', k') \<Longrightarrow>
     m' = m \<and> k' = k \<and> (\<forall>st x. d \<noteq> Commit st x) \<or>
     (\<exists>st x. d = Commit st x \<and> g_s m' = st \<and> (k' = k \<or> k' = k\<lparr>ad_session := Some st\<rparr>) \<and>
        (r = Inr x \<longrightarrow> k' = k\<lparr>ad_session := Some st\<rparr>))"
  by (auto simp: perform_def save_store_def Let_def split: decision.splits save_outcome.splits)

lemma step_durable:
  assumes "lasting P" "durable P y"
  shows "durable P (fst (agent_step sha len x y))"
proof (cases x)
  case (Do x c)
  show ?thesis
  proof (cases "y_store y")
    case None
    then show ?thesis using assms(2) Do by simp
  next
    case (Some m)
    obtain r m' k' where p: "perform len c m (y_disk y) (decide sha x m) = (r, m', k')" by (metis prod.exhaust)
    have "P (g_s m)" using assms(2) Some by (simp add: durable_def)
    then have "P st" if "decide sha x m = Commit st g" for st g
      using assms(1) decide_keeps [of m sha x] that by (auto simp: lasting_def commits_def)
    then show ?thesis
      using perform_cases [OF p] assms(2) Do Some p by (auto simp: durable_def)
  qed
next
  case Crash
  then show ?thesis using assms(2) by (simp add: durable_def)
next
  case (Restart e s i c)
  obtain r k' where o: "agent_Open len e s i c (y_disk y) = (r, k')" by (rule prod.exhaust)
  obtain st where st: "ad_session (y_disk y) = Some st" "P st" using assms(2) by (auto simp: durable_def)
  show ?thesis
    using open_store_extends [OF o st(1)] st(2) assms(1) Restart o by (auto simp: durable_def lasting_def split: sum.splits)
qed

definition known :: "bytes \<Rightarrow> agent_state \<Rightarrow> bool" where
  "known i st \<longleftrightarrow> map_of (a_Operations st) i \<noteq> None \<or> map_of (a_Controls st) i \<noteq> None"

lemma lasting_known: "lasting (known i)"
  unfolding lasting_def known_def store_extends_def kept_def by (metis not_None_eq)

lemma checked_cases: "checked inc m d = Commit st r \<Longrightarrow> d = Commit st r" "checked inc m d = Answer r \<Longrightarrow> d = Answer r"
  by (auto simp: checked_def split: option.splits)

lemma silent_never [simp]: "silent d \<noteq> Commit st (Some i)" "silent d \<noteq> Answer (Some i)"
  by (cases d; simp add: silent_def)+

text \<open>Only a new identity is dispatched, and it is known once the dispatch is committed.\<close>

lemma decide_grant:
  assumes "decide sha x m = Commit st (Some i)"
  shows "\<not> known i (g_s m) \<and> known i st"
proof (cases x)
  case (DoBegin t)
  then show ?thesis
    using assms
    by (cases "Begin sha t m")
      (auto simp: Begin_def Let_def known_def new_operation_def map_of_put dest!: checked_cases split: if_splits option.splits)
next
  case (DoBeginControl kind j inc payload)
  then show ?thesis
    using assms
    by (cases "BeginControl sha kind j inc payload m")
      (auto simp: BeginControl_def Let_def known_def map_of_put dest!: checked_cases split: if_splits option.splits)
qed (use assms in simp_all)

lemma decide_answer: "decide sha x m \<noteq> Answer (Some i)"
proof (cases x)
  case (DoBegin t)
  then show ?thesis
    by (cases "Begin sha t m") (auto simp: Begin_def Let_def dest!: checked_cases split: if_splits option.splits)
next
  case (DoBeginControl kind j inc payload)
  then show ?thesis
    by (cases "BeginControl sha kind j inc payload m")
      (auto simp: BeginControl_def Let_def dest!: checked_cases split: if_splits option.splits)
qed simp_all

lemma step_grant:
  assumes "snd (agent_step sha len x y) = Some i"
  shows "durable (known i) (fst (agent_step sha len x y)) \<and> (\<forall>m. y_store y = Some m \<longrightarrow> \<not> known i (g_s m))"
proof (cases x)
  case (Do x c)
  obtain m where m: "y_store y = Some m" using assms Do by (cases "y_store y") auto
  obtain r m' k' where p: "perform len c m (y_disk y) (decide sha x m) = (r, m', k')" by (metis prod.exhaust)
  have r: "r = Inr (Some i)" using assms Do m p by (auto split: sum.splits)
  obtain st where d: "decide sha x m = Commit st (Some i)"
    using p r decide_answer [of sha x m i]
    by (cases "decide sha x m") (auto simp: perform_def save_store_def Let_def split: save_outcome.splits)
  have k: "g_s m' = st" "k' = (y_disk y)\<lparr>ad_session := Some st\<rparr>"
    using perform_cases [OF p] d r by auto
  show ?thesis using decide_grant [OF d] k Do m p by (simp add: durable_def)
qed (use assms in \<open>simp_all add: Let_def split_beta\<close>)

interpretation agent: at_most_once "agent_step sha len" "\<lambda>i. durable (known i)" "\<lambda>_. True"
proof
  show "durable (known i) (fst (agent_step sha len x y))" if "durable (known i) y" for i x y
    by (rule step_durable [OF lasting_known that])
  show "snd (agent_step sha len x y) \<noteq> Some i" if "durable (known i) y" for i x y
  proof
    assume g: "snd (agent_step sha len x y) = Some i"
    have "y_store y \<noteq> None" using g by (cases x) (auto simp: Let_def split_beta split: option.splits)
    with step_grant [OF g] that show False by (auto simp: durable_def)
  qed
qed (simp_all add: step_grant)

subsection \<open>Properties of all runs\<close>

text \<open>
  C4. The actor is given an operation at most once: in any run of a session's store, with any
  writes failing, crashes and new incarnations between, and from any state of memory and disk, a
  task or control identity is dispatched at most once, tasks and controls counted together.
\<close>

theorem dispatched_at_most_once: "distinct (snd (run (agent_step sha len) xs y))"
  by (rule agent.grants_distinct) simp

lemma run_durable: "lasting P \<Longrightarrow> durable P y \<Longrightarrow> durable P (fst (run (agent_step sha len) xs y))"
  by (induction xs arbitrary: y) (simp_all add: split_beta Let_def step_durable)

text \<open>What is retained of an operation that has an outcome.\<close>

definition finished :: "bytes \<Rightarrow> bytes \<Rightarrow> bytes \<Rightarrow> bytes \<Rightarrow> agent_state \<Rightarrow> bool" where
  "finished i hash turn outcome st \<longleftrightarrow>
     turn \<noteq> [] \<and> outcome \<noteq> [] \<and>
     (\<exists>op. map_of (a_Operations st) i = Some op \<and> op_InputHash op = hash \<and> op_TurnID op = turn \<and> op_Completion op = outcome)"

lemma lasting_finished: "lasting (finished i hash turn outcome)"
  by (fastforce simp: lasting_def finished_def store_extends_def kept_def op_kept_def)

text \<open>
  C19. An outcome is final: once an operation's input, turn and completion are retained, no event,
  no recovery, no retry and no new incarnation changes or forgets them, whatever writes fail.
\<close>

theorem outcome_is_final:
  assumes "durable (finished i hash turn outcome) y"
  shows "durable (finished i hash turn outcome) (fst (run (agent_step sha len) xs y))"
  by (rule run_durable [OF lasting_finished assms])

text \<open>The incarnation an operation names.\<close>

fun names_incarnation :: "store_op \<Rightarrow> bytes option" where
  "names_incarnation (DoBegin t) = Some (t_Incarnation t)"
| "names_incarnation (DoThread inc i) = Some inc"
| "names_incarnation (DoModel now inc operation method raw) = Some inc"
| "names_incarnation (DoAccepted inc operation turn) = Some inc"
| "names_incarnation (DoUnknown inc operation) = Some inc"
| "names_incarnation (DoObserve inc method requestID raw decoded) = Some inc"
| "names_incarnation (DoRecover now inc operation raw) = Some inc"
| "names_incarnation (DoBeginControl kind i inc payload) = Some inc"
| "names_incarnation (DoContinue now b) = Some (t_Incarnation (k_Successor (b_Request b)))"
| "names_incarnation (DoConfigure names br) = Some (br_incarnation br)"
| "names_incarnation (DoSelect sel br) = Some (br_incarnation br)"
| "names_incarnation (DoRequest call br) = Some (br_incarnation br)"
| "names_incarnation (DoReply i r br) = Some (cb_Incarnation (cy_Binding r))"
| "names_incarnation (DoReplied i q w br) = Some (br_incarnation br)"
| "names_incarnation _ = None"

lemma checked_stale: "inc \<noteq> a_Incarnation (g_s m) \<Longrightarrow> commits P (checked inc m d)"
  by (simp add: checked_def check_def)

lemma checked_fatal: "g_fatal m \<Longrightarrow> commits P (checked inc m d)"
  by (simp add: checked_def check_def)

lemmas store_defs = Begin_def set_thread_def ObserveModel_def Accepted_def set_unknown_def Observe_decision_def
  rejectStaleEvent_def ObserveRecoveredTurns_def BindSource_def BeginControl_def with_control_def FinishControl_def
  UnsupportedControl_def RefusePermission_def bindContinuation_def ConfigureController_def ConfigureAdapterSelection_def
  observeControllerRequest_def reply_begin_def reply_end_def Let_def

text \<open>
  A superseded incarnation changes nothing: an operation that names another incarnation than
  the current one commits no change of the state, except that a rejected event may be recorded
  as such.
\<close>

theorem stale_incarnation_changes_nothing:
  assumes "names_incarnation x = Some inc" and "inc \<noteq> a_Incarnation (g_s m)"
  shows "commits (\<lambda>st. st\<lparr>a_RejectedEvents := a_RejectedEvents (g_s m)\<rparr> = g_s m) (decide sha x m)"
  using assms
  by (cases x)
    (auto simp: store_defs check_def checked_stale split: option.split sum.split)

text \<open>
  After a failed write the journal is left alone: no operation of a store whose write failed
  commits anything, except binding the source, which does not look.
\<close>

theorem failed_write_stops_the_store:
  assumes "g_fatal m" and "\<nexists>s. x = DoBindSource s"
  shows "commits (\<lambda>_. False) (decide sha x m)"
  using assms
  by (cases x)
    (auto simp: store_defs check_def continuationLocked_def checked_fatal split: option.split sum.split)

subsection \<open>The invariant of a journal\<close>

text \<open>The submissions that are neither finished nor closed by a continuation.\<close>

definition closed_in :: "(bytes \<times> continuation_binding) list \<Rightarrow> bytes \<Rightarrow> bool" where
  "closed_in bs i \<longleftrightarrow> list_ex (\<lambda>(_, b). op_ID (b_Original b) = i \<and> b_Decision b = lit ''closed_unresolved'') bs"

lemma closedUnresolved_in: "closedUnresolved i st = closed_in (a_Continuations st) i"
  by (simp add: closedUnresolved_def closed_in_def)

definition is_active :: "(bytes \<Rightarrow> bool) \<Rightarrow> bytes \<times> operation \<Rightarrow> bool" where
  "is_active closed p \<longleftrightarrow> op_Completion (snd p) = [] \<and> \<not> closed (op_ID (snd p))"

definition active :: "agent_state \<Rightarrow> (bytes \<times> operation) list" where
  "active st = filter (is_active (closed_in (a_Continuations st))) (a_Operations st)"

definition journal_ok :: "agent_state \<Rightarrow> bool" where
  "journal_ok st \<longleftrightarrow> length (active st) \<le> 1 \<and>
     map ev_Sequence (a_Events st) = [1..<length (a_Events st) + 1] \<and>
     length (a_Events st) \<le> 8192 \<and> length (a_RejectedEvents st) \<le> 1024"

lemma journal_okI:
  "journal_ok s \<Longrightarrow> a_Events t = a_Events s \<Longrightarrow> a_RejectedEvents t = a_RejectedEvents s \<Longrightarrow>
     length (active t) \<le> length (active s) \<Longrightarrow> journal_ok t"
  by (simp add: journal_ok_def)

lemma filter_put_le:
  "map_of m i = Some x \<Longrightarrow> (Q (i, r) \<Longrightarrow> Q (i, x)) \<Longrightarrow> length (filter Q (put i r m)) \<le> length (filter Q m)"
  by (induction m) (auto split: if_splits)

lemma filter_map_le:
  "(\<And>i x. Q (i, f i x) \<Longrightarrow> Q (i, x)) \<Longrightarrow> length (filter Q (map (\<lambda>(i, x). (i, f i x)) m)) \<le> length (filter Q m)"
  by (induction m) (auto simp: le_SucI)

lemma filter_imp_le: "(\<And>p. Q' p \<Longrightarrow> Q p) \<Longrightarrow> length (filter Q' m) \<le> length (filter Q m)"
  by (induction m) (auto simp: le_SucI)

lemma active_put:
  assumes "map_of (a_Operations s) i = Some x" "op_ID r = op_ID x" "op_Completion r = [] \<Longrightarrow> op_Completion x = []"
  shows "length (active (s\<lparr>a_Operations := put i r (a_Operations s)\<rparr>)) \<le> length (active s)"
  using assms(2,3) by (auto simp: active_def is_active_def intro!: filter_put_le [OF assms(1)])

lemma active_map:
  assumes "\<And>i x. op_ID (f i x) = op_ID x" "\<And>i x. op_Completion (f i x) = [] \<Longrightarrow> op_Completion x = []"
  shows "length (filter (is_active cl) (map (\<lambda>(i, x). (i, f i x)) ops)) \<le> length (filter (is_active cl) ops)"
  by (rule filter_map_le) (use assms in \<open>auto simp: is_active_def\<close>)

text \<open>Every operation keeps the invariant.\<close>

lemma find_ex: "List.find P xs = Some x \<Longrightarrow> list_ex P xs"
  by (induction xs) (auto split: if_splits)

lemma continuedBy_closed: "continuedBy i j st \<Longrightarrow> closed_in (a_Continuations st) i"
  unfolding continuedBy_def closed_in_def by (auto split: option.splits dest: find_ex)

lemma ok_Begin:
  assumes "journal_ok (g_s m)" shows "commits journal_ok (Begin sha t m)"
proof -
  let ?st = "g_s m" and ?i = "t_OperationID t"
  have "journal_ok (?st\<lparr>a_Operations := put ?i op (a_Operations ?st)\<rparr>)"
    if "map_of (a_Operations ?st) ?i = None"
      "\<not> list_ex (\<lambda>(_, e). op_Completion e = [] \<and> \<not> continuedBy (op_ID e) ?i ?st) (a_Operations ?st)" for op
  proof -
    have "active ?st = []"
      using that(2) continuedBy_closed by (auto simp: active_def is_active_def filter_empty_conv list_ex_iff)
    then show ?thesis using assms by (simp add: journal_ok_def active_def put_new [OF that(1)])
  qed
  then show ?thesis unfolding Begin_def Let_def by (intro commits_intros) simp_all
qed

lemma ok_same:
  "journal_ok s \<Longrightarrow> a_Operations t = a_Operations s \<Longrightarrow> a_Continuations t = a_Continuations s \<Longrightarrow>
     a_Events t = a_Events s \<Longrightarrow> a_RejectedEvents t = a_RejectedEvents s \<Longrightarrow> journal_ok t"
  by (simp add: journal_ok_def active_def)

lemma ok_put:
  "journal_ok s \<Longrightarrow> map_of (a_Operations s) i = Some x \<Longrightarrow> op_ID r = op_ID x \<Longrightarrow>
     (op_Completion r = [] \<Longrightarrow> op_Completion x = []) \<Longrightarrow> journal_ok (s\<lparr>a_Operations := put i r (a_Operations s)\<rparr>)"
  by (erule journal_okI) (simp_all add: active_put)

lemma ok_set_thread: "journal_ok (g_s m) \<Longrightarrow> commits journal_ok (set_thread inc i m)"
  unfolding set_thread_def by (intro commits_intros) (auto elim: ok_same)

lemma ok_Accepted: "journal_ok (g_s m) \<Longrightarrow> commits journal_ok (Accepted inc operation turn m)"
  unfolding Accepted_def Let_def by (intro commits_intros) (auto intro!: ok_put)

lemma ok_set_unknown: "journal_ok (g_s m) \<Longrightarrow> commits journal_ok (set_unknown inc operation m)"
  unfolding set_unknown_def Let_def by (intro commits_intros) (auto intro!: ok_put)

lemma observe_operation_fields:
  "op_ID (observe_operation inc method turn p op) = op_ID op"
  "op_Completion (observe_operation inc method turn p op) = [] \<Longrightarrow> op_Completion op = []"
  by (auto simp: observe_operation_def Let_def split: if_splits)

lemma ok_event:
  assumes "journal_ok s" "length (a_Events s) < 8192" "ev_Sequence e = length (a_Events s) + 1"
  shows "journal_ok (s\<lparr>a_Events := a_Events s @ [e],
    a_Operations := map (\<lambda>(i, op). (i, observe_operation inc method turn p op)) (a_Operations s)\<rparr>)"
proof -
  have "length (filter (is_active cl) (map (\<lambda>(i, op). (i, observe_operation inc method turn p op)) ops))
      \<le> length (filter (is_active cl) ops)" for cl ops
    by (rule active_map) (simp_all add: observe_operation_fields(1) observe_operation_fields(2))
  from order_trans [OF this] show ?thesis
    using assms by (simp add: journal_ok_def active_def del: filter_map)
qed

lemma ok_reject:
  "journal_ok s \<Longrightarrow> length (a_RejectedEvents s) < 1024 \<Longrightarrow> journal_ok (s\<lparr>a_RejectedEvents := a_RejectedEvents s @ [r]\<rparr>)"
  by (simp add: journal_ok_def active_def)

lemma ok_Observe: "journal_ok (g_s m) \<Longrightarrow> commits journal_ok (Observe_decision sha inc method requestID raw decoded m)"
  unfolding Observe_decision_def rejectStaleEvent_def Let_def
  by (intro commits_intros) (auto intro!: ok_event ok_reject)

lemma ok_Recover: "journal_ok (g_s m) \<Longrightarrow> commits journal_ok (ObserveRecoveredTurns now inc operation raw m)"
proof -
  assume ok: "journal_ok (g_s m)"
  have f: "op_ID (recover_operation now inc operation thread turns st i op) = op_ID op"
      "op_Completion (recover_operation now inc operation thread turns st i op) = [] \<Longrightarrow> op_Completion op = []"
    for thread turns st i op by (auto simp: recover_operation_def split: option.splits if_splits)
  have "length (filter (is_active cl) (map (\<lambda>(i, op). (i, recover_operation now inc operation thread turns st i op)) ops))
      \<le> length (filter (is_active cl) ops)" for cl thread turns st ops
    by (rule active_map) (simp_all add: f(1) f(2))
  from order_trans [OF this] show ?thesis
    using ok unfolding ObserveRecoveredTurns_def Let_def
    by (intro commits_intros) (simp_all add: journal_ok_def active_def del: filter_map)
qed

lemma closed_in_threads:
  "closed_in (map (\<lambda>(i, b). (i, if t_OperationID (b_Successor b) = operation then b\<lparr>b_SuccessorThreadID := x\<rparr> else b)) bs)
     = closed_in bs"
proof (rule ext)
  fix j
  show "closed_in (map (\<lambda>(i, b). (i, if t_OperationID (b_Successor b) = operation
      then b\<lparr>b_SuccessorThreadID := x\<rparr> else b)) bs) j = closed_in bs j"
    by (induction bs) (simp_all add: closed_in_def split_beta)
qed

lemma ok_thread_bound:
  assumes "journal_ok st" "st1 = (case map_of (a_Operations st) operation of
      Some op \<Rightarrow> st\<lparr>a_Operations := put operation (op\<lparr>op_ThreadID := x\<rparr>) (a_Operations st)\<rparr> | None \<Rightarrow> st)"
  shows "journal_ok (st1\<lparr>a_ThreadID := x, a_Continuations := map (\<lambda>(i, b). (i, if t_OperationID (b_Successor b) = operation
      then b\<lparr>b_SuccessorThreadID := x\<rparr> else b)) (a_Continuations st1), a_ModelObservation := o1\<rparr>)"
proof -
  have "journal_ok st1"
    using assms by (cases "map_of (a_Operations st) operation") (auto intro!: ok_put)
  then show ?thesis by (simp add: journal_ok_def active_def closed_in_threads)
qed

lemma ok_ObserveModel:
  assumes "journal_ok (g_s m)" shows "commits journal_ok (ObserveModel now inc operation method raw m)"
proof -
  have "journal_ok s \<Longrightarrow> journal_ok (s\<lparr>a_ModelObservation := x, a_ModelObservations := y\<rparr>)" for s x y
    by (simp add: journal_ok_def active_def)
  then show ?thesis
    using ok_thread_bound [OF assms refl] unfolding ObserveModel_def Let_def
    by (intro commits_intros; simp only: commits_simps split: if_split; blast)
qed

lemma ok_continuation: "journal_ok (g_s m) \<Longrightarrow> commits journal_ok (bindContinuation sha now b m)"
proof -
  assume ok: "journal_ok (g_s m)"
  have c: "closed_in bs j \<Longrightarrow> closed_in (put i x bs) j" if "map_of bs i = None" for i j x bs
    by (simp add: put_new [OF that] closed_in_def)
  have "length (filter (is_active (closed_in (put i x bs))) ops) \<le> length (filter (is_active (closed_in bs)) ops)"
    if "map_of bs i = None" for i x bs ops
    by (rule filter_imp_le) (use c [OF that] in \<open>auto simp: is_active_def\<close>)
  note le = order_trans [OF this]
  show ?thesis
    using ok unfolding bindContinuation_def Let_def
    by (intro commits_intros) (auto simp: journal_ok_def active_def dest!: continuationLocked_None intro: le)
qed

lemma ok_rest:
  assumes "journal_ok (g_s m)"
  shows "commits journal_ok (BindSource h m)" "commits journal_ok (BeginControl sha kind i inc payload m)"
    "commits journal_ok (with_control i m f)" "commits journal_ok (RefusePermission i m)"
    "commits journal_ok (ConfigureController names br m)" "commits journal_ok (ConfigureAdapterSelection sel br m)"
    "commits journal_ok (observeControllerRequest sha call br m)" "commits journal_ok (reply_begin sha i reply br m)"
    "commits journal_ok (reply_end i q w br m)"
  unfolding BindSource_def BeginControl_def with_control_def RefusePermission_def ConfigureController_def
    ConfigureAdapterSelection_def observeControllerRequest_def reply_begin_def reply_end_def Let_def
  by (intro commits_intros; simp split del: if_split; rule ok_same [OF assms]; simp)+

lemma decide_ok: "journal_ok (g_s m) \<Longrightarrow> commits journal_ok (decide sha x m)"
  by (cases x) (simp_all add: ok_Begin ok_set_thread ok_ObserveModel ok_Accepted ok_set_unknown ok_Observe ok_Recover
      ok_continuation ok_rest FinishControl_def UnsupportedControl_def)

lemma ok_fresh: "journal_ok (fresh_state e s inc)"
  by (simp add: journal_ok_def fresh_state_def active_def)

lemma ok_reopened: "journal_ok st \<Longrightarrow> journal_ok (reopened inc st)"
proof -
  have "length (filter (is_active cl) (map (\<lambda>(i, op). (i, reopen_operation op)) ops)) \<le> length (filter (is_active cl) ops)" for cl ops
    by (rule active_map) (simp_all add: reopen_operation_def split: if_splits)
  from order_trans [OF this] show "journal_ok st \<Longrightarrow> journal_ok (reopened inc st)"
    by (simp add: journal_ok_def active_def reopened_def del: filter_map)
qed

text \<open>All states of memory and disk.\<close>

definition everywhere :: "(agent_state \<Rightarrow> bool) \<Rightarrow> agent_sys \<Rightarrow> bool" where
  "everywhere P y \<longleftrightarrow> (\<forall>st. ad_session (y_disk y) = Some st \<longrightarrow> P st) \<and> (\<forall>m. y_store y = Some m \<longrightarrow> P (g_s m))"

lemma ok_open:
  assumes "agent_Open len e s inc c k = (r, k')" "\<And>st. ad_session k = Some st \<Longrightarrow> journal_ok st"
  shows "(\<forall>st. ad_session k' = Some st \<longrightarrow> journal_ok st) \<and> (\<forall>m. r = Inr m \<longrightarrow> journal_ok (g_s m))"
proof -
  have u: "journal_ok st \<Longrightarrow> journal_ok (st\<lparr>a_ControllerRequests := q, a_ContractVersion := v, a_ModelObservation := o1,
      a_WorkspaceID := w, a_ScopeID := p\<rparr>)" for st q v o1 w p
    by (simp add: journal_ok_def active_def)
  have "journal_ok st" if "open_state len e s inc read_ok k = Inr st" for read_ok st
    using that assms(2) by (auto simp: open_state_def ok_fresh ok_reopened split: if_splits option.splits)
  then show ?thesis
    using assms u by (auto simp: agent_Open_def Let_def split: if_splits sum.splits save_outcome.splits)
qed

lemma agent_step_ok:
  assumes "everywhere journal_ok y" shows "everywhere journal_ok (fst (agent_step sha len x y))"
proof (cases x)
  case (Do x c)
  show ?thesis
  proof (cases "y_store y")
    case None
    then show ?thesis using assms Do by simp
  next
    case (Some m)
    obtain r m' k' where p: "perform len c m (y_disk y) (decide sha x m) = (r, m', k')" by (metis prod.exhaust)
    have "commits journal_ok (decide sha x m)" using assms Some by (auto simp: everywhere_def intro: decide_ok)
    then show ?thesis using perform_cases [OF p] assms Do Some p by (auto simp: everywhere_def commits_def)
  qed
next
  case Crash
  then show ?thesis using assms by (simp add: everywhere_def)
next
  case (Restart e s i c)
  obtain r k' where o: "agent_Open len e s i c (y_disk y) = (r, k')" by (rule prod.exhaust)
  show ?thesis
    using ok_open [OF o] assms Restart o by (auto simp: everywhere_def split: sum.splits)
qed

lemma run_ok: "everywhere journal_ok y \<Longrightarrow> everywhere journal_ok (fst (run (agent_step sha len) xs y))"
  by (induction xs arbitrary: y) (simp_all add: split_beta Let_def agent_step_ok)

definition no_session :: agent_sys where
  "no_session = \<lparr>y_store = None, y_disk = \<lparr>ad_session = None, ad_identity = False\<rparr>\<rparr>"

text \<open>
  C16. At most one submission is open, and the evidence is ordered: in every state a session's
  store or journal reaches, at most one operation is neither finished nor closed by a
  continuation, the events are numbered from 1 without a gap and are at most 8192, and at most
  1024 rejected events are kept.
\<close>

theorem one_open_submission:
  "everywhere (\<lambda>st. length (active st) \<le> 1 \<and> map ev_Sequence (a_Events st) = [1..<length (a_Events st) + 1] \<and>
     length (a_Events st) \<le> 8192 \<and> length (a_RejectedEvents st) \<le> 1024)
   (fst (run (agent_step sha len) xs no_session))"
proof -
  have "everywhere journal_ok no_session" by (simp add: everywhere_def no_session_def)
  from run_ok [OF this] show ?thesis unfolding everywhere_def journal_ok_def by blast
qed

text \<open>
  A result is only given when nothing is open: when \<open>ResultSnapshot\<close> returns, the store's
  writes all succeeded, and every operation is finished, or closed by a continuation whose
  successor is finished with the input that was bound.
\<close>

theorem result_only_when_settled:
  assumes "ResultSnapshot m = Inr st" and "(i, op) \<in> set (a_Operations st)"
  shows "st = g_s m \<and> \<not> g_fatal m \<and> (op_Completion op \<noteq> [] \<or>
    (\<exists>d b s. (d, b) \<in> set (a_Continuations st) \<and> op_ID (b_Original b) = op_ID op \<and>
      map_of (a_Operations st) (t_OperationID (b_Successor b)) = Some s \<and> op_Completion s \<noteq> [] \<and>
      op_InputHash s = b_SuccessorInputSHA256 b))"
proof -
  have st: "st = g_s m" "\<not> g_fatal m"
    using assms(1) by (auto simp: ResultSnapshot_def check_def Let_def split: option.splits if_splits)
  have f: "\<not> list_ex (\<lambda>(_, op). op_Completion op = [] \<and> \<not> closedUnresolved (op_ID op) st) (a_Operations st)"
    using assms(1) by (auto simp: ResultSnapshot_def Let_def split: option.splits if_splits)
  have b: "case map_of (a_Operations st) (t_OperationID (b_Successor b)) of None \<Rightarrow> False
      | Some op \<Rightarrow> op_Completion op \<noteq> [] \<and> op_InputHash op = b_SuccessorInputSHA256 b"
    if "(d, b) \<in> set (a_Continuations st)" for d b
    using assms(1) that by (fastforce simp: ResultSnapshot_def Let_def find_None_iff split: option.splits if_splits)
  show ?thesis
  proof (cases "op_Completion op = []")
    case True
    then obtain d bd where "(d, bd) \<in> set (a_Continuations st)" "op_ID (b_Original bd) = op_ID op"
      using f assms(2) by (fastforce simp: list_ex_iff closedUnresolved_def)
    then show ?thesis using b st by (fastforce split: option.splits)
  qed (simp add: st)
qed

subsection \<open>A session with one finished operation\<close>

definition op_a :: operation where
  "op_a = (new_operation (lit ''a'') (lit ''i1'') (lit ''h''))\<lparr>op_TurnID := lit ''t'', op_Completion := lit ''completed''\<rparr>"

definition store_a :: agent_store where
  "store_a = \<lparr>g_s = (fresh_state (lit ''e'') (lit ''s'') (lit ''i1''))\<lparr>a_Operations := [(lit ''a'', op_a)]\<rparr>, g_fatal = False\<rparr>"

definition session_a :: agent_sys where
  "session_a = \<lparr>y_store = Some store_a, y_disk = \<lparr>ad_session = Some (g_s store_a), ad_identity = True\<rparr>\<rparr>"

theorem outcome_is_final_witness:
  "durable (finished (lit ''a'') (lit ''h'') (lit ''t'') (lit ''completed'')) (fst (run (agent_step id (\<lambda>_. 0))
     [Crash, Restart (lit ''e'') (lit ''s'') (lit ''i2'')
        \<lparr>oc_dir = True, oc_lock = True, oc_read = True, oc_persist = \<lparr>pc_marshal = True, pc_file = calls_ok\<rparr>, oc_marker = True\<rparr>]
     session_a))"
  by (rule outcome_is_final) (simp add: durable_def finished_def session_a_def store_a_def op_a_def new_operation_def lit_def)

theorem stale_incarnation_changes_nothing_witness:
  "commits (\<lambda>st. st\<lparr>a_RejectedEvents := a_RejectedEvents (g_s store_a)\<rparr> = g_s store_a)
     (decide id (DoThread (lit ''i0'') (lit ''x'')) store_a)"
  by (rule stale_incarnation_changes_nothing [where inc = "lit ''i0''"]) (simp_all add: store_a_def fresh_state_def lit_def)

theorem failed_write_stops_the_store_witness:
  "commits (\<lambda>_. False) (decide id (DoThread (lit ''i1'') (lit ''x'')) (store_a\<lparr>g_fatal := True\<rparr>))"
  by (rule failed_write_stops_the_store) simp_all

theorem result_only_when_settled_witness:
  "ResultSnapshot store_a = Inr (g_s store_a) \<and> op_Completion op_a \<noteq> [] \<and> \<not> g_fatal store_a"
proof -
  have r: "ResultSnapshot store_a = Inr (g_s store_a)"
    by (simp add: ResultSnapshot_def check_def store_a_def op_a_def fresh_state_def Let_def lit_def)
  have "(lit ''a'', op_a) \<in> set (a_Operations (g_s store_a))" by (simp add: store_a_def)
  from result_only_when_settled [OF r this] r show ?thesis by (auto simp: store_a_def fresh_state_def)
qed

end
