(* ===== verification/GoPath.thy ===== *)
theory GoPath
  imports GoText
begin

text \<open>
  The parts of Go's \<open>path/filepath\<close> the data root's ledger and the cache budgets rest on, as they
  are on Unix: \<open>Clean\<close> by its documented lexical rules, \<open>IsAbs\<close> and \<open>Join\<close> of two elements. A
  clean path is told by its components, and the tests of the source, which compare bytes, are
  shown to compare components.
\<close>

abbreviation slash :: byte where "slash \<equiv> 0x2f"
abbreviation dot :: bytes where "dot \<equiv> [0x2e]"
abbreviation dotdot :: bytes where "dotdot \<equiv> [0x2e, 0x2e]"

definition IsAbs :: "bytes \<Rightarrow> bool" where
  "IsAbs s \<longleftrightarrow> s \<noteq> [] \<and> hd s = slash"

text \<open>
  One component onto the components so far, the last one first: empty ones and \<open>.\<close> are dropped, a
  \<open>..\<close> takes the component before it away, and at the root it is dropped.
\<close>

definition clean_step :: "bool \<Rightarrow> bytes \<Rightarrow> bytes list \<Rightarrow> bytes list" where
  "clean_step rooted c st =
     (if c = [] \<or> c = dot then st
      else if c = dotdot then
        (if st \<noteq> [] \<and> hd st \<noteq> dotdot then tl st else if rooted then [] else c # st)
      else c # st)"

fun join_slash :: "bytes list \<Rightarrow> bytes" where
  "join_slash [] = []"
| "join_slash [p] = p"
| "join_slash (p # ps) = p @ slash # join_slash ps"

definition clean_parts :: "bytes \<Rightarrow> bytes list" where
  "clean_parts s = rev (fold (clean_step (IsAbs s)) (split_on slash s) [])"

definition Clean :: "bytes \<Rightarrow> bytes" where
  "Clean s =
     (if IsAbs s then slash # join_slash (clean_parts s)
      else if clean_parts s = [] then dot else join_slash (clean_parts s))"

text \<open>\<open>filepath.Join\<close> of two elements: empty ones are left out.\<close>

definition Join :: "bytes \<Rightarrow> bytes \<Rightarrow> bytes" where
  "Join a b = (if a = [] \<and> b = [] then [] else if a = [] then Clean b else if b = [] then Clean a
     else Clean (a @ slash # b))"

subsection \<open>Components\<close>

text \<open>A component that stands for itself, and the components of a relative path inside its root.\<close>

definition plain :: "bytes \<Rightarrow> bool" where
  "plain c \<longleftrightarrow> c \<noteq> [] \<and> c \<noteq> dot \<and> c \<noteq> dotdot \<and> slash \<notin> set c"

definition named :: "bytes \<Rightarrow> bool" where
  "named c \<longleftrightarrow> plain c \<or> c = dotdot"

lemma split_on_no_sep: "f \<in> set (split_on sep s) \<Longrightarrow> sep \<notin> set f"
proof (induction s arbitrary: f)
  case (Cons c cs)
  then show ?case by (cases "split_on sep cs") (auto split: if_splits)
qed simp

lemma named_free: "named c \<Longrightarrow> slash \<notin> set c" "named c \<Longrightarrow> c \<noteq> []" "named c \<Longrightarrow> c \<noteq> dot"
  by (auto simp: named_def plain_def)

lemma named_hd: "named c \<Longrightarrow> hd c \<noteq> slash"
  using named_free [of c] hd_in_set by metis

lemma plain_named: "plain c \<Longrightarrow> named c"
  by (simp add: named_def)

lemma clean_step_plain [simp]: "plain c \<Longrightarrow> clean_step r c st = c # st"
  by (simp add: clean_step_def plain_def)

lemma fold_plain: "list_all plain cs \<Longrightarrow> fold (clean_step r) cs st = rev cs @ st"
  by (induction cs arbitrary: st) simp_all

text \<open>What a stack of components looks like: above the leading \<open>..\<close> all are plain.\<close>

definition stack_ok :: "bool \<Rightarrow> bytes list \<Rightarrow> bool" where
  "stack_ok rooted st \<longleftrightarrow>
     (\<exists>ps n. st = ps @ replicate n dotdot \<and> list_all plain ps \<and> (rooted \<longrightarrow> n = 0))"

lemma stack_ok_step:
  assumes "stack_ok r st" and "slash \<notin> set c"
  shows "stack_ok r (clean_step r c st)"
proof -
  obtain ps n where st: "st = ps @ replicate n dotdot" "list_all plain ps" "r \<longrightarrow> n = 0"
    using assms(1) by (auto simp: stack_ok_def)
  show ?thesis
  proof (cases "c = dotdot")
    case True
    show ?thesis
    proof (cases ps)
      case Nil
      then have "clean_step r c st = (if r then [] else replicate (Suc n) dotdot)"
        using st True by (cases n) (auto simp: clean_step_def)
      then show ?thesis unfolding stack_ok_def
        by (intro exI [of _ "[]"] exI [of _ "if r then 0 else Suc n"]) simp
    next
      case (Cons p qs)
      then have "clean_step r c st = qs @ replicate n dotdot"
        using st True by (simp add: clean_step_def plain_def)
      then show ?thesis using st Cons by (auto simp: stack_ok_def)
    qed
  next
    case False
    then have "c = [] \<or> c = dot \<or> plain c" using assms(2) by (auto simp: plain_def)
    then show ?thesis
    proof (elim disjE)
      assume "plain c"
      then have "clean_step r c st = (c # ps) @ replicate n dotdot" using st by simp
      then show ?thesis using st(2,3) \<open>plain c\<close> unfolding stack_ok_def
        by (intro exI [of _ "c # ps"] exI [of _ n]) simp
    qed (use assms(1) in \<open>simp_all add: clean_step_def\<close>)
  qed
qed

lemma clean_parts_ok: "stack_ok (IsAbs s) (rev (clean_parts s))"
proof -
  have "\<forall>c \<in> set cs. slash \<notin> set c \<Longrightarrow> stack_ok r st \<Longrightarrow> stack_ok r (fold (clean_step r) cs st)" for r cs st
    by (induction cs arbitrary: st) (simp_all add: stack_ok_step)
  moreover have "stack_ok (IsAbs s) []" by (simp add: stack_ok_def)
  ultimately show ?thesis by (auto simp: clean_parts_def dest: split_on_no_sep)
qed

lemma clean_parts_named: "list_all named (clean_parts s)"
proof -
  obtain ps n where "rev (clean_parts s) = ps @ replicate n dotdot" "list_all plain ps"
    using clean_parts_ok [of s] by (auto simp: stack_ok_def)
  then have "list_all named (rev (clean_parts s))"
    by (auto simp: named_def list_all_iff)
  then show ?thesis by (simp add: list_all_iff)
qed

text \<open>Absolute paths have no \<open>..\<close>; a relative one has none unless it begins with one.\<close>

lemma clean_parts_plain:
  assumes "IsAbs s \<or> clean_parts s = [] \<or> hd (clean_parts s) \<noteq> dotdot"
  shows "list_all plain (clean_parts s)"
proof -
  obtain ps n where st: "rev (clean_parts s) = ps @ replicate n dotdot" "list_all plain ps" "IsAbs s \<longrightarrow> n = 0"
    using clean_parts_ok [of s] by (auto simp: stack_ok_def)
  have c: "clean_parts s = replicate n dotdot @ rev ps"
    using arg_cong [OF st(1), of rev] by simp
  have "n = 0" using assms st(3) by (cases n) (auto simp: c)
  then show ?thesis using c st(2) by (simp add: list_all_iff)
qed

subsection \<open>Joining and splitting\<close>

lemma join_slash_Cons: "ps \<noteq> [] \<Longrightarrow> join_slash (p # ps) = p @ slash # join_slash ps"
  by (cases ps) simp_all

lemma split_join: "ps \<noteq> [] \<Longrightarrow> list_all (\<lambda>p. slash \<notin> set p) ps \<Longrightarrow> split_on slash (join_slash ps) = ps"
proof (induction ps rule: join_slash.induct)
  case (3 p q ps)
  then show ?case by (simp add: split_on_cons)
qed (simp_all add: split_on_free)

lemma join_slash_append: "ps \<noteq> [] \<Longrightarrow> qs \<noteq> [] \<Longrightarrow> join_slash (ps @ qs) = join_slash ps @ slash # join_slash qs"
proof (induction ps rule: join_slash.induct)
  case (2 p)
  then show ?case by (cases qs) simp_all
qed simp_all

lemma join_slash_inject:
  assumes "list_all named ps" "list_all named qs" "ps \<noteq> []" "qs \<noteq> []" "join_slash ps = join_slash qs"
  shows "ps = qs"
proof -
  have "split_on slash (join_slash ps) = ps" "split_on slash (join_slash qs) = qs"
    using assms(1-4) by (simp_all add: split_join list_all_iff named_free)
  then show ?thesis using assms(5) by metis
qed

lemma join_slash_ne: "list_all named ps \<Longrightarrow> ps \<noteq> [] \<Longrightarrow> join_slash ps \<noteq> []"
  by (cases ps; cases "tl ps") (auto simp: named_def plain_def)

lemma hd_join_slash: "list_all named ps \<Longrightarrow> ps \<noteq> [] \<Longrightarrow> hd (join_slash ps) \<noteq> slash"
  by (cases ps; cases "tl ps") (auto simp: hd_append named_free named_hd)

text \<open>A byte prefix that ends at a separator is a prefix of components.\<close>

lemma has_prefix_join:
  assumes ps: "list_all named ps" "ps \<noteq> []" and qs: "list_all named qs" "qs \<noteq> []"
  shows "has_prefix (join_slash qs) (join_slash ps @ [slash]) \<longleftrightarrow> (\<exists>rs. rs \<noteq> [] \<and> qs = ps @ rs)"
proof
  assume "has_prefix (join_slash qs) (join_slash ps @ [slash])"
  then obtain t where t: "join_slash qs = join_slash ps @ slash # t"
    unfolding has_prefix_def by (metis append_Cons append_Nil append_assoc append_take_drop_id)
  have "qs = split_on slash (join_slash qs)"
    using split_join qs by (auto simp: list_all_iff named_free)
  also have "\<dots> = split_on slash (join_slash ps) @ split_on slash t"
    by (simp only: t split_on_append_cons)
  also have "split_on slash (join_slash ps) = ps"
    using split_join ps by (auto simp: list_all_iff named_free)
  finally show "\<exists>rs. rs \<noteq> [] \<and> qs = ps @ rs" by (metis split_on_ne)
next
  assume "\<exists>rs. rs \<noteq> [] \<and> qs = ps @ rs"
  then show "has_prefix (join_slash qs) (join_slash ps @ [slash])"
    using ps by (auto simp: has_prefix_def join_slash_append)
qed

subsection \<open>Clean paths\<close>

lemma Clean_rel: "\<not> IsAbs s \<Longrightarrow> Clean s = dot \<and> clean_parts s = [] \<or> clean_parts s \<noteq> [] \<and> Clean s = join_slash (clean_parts s)"
  by (simp add: Clean_def)

lemma IsAbs_Clean [simp]: "IsAbs (Clean s) = IsAbs s"
  using hd_join_slash [OF clean_parts_named, of s]
  by (cases "IsAbs s") (simp_all add: Clean_def, simp_all add: IsAbs_def)

lemma clean_parts_Clean [simp]: "clean_parts (Clean s) = clean_parts s"
proof -
  have f: "\<forall>c \<in> set (clean_parts s). slash \<notin> set c"
    using clean_parts_named by (auto simp: list_all_iff named_free)
  obtain ps n where st: "rev (clean_parts s) = ps @ replicate n dotdot" "list_all plain ps" "IsAbs s \<longrightarrow> n = 0"
    using clean_parts_ok [of s] by (auto simp: stack_ok_def)
  have c: "clean_parts s = replicate n dotdot @ rev ps"
    using arg_cong [OF st(1), of rev] by simp
  have dots: "\<not> IsAbs s \<Longrightarrow> fold (clean_step (IsAbs s)) (replicate k dotdot) (replicate m dotdot) = replicate (k + m) dotdot" for k m
  proof (induction k arbitrary: m)
    case (Suc k)
    have "clean_step (IsAbs s) dotdot (replicate m dotdot) = replicate (Suc m) dotdot"
      using Suc.prems by (cases m) (simp_all add: clean_step_def)
    then show ?case using Suc.IH [of "Suc m"] Suc.prems by simp
  qed simp
  have again: "fold (clean_step (IsAbs s)) (clean_parts s) [] = rev (clean_parts s)"
    using dots [of n 0] st by (cases "IsAbs s") (auto simp: c fold_plain list_all_iff)
  have split: "split_on slash (slash # t) = [] # split_on slash t" for t by simp
  have "fold (clean_step (IsAbs s)) (split_on slash (Clean s)) [] = fold (clean_step (IsAbs s)) (clean_parts s) []"
  proof (cases "clean_parts s = []")
    case True
    then show ?thesis by (cases "IsAbs s") (simp_all add: Clean_def clean_step_def)
  next
    case False
    then have "split_on slash (join_slash (clean_parts s)) = clean_parts s"
      using f by (simp add: split_join list_all_iff)
    then show ?thesis using False
      by (cases "IsAbs s") (simp_all add: Clean_def split clean_step_def [of _ "[]"] del: split_on.simps)
  qed
  then show ?thesis using again by (simp add: clean_parts_def [of "Clean s"])
qed

lemma Clean_Clean [simp]: "Clean (Clean s) = Clean s"
  by (simp add: Clean_def [of "Clean s"]) (simp add: Clean_def)

lemma Clean_eq_iff:
  assumes "IsAbs s = IsAbs t"
  shows "Clean s = Clean t \<longleftrightarrow> clean_parts s = clean_parts t"
  by (metis assms clean_parts_Clean Clean_def)

text \<open>A path of at least one component, joined to a clean absolute path, adds its components to it.\<close>

lemma clean_parts_Join:
  assumes "IsAbs root" and "\<not> IsAbs s" and "list_all plain (clean_parts s)" and "clean_parts s \<noteq> []"
  shows "clean_parts (Join root (Clean s)) = clean_parts root @ clean_parts s" "IsAbs (Join root (Clean s))"
proof -
  have ne: "root \<noteq> []" "Clean s \<noteq> []"
    using assms by (auto simp: IsAbs_def Clean_def join_slash_ne clean_parts_named)
  have abs: "IsAbs (root @ slash # Clean s)" using assms(1) by (cases root) (simp_all add: IsAbs_def)
  have cl: "Clean s = join_slash (clean_parts s)" using assms by (simp add: Clean_def)
  have sp: "split_on slash (Clean s) = clean_parts s"
    unfolding cl using assms(3,4) by (intro split_join) (auto simp: list_all_iff plain_def)
  show "clean_parts (Join root (Clean s)) = clean_parts root @ clean_parts s"
    using ne abs assms(1,3)
    by (simp add: Join_def) (simp add: clean_parts_def split_on_append_cons sp fold_plain)
  show "IsAbs (Join root (Clean s))" using ne abs by (simp add: Join_def)
qed

end
