(* ===== verification/Venue.thy ===== *)
theory Venue
  imports GoPath HostPolicy
begin

text \<open>
  \<open>internal/venue/venue.go\<close>: the data root and the ledger that records every object in it before
  it exists. The ledger is a file of lines, each an entry or bytes that do not parse, and what
  follows the last newline; the length of an entry's line is a parameter. What each write did,
  what \<open>lstat\<close>, \<open>statfs\<close> and the removal of a tree returned and the time are arguments. Each
  section that runs under the lock is one definition, so that a removal, which works outside it,
  is made of three. Times are integers, Go's zero time being 0.
\<close>

subsection \<open>Data\<close>

abbreviation KindVM :: bytes where "KindVM \<equiv> lit ''vm''"
abbreviation KindImage :: bytes where "KindImage \<equiv> lit ''image''"
abbreviation KindVolume :: bytes where "KindVolume \<equiv> lit ''volume''"
abbreviation KindDownload :: bytes where "KindDownload \<equiv> lit ''download''"
abbreviation KindNetwork :: bytes where "KindNetwork \<equiv> lit ''network''"

abbreviation ClassAttempt :: bytes where "ClassAttempt \<equiv> lit ''attempt''"
abbreviation ClassCache :: bytes where "ClassCache \<equiv> lit ''cache''"

definition valid_class :: "bytes \<Rightarrow> bool" where
  "valid_class c \<longleftrightarrow> c = ClassAttempt \<or> c = ClassCache"

definition Structure :: "bytes list" where
  "Structure = [lit ''attempts'', lit ''bases'', lit ''downloads'', lit ''kernels'', lit ''mirrors'', lit ''volumes'']"

abbreviation OpIntent :: bytes where "OpIntent \<equiv> lit ''intent''"
abbreviation OpCreated :: bytes where "OpCreated \<equiv> lit ''created''"
abbreviation OpFailed :: bytes where "OpFailed \<equiv> lit ''failed''"
abbreviation OpRemoved :: bytes where "OpRemoved \<equiv> lit ''removed''"
abbreviation OpClassify :: bytes where "OpClassify \<equiv> lit ''classify''"

record entry =
  en_Seq :: int
  en_Time :: int
  en_Op :: bytes
  en_Kind :: bytes
  en_Class :: bytes
  en_ID :: bytes
  en_Path :: bytes
  en_Note :: bytes

record obj =
  ob_Kind :: bytes
  ob_Class :: bytes
  ob_ID :: bytes
  ob_Path :: bytes
  ob_Last :: bytes
  ob_Created :: int

record venue =
  v_root :: bytes
  v_seq :: int
  v_objs :: "(bytes \<times> obj) list"
  v_teardowns :: "(bytes \<times> bytes) list"

definition ledgerName :: bytes where
  "ledgerName = lit ''ledger.jsonl''"

datatype venue_error =
    RootNotSet | RootNotAbsolute | RootRefused | LedgerUnreadable
  | EmptyID | InvalidClassName | NotRelative | NotInside | Overlapping | AlreadyOpen
  | RemovalBusy | NoOpenIntent | NotOpen | ChangedDuringRemoval | AlreadyClassified
  | WriteRefused | LstatFailed | SymlinkedParent | RemoveFailed | MkdirFailed
  | StatfsFailed | NoBlocks | DiskFull int int

definition key :: "bytes \<Rightarrow> bytes \<Rightarrow> bytes" where
  "key k i = k @ slash # i"

subsection \<open>The ledger\<close>

datatype ledger_line = Whole entry | Broken

record ledger =
  lg_lines :: "ledger_line list"
  lg_tail :: "ledger_line option"  \<comment> \<open>the bytes after the last newline\<close>

text \<open>
  A write of an entry and its newline: refused before a byte was written, failed after some
  bytes, written whole without a sync, or written and synced.
\<close>

datatype ledger_write = NotWritten | CutAfter nat | Unsynced | Written

definition add_entry :: "entry \<Rightarrow> ledger \<Rightarrow> ledger" where
  "add_entry e l =
     l\<lparr>lg_lines := lg_lines l @ [if lg_tail l = None then Whole e else Broken], lg_tail := None\<rparr>"

definition add_bytes :: "(entry \<Rightarrow> nat) \<Rightarrow> nat \<Rightarrow> entry \<Rightarrow> ledger \<Rightarrow> ledger" where
  "add_bytes len n e l =
     (if n = 0 then l
      else if n < len e then l\<lparr>lg_tail := Some Broken\<rparr>
      else if n = len e then l\<lparr>lg_tail := Some (if lg_tail l = None then Whole e else Broken)\<rparr>
      else add_entry e l)"

definition write_entry :: "(entry \<Rightarrow> nat) \<Rightarrow> ledger_write \<Rightarrow> entry \<Rightarrow> ledger \<Rightarrow> bool \<times> ledger" where
  "write_entry len w e l =
     (case w of
        NotWritten \<Rightarrow> (False, l)
      | CutAfter n \<Rightarrow> (False, add_bytes len n e l)
      | Unsynced \<Rightarrow> (False, add_entry e l)
      | Written \<Rightarrow> (True, add_entry e l))"

definition apply_object :: "entry \<Rightarrow> obj \<Rightarrow> obj" where
  "apply_object e ob =
     (if en_Op e = OpIntent then ob\<lparr>ob_Path := en_Path e, ob_Class := en_Class e, ob_Last := en_Op e\<rparr>
      else if en_Op e = OpClassify then ob\<lparr>ob_Class := en_Class e\<rparr>
      else if en_Op e = OpCreated then ob\<lparr>ob_Created := en_Time e, ob_Last := en_Op e\<rparr>
      else ob\<lparr>ob_Last := en_Op e\<rparr>)"

definition apply_entry :: "entry \<Rightarrow> venue \<Rightarrow> venue" where
  "apply_entry e v =
     (let k = key (en_Kind e) (en_ID e);
          ob = (case map_of (v_objs v) k of
                  Some ob \<Rightarrow> ob
                | None \<Rightarrow> \<lparr>ob_Kind = en_Kind e, ob_Class = [], ob_ID = en_ID e, ob_Path = en_Path e,
                           ob_Last = [], ob_Created = 0\<rparr>)
      in v\<lparr>v_seq := (if v_seq v < en_Seq e then en_Seq e else v_seq v),
           v_objs := put k (apply_object e ob) (v_objs v)\<rparr>)"

text \<open>The scanner's buffer: a line with its newline is at most 1 MiB.\<close>

abbreviation maxLedgerLine :: nat where "maxLedgerLine \<equiv> 1048576"

fun replay_lines :: "(entry \<Rightarrow> nat) \<Rightarrow> ledger_line list \<Rightarrow> venue \<Rightarrow> venue option" where
  "replay_lines len [] v = Some v"
| "replay_lines len (Broken # ls) v = None"
| "replay_lines len (Whole e # ls) v =
     (if len e + 1 \<le> maxLedgerLine then replay_lines len ls (apply_entry e v) else None)"

definition replay_ledger :: "(entry \<Rightarrow> nat) \<Rightarrow> ledger \<Rightarrow> venue \<Rightarrow> venue option" where
  "replay_ledger len l v =
     replay_lines len (lg_lines l @ (case lg_tail l of None \<Rightarrow> [] | Some t \<Rightarrow> [t])) v"

text \<open>
  \<open>OpenWithOptions\<close>: what \<open>EvalSymlinks\<close> and \<open>Stat\<close> returned is the resolved directory, or None
  for an error or something that is no directory; \<open>readable\<close>, whether the ledger opened.
\<close>

definition empty_venue :: "bytes \<Rightarrow> venue" where
  "empty_venue root = \<lparr>v_root = root, v_seq = 0, v_objs = [], v_teardowns = []\<rparr>"

definition OpenWithOptions :: "(entry \<Rightarrow> nat) \<Rightarrow> bytes \<Rightarrow> bytes option \<Rightarrow> bool \<Rightarrow> ledger \<Rightarrow> venue_error + venue" where
  "OpenWithOptions len root real readable l =
     (if root = [] then Inl RootNotSet
      else if \<not> IsAbs root then Inl RootNotAbsolute
      else case real of
        None \<Rightarrow> Inl RootRefused
      | Some r \<Rightarrow>
          if \<not> readable then Inl LedgerUnreadable
          else (case replay_ledger len l (empty_venue r) of None \<Rightarrow> Inl LedgerUnreadable | Some v \<Rightarrow> Inr v))"

text \<open>\<open>append\<close>: the number is taken even when the write fails.\<close>

definition append_entry :: "(entry \<Rightarrow> nat) \<Rightarrow> int \<Rightarrow> ledger_write \<Rightarrow> entry \<Rightarrow> venue \<Rightarrow> ledger \<Rightarrow>
    (venue_error + unit) \<times> venue \<times> ledger" where
  "append_entry len now w e v l =
     (let v = v\<lparr>v_seq := i64 (v_seq v + 1)\<rparr>;
          e = e\<lparr>en_Seq := v_seq v, en_Time := now\<rparr>;
          (ok, l) = write_entry len w e l
      in if ok then (Inr (), apply_entry e v, l) else (Inl WriteRefused, v, l))"

subsection \<open>Paths\<close>

definition resolve :: "bytes \<Rightarrow> bytes \<Rightarrow> venue_error + bytes" where
  "resolve root rel =
     (if rel = [] then Inr []
      else if IsAbs rel then Inl NotRelative
      else let clean = Clean rel in
        if clean = dot \<or> clean = ledgerName \<or> clean = dotdot \<or> has_prefix clean (dotdot @ [slash])
        then Inl NotInside
        else Inr (Join root clean))"

definition overlaps :: "bytes \<Rightarrow> bytes \<Rightarrow> bool" where
  "overlaps p q \<longleftrightarrow> p \<noteq> [] \<and> q \<noteq> [] \<and>
     (Clean p = Clean q \<or> has_prefix (Clean p) (Clean q @ [slash]) \<or> has_prefix (Clean q) (Clean p @ [slash]))"

definition removalConflict :: "bytes \<Rightarrow> bytes \<Rightarrow> venue \<Rightarrow> bool" where
  "removalConflict objectKey path v \<longleftrightarrow>
     list_ex (\<lambda>(k, p). k = objectKey \<or> overlaps path p) (v_teardowns v)"

text \<open>\<open>filepath.Dir\<close>, and the loop over the parents below the root; None when it does not return.\<close>

definition Dir :: "bytes \<Rightarrow> bytes" where
  "Dir s = Clean (rev (dropWhile (\<lambda>c. c \<noteq> slash) (rev s)))"

datatype lstat_result = Missing | LstatError | Symlink | Present

partial_function (option) check_parents :: "(bytes \<Rightarrow> lstat_result) \<Rightarrow> bytes \<Rightarrow> bytes \<Rightarrow> (venue_error + unit) option" where
  "check_parents lstat root dir =
     (if dir = root then Some (Inr ())
      else case lstat dir of
        Missing \<Rightarrow> check_parents lstat root (Dir dir)
      | LstatError \<Rightarrow> Some (Inl LstatFailed)
      | Symlink \<Rightarrow> Some (Inl SymlinkedParent)
      | Present \<Rightarrow> check_parents lstat root (Dir dir))"

definition checkNoSymlinkParents :: "(bytes \<Rightarrow> lstat_result) \<Rightarrow> bytes \<Rightarrow> bytes \<Rightarrow> (venue_error + unit) option" where
  "checkNoSymlinkParents lstat root target = check_parents lstat root (Dir target)"

subsection \<open>Operations\<close>

definition is_open :: "obj \<Rightarrow> bool" where
  "is_open ob \<longleftrightarrow> ob_Last ob \<noteq> OpRemoved"

definition IsOpen :: "bytes \<Rightarrow> bytes \<Rightarrow> venue \<Rightarrow> bool" where
  "IsOpen k i v = (case map_of (v_objs v) (key k i) of None \<Rightarrow> False | Some ob \<Rightarrow> is_open ob)"

definition ObjectState :: "bytes \<Rightarrow> bytes \<Rightarrow> venue \<Rightarrow> obj option" where
  "ObjectState k i v = map_of (v_objs v) (key k i)"

definition OpenObjects :: "venue \<Rightarrow> obj list" where
  "OpenObjects v = filter is_open (map snd (v_objs v))"

definition new_entry :: "bytes \<Rightarrow> bytes \<Rightarrow> bytes \<Rightarrow> bytes \<Rightarrow> bytes \<Rightarrow> bytes \<Rightarrow> entry" where
  "new_entry op k c i path note =
     \<lparr>en_Seq = 0, en_Time = 0, en_Op = op, en_Kind = k, en_Class = c, en_ID = i, en_Path = path, en_Note = note\<rparr>"

type_synonym 'r ledgered = "(venue_error + 'r) \<times> venue \<times> ledger"

definition Intent :: "(entry \<Rightarrow> nat) \<Rightarrow> bytes \<Rightarrow> bytes \<Rightarrow> bytes \<Rightarrow> bytes \<Rightarrow> bytes \<Rightarrow> int \<Rightarrow> ledger_write \<Rightarrow>
    venue \<Rightarrow> ledger \<Rightarrow> unit ledgered" where
  "Intent len k c i rel note now w v l =
     (if i = [] then (Inl EmptyID, v, l)
      else if \<not> valid_class c then (Inl InvalidClassName, v, l)
      else case resolve (v_root v) rel of
        Inl e \<Rightarrow> (Inl e, v, l)
      | Inr _ \<Rightarrow>
          if removalConflict (key k i) rel v then (Inl Overlapping, v, l)
          else if IsOpen k i v then (Inl AlreadyOpen, v, l)
          else append_entry len now w (new_entry OpIntent k c i rel note) v l)"

definition mark :: "(entry \<Rightarrow> nat) \<Rightarrow> bytes \<Rightarrow> bytes \<Rightarrow> bytes \<Rightarrow> bytes \<Rightarrow> int \<Rightarrow> ledger_write \<Rightarrow>
    venue \<Rightarrow> ledger \<Rightarrow> unit ledgered" where
  "mark len k i op note now w v l =
     (if map_of (v_teardowns v) (key k i) \<noteq> None then (Inl RemovalBusy, v, l)
      else case map_of (v_objs v) (key k i) of
        None \<Rightarrow> (Inl NoOpenIntent, v, l)
      | Some ob \<Rightarrow>
          if ob_Last ob = OpRemoved then (Inl NoOpenIntent, v, l)
          else append_entry len now w (new_entry op k (ob_Class ob) i (ob_Path ob) note) v l)"

definition Created :: "(entry \<Rightarrow> nat) \<Rightarrow> bytes \<Rightarrow> bytes \<Rightarrow> int \<Rightarrow> ledger_write \<Rightarrow> venue \<Rightarrow> ledger \<Rightarrow> unit ledgered" where
  "Created len k i now w v l = mark len k i OpCreated [] now w v l"

definition Failed :: "(entry \<Rightarrow> nat) \<Rightarrow> bytes \<Rightarrow> bytes \<Rightarrow> bytes \<Rightarrow> int \<Rightarrow> ledger_write \<Rightarrow> venue \<Rightarrow> ledger \<Rightarrow> unit ledgered" where
  "Failed len k i note now w v l = mark len k i OpFailed note now w v l"

definition Classify :: "(entry \<Rightarrow> nat) \<Rightarrow> bytes \<Rightarrow> bytes \<Rightarrow> bytes \<Rightarrow> int \<Rightarrow> ledger_write \<Rightarrow>
    venue \<Rightarrow> ledger \<Rightarrow> unit ledgered" where
  "Classify len k i c now w v l =
     (if map_of (v_teardowns v) (key k i) \<noteq> None then (Inl RemovalBusy, v, l)
      else if \<not> valid_class c then (Inl InvalidClassName, v, l)
      else case map_of (v_objs v) (key k i) of
        None \<Rightarrow> (Inl NotOpen, v, l)
      | Some ob \<Rightarrow>
          if ob_Last ob = OpRemoved then (Inl NotOpen, v, l)
          else if ob_Class ob \<noteq> [] then (Inl AlreadyClassified, v, l)
          else append_entry len now w (new_entry OpClassify k c i (ob_Path ob) []) v l)"

text \<open>
  \<open>teardownNoteWith\<close>: the reservation under the lock, the removal outside it, and the record
  under the lock again; the reservation is released in the end, whatever happened.
\<close>

definition teardown_reserve :: "bytes \<Rightarrow> bytes \<Rightarrow> venue \<Rightarrow> venue_error + (obj \<times> bytes \<times> venue)" where
  "teardown_reserve k i v =
     (case map_of (v_objs v) (key k i) of
        None \<Rightarrow> Inl NotOpen
      | Some ob \<Rightarrow>
          if ob_Last ob = OpRemoved then Inl NotOpen
          else case resolve (v_root v) (ob_Path ob) of
            Inl e \<Rightarrow> Inl e
          | Inr target \<Rightarrow>
              if removalConflict (key k i) (ob_Path ob) v then Inl Overlapping
              else Inr (ob, target, v\<lparr>v_teardowns := put (key k i) (ob_Path ob) (v_teardowns v)\<rparr>))"

definition teardown_remove :: "(bytes \<Rightarrow> lstat_result) \<Rightarrow> bool \<Rightarrow> bytes \<Rightarrow> bytes \<Rightarrow> (venue_error + unit) option" where
  "teardown_remove lstat removed root target =
     (if target = [] then Some (Inr ())
      else case checkNoSymlinkParents lstat root target of
        None \<Rightarrow> None
      | Some (Inl e) \<Rightarrow> Some (Inl e)
      | Some (Inr _) \<Rightarrow> Some (if removed then Inr () else Inl RemoveFailed))"

definition teardown_record :: "(entry \<Rightarrow> nat) \<Rightarrow> bytes \<Rightarrow> bytes \<Rightarrow> bytes \<Rightarrow> obj \<Rightarrow> int \<Rightarrow> ledger_write \<Rightarrow>
    venue \<Rightarrow> ledger \<Rightarrow> unit ledgered" where
  "teardown_record len k i note original now w v l =
     (if map_of (v_objs v) (key k i) \<noteq> Some original then (Inl ChangedDuringRemoval, v, l)
      else append_entry len now w (new_entry OpRemoved k (ob_Class original) i (ob_Path original) note) v l)"

definition teardown_release :: "bytes \<Rightarrow> bytes \<Rightarrow> venue \<Rightarrow> venue" where
  "teardown_release k i v = v\<lparr>v_teardowns := del (key k i) (v_teardowns v)\<rparr>"

definition teardownNoteWith :: "(entry \<Rightarrow> nat) \<Rightarrow> (bytes \<Rightarrow> lstat_result) \<Rightarrow> (bytes \<Rightarrow> bool) \<Rightarrow> bytes \<Rightarrow> bytes \<Rightarrow> bytes \<Rightarrow>
    int \<Rightarrow> ledger_write \<Rightarrow> venue \<Rightarrow> ledger \<Rightarrow> unit ledgered option" where
  "teardownNoteWith len lstat remove k i note now w v l =
     (case teardown_reserve k i v of
        Inl e \<Rightarrow> Some (Inl e, v, l)
      | Inr (original, target, v) \<Rightarrow>
          (case teardown_remove lstat (remove target) (v_root v) target of
             None \<Rightarrow> None
           | Some (Inl e) \<Rightarrow> Some (Inl e, teardown_release k i v, l)
           | Some (Inr _) \<Rightarrow>
               let (r, v, l) = teardown_record len k i note original now w v l
               in Some (r, teardown_release k i v, l)))"

text \<open>\<open>EnsureCache\<close>: \<open>mkdir\<close> is whether the directory could be made.\<close>

definition EnsureCache :: "(entry \<Rightarrow> nat) \<Rightarrow> bytes \<Rightarrow> bytes \<Rightarrow> bytes \<Rightarrow> bool \<Rightarrow> int \<Rightarrow> ledger_write \<Rightarrow> int \<Rightarrow> ledger_write \<Rightarrow>
    venue \<Rightarrow> ledger \<Rightarrow> unit ledgered" where
  "EnsureCache len k i rel mkdir now w now' w' v l =
     (if removalConflict (key k i) rel v then (Inl Overlapping, v, l)
      else if IsOpen k i v then (if mkdir then Inr () else Inl MkdirFailed, v, l)
      else case Intent len k ClassCache i rel [] now w v l of
        (Inl e, v, l) \<Rightarrow> (Inl e, v, l)
      | (Inr _, v, l) \<Rightarrow> if mkdir then Created len k i now' w' v l else (Inl MkdirFailed, v, l))"

subsection \<open>Space\<close>

record statfs =
  st_Blocks :: "64 word"
  st_Bfree :: "64 word"
  st_Bavail :: "64 word"
  st_Bsize :: "32 word"
  st_Mntfromname :: bytes

definition Fill :: "statfs option \<Rightarrow> venue_error + int" where
  "Fill s =
     (case s of
        None \<Rightarrow> Inl StatfsFailed
      | Some s \<Rightarrow>
          let used = st_Blocks s - st_Bfree s; denom = used + st_Bavail s in
          if denom = 0 then Inl NoBlocks else Inr (sint ((used * 100 + denom - 1) div denom)))"

definition CheckHeavy :: "int \<Rightarrow> statfs option \<Rightarrow> venue_error + unit" where
  "CheckHeavy maxPercent s =
     (case Fill s of
        Inl e \<Rightarrow> Inl e
      | Inr pct \<Rightarrow> if maxPercent < pct then Inl (DiskFull pct maxPercent) else Inr ())"

definition CheckHostDisk :: "disk_limit \<Rightarrow> statfs option \<Rightarrow> venue_error + unit" where
  "CheckHostDisk p s = CheckHeavy (dl_percent (Validated p)) s"

definition container :: "bytes \<Rightarrow> bytes option" where
  "container dev =
     (if \<not> has_prefix dev (lit ''/dev/disk'') then None
      else let d = takeWhile is_digit (drop 9 dev) in if d = [] then None else Some d)"

definition SameContainer :: "bytes \<Rightarrow> bytes \<Rightarrow> bool" where
  "SameContainer a b =
     (case (container a, container b) of (Some x, Some y) \<Rightarrow> x = y | _ \<Rightarrow> True)"

definition cstr :: "bytes \<Rightarrow> bytes" where
  "cstr b = takeWhile (\<lambda>c. c \<noteq> 0) b"

record space =
  sp_Used :: int
  sp_Avail :: int
  sp_Device :: bytes
  sp_Shared :: bool

definition Space :: "statfs option \<Rightarrow> statfs option \<Rightarrow> venue_error + space" where
  "Space s sys =
     (case s of
        None \<Rightarrow> Inl StatfsFailed
      | Some s \<Rightarrow>
          let bs = uint (st_Bsize s); device = cstr (st_Mntfromname s) in
          Inr \<lparr>sp_Used = i64 (sint (st_Blocks s - st_Bfree s) * bs), sp_Avail = i64 (sint (st_Bavail s) * bs),
               sp_Device = device,
               sp_Shared = (case sys of None \<Rightarrow> True | Some y \<Rightarrow> SameContainer device (cstr (st_Mntfromname y)))\<rparr>)"

subsection \<open>Paths stay inside the root\<close>

text \<open>An absolute path by its components.\<close>

definition at :: "bytes list \<Rightarrow> bytes" where
  "at ps = slash # join_slash ps"

lemma Clean_at: "IsAbs s \<Longrightarrow> Clean s = at (clean_parts s)"
  by (simp add: Clean_def at_def)

lemma clean_parts_ups:
  assumes "\<not> IsAbs s" and "Clean s \<noteq> dotdot" and "\<not> has_prefix (Clean s) (dotdot @ [slash])"
  shows "list_all plain (clean_parts s)"
proof (rule clean_parts_plain, rule ccontr)
  assume n: "\<not> (IsAbs s \<or> clean_parts s = [] \<or> hd (clean_parts s) \<noteq> dotdot)"
  then obtain ps where ps: "clean_parts s = dotdot # ps" by (cases "clean_parts s") auto
  show False
    using assms n ps by (cases ps) (simp_all add: Clean_def has_prefix_def)
qed

lemma resolve_parts:
  assumes "resolve root rel = Inr target" and "rel \<noteq> []" and "IsAbs root"
  shows "list_all plain (clean_parts rel)" "clean_parts rel \<noteq> []" "clean_parts rel \<noteq> [ledgerName]"
    "target = at (clean_parts root @ clean_parts rel)"
    "clean_parts target = clean_parts root @ clean_parts rel" "IsAbs target" "\<not> IsAbs rel"
proof -
  have r: "\<not> IsAbs rel" "Clean rel \<noteq> dot" "Clean rel \<noteq> ledgerName" "Clean rel \<noteq> dotdot"
      "\<not> has_prefix (Clean rel) (dotdot @ [slash])" "target = Join root (Clean rel)"
    using assms(1,2) by (auto simp: resolve_def Let_def split: if_splits)
  show p: "list_all plain (clean_parts rel)" using r by (intro clean_parts_ups)
  show ne: "clean_parts rel \<noteq> []" using r Clean_rel by blast
  show "clean_parts rel \<noteq> [ledgerName]" using r by (auto simp: Clean_def)
  show parts: "clean_parts target = clean_parts root @ clean_parts rel" "IsAbs target"
    using clean_parts_Join [OF assms(3) r(1) p ne] r(6) by simp_all
  have "Clean target = target"
    using r(6) assms(3) by (auto simp: Join_def IsAbs_def)
  then show "target = at (clean_parts root @ clean_parts rel)"
    using Clean_at parts by metis
  show "\<not> IsAbs rel" by (rule r(1))
qed

text \<open>
  C34. Objects stay inside the data root: a path the ledger accepts resolves to a clean absolute
  path that has all components of the root and, below it, at least one more, none of them \<open>..\<close>,
  and never to the ledger itself.
\<close>

theorem resolved_path_inside:
  assumes "resolve root rel = Inr target" and "rel \<noteq> []" and "IsAbs root"
  shows "\<exists>ps. ps \<noteq> [] \<and> ps \<noteq> [ledgerName] \<and> list_all plain ps \<and>
    target = at (clean_parts root @ ps) \<and> clean_parts target = clean_parts root @ ps"
  using resolve_parts [OF assms] by blast

theorem resolved_path_inside_witness:
  "resolve (lit ''/srv'') (lit ''a/../vm//1'') = Inr (lit ''/srv/vm/1'') \<and>
   (\<exists>ps. ps \<noteq> [] \<and> ps \<noteq> [ledgerName] \<and> list_all plain ps \<and>
    lit ''/srv/vm/1'' = at (clean_parts (lit ''/srv'') @ ps) \<and>
    clean_parts (lit ''/srv/vm/1'') = clean_parts (lit ''/srv'') @ ps)"
proof -
  have r: "resolve (lit ''/srv'') (lit ''a/../vm//1'') = Inr (lit ''/srv/vm/1'')" by code_simp
  show ?thesis using resolved_path_inside [OF r] r by (simp add: lit_def IsAbs_def)
qed

text \<open>The parent of a path below the root, and the loop over the parents.\<close>

lemma clean_parts_at: "list_all plain ps \<Longrightarrow> clean_parts (at ps) = ps"
  by (cases "ps = []")
    (auto simp: clean_parts_def at_def IsAbs_def clean_step_def [of _ "[]"] split_join fold_plain list_all_iff plain_def)

lemma Dir_at:
  assumes "list_all plain (ps @ [c])"
  shows "Dir (at (ps @ [c])) = at ps"
proof -
  have c: "slash \<notin> set c" using assms by (simp add: plain_def)
  have cut: "rev (dropWhile (\<lambda>x. x \<noteq> slash) (rev (t @ slash # c))) = t @ [slash]" for t
    using c by (simp add: dropWhile_append3 dropWhile_append)
  obtain t where t: "at (ps @ [c]) = t @ slash # c" "t = (if ps = [] then [] else at ps)"
    by (cases "ps = []") (auto simp: at_def join_slash_append)
  have d: "Dir (at (ps @ [c])) = Clean (t @ [slash])" by (simp only: Dir_def t(1) cut)
  have a: "IsAbs (t @ [slash])" using t(2) by (cases t) (auto simp: IsAbs_def at_def split: if_splits)
  have "clean_parts (t @ [slash]) = ps"
  proof (cases "ps = []")
    case True
    then show ?thesis using t(2) by (simp add: clean_parts_def IsAbs_def clean_step_def)
  next
    case False
    then have "clean_parts (t @ [slash]) = clean_parts (at ps)"
      using t(2) by (simp add: clean_parts_def split_on_append_cons clean_step_def [of _ "[]"] IsAbs_def at_def)
    then show ?thesis using assms by (simp add: clean_parts_at)
  qed
  then show ?thesis using d a by (simp add: Clean_at)
qed

lemma at_inject: "list_all plain ps \<Longrightarrow> list_all plain qs \<Longrightarrow> at ps = at qs \<longleftrightarrow> ps = qs"
  by (metis clean_parts_at)

definition passable :: "lstat_result \<Rightarrow> bool" where
  "passable r \<longleftrightarrow> r = Missing \<or> r = Present"

lemma check_parents_at:
  assumes "list_all plain rs"
  shows "list_all plain ps \<Longrightarrow> \<exists>r. check_parents lstat (at rs) (at (rs @ ps)) = Some r \<and>
    (r = Inr () \<longleftrightarrow> (\<forall>n. 0 < n \<and> n \<le> length ps \<longrightarrow> passable (lstat (at (rs @ take n ps)))))"
proof (induction ps rule: rev_induct)
  case Nil
  then show ?case by (simp add: check_parents.simps)
next
  case (snoc c ps)
  have pl: "list_all plain (rs @ ps @ [c])" using assms snoc.prems by simp
  have d: "Dir (at (rs @ ps @ [c])) = at (rs @ ps)" using Dir_at [of "rs @ ps" c] pl by simp
  have ne: "at (rs @ ps @ [c]) \<noteq> at rs" using at_inject pl assms by (metis append_self_conv snoc_eq_iff_butlast)
  have all: "(\<forall>n. 0 < n \<and> n \<le> length (ps @ [c]) \<longrightarrow> passable (lstat (at (rs @ take n (ps @ [c]))))) \<longleftrightarrow>
      passable (lstat (at (rs @ ps @ [c]))) \<and> (\<forall>n. 0 < n \<and> n \<le> length ps \<longrightarrow> passable (lstat (at (rs @ take n ps))))"
    by (auto simp: le_Suc_eq)
  show ?case
    unfolding all using snoc ne d
    by (subst check_parents.simps) (auto simp: passable_def split: lstat_result.split)
qed

text \<open>
  C35. The check of a removal's parents returns, and lets the removal go on exactly when every
  directory between the root and the object is missing or is there and no symbolic link.
\<close>

theorem parents_checked:
  assumes "resolve root rel = Inr target" and "rel \<noteq> []" and "IsAbs root" and "Clean root = root"
  shows "\<exists>r. checkNoSymlinkParents lstat root target = Some r \<and>
    (r = Inr () \<longleftrightarrow> (\<forall>n. 0 < n \<and> n < length (clean_parts rel) \<longrightarrow>
       passable (lstat (at (clean_parts root @ take n (clean_parts rel))))))"
proof -
  note p = resolve_parts [OF assms(1-3)]
  obtain ps c where rel: "clean_parts rel = ps @ [c]" using p(2) by (metis rev_exhaust)
  have root: "root = at (clean_parts root)" "list_all plain (clean_parts root)"
    using assms(3,4) Clean_at clean_parts_plain by metis+
  have "Dir target = at (clean_parts root @ ps)"
    using Dir_at [of "clean_parts root @ ps" c] p(1,4) root(2) by (simp add: rel)
  then show ?thesis
    using check_parents_at [OF root(2), of ps lstat] p(1) root(1)
    by (auto simp: checkNoSymlinkParents_def rel less_Suc_eq_le)
qed

theorem parents_checked_witness:
  "checkNoSymlinkParents (\<lambda>_. Symlink) (lit ''/srv'') (lit ''/srv/vm/1'') = Some (Inl SymlinkedParent)"
proof -
  have r: "resolve (lit ''/srv'') (lit ''vm/1'') = Inr (lit ''/srv/vm/1'')"
    "Clean (lit ''/srv'') = lit ''/srv''" "length (clean_parts (lit ''vm/1'')) = 2"
    by code_simp+
  obtain x where x: "checkNoSymlinkParents (\<lambda>_. Symlink) (lit ''/srv'') (lit ''/srv/vm/1'') = Some x" "x \<noteq> Inr ()"
    using parents_checked [OF r(1), of "\<lambda>_. Symlink"] r(2,3)
    by (fastforce simp: lit_def IsAbs_def passable_def)
  then show ?thesis
    by (simp add: checkNoSymlinkParents_def) (subst (asm) check_parents.simps, auto split: if_splits)
qed

subsection \<open>The fill limit\<close>

lemma ceil_div_le: "0 < (d::int) \<Longrightarrow> (n + d - 1) div d \<le> m \<longleftrightarrow> n \<le> m * d"
  using less_div_iff [of d m "n + d - 1"] by (auto simp: algebra_simps not_less [symmetric])

text \<open>
  Heavy work is refused exactly above the limit: on a file system of at most \<open>2\<^sup>5\<^sup>6\<close> blocks the
  64-bit figures do not wrap, and \<open>CheckHeavy\<close> lets work go on exactly when the blocks in use are
  at most the limit's share of those in use and available.
\<close>

theorem heavy_work_within_limit:
  assumes "uint (st_Blocks s) \<le> 2 ^ 56" and "uint (st_Bavail s) \<le> 2 ^ 56" and "st_Bfree s \<le> st_Blocks s"
    and "0 < uint (st_Blocks s) - uint (st_Bfree s) + uint (st_Bavail s)"
  shows "CheckHeavy limit (Some s) = Inr () \<longleftrightarrow>
    (uint (st_Blocks s) - uint (st_Bfree s)) * 100 \<le>
      limit * (uint (st_Blocks s) - uint (st_Bfree s) + uint (st_Bavail s))"
proof -
  define u where "u = st_Blocks s - st_Bfree s"
  have u: "uint u = uint (st_Blocks s) - uint (st_Bfree s)"
    using assms(3) by (simp add: u_def uint_sub_lem word_le_def)
  have ub: "0 \<le> uint u" "uint u \<le> 2 ^ 56" using u assms(1) uint_ge_0 [of "st_Bfree s"] uint_ge_0 [of u] by linarith+
  define d where "d = u + st_Bavail s"
  have d: "uint d = uint u + uint (st_Bavail s)"
    unfolding d_def using ub assms(2) by (simp add: uint_plus_if')
  have db: "0 < uint d" "uint d \<le> 2 ^ 57" using assms(2,4) ub d u by simp_all
  have m: "uint (u * 100) = uint u * 100"
    using ub by (simp add: uint_mult_lem [THEN iffD1])
  have p: "uint (u * 100 + d) = uint u * 100 + uint d"
    using m ub db by (simp add: uint_plus_if')
  have "uint (1 :: 64 word) \<le> uint (u * 100 + d)" unfolding p uint_1 using ub(1) db(1) by linarith
  then have n: "uint (u * 100 + d - 1) = uint u * 100 + uint d - 1"
    by (metis uint_sub_lem p uint_1)
  have q: "uint ((u * 100 + d - 1) div d) = (uint u * 100 + uint d - 1) div uint d"
    by (simp add: uint_div n)
  have "(uint u * 100 + uint d - 1) div uint d \<le> uint u * 100 + uint d - 1"
    using zdiv_mono2 [of "uint u * 100 + uint d - 1" 1 "uint d"] ub(1) db(1) by simp
  then have "uint ((u * 100 + d - 1) div d) < 2 ^ 63" using q ub db by simp
  moreover have "0 \<le> uint ((u * 100 + d - 1) div d)" by simp
  ultimately have "sint ((u * 100 + d - 1) div d) = (uint u * 100 + uint d - 1) div uint d"
    unfolding q by (simp add: sint_uint q signed_take_bit_int_eq_self_iff)
  moreover have "d \<noteq> 0" using db by auto
  ultimately have "CheckHeavy limit (Some s) = Inr () \<longleftrightarrow> (uint u * 100 + uint d - 1) div uint d \<le> limit"
    by (auto simp: CheckHeavy_def Fill_def Let_def u_def [symmetric] d_def [symmetric])
  then show ?thesis by (simp only: ceil_div_le [OF db(1)] d [symmetric] u [symmetric])
qed

theorem heavy_work_within_limit_witness:
  "CheckHeavy 85 (Some \<lparr>st_Blocks = 100, st_Bfree = 15, st_Bavail = 15, st_Bsize = 4096, st_Mntfromname = []\<rparr>) = Inr ()"
  by (subst heavy_work_within_limit) simp_all

end
