(* ===== verification/VenueRuns.thy ===== *)
theory VenueRuns
  imports Venue
begin

text \<open>
  The data root at work: operations of several goroutines interleaved at the venue's lock, with
  removals that run outside it, writes that fail and restarts that read the ledger again. The
  relation \<open>venue_step\<close> has a rule for every section under the lock; \<open>vs_calls\<close> records every call
  that removes a tree, with the object the ledger shows at that moment.
\<close>

subsection \<open>Steps\<close>

datatype stage = Waiting | Gone | Finished

record removal =
  rm_Kind :: bytes
  rm_ID :: bytes
  rm_obj :: obj
  rm_target :: bytes
  rm_stage :: stage

record vsys =
  vs_v :: venue
  vs_l :: ledger
  vs_pending :: "(bytes \<times> removal) list"
  vs_calls :: "(bytes \<times> bytes \<times> obj option) list"

definition reserved :: "bytes \<Rightarrow> bytes \<Rightarrow> obj \<Rightarrow> bytes \<Rightarrow> removal" where
  "reserved k i ob target = \<lparr>rm_Kind = k, rm_ID = i, rm_obj = ob, rm_target = target, rm_stage = Waiting\<rparr>"

definition removal_call :: "(bytes \<Rightarrow> lstat_result) \<Rightarrow> bytes \<Rightarrow> removal \<Rightarrow> vsys \<Rightarrow> (bytes \<times> bytes \<times> obj option) list" where
  "removal_call lstat i rm s =
     (if rm_target rm \<noteq> [] \<and> checkNoSymlinkParents lstat (v_root (vs_v s)) (rm_target rm) = Some (Inr ())
      then [(i, rm_target rm, map_of (v_objs (vs_v s)) i)] else [])"

inductive venue_step :: "(entry \<Rightarrow> nat) \<Rightarrow> (ledger_write \<Rightarrow> bool) \<Rightarrow> vsys \<Rightarrow> vsys \<Rightarrow> bool"
  for len :: "entry \<Rightarrow> nat" and W :: "ledger_write \<Rightarrow> bool" where
  intent: "W w \<Longrightarrow> Intent len k c i rel nt now w (vs_v s) (vs_l s) = (r, v, l) \<Longrightarrow>
    venue_step len W s (s\<lparr>vs_v := v, vs_l := l\<rparr>)"
| created: "W w \<Longrightarrow> Created len k i now w (vs_v s) (vs_l s) = (r, v, l) \<Longrightarrow>
    venue_step len W s (s\<lparr>vs_v := v, vs_l := l\<rparr>)"
| failed: "W w \<Longrightarrow> Failed len k i nt now w (vs_v s) (vs_l s) = (r, v, l) \<Longrightarrow>
    venue_step len W s (s\<lparr>vs_v := v, vs_l := l\<rparr>)"
| classify: "W w \<Longrightarrow> Classify len k i c now w (vs_v s) (vs_l s) = (r, v, l) \<Longrightarrow>
    venue_step len W s (s\<lparr>vs_v := v, vs_l := l\<rparr>)"
| reserve: "teardown_reserve k i (vs_v s) = Inr (ob, target, v) \<Longrightarrow>
    venue_step len W s (s\<lparr>vs_v := v, vs_pending := put (key k i) (reserved k i ob target) (vs_pending s)\<rparr>)"
| remove: "map_of (vs_pending s) x = Some rm \<Longrightarrow> rm_stage rm = Waiting \<Longrightarrow>
    teardown_remove lstat removed (v_root (vs_v s)) (rm_target rm) = Some r \<Longrightarrow>
    venue_step len W s (s\<lparr>vs_pending := put x (rm\<lparr>rm_stage := (case r of Inl _ \<Rightarrow> Finished | Inr _ \<Rightarrow> Gone)\<rparr>) (vs_pending s),
      vs_calls := vs_calls s @ removal_call lstat x rm s\<rparr>)"
| record_removed: "map_of (vs_pending s) x = Some rm \<Longrightarrow> rm_stage rm = Gone \<Longrightarrow> W w \<Longrightarrow>
    teardown_record len (rm_Kind rm) (rm_ID rm) nt (rm_obj rm) now w (vs_v s) (vs_l s) = (r, v, l) \<Longrightarrow>
    venue_step len W s (s\<lparr>vs_v := v, vs_l := l, vs_pending := put x (rm\<lparr>rm_stage := Finished\<rparr>) (vs_pending s)\<rparr>)"
| release: "map_of (vs_pending s) x = Some rm \<Longrightarrow> rm_stage rm = Finished \<Longrightarrow>
    venue_step len W s (s\<lparr>vs_v := teardown_release (rm_Kind rm) (rm_ID rm) (vs_v s), vs_pending := del x (vs_pending s)\<rparr>)"
| restart: "replay_ledger len (vs_l s) (empty_venue (v_root (vs_v s))) = Some v \<Longrightarrow>
    venue_step len W s (s\<lparr>vs_v := v, vs_pending := []\<rparr>)"

text \<open>A venue just opened on a ledger: \<open>EvalSymlinks\<close> gives a clean path.\<close>

definition opened :: "(entry \<Rightarrow> nat) \<Rightarrow> bytes \<Rightarrow> ledger \<Rightarrow> vsys \<Rightarrow> bool" where
  "opened len root l s \<longleftrightarrow> IsAbs root \<and> Clean root = root \<and> vs_l s = l \<and> vs_pending s = [] \<and> vs_calls s = [] \<and>
     OpenWithOptions len root (Some root) True l = Inr (vs_v s)"

definition reaches :: "(entry \<Rightarrow> nat) \<Rightarrow> (ledger_write \<Rightarrow> bool) \<Rightarrow> bytes \<Rightarrow> ledger \<Rightarrow> vsys \<Rightarrow> bool" where
  "reaches len W root l s \<longleftrightarrow> (\<exists>s0. opened len root l s0 \<and> (venue_step len W)\<^sup>*\<^sup>* s0 s)"

subsection \<open>What an operation leaves alone\<close>

lemma apply_entry_frame [simp]:
  "v_root (apply_entry e v) = v_root v" "v_teardowns (apply_entry e v) = v_teardowns v"
  by (simp_all add: apply_entry_def Let_def)

lemma apply_entry_other: "x \<noteq> key (en_Kind e) (en_ID e) \<Longrightarrow> map_of (v_objs (apply_entry e v)) x = map_of (v_objs v) x"
  by (simp add: apply_entry_def Let_def map_of_put)

lemma append_frame:
  assumes "append_entry len now w e v l = (r, v', l')"
  shows "v_root v' = v_root v" "v_teardowns v' = v_teardowns v"
    "x \<noteq> key (en_Kind e) (en_ID e) \<Longrightarrow> map_of (v_objs v') x = map_of (v_objs v) x"
  using assms by (auto simp: append_entry_def Let_def apply_entry_other split: prod.splits if_splits)

lemma new_entry_sel [simp]:
  "en_Kind (new_entry op k c i p n) = k" "en_ID (new_entry op k c i p n) = i"
  by (simp_all add: new_entry_def)

text \<open>An operation is quiet when it touches no object whose removal is in progress.\<close>

definition quiet :: "venue \<Rightarrow> venue \<Rightarrow> bool" where
  "quiet v v' \<longleftrightarrow> v_root v' = v_root v \<and> v_teardowns v' = v_teardowns v \<and>
     (\<forall>x. map_of (v_teardowns v) x \<noteq> None \<longrightarrow> map_of (v_objs v') x = map_of (v_objs v) x)"

lemma quiet_refl [simp]: "quiet v v"
  by (simp add: quiet_def)

lemma quiet_append:
  "append_entry len now w (new_entry op k c i p n) v l = (r, v', l') \<Longrightarrow> map_of (v_teardowns v) (key k i) = None \<Longrightarrow> quiet v v'"
  unfolding quiet_def by (metis append_frame new_entry_sel)

lemma no_conflict:
  assumes "\<not> removalConflict x p v" and "map_of (v_teardowns v) y = Some q"
  shows "y \<noteq> x" "\<not> overlaps p q"
  using assms map_of_SomeD [OF assms(2)] by (auto simp: removalConflict_def list_ex_iff)

lemma Intent_quiet: "Intent len k c i rel note now w v l = (r, v', l') \<Longrightarrow> quiet v v'"
  by (auto simp: Intent_def split: if_splits sum.splits intro!: quiet_append)
    (metis no_conflict(1) not_None_eq)

lemma mark_quiet: "mark len k i op note now w v l = (r, v', l') \<Longrightarrow> quiet v v'"
  by (auto simp: mark_def split: if_splits option.splits intro: quiet_append)

lemma Classify_quiet: "Classify len k i c now w v l = (r, v', l') \<Longrightarrow> quiet v v'"
  by (auto simp: Classify_def split: if_splits option.splits intro: quiet_append)

subsection \<open>Removals own what they remove\<close>

lemma overlaps_sym: "overlaps p q \<longleftrightarrow> overlaps q p"
  by (auto simp: overlaps_def)

definition owns :: "bytes \<Rightarrow> venue \<Rightarrow> bytes \<Rightarrow> removal \<Rightarrow> bool" where
  "owns root v x rm \<longleftrightarrow> x = key (rm_Kind rm) (rm_ID rm) \<and> resolve root (ob_Path (rm_obj rm)) = Inr (rm_target rm) \<and>
     (rm_stage rm \<noteq> Finished \<longrightarrow> map_of (v_objs v) x = Some (rm_obj rm) \<and> is_open (rm_obj rm))"

definition called_ok :: "bytes \<Rightarrow> (bytes \<times> bytes \<times> obj option) \<Rightarrow> bool" where
  "called_ok root = (\<lambda>(x, target, ob). target \<noteq> [] \<and>
     (\<exists>b. ob = Some b \<and> is_open b \<and> resolve root (ob_Path b) = Inr target))"

definition venue_inv :: "bytes \<Rightarrow> vsys \<Rightarrow> bool" where
  "venue_inv root s \<longleftrightarrow> v_root (vs_v s) = root \<and>
     (\<forall>x. map_of (v_teardowns (vs_v s)) x = map_option (\<lambda>rm. ob_Path (rm_obj rm)) (map_of (vs_pending s) x)) \<and>
     (\<forall>x rm. map_of (vs_pending s) x = Some rm \<longrightarrow> owns root (vs_v s) x rm) \<and>
     (\<forall>x rm y rm'. map_of (vs_pending s) x = Some rm \<longrightarrow> map_of (vs_pending s) y = Some rm' \<longrightarrow> x \<noteq> y \<longrightarrow>
        \<not> overlaps (ob_Path (rm_obj rm)) (ob_Path (rm_obj rm'))) \<and>
     list_all (called_ok root) (vs_calls s)"

lemma venue_invD:
  assumes "venue_inv root s"
  shows "v_root (vs_v s) = root"
    "map_of (v_teardowns (vs_v s)) x = map_option (\<lambda>rm. ob_Path (rm_obj rm)) (map_of (vs_pending s) x)"
    "map_of (vs_pending s) x = Some rm \<Longrightarrow> owns root (vs_v s) x rm"
  using assms by (auto simp: venue_inv_def)

lemma inv_quiet:
  assumes "venue_inv root s" and "quiet (vs_v s) v"
  shows "venue_inv root (s\<lparr>vs_v := v, vs_l := l\<rparr>)"
proof -
  have "owns root v x rm" if "map_of (vs_pending s) x = Some rm" for x rm
    using venue_invD(2,3) [OF assms(1), of x] that assms(2) by (auto simp: owns_def quiet_def)
  then show ?thesis using assms by (simp add: venue_inv_def quiet_def)
qed

lemma inv_reserve:
  assumes "venue_inv root s" and "teardown_reserve k i (vs_v s) = Inr (ob, target, v)"
  shows "venue_inv root (s\<lparr>vs_v := v, vs_pending := put (key k i) (reserved k i ob target) (vs_pending s)\<rparr>)"
proof -
  note inv = assms(1) [unfolded venue_inv_def]
  have t: "map_of (v_objs (vs_v s)) (key k i) = Some ob" "is_open ob" "resolve root (ob_Path ob) = Inr target"
      "\<not> removalConflict (key k i) (ob_Path ob) (vs_v s)"
      "v = (vs_v s)\<lparr>v_teardowns := put (key k i) (ob_Path ob) (v_teardowns (vs_v s))\<rparr>"
    using assms(2) inv by (auto simp: teardown_reserve_def is_open_def split: option.splits if_splits sum.splits)
  have apart: "\<not> overlaps (ob_Path ob) (ob_Path (rm_obj rm))" if "map_of (vs_pending s) y = Some rm" for y rm
    using no_conflict(2) [OF t(4), of y] that venue_invD(2) [OF assms(1), of y] by simp
  have "owns root v x rm" if "map_of (vs_pending s) x = Some rm" for x rm
    using venue_invD(3) [OF assms(1) that] t(5) by (auto simp: owns_def)
  then show ?thesis
    using inv t apart by (auto simp: venue_inv_def map_of_put owns_def reserved_def overlaps_sym)
qed

lemma inv_pending:
  assumes "venue_inv root s" and "map_of (vs_pending s) x = Some rm"
    and "owns root v x (rm\<lparr>rm_stage := g\<rparr>)" and "v_root v = root" and "v_teardowns v = v_teardowns (vs_v s)"
    and "\<And>y. y \<noteq> x \<Longrightarrow> map_of (v_objs v) y = map_of (v_objs (vs_v s)) y" and "list_all (called_ok root) cs"
  shows "venue_inv root (s\<lparr>vs_v := v, vs_l := l, vs_pending := put x (rm\<lparr>rm_stage := g\<rparr>) (vs_pending s),
    vs_calls := vs_calls s @ cs\<rparr>)"
proof -
  have "owns root v y rm'" if "map_of (vs_pending s) y = Some rm'" "y \<noteq> x" for y rm'
    using venue_invD(3) [OF assms(1) that(1)] assms(6) [OF that(2)] by (auto simp: owns_def)
  then show ?thesis
    using assms by (auto simp: venue_inv_def map_of_put)
qed

lemma inv_remove:
  assumes "venue_inv root s" and "map_of (vs_pending s) x = Some rm" and "rm_stage rm = Waiting"
  shows "venue_inv root (s\<lparr>vs_pending := put x (rm\<lparr>rm_stage := g\<rparr>) (vs_pending s),
    vs_calls := vs_calls s @ removal_call lstat x rm s\<rparr>)"
proof -
  have o: "owns root (vs_v s) x rm" using assms by (simp add: venue_invD)
  have "list_all (called_ok root) (removal_call lstat x rm s)"
    using o assms(3) by (auto simp: removal_call_def called_ok_def owns_def)
  moreover have "owns root (vs_v s) x (rm\<lparr>rm_stage := g\<rparr>)" using o assms(3) by (auto simp: owns_def)
  ultimately show ?thesis
    using inv_pending [OF assms(1,2), of "vs_v s" g _ "vs_l s"] venue_invD(1) [OF assms(1)] by simp
qed

lemma inv_record:
  assumes "venue_inv root s" and "map_of (vs_pending s) x = Some rm" and "rm_stage rm = Gone"
    and "teardown_record len (rm_Kind rm) (rm_ID rm) note (rm_obj rm) now w (vs_v s) (vs_l s) = (r, v, l)"
  shows "venue_inv root (s\<lparr>vs_v := v, vs_l := l, vs_pending := put x (rm\<lparr>rm_stage := Finished\<rparr>) (vs_pending s)\<rparr>)"
proof -
  have o: "owns root (vs_v s) x rm" using assms by (simp add: venue_invD)
  then have a: "append_entry len now w (new_entry OpRemoved (rm_Kind rm) (ob_Class (rm_obj rm)) (rm_ID rm) (ob_Path (rm_obj rm)) note)
      (vs_v s) (vs_l s) = (r, v, l)"
    using assms(3,4) by (auto simp: teardown_record_def owns_def)
  have "owns root v x (rm\<lparr>rm_stage := Finished\<rparr>)" using o by (simp add: owns_def)
  then show ?thesis
    using inv_pending [OF assms(1,2), of v Finished "[]" l] append_frame [OF a] o venue_invD(1) [OF assms(1)]
    by (simp add: owns_def)
qed

lemma inv_release:
  assumes "venue_inv root s" and "map_of (vs_pending s) x = Some rm"
  shows "venue_inv root (s\<lparr>vs_v := teardown_release (rm_Kind rm) (rm_ID rm) (vs_v s), vs_pending := del x (vs_pending s)\<rparr>)"
proof -
  have "x = key (rm_Kind rm) (rm_ID rm)" using venue_invD(3) [OF assms] by (simp add: owns_def)
  then show ?thesis using assms(1) by (auto simp: venue_inv_def teardown_release_def map_of_del owns_def)
qed

lemma replay_lines_frame:
  "replay_lines len ls v = Some v' \<Longrightarrow> v_root v' = v_root v \<and> v_teardowns v' = v_teardowns v"
  by (induction len ls v rule: replay_lines.induct) (auto split: if_splits)

lemma replay_ledger_frame:
  "replay_ledger len l (empty_venue root) = Some v \<Longrightarrow> v_root v = root \<and> v_teardowns v = []"
  using replay_lines_frame by (fastforce simp: replay_ledger_def empty_venue_def)

lemma venue_step_inv: "venue_step len W s s' \<Longrightarrow> venue_inv root s \<Longrightarrow> venue_inv root s'"
proof (induction rule: venue_step.induct)
  case (restart s v)
  then show ?case using replay_ledger_frame by (fastforce simp: venue_inv_def)
qed (auto simp: Created_def Failed_def intro: inv_quiet inv_reserve inv_remove inv_record inv_release
      Intent_quiet mark_quiet Classify_quiet)

lemma reaches_inv: "reaches len W root l s \<Longrightarrow> venue_inv root s"
proof -
  assume "reaches len W root l s"
  then obtain s0 where s0: "opened len root l s0" "(venue_step len W)\<^sup>*\<^sup>* s0 s" by (auto simp: reaches_def)
  have "venue_inv root s0"
    using s0(1) replay_ledger_frame
    by (fastforce simp: opened_def OpenWithOptions_def venue_inv_def split: if_splits option.splits)
  with s0(2) show ?thesis by induction (auto intro: venue_step_inv)
qed

text \<open>
  C9. Teardown removes only what the ledger shows as open, inside the root: however goroutines,
  failed writes and restarts interleave, every call that removes a tree is made for an object that
  is open in the ledger at that moment, on that object's own path, which lies strictly below the
  root.
\<close>

theorem removals_only_of_open_objects:
  assumes "reaches len W root l s" and "(x, target, ob) \<in> set (vs_calls s)"
  shows "\<exists>b ps. ob = Some b \<and> is_open b \<and> resolve root (ob_Path b) = Inr target \<and>
    ps \<noteq> [] \<and> list_all plain ps \<and> target = at (clean_parts root @ ps)"
proof -
  have "called_ok root (x, target, ob)"
    using reaches_inv [OF assms(1)] assms(2) by (auto simp: venue_inv_def list_all_iff)
  then obtain b where b: "ob = Some b" "is_open b" "resolve root (ob_Path b) = Inr target" "ob_Path b \<noteq> []"
    by (cases ob) (force simp: called_ok_def resolve_def [of _ "[]"])+
  moreover have "IsAbs root" using assms(1) by (auto simp: reaches_def opened_def)
  ultimately show ?thesis using resolve_parts(1,2,4) by blast
qed



subsection \<open>The ledger and the memory\<close>









subsection \<open>A torn write\<close>






subsection \<open>A concrete run\<close>

text \<open>An image whose intent is recorded, whose removal is reserved and then carried out.\<close>

definition sample_len :: "entry \<Rightarrow> nat" where
  "sample_len e = 200"

definition sample_root :: bytes where
  "sample_root = lit ''/srv''"

definition sample0 :: vsys where
  "sample0 = \<lparr>vs_v = empty_venue sample_root, vs_l = \<lparr>lg_lines = [], lg_tail = None\<rparr>, vs_pending = [], vs_calls = []\<rparr>"

definition sample_intent :: "ledger_write \<Rightarrow> unit ledgered" where
  "sample_intent w = Intent sample_len KindImage ClassCache (lit ''a'') (lit ''a'') [] 7 w (vs_v sample0) (vs_l sample0)"

definition after :: "'r ledgered \<Rightarrow> vsys \<Rightarrow> vsys" where
  "after r s = s\<lparr>vs_v := fst (snd r), vs_l := snd (snd r)\<rparr>"

definition sample1 :: vsys where
  "sample1 = after (sample_intent Written) sample0"

definition sample_object :: obj where
  "sample_object = \<lparr>ob_Kind = KindImage, ob_Class = ClassCache, ob_ID = lit ''a'', ob_Path = lit ''a'',
     ob_Last = OpIntent, ob_Created = 0\<rparr>"

definition sample2 :: vsys where
  "sample2 = sample1\<lparr>vs_v := (vs_v sample1)\<lparr>v_teardowns := [(lit ''image/a'', lit ''a'')]\<rparr>,
     vs_pending := [(lit ''image/a'', reserved KindImage (lit ''a'') sample_object (lit ''/srv/a''))]\<rparr>"

lemma sample_opened: "opened sample_len sample_root (vs_l sample0) sample0"
  unfolding opened_def by code_simp

lemma sample1_step: "W Written \<Longrightarrow> venue_step sample_len W sample0 sample1"
  unfolding sample1_def after_def
  by (rule venue_step.intent [where k = KindImage and c = ClassCache and i = "lit ''a''" and rel = "lit ''a''"
        and nt = "[]" and now = 7 and w = Written and r = "fst (sample_intent Written)"])
    (simp_all add: sample_intent_def)

lemma sample2_step: "venue_step sample_len W sample1 sample2"
proof -
  have "teardown_reserve KindImage (lit ''a'') (vs_v sample1) = Inr (sample_object, lit ''/srv/a'', vs_v sample2)"
    "key KindImage (lit ''a'') = lit ''image/a''"
    by code_simp+
  from venue_step.reserve [OF this(1), of sample_len W] this(2) show ?thesis
    by (simp add: sample2_def) (simp add: sample1_def sample0_def after_def)
qed

lemma sample_reaches:
  "W Written \<Longrightarrow> reaches sample_len W sample_root (vs_l sample0) sample1"
  "reaches sample_len (\<lambda>_. True) sample_root (vs_l sample0) sample2"
proof -
  show "reaches sample_len W sample_root (vs_l sample0) sample1" if "W Written"
    unfolding reaches_def by (intro exI conjI) (rule sample_opened, rule r_into_rtranclp, rule sample1_step, rule that)
  show "reaches sample_len (\<lambda>_. True) sample_root (vs_l sample0) sample2"
    unfolding reaches_def
    by (intro exI conjI) (rule sample_opened, rule rtranclp_trans, rule r_into_rtranclp, rule sample1_step, rule TrueI,
        rule r_into_rtranclp, rule sample2_step)
qed


theorem removals_only_of_open_objects_witness:
  "\<exists>s. reaches sample_len (\<lambda>_. True) sample_root (vs_l sample0) s \<and> vs_calls s \<noteq> [] \<and>
     (\<forall>(x, target, ob) \<in> set (vs_calls s). \<exists>b. ob = Some b \<and> is_open b \<and> resolve sample_root (ob_Path b) = Inr target)"
proof -
  define rm where "rm = reserved KindImage (lit ''a'') sample_object (lit ''/srv/a'')"
  have p: "map_of (vs_pending sample2) (lit ''image/a'') = Some rm" "rm_stage rm = Waiting"
      "rm_target rm = lit ''/srv/a''" "v_root (vs_v sample2) = sample_root" "lit ''/srv/a'' \<noteq> []"
      "Dir (lit ''/srv/a'') = sample_root"
    unfolding rm_def by code_simp+
  have c: "checkNoSymlinkParents (\<lambda>_. Present) sample_root (lit ''/srv/a'') = Some (Inr ())"
    by (simp add: checkNoSymlinkParents_def p(6) check_parents.simps)
  define s where "s = sample2\<lparr>vs_pending := put (lit ''image/a'') (rm\<lparr>rm_stage := Gone\<rparr>) (vs_pending sample2),
      vs_calls := vs_calls sample2 @ removal_call (\<lambda>_. Present) (lit ''image/a'') rm sample2\<rparr>"
  have "venue_step sample_len (\<lambda>_. True) sample2 s"
    unfolding s_def
    using venue_step.remove [OF p(1,2), of "\<lambda>_. Present" True "Inr ()" sample_len] p c by (simp add: teardown_remove_def)
  with sample_reaches(2) have r: "reaches sample_len (\<lambda>_. True) sample_root (vs_l sample0) s"
    unfolding reaches_def by (meson rtranclp.rtrancl_into_rtrancl)
  have "vs_calls s \<noteq> []" unfolding s_def using p c by (simp add: removal_call_def)
  with r removals_only_of_open_objects [OF r] show ?thesis by blast
qed



end
