(* ===== verification/VenueWalk.thy ===== *)
theory VenueWalk
  imports Venue "HOL-Library.List_Lexorder"
begin

text \<open>
  \<open>Unaccounted\<close> of \<open>internal/venue/venue.go\<close>: the walk over the data root that reports what no
  open object accounts for. The file system below the root is a tree; a directory that cannot be
  read ends the walk with an error, as the walk's callback does.
\<close>

datatype node = Leaf | Directory bool "(bytes \<times> node) list"

definition open_paths :: "venue \<Rightarrow> bytes list" where
  "open_paths v = map (\<lambda>ob. Clean (ob_Path ob)) (filter (\<lambda>ob. is_open ob \<and> ob_Path ob \<noteq> []) (map snd (v_objs v)))"

text \<open>The callback: what it reports, and whether it skips the directory.\<close>

definition visit :: "bytes list \<Rightarrow> bytes \<Rightarrow> bool \<Rightarrow> bytes list \<times> bool" where
  "visit objs rel isdir =
     (if rel = dot \<or> rel = ledgerName then ([], False)
      else if list_ex (\<lambda>p. rel = p \<or> has_prefix rel (p @ [slash])) objs then ([], isdir)
      else if isdir then
        (if rel \<in> set Structure then ([], False)
         else if list_ex (\<lambda>p. has_prefix p (rel @ [slash])) objs then ([], False)
         else ([rel], True))
      else ([rel], False))"

definition child :: "bytes \<Rightarrow> bytes \<Rightarrow> bytes" where
  "child rel name = (if rel = dot then name else rel @ slash # name)"

text \<open>The walk: what was reported, and whether it came to its end without an error.\<close>

fun walk :: "bytes list \<Rightarrow> bytes \<Rightarrow> node \<Rightarrow> bytes list \<times> bool"
  and walks :: "bytes list \<Rightarrow> bytes \<Rightarrow> (bytes \<times> node) list \<Rightarrow> bytes list \<times> bool" where
  "walk objs rel Leaf = (fst (visit objs rel False), True)"
| "walk objs rel (Directory readable cs) =
     (let (out, skip) = visit objs rel True in
      if skip then (out, True)
      else if \<not> readable then (out, False)
      else let (out', ok) = walks objs rel cs in (out @ out', ok))"
| "walks objs rel [] = ([], True)"
| "walks objs rel ((name, t) # cs) =
     (let (out, ok) = walk objs (child rel name) t in
      if \<not> ok then (out, False)
      else let (out', ok) = walks objs rel cs in (out @ out', ok))"

definition Unaccounted :: "venue \<Rightarrow> node \<Rightarrow> bytes list \<times> bool" where
  "Unaccounted v t = (let (out, ok) = walk (open_paths v) dot t in (sort out, ok))"

subsection \<open>What is reported\<close>

fun entries :: "bytes \<Rightarrow> node \<Rightarrow> (bytes \<times> bool) list"
  and entries_of :: "bytes \<Rightarrow> (bytes \<times> node) list \<Rightarrow> (bytes \<times> bool) list" where
  "entries rel Leaf = [(rel, False)]"
| "entries rel (Directory readable cs) = (rel, True) # entries_of rel cs"
| "entries_of rel [] = []"
| "entries_of rel ((name, t) # cs) = entries (child rel name) t @ entries_of rel cs"

text \<open>At a path or below it.\<close>

definition within_path :: "bytes \<Rightarrow> bytes \<Rightarrow> bool" where
  "within_path q p \<longleftrightarrow> p = q \<or> has_prefix p (q @ [slash])"

definition accounted :: "bytes list \<Rightarrow> bytes \<Rightarrow> bool \<Rightarrow> bool" where
  "accounted objs p isdir \<longleftrightarrow> p = dot \<or> p = ledgerName \<or> list_ex (\<lambda>q. within_path q p) objs \<or>
     isdir \<and> (p \<in> set Structure \<or> list_ex (\<lambda>q. has_prefix q (p @ [slash])) objs)"

lemma visit_out: "fst (visit objs p d) = (if accounted objs p d then [] else [p])"
  by (auto simp: visit_def accounted_def within_path_def)

lemma visit_skip:
  "snd (visit objs p True) \<Longrightarrow> p \<noteq> dot \<and> (\<not> accounted objs p True \<or> list_ex (\<lambda>q. within_path q p) objs)"
  by (auto simp: visit_def accounted_def within_path_def split: if_splits)

lemma within_refl [simp]: "within_path p p"
  by (simp add: within_path_def)

lemma has_prefix_iff: "has_prefix s p \<longleftrightarrow> (\<exists>t. s = p @ t)"
  by (auto simp: has_prefix_def) (metis append_take_drop_id)

lemma within_trans: "within_path a b \<Longrightarrow> within_path b c \<Longrightarrow> within_path a c"
  by (auto simp: within_path_def has_prefix_iff)

lemma within_child: "rel \<noteq> dot \<Longrightarrow> within_path rel (child rel name)"
  by (simp add: within_path_def child_def has_prefix_iff)

lemma child_ne_dot: "rel \<noteq> dot \<Longrightarrow> child rel name \<noteq> dot"
  by (cases rel) (auto simp: child_def)

lemma entries_below:
  "x \<in> set (entries rel t) \<Longrightarrow> rel \<noteq> dot \<Longrightarrow> within_path rel (fst x)"
  "x \<in> set (entries_of rel cs) \<Longrightarrow> rel \<noteq> dot \<Longrightarrow> within_path rel (fst x)"
proof (induction rel t and rel cs arbitrary: x and x rule: entries_entries_of.induct)
  case (4 rel name t cs)
  have "x \<in> set (entries (child rel name) t) \<or> x \<in> set (entries_of rel cs)" using 4(3) by simp
  then show ?case
  proof
    assume "x \<in> set (entries (child rel name) t)"
    from within_trans [OF within_child 4(1)] this child_ne_dot 4(4) show ?thesis by simp
  qed (rule 4(2) [OF _ 4(4)])
qed auto

definition covers :: "bytes list \<Rightarrow> bytes list \<Rightarrow> bytes \<times> bool \<Rightarrow> bool" where
  "covers objs out x \<longleftrightarrow> accounted objs (fst x) (snd x) \<or> (\<exists>q \<in> set out. within_path q (fst x))"

lemma covers_append: "covers objs a x \<or> covers objs b x \<Longrightarrow> covers objs (a @ b) x"
  by (auto simp: covers_def)

lemma covers_below:
  assumes "snd (visit objs rel True)" and "x \<in> set (entries rel (Directory readable cs))"
  shows "covers objs (fst (visit objs rel True)) x"
proof -
  have w: "within_path rel (fst x)" "rel \<noteq> dot"
    using entries_below(1) [OF assms(2)] visit_skip [OF assms(1)] by blast+
  show ?thesis
  proof (cases "accounted objs rel True")
    case True
    then obtain q where "q \<in> set objs" "within_path q rel" using visit_skip [OF assms(1)] by (auto simp: list_ex_iff)
    then show ?thesis using within_trans [OF _ w(1)] by (auto simp: covers_def accounted_def list_ex_iff)
  next
    case False
    then show ?thesis using w by (simp add: covers_def visit_out)
  qed
qed

lemma walk_complete:
  "walk objs rel t = (out, True) \<Longrightarrow> x \<in> set (entries rel t) \<Longrightarrow> covers objs out x"
  "walks objs rel cs = (out, True) \<Longrightarrow> x \<in> set (entries_of rel cs) \<Longrightarrow> covers objs out x"
proof (induction rel t and rel cs arbitrary: out x and out x rule: entries_entries_of.induct)
  case (1 rel)
  then show ?case by (auto simp: covers_def visit_out split: if_splits)
next
  case (2 rel readable cs)
  show ?case
  proof (cases "snd (visit objs rel True)")
    case True
    then show ?thesis using covers_below [OF True 2(3)] 2(2) by (auto simp: split_beta Let_def)
  next
    case False
    then obtain out' where o: "walks objs rel cs = (out', True)" "out = fst (visit objs rel True) @ out'"
      using 2(2) by (cases "walks objs rel cs") (auto simp: split_beta split: if_splits)
    have "covers objs (fst (visit objs rel True)) (rel, True)" by (simp add: covers_def visit_out)
    then show ?thesis using 2(1) [OF o(1), of x] 2(3) unfolding o(2) by (intro covers_append) auto
  qed
next
  case (4 rel name t cs)
  obtain o1 where o1: "walk objs (child rel name) t = (o1, True)"
    using 4(3) by (cases "walk objs (child rel name) t") (auto split: if_splits)
  obtain o2 where o2: "walks objs rel cs = (o2, True)" "out = o1 @ o2"
    using 4(3) o1 by (cases "walks objs rel cs") (auto split: if_splits)
  show ?case
    using 4(1) [OF o1, of x] 4(2) [OF o2(1), of x] 4(4) unfolding o2(2) by (intro covers_append) auto
qed simp

lemma walk_sound:
  "q \<in> set (fst (walk objs rel t)) \<Longrightarrow> \<exists>d. (q, d) \<in> set (entries rel t) \<and> \<not> accounted objs q d"
  "q \<in> set (fst (walks objs rel cs)) \<Longrightarrow> \<exists>d. (q, d) \<in> set (entries_of rel cs) \<and> \<not> accounted objs q d"
proof (induction rel t and rel cs rule: entries_entries_of.induct)
  case (4 rel name t cs)
  then show ?case by (fastforce simp: split_beta Let_def split: if_splits)
qed (auto simp: visit_out split_beta Let_def split: if_splits)

text \<open>
  Nothing in the data root goes unnoticed: when the walk ends without an error, every entry of
  the tree is the root, the ledger, an open object or inside one, a directory of the fixed
  structure or on the way to an open object, or it is reported or lies below a reported entry. What
  is reported is in the tree and is none of these, and it is sorted.
\<close>

theorem unaccounted_complete:
  assumes "Unaccounted v t = (out, True)"
  shows "(\<forall>(p, d) \<in> set (entries dot t). accounted (open_paths v) p d \<or> (\<exists>q \<in> set out. within_path q p)) \<and>
    (\<forall>q \<in> set out. \<exists>d. (q, d) \<in> set (entries dot t) \<and> \<not> accounted (open_paths v) q d) \<and> sorted out"
proof -
  obtain o1 where w: "walk (open_paths v) dot t = (o1, True)" "out = sort o1"
    using assms by (auto simp: Unaccounted_def split: prod.splits)
  have "accounted (open_paths v) p d \<or> (\<exists>q \<in> set out. within_path q p)" if "(p, d) \<in> set (entries dot t)" for p d
    using walk_complete(1) [OF w(1) that] w(2) by (simp add: covers_def)
  moreover have "\<exists>d. (q, d) \<in> set (entries dot t) \<and> \<not> accounted (open_paths v) q d" if "q \<in> set out" for q
    using walk_sound(1) [of q "open_paths v" dot t] w that by simp
  ultimately show ?thesis using w(2) by auto
qed

definition sample_tree :: node where
  "sample_tree = Directory True
     [(lit ''volumes'', Directory True [(lit ''a'', Directory True [(lit ''x'', Leaf)]), (lit ''b'', Leaf)]),
      (lit ''ledger.jsonl'', Leaf), (lit ''stray'', Directory True [(lit ''y'', Leaf)])]"

definition sample_venue :: venue where
  "sample_venue = (empty_venue (lit ''/srv''))\<lparr>v_objs := [(lit ''volume/a'',
     \<lparr>ob_Kind = KindVolume, ob_Class = ClassAttempt, ob_ID = lit ''a'', ob_Path = lit ''volumes/a'',
      ob_Last = OpCreated, ob_Created = 1\<rparr>)]\<rparr>"

theorem unaccounted_complete_witness:
  "Unaccounted sample_venue sample_tree = ([lit ''stray'', lit ''volumes/b''], True) \<and>
   (\<exists>q \<in> {lit ''stray'', lit ''volumes/b''}. within_path q (lit ''stray/y''))"
proof -
  have u: "Unaccounted sample_venue sample_tree = ([lit ''stray'', lit ''volumes/b''], True)" by code_simp
  have "(lit ''stray/y'', False) \<in> set (entries dot sample_tree)" by code_simp
  moreover have "\<not> accounted (open_paths sample_venue) (lit ''stray/y'') False" by code_simp
  ultimately show ?thesis using unaccounted_complete [OF u] u by fastforce
qed

end
