(* ===== verification/Cache.thy ===== *)
theory Cache
  imports Venue "HOL-Library.Multiset"
begin

text \<open>
  \<open>internal/cache/cache.go\<close>, the budgets of the data root and the plan that brings each within its
  bound, and \<open>internal/manager/caches.go\<close>, which decides what may not be evicted and carries a plan
  out. Sizes are \<open>int64\<close> and wrap as they do in Go. The size of an object's tree is an argument of
  the manager's pass, as is what it reads of a result's publication. The texts of errors in its report are left out.
\<close>

subsection \<open>Budgets\<close>

abbreviation cacheGiB :: int where "cacheGiB \<equiv> 1073741824"

record budget =
  bu_Name :: bytes
  bu_Prefix :: bytes
  bu_Bytes :: int
  bu_Evict :: bool
  bu_Class :: bytes
  bu_KeepWhileLive :: bool

definition cache_budget :: "string \<Rightarrow> string \<Rightarrow> int \<Rightarrow> bool \<Rightarrow> budget" where
  "cache_budget name prefix n evict = \<lparr>bu_Name = lit name, bu_Prefix = lit prefix, bu_Bytes = n, bu_Evict = evict,
     bu_Class = ClassCache, bu_KeepWhileLive = False\<rparr>"

definition Budgets :: "budget list" where
  "Budgets =
     [cache_budget ''kernels'' ''kernels/'' (1 * cacheGiB) True,
      cache_budget ''bases'' ''bases/'' (8 * cacheGiB) True,
      cache_budget ''image-store'' ''store'' (16 * cacheGiB) True,
      cache_budget ''mirrors'' ''mirrors/'' (16 * cacheGiB) True,
      cache_budget ''downloads'' ''downloads/'' (4 * cacheGiB) True,
      (cache_budget ''goproxy'' ''goproxy'' (8 * cacheGiB) True)\<lparr>bu_KeepWhileLive := True\<rparr>,
      (cache_budget ''attempt-records'' ''attempts/'' (4 * cacheGiB) True)\<lparr>bu_Class := ClassAttempt\<rparr>,
      cache_budget ''manager'' ''manager'' (1 * cacheGiB) False,
      cache_budget ''tmp'' ''tmp'' (4 * cacheGiB) False,
      cache_budget ''keys'' ''keys'' 1048576 False]"

definition budget_covers :: "budget \<Rightarrow> obj \<Rightarrow> bool" where
  "budget_covers b ob \<longleftrightarrow> ob_Class ob = bu_Class b \<and>
     (let p = Clean (ob_Path ob) in
      if bu_Prefix b \<noteq> [] \<and> last (bu_Prefix b) = slash then has_prefix p (bu_Prefix b) else p = bu_Prefix b)"

definition BudgetFor :: "budget list \<Rightarrow> obj \<Rightarrow> budget option" where
  "BudgetFor budgets ob = List.find (\<lambda>b. budget_covers b ob) budgets"

record item =
  it_Object :: obj
  it_Size :: int
  it_Keep :: bytes

record eviction =
  ev_Budget :: bytes
  ev_Object :: obj
  ev_Size :: int

definition eviction_note :: "eviction \<Rightarrow> bytes" where
  "eviction_note e = lit ''evicted: budget '' @ ev_Budget e @ lit '', oldest first, '' @ itoa (ev_Size e) @ lit '' bytes''"

record usage =
  us_Budget :: budget
  us_Bytes :: int
  us_Items :: "item list"
  us_Over :: int

subsection \<open>The plan\<close>

fun evict_loop :: "budget \<Rightarrow> item list \<Rightarrow> int \<Rightarrow> eviction list \<times> int" where
  "evict_loop b [] left = ([], left)"
| "evict_loop b (x # xs) left =
     (if left \<le> bu_Bytes b then ([], left)
      else if it_Keep x \<noteq> [] then evict_loop b xs left
      else let (evs, left) = evict_loop b xs (i64 (left - it_Size x))
           in (\<lparr>ev_Budget = bu_Name b, ev_Object = it_Object x, ev_Size = it_Size x\<rparr> # evs, left))"

definition total_size :: "item list \<Rightarrow> int" where
  "total_size xs = fold (\<lambda>x n. i64 (n + it_Size x)) xs 0"

definition plan_budget :: "budget \<Rightarrow> item list \<Rightarrow> usage \<times> eviction list" where
  "plan_budget b items =
     (let mine = filter (\<lambda>x. budget_covers b (it_Object x)) items;
          total = total_size mine;
          mine = sort_key (\<lambda>x. ob_Created (it_Object x)) mine;
          (evs, left) = (if bu_Evict b then evict_loop b mine total else ([], total))
      in (\<lparr>us_Budget = b, us_Bytes = total, us_Items = mine,
           us_Over = (if bu_Bytes b < left then i64 (left - bu_Bytes b) else 0)\<rparr>, evs))"

definition Plan :: "budget list \<Rightarrow> item list \<Rightarrow> usage list \<times> eviction list \<times> item list" where
  "Plan budgets items =
     (map (\<lambda>b. fst (plan_budget b items)) budgets,
      concat (map (\<lambda>b. snd (plan_budget b items)) budgets),
      filter (\<lambda>x. \<not> list_ex (\<lambda>b. budget_covers b (it_Object x)) budgets \<and> ob_Class (it_Object x) = ClassCache) items)"

definition Contains :: "obj \<Rightarrow> obj list \<Rightarrow> bool" where
  "Contains ob objs =
     (let p = Clean (ob_Path ob) in
      p \<noteq> [] \<and> p \<noteq> dot \<and>
      list_ex (\<lambda>x. \<not> (ob_Kind x = ob_Kind ob \<and> ob_ID x = ob_ID ob) \<and> has_prefix (Clean (ob_Path x)) (p @ [slash])) objs)"

subsection \<open>The manager's pass\<close>

record attempt =
  at_State :: bytes
  at_terminalCleanup :: bool
  at_ClosureRequired :: bool
  at_ClosureState :: bytes
  at_ClosureIntent :: bool
  at_ClosureError :: bytes
  at_ClosureObservationDeadline :: int
  at_closureSaved :: bool
  at_PublicationIntent :: bool
  at_PublicationState :: bytes
  at_completionSaved :: bool

definition attempt_terminal :: "attempt \<Rightarrow> bool" where
  "attempt_terminal e \<longleftrightarrow> at_State e \<in> {lit ''exited'', lit ''stopped'', lit ''failed'', lit ''lost'', lit ''timed-out''}"

definition validUnavailableClosure :: "attempt \<Rightarrow> bool" where
  "validUnavailableClosure e \<longleftrightarrow> at_ClosureRequired e \<and> attempt_terminal e \<and> at_ClosureState e = lit ''unavailable'' \<and>
     \<not> at_ClosureIntent e \<and> at_ClosureError e \<noteq> [] \<and> at_ClosureObservationDeadline e \<noteq> 0"

text \<open>What reading an attempt's closure and publication answers: whether each is there.\<close>

record evidence =
  evd_closure :: bool
  evd_publication :: bool

definition resultDisposable :: "evidence \<Rightarrow> attempt \<Rightarrow> bool" where
  "resultDisposable r e \<longleftrightarrow> attempt_terminal e \<and>
     (at_ClosureRequired e \<longrightarrow> (if validUnavailableClosure e then at_closureSaved e else evd_closure r)) \<and>
     (at_PublicationIntent e \<longrightarrow> at_completionSaved e \<and> at_PublicationState e = lit ''published'') \<and> evd_publication r"

record manager =
  mg_entries :: "(bytes \<times> attempt) list"
  mg_budgets :: "budget list"
  mg_pinned :: "bytes list"  \<comment> \<open>the pinned paths inside the root, relative to it\<close>

text \<open>The calls of a pass: tree sizes, what is read of a result, removals, writes and the table's save.\<close>

record pass_calls =
  ps_size :: "obj \<Rightarrow> int option"
  ps_evidence :: "bytes \<Rightarrow> evidence"
  ps_lstat :: "bytes \<Rightarrow> lstat_result"
  ps_remove :: "bytes \<Rightarrow> bool"
  ps_now :: int
  ps_write :: "bytes \<Rightarrow> ledger_write"
  ps_save :: bool

definition keepWhileLive :: "budget list \<Rightarrow> obj \<Rightarrow> bool" where
  "keepWhileLive budgets ob = (case BudgetFor budgets ob of None \<Rightarrow> False | Some b \<Rightarrow> bu_KeepWhileLive b)"

definition isPinned :: "bytes \<Rightarrow> bytes list \<Rightarrow> bool" where
  "isPinned objPath pinned =
     (let p = Clean objPath in list_ex (\<lambda>q. Clean q = p \<or> has_prefix (Clean q) (p @ [slash])) pinned)"

definition attempt_prefix :: bytes where
  "attempt_prefix = lit ''attempt-''"

definition is_record :: "obj \<Rightarrow> bool" where
  "is_record ob \<longleftrightarrow> ob_Class ob = ClassAttempt \<and> ob_Kind ob = KindVolume \<and> has_prefix (ob_ID ob) attempt_prefix"

definition attempt_of :: "obj \<Rightarrow> bytes" where
  "attempt_of ob = drop (length attempt_prefix) (ob_ID ob)"

definition keep_reason :: "pass_calls \<Rightarrow> manager \<Rightarrow> obj list \<Rightarrow> obj \<Rightarrow> bytes" where
  "keep_reason pc m objs ob =
     (if is_record ob then
        (case map_of (mg_entries m) (attempt_of ob) of
           None \<Rightarrow> lit ''not in the attempt table''
         | Some e \<Rightarrow>
             if \<not> attempt_terminal e then lit ''attempt is live''
             else if \<not> resultDisposable (ps_evidence pc (attempt_of ob)) e then lit ''unresolved result publication''
             else [])
      else if Contains ob objs then lit ''holds an open object''
      else if isPinned (ob_Path ob) (mg_pinned m) then lit ''pinned by the running configuration''
      else if list_ex (\<lambda>(_, e). \<not> attempt_terminal e) (mg_entries m) \<and> keepWhileLive (mg_budgets m) ob
      then lit ''serves live attempts''
      else [])"

text \<open>The objects of a pass that are sized; an object whose size cannot be read is left out.\<close>

fun pass_items :: "pass_calls \<Rightarrow> manager \<Rightarrow> obj list \<Rightarrow> obj list \<Rightarrow> item list" where
  "pass_items pc m objs [] = []"
| "pass_items pc m objs (ob # rest) =
     (if ob_Path ob = [] \<or> (ob_Class ob \<noteq> ClassCache \<and> \<not> is_record ob) then pass_items pc m objs rest
      else case ps_size pc ob of
        None \<Rightarrow> pass_items pc m objs rest
      | Some n \<Rightarrow> \<lparr>it_Object = ob, it_Size = n, it_Keep = keep_reason pc m objs ob\<rparr> # pass_items pc m objs rest)"

datatype pass_error = NoAttempt | AttemptLive | CleanupPending | EvidenceRetained | VenueError venue_error | TableNotSaved

text \<open>\<open>removeLocked\<close>; None when the venue's removal does not return.\<close>

definition removeLocked :: "(entry \<Rightarrow> nat) \<Rightarrow> pass_calls \<Rightarrow> bytes \<Rightarrow> bytes \<Rightarrow> manager \<Rightarrow> venue \<Rightarrow> ledger \<Rightarrow>
    ((pass_error + unit) \<times> manager \<times> venue \<times> ledger) option" where
  "removeLocked len pc i note m v l =
     (case map_of (mg_entries m) i of
        None \<Rightarrow> Some (Inl NoAttempt, m, v, l)
      | Some e \<Rightarrow>
          if \<not> attempt_terminal e then Some (Inl AttemptLive, m, v, l)
          else if at_terminalCleanup e \<or> IsOpen KindVM i v then Some (Inl CleanupPending, m, v, l)
          else if \<not> resultDisposable (ps_evidence pc i) e then Some (Inl EvidenceRetained, m, v, l)
          else
            let m' = m\<lparr>mg_entries := del i (mg_entries m)\<rparr>;
                saved = (if ps_save pc then Inr () else Inl TableNotSaved);
                x = attempt_prefix @ i in
            if IsOpen KindVolume x v then
              (case teardownNoteWith len (ps_lstat pc) (ps_remove pc) KindVolume x note (ps_now pc) (ps_write pc x) v l of
                 None \<Rightarrow> None
               | Some (Inl e, v, l) \<Rightarrow> Some (Inl (VenueError e), m, v, l)
               | Some (Inr _, v, l) \<Rightarrow> Some (saved, m', v, l))
            else Some (saved, m', v, l))"

fun carry_out :: "(entry \<Rightarrow> nat) \<Rightarrow> pass_calls \<Rightarrow> eviction list \<Rightarrow> manager \<Rightarrow> venue \<Rightarrow> ledger \<Rightarrow>
    (eviction list \<times> manager \<times> venue \<times> ledger) option" where
  "carry_out len pc [] m v l = Some ([], m, v, l)"
| "carry_out len pc (ev # evs) m v l =
     (let ob = ev_Object ev;
          r = (if has_prefix (ob_ID ob) attempt_prefix \<and> ob_Class ob = ClassAttempt
               then removeLocked len pc (attempt_of ob) (eviction_note ev) m v l
               else (case teardownNoteWith len (ps_lstat pc) (ps_remove pc) (ob_Kind ob) (ob_ID ob) (eviction_note ev)
                        (ps_now pc) (ps_write pc (ob_ID ob)) v l of
                       None \<Rightarrow> None
                     | Some (Inl e, v, l) \<Rightarrow> Some (Inl (VenueError e), m, v, l)
                     | Some (Inr _, v, l) \<Rightarrow> Some (Inr (), m, v, l)))
      in case r of
           None \<Rightarrow> None
         | Some (Inl _, m, v, l) \<Rightarrow> carry_out len pc evs m v l
         | Some (Inr _, m, v, l) \<Rightarrow>
             (case carry_out len pc evs m v l of None \<Rightarrow> None | Some (evicted, s) \<Rightarrow> Some (ev # evicted, s)))"

record cache_report =
  rep_Usage :: "usage list"
  rep_Planned :: "eviction list"
  rep_Evicted :: "eviction list"
  rep_Unbudgeted :: "item list"

definition cachesLocked :: "(entry \<Rightarrow> nat) \<Rightarrow> pass_calls \<Rightarrow> bool \<Rightarrow> manager \<Rightarrow> venue \<Rightarrow> ledger \<Rightarrow>
    (cache_report \<times> manager \<times> venue \<times> ledger) option" where
  "cachesLocked len pc apply_it m v l =
     (let objs = OpenObjects v;
          (usage, plan, unbudgeted) = Plan (mg_budgets m) (pass_items pc m objs objs);
          rep = \<lparr>rep_Usage = usage, rep_Planned = plan, rep_Evicted = [], rep_Unbudgeted = unbudgeted\<rparr>
      in if \<not> apply_it then Some (rep, m, v, l)
         else (case carry_out len pc plan m v l of
                 None \<Rightarrow> None
               | Some (evicted, m, v, l) \<Rightarrow> Some (rep\<lparr>rep_Evicted := evicted\<rparr>, m, v, l)))"

subsection \<open>What a plan evicts\<close>

text \<open>Sizes as file systems report them: not negative, and summing to an \<open>int64\<close>.\<close>

definition sizes_ok :: "item list \<Rightarrow> bool" where
  "sizes_ok xs \<longleftrightarrow> list_all (\<lambda>x. 0 \<le> it_Size x) xs \<and> sum_list (map it_Size xs) \<le> max_int64"

abbreviation evictable :: "item list \<Rightarrow> item list" where
  "evictable xs \<equiv> filter (\<lambda>x. it_Keep x = []) xs"

definition evictions_of :: "budget \<Rightarrow> item list \<Rightarrow> eviction list" where
  "evictions_of b xs = map (\<lambda>x. \<lparr>ev_Budget = bu_Name b, ev_Object = it_Object x, ev_Size = it_Size x\<rparr>) (evictable xs)"

lemma sizes_nonneg: "list_all (\<lambda>x. 0 \<le> it_Size x) xs \<Longrightarrow> 0 \<le> sum_list (map it_Size xs)"
  by (induction xs) auto

lemma total_size_exact:
  assumes "sizes_ok xs"
  shows "total_size xs = sum_list (map it_Size xs)"
proof -
  have "list_all (\<lambda>x. 0 \<le> it_Size x) xs \<Longrightarrow> 0 \<le> n \<Longrightarrow> n + sum_list (map it_Size xs) \<le> max_int64 \<Longrightarrow>
      fold (\<lambda>x n. i64 (n + it_Size x)) xs n = n + sum_list (map it_Size xs)" for n
  proof (induction xs arbitrary: n)
    case (Cons x xs)
    then have "i64 (n + it_Size x) = n + it_Size x"
      using sizes_nonneg [of xs] by (intro i64_id) (auto simp: in_i64_def)
    then show ?case using Cons by simp
  qed simp
  from this [of 0] assms show ?thesis by (simp add: total_size_def sizes_ok_def)
qed

text \<open>The loop evicts what is evictable of \<open>ys\<close> and does not come to \<open>zs\<close>.\<close>

definition evict_split :: "budget \<Rightarrow> item list \<Rightarrow> int \<Rightarrow> item list \<Rightarrow> item list \<Rightarrow> bool" where
  "evict_split b xs left ys zs \<longleftrightarrow> xs = ys @ zs \<and> fst (evict_loop b xs left) = evictions_of b ys \<and>
     snd (evict_loop b xs left) = left - sum_list (map ev_Size (evictions_of b ys)) \<and>
     0 \<le> snd (evict_loop b xs left) \<and> snd (evict_loop b xs left) \<le> max_int64 \<and>
     (zs \<noteq> [] \<longrightarrow> snd (evict_loop b xs left) \<le> bu_Bytes b) \<and>
     (evictions_of b ys \<noteq> [] \<longrightarrow> bu_Bytes b < left - sum_list (map ev_Size (butlast (evictions_of b ys))))"

lemma evict_loop_spec:
  assumes "list_all (\<lambda>x. 0 \<le> it_Size x) xs" and "sum_list (map it_Size xs) \<le> left" and "left \<le> max_int64"
  shows "\<exists>ys zs. evict_split b xs left ys zs"
  using assms
proof (induction xs arbitrary: left)
  case Nil
  then show ?case by (simp add: evict_split_def evictions_of_def)
next
  case (Cons x xs)
  note pos = sizes_nonneg [of xs] Cons.prems
  have ps: "list_all (\<lambda>x. 0 \<le> it_Size x) xs" using pos by simp
  consider "left \<le> bu_Bytes b" | "bu_Bytes b < left" "it_Keep x \<noteq> []" | "bu_Bytes b < left" "it_Keep x = []"
    by (cases "left \<le> bu_Bytes b"; cases "it_Keep x = []") auto
  then show ?case
  proof cases
    case 1
    then have "evict_split b (x # xs) left [] (x # xs)" using pos by (simp add: evict_split_def evictions_of_def)
    then show ?thesis by blast
  next
    case 2
    obtain ys zs where "evict_split b xs left ys zs" using Cons.IH [OF ps] pos by fastforce
    then have "evict_split b (x # xs) left (x # ys) zs" using 2 by (auto simp: evict_split_def evictions_of_def)
    then show ?thesis by blast
  next
    case 3
    define left' where "left' = left - it_Size x"
    have e: "i64 (left - it_Size x) = left'" unfolding left'_def using pos by (intro i64_id) (auto simp: in_i64_def)
    obtain ys zs where ih: "evict_split b xs left' ys zs"
      using Cons.IH [OF ps, of left'] pos by (auto simp: left'_def)
    have "evict_split b (x # xs) left (x # ys) zs"
      using 3 ih by (auto simp: evict_split_def evictions_of_def e split_beta left'_def)
    then show ?thesis by blast
  qed
qed

lemma sum_filter_le: "list_all (\<lambda>x. 0 \<le> it_Size x) xs \<Longrightarrow> sum_list (map it_Size (filter P xs)) \<le> sum_list (map it_Size xs)"
  by (induction xs) auto

lemma sizes_ok_filter: "sizes_ok xs \<Longrightarrow> sizes_ok (filter P xs)"
  using sum_filter_le [of xs P] by (auto simp: sizes_ok_def list_all_iff)

text \<open>
  C33. A plan evicts oldest first, no more than needed and never what is kept: for an enforced budget
  the evictions are the evictable items of a prefix of the budget's items in order of creation; with
  them the budget is met, or everything that is left is kept and \<open>Over\<close> is the excess; and without
  the last of them it would not be met. No sum wraps.
\<close>

theorem plan_oldest_first_and_no_more:
  assumes "sizes_ok items" and "bu_Evict b" and "plan_budget b items = (u, evs)" and "0 \<le> bu_Bytes b"
  shows "\<exists>ys zs. us_Items u = ys @ zs \<and> sorted (map (\<lambda>x. ob_Created (it_Object x)) (us_Items u)) \<and>
    mset (us_Items u) = mset (filter (\<lambda>x. budget_covers b (it_Object x)) items) \<and>
    evs = evictions_of b ys \<and> us_Bytes u = sum_list (map it_Size (us_Items u)) \<and>
    us_Over u = max 0 (us_Bytes u - sum_list (map ev_Size evs) - bu_Bytes b) \<and>
    (0 < us_Over u \<longrightarrow> zs = []) \<and>
    (evs \<noteq> [] \<longrightarrow> bu_Bytes b < us_Bytes u - sum_list (map ev_Size (butlast evs)))"
proof -
  define fs where "fs = filter (\<lambda>x. budget_covers b (it_Object x)) items"
  define xs where "xs = sort_key (\<lambda>x. ob_Created (it_Object x)) fs"
  have ok: "sizes_ok fs" unfolding fs_def using assms(1) by (rule sizes_ok_filter)
  have m: "mset xs = mset fs" by (simp add: xs_def)
  then have sum: "sum_list (map it_Size xs) = sum_list (map it_Size fs)"
    by (metis mset_map sum_mset_sum_list)
  have pos: "list_all (\<lambda>x. 0 \<le> it_Size x) xs" using ok by (simp add: sizes_ok_def xs_def list_all_iff)
  have u: "us_Items u = xs" "us_Bytes u = sum_list (map it_Size xs)" "evs = fst (evict_loop b xs (us_Bytes u))"
      "us_Over u = (if bu_Bytes b < snd (evict_loop b xs (us_Bytes u)) then i64 (snd (evict_loop b xs (us_Bytes u)) - bu_Bytes b) else 0)"
    using assms(2,3) total_size_exact [OF ok] sum
    by (auto simp: plan_budget_def Let_def fs_def [symmetric] xs_def [symmetric] split_beta)
  have "sum_list (map it_Size xs) \<le> us_Bytes u" "us_Bytes u \<le> max_int64"
    using ok sum u(2) by (simp_all add: sizes_ok_def)
  from evict_loop_spec [OF pos this, of b] obtain ys zs where "evict_split b xs (us_Bytes u) ys zs" by blast
  note l = this [unfolded evict_split_def, folded u(3)]
  have ev: "evs = evictions_of b ys" using l by simp
  have "us_Over u = max 0 (us_Bytes u - sum_list (map ev_Size evs) - bu_Bytes b)"
    using u(4) l ev assms(4) i64_id [of "snd (evict_loop b xs (us_Bytes u)) - bu_Bytes b"]
    by (auto simp: in_i64_def)
  moreover have "sorted (map (\<lambda>x. ob_Created (it_Object x)) xs)" by (simp add: xs_def)
  ultimately show ?thesis
    using l ev m [unfolded fs_def] u(2) unfolding u(1)
    by - (rule exI [of _ ys], rule exI [of _ zs], auto)
qed

subsection \<open>What a pass evicts\<close>

lemma evict_loop_from: "ev \<in> set (fst (evict_loop b xs left)) \<Longrightarrow> \<exists>x \<in> set xs. it_Keep x = [] \<and> ev_Object ev = it_Object x"
  by (induction b xs left rule: evict_loop.induct) (auto simp: split_beta split: if_splits)

lemma plan_from:
  assumes "ev \<in> set (fst (snd (Plan budgets items)))"
  shows "\<exists>x \<in> set items. it_Keep x = [] \<and> ev_Object ev = it_Object x \<and>
    (\<exists>b \<in> set budgets. bu_Evict b \<and> budget_covers b (it_Object x))"
proof -
  obtain b where b: "b \<in> set budgets" "ev \<in> set (snd (plan_budget b items))"
    using assms by (auto simp: Plan_def)
  then have "bu_Evict b" and "ev \<in> set (fst (evict_loop b (sort_key (\<lambda>x. ob_Created (it_Object x))
      (filter (\<lambda>x. budget_covers b (it_Object x)) items)) (total_size (filter (\<lambda>x. budget_covers b (it_Object x)) items))))"
    by (auto simp: plan_budget_def Let_def split_beta split: if_splits)
  from this(1) evict_loop_from [OF this(2)] b(1) show ?thesis by auto
qed

lemma pass_items_from:
  assumes "x \<in> set (pass_items pc m objs rest)"
  shows "it_Object x \<in> set rest \<and> ob_Path (it_Object x) \<noteq> [] \<and>
    (ob_Class (it_Object x) = ClassCache \<or> is_record (it_Object x)) \<and> it_Keep x = keep_reason pc m objs (it_Object x)"
  using assms by (induction pc m objs rest rule: pass_items.induct) (auto split: if_splits option.splits)

lemma lit_Nil [simp]: "lit s = [] \<longleftrightarrow> s = []"
  by (simp add: lit_def)

text \<open>An object that is in use: its attempt is not settled, or it holds, backs or serves something.\<close>

definition in_use :: "pass_calls \<Rightarrow> manager \<Rightarrow> obj list \<Rightarrow> obj \<Rightarrow> bool" where
  "in_use pc m objs ob \<longleftrightarrow>
     (if is_record ob
      then \<not> (\<exists>e. map_of (mg_entries m) (attempt_of ob) = Some e \<and> resultDisposable (ps_evidence pc (attempt_of ob)) e)
      else Contains ob objs \<or> isPinned (ob_Path ob) (mg_pinned m) \<or>
        (\<exists>(i, e) \<in> set (mg_entries m). \<not> attempt_terminal e) \<and> keepWhileLive (mg_budgets m) ob)"

lemma keep_reason_in_use: "keep_reason pc m objs ob = [] \<longleftrightarrow> \<not> in_use pc m objs ob"
  by (auto simp: keep_reason_def in_use_def resultDisposable_def list_ex_iff split: option.split if_splits)

lemma carry_out_planned: "carry_out len pc evs m v l = Some (evicted, s) \<Longrightarrow> set evicted \<subseteq> set evs"
proof (induction len pc evs m v l arbitrary: evicted s rule: carry_out.induct)
  case (2 len pc ev evs m v l)
  then show ?case by (auto simp: Let_def split: option.splits sum.splits prod.splits if_splits; blast)
qed simp

text \<open>
  C32. An eviction pass spares what is in use: whatever it plans to evict is an open object with data,
  covered by an enforced budget, and not in use: a record only of an attempt in the table that has
  ended and whose result is published and closed as required; otherwise a cache object that holds no
  other open object, that the running configuration does not pin, and that serves no live attempt.
  Only planned objects are evicted.
\<close>

theorem pass_spares_objects_in_use:
  assumes "cachesLocked len pc apply_it m v l = Some (rep, m', v', l')" and "ev \<in> set (rep_Planned rep)"
  shows "ev_Object ev \<in> set (OpenObjects v) \<and> ob_Path (ev_Object ev) \<noteq> [] \<and>
    \<not> in_use pc m (OpenObjects v) (ev_Object ev) \<and>
    (\<exists>b \<in> set (mg_budgets m). bu_Evict b \<and> budget_covers b (ev_Object ev)) \<and>
    set (rep_Evicted rep) \<subseteq> set (rep_Planned rep)"
proof -
  let ?objs = "OpenObjects v"
  have p: "rep_Planned rep = fst (snd (Plan (mg_budgets m) (pass_items pc m ?objs ?objs)))"
    and e: "set (rep_Evicted rep) \<subseteq> set (rep_Planned rep)"
    using assms(1) carry_out_planned
    by (auto simp: cachesLocked_def Let_def split: prod.splits if_splits option.splits; blast)+
  obtain x where "x \<in> set (pass_items pc m ?objs ?objs)" "it_Keep x = []" "ev_Object ev = it_Object x"
      "\<exists>b \<in> set (mg_budgets m). bu_Evict b \<and> budget_covers b (it_Object x)"
    using plan_from assms(2) p by metis
  then show ?thesis using pass_items_from [of x pc m ?objs ?objs] e by (simp add: keep_reason_in_use)
qed

subsection \<open>A concrete pass\<close>

definition sample_obj :: "string \<Rightarrow> int \<Rightarrow> obj" where
  "sample_obj i t = \<lparr>ob_Kind = KindImage, ob_Class = ClassCache, ob_ID = lit i, ob_Path = lit (''bases/'' @ i),
     ob_Last = OpCreated, ob_Created = t\<rparr>"

definition sample_items :: "item list" where
  "sample_items = [\<lparr>it_Object = sample_obj ''b'' 2, it_Size = 60, it_Keep = []\<rparr>,
     \<lparr>it_Object = sample_obj ''a'' 1, it_Size = 50, it_Keep = []\<rparr>,
     \<lparr>it_Object = sample_obj ''c'' 3, it_Size = 40, it_Keep = []\<rparr>]"

definition sample_budget :: budget where
  "sample_budget = cache_budget ''bases'' ''bases/'' 100 True"

theorem plan_oldest_first_and_no_more_witness:
  "\<exists>u evs. plan_budget sample_budget sample_items = (u, evs) \<and> map ev_Object evs = [sample_obj ''a'' 1] \<and>
     100 < us_Bytes u - sum_list (map ev_Size (butlast evs))"
proof -
  obtain u evs where p: "plan_budget sample_budget sample_items = (u, evs)" by fastforce
  have e: "map ev_Object (snd (plan_budget sample_budget sample_items)) = [sample_obj ''a'' 1]" by code_simp
  have s: "sizes_ok sample_items" by (simp add: sizes_ok_def sample_items_def)
  have "bu_Evict sample_budget" "0 \<le> bu_Bytes sample_budget" "bu_Bytes sample_budget = 100"
    by (simp_all add: sample_budget_def cache_budget_def)
  then show ?thesis using plan_oldest_first_and_no_more [OF s _ p] p e by auto
qed

definition sample_manager :: manager where
  "sample_manager = \<lparr>mg_entries = [], mg_budgets = [sample_budget], mg_pinned = [lit ''bases/b'']\<rparr>"

definition sample_pass :: pass_calls where
  "sample_pass = \<lparr>ps_size = \<lambda>_. Some 80, ps_evidence = \<lambda>_. \<lparr>evd_closure = True, evd_publication = True\<rparr>,
     ps_lstat = \<lambda>_. Present, ps_remove = \<lambda>_. True, ps_now = 9, ps_write = \<lambda>_. Written, ps_save = True\<rparr>"

definition sample_root_venue :: venue where
  "sample_root_venue = (empty_venue (lit ''/srv''))\<lparr>v_objs :=
     [(lit ''image/b'', sample_obj ''b'' 1), (lit ''image/a'', sample_obj ''a'' 2)]\<rparr>"

theorem pass_spares_objects_in_use_witness:
  "\<exists>rep. cachesLocked (\<lambda>_. 100) sample_pass False sample_manager sample_root_venue \<lparr>lg_lines = [], lg_tail = None\<rparr> =
       Some (rep, sample_manager, sample_root_venue, \<lparr>lg_lines = [], lg_tail = None\<rparr>) \<and>
     map ev_Object (rep_Planned rep) = [sample_obj ''a'' 2] \<and>
     \<not> in_use sample_pass sample_manager (OpenObjects sample_root_venue) (sample_obj ''a'' 2)"
proof -
  let ?l = "\<lparr>lg_lines = [], lg_tail = None\<rparr>"
  let ?c = "cachesLocked (\<lambda>_. 100) sample_pass False sample_manager sample_root_venue ?l"
  obtain rep where c: "?c = Some (rep, sample_manager, sample_root_venue, ?l)"
    by (simp add: cachesLocked_def Let_def split_beta)
  have "map_option (\<lambda>r. map ev_Object (rep_Planned (fst r))) ?c = Some [sample_obj ''a'' 2]" by code_simp
  then have p: "map ev_Object (rep_Planned rep) = [sample_obj ''a'' 2]" by (simp add: c)
  then obtain ev where "ev \<in> set (rep_Planned rep)" "ev_Object ev = sample_obj ''a'' 2" by (cases "rep_Planned rep") auto
  then show ?thesis using pass_spares_objects_in_use [OF c] c p by metis
qed

end
