(* ===== verification/Broker.thy ===== *)
theory Broker
  imports AgentRuns
begin

text \<open>
  \<open>internal/agentenv/broker.go\<close> and \<open>ReplyController\<close> of \<open>controller.go\<close>: the handlers that stand
  between a session's callers, its store and the actor. A handler is a program whose steps are the
  store's operations and snapshots, accesses of the broker's fields under its lock, and calls of the
  actor; between two steps any other handler may run. What the actor answers, in its decoded form,
  is the argument of what follows a call. HTTP decoding, the session view and the workspace export
  are not modelled.
\<close>

subsection \<open>Programs\<close>

record full_broker = broker +
  br_pending :: "(bytes \<times> bytes \<times> bytes) list"  \<comment> \<open>a permission's key, its method and native identity\<close>
  br_authenticated :: bool
  br_loginPending :: bool
  br_negotiatedCodex :: bool

definition NewBroker :: "bytes \<Rightarrow> full_broker" where
  "NewBroker inc = \<lparr>br_incarnation = inc, br_actor = False, br_resumeFailure = False, br_controllerReady = False,
     br_controllerPending = [], br_pending = [], br_authenticated = False, br_loginPending = False, br_negotiatedCodex = False\<rparr>"

text \<open>What the actor is asked; the first argument of a dispatched request is the identity it is made for.\<close>

datatype actor_request =
    AskInitialize bool
  | NotifyInitialized
  | AskAccount
  | AskThreadStart bytes "bytes list"
  | AskTurnStart bytes bytes bytes
  | AskThreadResume bytes bytes
  | AskLogin bytes
  | AskLoginComplete bytes bytes bytes
  | AskInterrupt bytes bytes bytes
  | AnswerPermission bytes bytes bytes
  | AnswerController bytes controller_reply

text \<open>An answer, as each use of it decodes it.\<close>

record actor_reply =
  rp_thread :: "thread_response option"
  rp_turns :: "(bytes \<times> (bytes \<times> bytes) list) option"
  rp_turn :: "bytes option"
  rp_account :: "bool option"
  rp_userAgent :: "bytes option"

datatype hresult =
    HFail agent_error
  | HOperation "operation option"
  | HUnknown "operation option"
  | HControl nat "agent_control option"
  | HUnsupported
  | HRequest "controller_request option"
  | HBound continuation_binding
  | HDone

datatype prog =
    Return hresult
  | Snapshot_step "agent_state \<Rightarrow> prog"
  | Lookup "agent_store \<Rightarrow> prog"
  | Perform store_op "agent_error + bytes option \<Rightarrow> agent_store \<Rightarrow> agent_state \<Rightarrow> prog"
  | Ask actor_request "actor_reply option \<Rightarrow> prog"
  | Fields "full_broker \<Rightarrow> full_broker" "full_broker \<Rightarrow> prog"
  | Lock prog
  | Unlock prog

abbreviation look :: "(full_broker \<Rightarrow> prog) \<Rightarrow> prog" where
  "look f \<equiv> Fields (\<lambda>b. b) f"

abbreviation unlocked :: "hresult \<Rightarrow> prog" where
  "unlocked r \<equiv> Unlock (Return r)"

subsection \<open>Handlers\<close>

text \<open>\<open>Initialize\<close>; \<open>described\<close> is what an adapter that describes itself reports.\<close>

definition initialized :: "bool \<Rightarrow> prog" where
  "initialized enabled =
     (let notify = Ask NotifyInitialized (\<lambda>a. Return (case a of None \<Rightarrow> HFail (Message ''notify'') | Some _ \<Rightarrow> HDone))
      in if enabled then Fields (\<lambda>b. b\<lparr>br_controllerReady := True\<rparr>) (\<lambda>_. notify) else notify)"

definition Initialize :: "(bytes \<times> bytes \<times> bytes) option \<Rightarrow> prog" where
  "Initialize described =
     Fields (\<lambda>b. b\<lparr>br_actor := True\<rparr>) (\<lambda>_.
     Snapshot_step (\<lambda>s. let enabled = a_ControllerCapabilities s \<noteq> [] in
     Snapshot_step (\<lambda>s. let selection = a_AdapterSelection s in
     if enabled \<and> \<not> qualifiedController selection
     then Return (HFail (Message ''controller tools are not qualified for the owner-selected adapter''))
     else Ask (AskInitialize enabled) (\<lambda>a. case a of
       None \<Rightarrow> Return (HFail (Message ''initialize''))
     | Some raw \<Rightarrow>
         (case selection of
            None \<Rightarrow> initialized enabled
          | Some sel \<Rightarrow>
              if (case described of None \<Rightarrow> False | Some d \<Rightarrow> d \<noteq> (as_Provider sel, as_Name sel, as_Version sel))
              then Return (HFail (Message ''reported adapter does not match owner selection''))
              else if as_Provider sel = lit ''openai''
              then (if (case rp_userAgent raw of None \<Rightarrow> True | Some u \<Rightarrow> \<not> contains u (lit ''/'' @ as_Version sel @ lit '' ''))
                    then Return (HFail (Message ''selected Codex version was not negotiated''))
                    else Fields (\<lambda>b. b\<lparr>br_negotiatedCodex := True\<rparr>) (\<lambda>_. initialized enabled))
              else if described = None
              then Return (HFail (Message ''selected provider requires its own adapter description''))
              else initialized enabled)))))"

definition submit_unknown :: "task \<Rightarrow> prog" where
  "submit_unknown t =
     Perform (DoUnknown (t_Incarnation t) (t_OperationID t)) (\<lambda>_ _ _.
     Snapshot_step (\<lambda>s. Return (HUnknown (map_of (a_Operations s) (t_OperationID t)))))"

definition submit_turn :: "task \<Rightarrow> bytes \<Rightarrow> prog" where
  "submit_turn t thread =
     Ask (AskTurnStart (t_OperationID t) thread (lit ''Pomar operation '' @ t_OperationID t @ lit ''.'' @ [10] @ t_Text t)) (\<lambda>a.
     case a of
       None \<Rightarrow> submit_unknown t
     | Some raw \<Rightarrow>
         (case rp_turn raw of
            None \<Rightarrow> submit_unknown t
          | Some turn \<Rightarrow>
              Perform (DoAccepted (t_Incarnation t) (t_OperationID t) turn) (\<lambda>r _ _.
              case r of
                Inl _ \<Rightarrow> submit_unknown t
              | Inr _ \<Rightarrow> Snapshot_step (\<lambda>s. Return (HOperation (map_of (a_Operations s) (t_OperationID t)))))))"

definition submit_thread :: "bytes \<Rightarrow> task \<Rightarrow> bytes list \<Rightarrow> prog" where
  "submit_thread now t capabilities =
     Ask (AskThreadStart (t_OperationID t) capabilities) (\<lambda>a.
     case a of
       None \<Rightarrow> submit_unknown t
     | Some raw \<Rightarrow>
         Perform (DoModel now (t_Incarnation t) (t_OperationID t) (lit ''thread/start'') (rp_thread raw)) (\<lambda>r _ _.
         case r of
           Inl _ \<Rightarrow> submit_unknown t
         | Inr _ \<Rightarrow> Snapshot_step (\<lambda>s. submit_turn t (a_ThreadID s))))"

definition submit_dispatch :: "bytes \<Rightarrow> task \<Rightarrow> prog" where
  "submit_dispatch now t =
     Perform (DoBegin t) (\<lambda>r _ st.
     case r of
       Inl e \<Rightarrow> Return (HFail e)
     | Inr None \<Rightarrow> Return (HOperation (map_of (a_Operations st) (t_OperationID t)))
     | Inr (Some _) \<Rightarrow>
         Snapshot_step (\<lambda>s.
         if a_ThreadID s \<noteq> [] then submit_turn t (a_ThreadID s)
         else if a_ControllerCapabilities s = [] then submit_thread now t []
         else look (\<lambda>b. if \<not> br_controllerReady b then submit_unknown t
                        else submit_thread now t (a_ControllerCapabilities s))))"

definition authenticatedAccount :: "(bool \<Rightarrow> prog) \<Rightarrow> prog" where
  "authenticatedAccount f =
     Ask AskAccount (\<lambda>a.
     case a of
       None \<Rightarrow> Return (HFail (Message ''account/read''))
     | Some raw \<Rightarrow>
         (case rp_account raw of
            None \<Rightarrow> Return (HFail DecodeFailed)
          | Some ok \<Rightarrow> Fields (\<lambda>b. b\<lparr>br_authenticated := ok\<rparr>) (\<lambda>_. f ok)))"

definition Submit :: "bytes \<Rightarrow> task \<Rightarrow> prog" where
  "Submit now t =
     Snapshot_step (\<lambda>s.
     if t_Incarnation t \<noteq> a_Incarnation s then Return (HFail ErrStale)
     else Snapshot_step (\<lambda>s.
     if map_of (a_Operations s) (t_OperationID t) \<noteq> None
     then Perform (DoBegin t) (\<lambda>r _ st. Return (case r of
       Inl e \<Rightarrow> HFail e | Inr _ \<Rightarrow> HOperation (map_of (a_Operations st) (t_OperationID t))))
     else look (\<lambda>b.
     if br_resumeFailure b then Return (HFail ErrBusy)
     else authenticatedAccount (\<lambda>ok.
     if \<not> ok then Return (HFail (Message ''authentication required'')) else submit_dispatch now t))))"

text \<open>\<open>Resume\<close>: whatever it returns is kept as the resume's failure.\<close>

definition resumed :: "agent_error option \<Rightarrow> prog" where
  "resumed e = Fields (\<lambda>b. b\<lparr>br_resumeFailure := (e \<noteq> None)\<rparr>)
     (\<lambda>_. Return (case e of None \<Rightarrow> HDone | Some e \<Rightarrow> HFail e))"

definition resume_finish :: "bytes \<Rightarrow> agent_error option \<Rightarrow> prog" where
  "resume_finish i e =
     Perform (DoFinishControl i (e = None)) (\<lambda>r _ _. resumed (case r of Inl e' \<Rightarrow> Some e' | Inr _ \<Rightarrow> e))"

definition Resume :: "bytes \<Rightarrow> prog" where
  "Resume now =
     Snapshot_step (\<lambda>s.
     if a_ThreadID s = [] then resumed None
     else let i = lit ''resume-'' @ a_Incarnation s; inc = a_Incarnation s in
     Perform (DoBeginControl (lit ''resume'') i inc (JObj [(lit ''thread_id'', JStr (a_ThreadID s))])) (\<lambda>r _ _.
     case r of
       Inl e \<Rightarrow> resumed (Some e)
     | Inr None \<Rightarrow> resumed (Some (Message ''resume already dispatched; inspect retained acceptance''))
     | Inr (Some _) \<Rightarrow>
         Ask (AskThreadResume i (a_ThreadID s)) (\<lambda>a.
         case a of
           None \<Rightarrow> resume_finish i (Some (Message ''thread/resume''))
         | Some raw \<Rightarrow>
             Perform (DoModel now inc i (lit ''thread/resume'') (rp_thread raw)) (\<lambda>r _ _.
             case r of
               Inl e \<Rightarrow> resume_finish i (Some e)
             | Inr _ \<Rightarrow>
                 Perform (DoRecover now inc i (rp_turns raw)) (\<lambda>r _ _.
                 resume_finish i (case r of Inl e \<Rightarrow> Some e | Inr _ \<Rightarrow> None))))))"

definition control_result :: "bytes \<Rightarrow> prog" where
  "control_result i = Snapshot_step (\<lambda>s. Return (HControl 200 (map_of (a_Controls s) i)))"

text \<open>The end of a handler that sent a control: recorded, then reported.\<close>

definition control_sent :: "bytes \<Rightarrow> bool \<Rightarrow> prog" where
  "control_sent i sent =
     Perform (DoFinishControl i sent) (\<lambda>r _ _.
     case r of
       Inl e \<Rightarrow> Return (HFail e)
     | Inr _ \<Rightarrow> if sent then control_result i else Return (HFail (Message ''acceptance uncertain'')))"

definition login :: "bytes \<Rightarrow> bytes \<Rightarrow> prog" where
  "login inc i =
     Snapshot_step (\<lambda>s.
     if inc \<noteq> a_Incarnation s then Return (HFail ErrStale)
     else Perform (DoBeginControl (lit ''login'') i inc (JObj [(lit ''type'', JStr (lit ''chatgptDeviceCode''))])) (\<lambda>r _ st.
     case r of
       Inl e \<Rightarrow> Return (HFail e)
     | Inr None \<Rightarrow> Return (HControl 200 (map_of (a_Controls st) i))
     | Inr (Some _) \<Rightarrow>
         Fields (\<lambda>b. b\<lparr>br_loginPending := True\<rparr>) (\<lambda>b.
         if br_loginPending b
         then Perform (DoFinishControl i False) (\<lambda>_ _ _. Return (HFail (Message ''login already pending; do not silently restart it'')))
         else Ask (AskLogin i) (\<lambda>a. control_sent i (a \<noteq> None)))))"

definition login_complete :: "bytes \<Rightarrow> bytes \<Rightarrow> bytes \<Rightarrow> bytes \<Rightarrow> prog" where
  "login_complete inc i loginID code =
     Snapshot_step (\<lambda>s.
     if inc \<noteq> a_Incarnation s then Return (HFail ErrStale)
     else Perform (DoBeginControl (lit ''login-complete'') i inc (JObj [(lit ''login_id'', JStr loginID)])) (\<lambda>r _ st.
     case r of
       Inl e \<Rightarrow> Return (HFail e)
     | Inr None \<Rightarrow> Return (HControl 200 (map_of (a_Controls st) i))
     | Inr (Some _) \<Rightarrow> Ask (AskLoginComplete i loginID code) (\<lambda>a. control_sent i (a \<noteq> None))))"

definition no_params :: event_params where
  "no_params = \<lparr>ep_ThreadID = [], ep_TurnID = [], ep_Turn = None, ep_code = None, ep_willRetry = None\<rparr>"

definition repeated_permission :: "agent_control option \<Rightarrow> hresult" where
  "repeated_permission c =
     (case c of
        Some x \<Rightarrow> if c_State x = lit ''refused'' then HControl 409 c
          else if c_State x = lit ''unsupported'' then HUnsupported else HControl 200 c
      | None \<Rightarrow> HControl 200 None)"

text \<open>\<open>Store.Observe\<close> also reports an event it retained as rejected; \<open>m\<close> is the store it decided on.\<close>

definition observed_event :: "(bytes \<Rightarrow> bytes) \<Rightarrow> bytes \<Rightarrow> bytes \<Rightarrow> bytes \<Rightarrow> bytes \<Rightarrow> event_params option \<Rightarrow>
    agent_error + bytes option \<Rightarrow> agent_store \<Rightarrow> agent_error option" where
  "observed_event sha inc method native raw decoded r m =
     (case r of
        Inl e \<Rightarrow> Some e
      | Inr _ \<Rightarrow>
          (case Observe_decision sha inc method native raw decoded m of
             Commit _ (Inl e) \<Rightarrow> Some e
           | Answer (Inl e) \<Rightarrow> Some e
           | _ \<Rightarrow> None))"

text \<open>The permission handler holds the broker's lock from beginning to end.\<close>

definition permission_answer :: "(bytes \<Rightarrow> bytes) \<Rightarrow> bytes \<Rightarrow> bytes \<Rightarrow> bytes \<Rightarrow> bytes \<Rightarrow> bytes \<Rightarrow> prog" where
  "permission_answer sha inc i pid decision native =
     (let method = lit ''permission/decision'';
          raw = marshal (JObj [(lit ''decision'', JStr decision), (lit ''request'', JStr pid)]) in
      Perform (DoObserve inc method native raw (Some no_params)) (\<lambda>r m _.
      case observed_event sha inc method native raw (Some no_params) r m of
        Some e \<Rightarrow> unlocked (HFail e)
      | None \<Rightarrow>
          Fields (\<lambda>b. b\<lparr>br_pending := del pid (br_pending b)\<rparr>) (\<lambda>_.
          Ask (AnswerPermission i native decision) (\<lambda>a.
          Perform (DoFinishControl i (a \<noteq> None)) (\<lambda>r _ _.
          case r of
            Inl e \<Rightarrow> unlocked (HFail e)
          | Inr _ \<Rightarrow>
              if a = None then unlocked (HFail (Message ''permission response acceptance unknown; not replayed''))
              else Snapshot_step (\<lambda>s. unlocked (HControl 200 (map_of (a_Controls s) i))))))))"

definition permission_dispatch :: "(bytes \<Rightarrow> bytes) \<Rightarrow> bytes \<Rightarrow> bytes \<Rightarrow> bytes \<Rightarrow> bytes \<Rightarrow> prog" where
  "permission_dispatch sha inc i pid decision =
     look (\<lambda>b. case map_of (br_pending b) pid of
       None \<Rightarrow>
         Perform (DoRefusePermission i) (\<lambda>r _ _. case r of
           Inl e \<Rightarrow> unlocked (HFail e)
         | Inr _ \<Rightarrow> Snapshot_step (\<lambda>s. unlocked (HControl 409 (map_of (a_Controls s) i))))
     | Some (method, native) \<Rightarrow>
         if method \<noteq> lit ''item/commandExecution/requestApproval'' \<and> method \<noteq> lit ''item/fileChange/requestApproval'' \<or>
            decision \<notin> {lit ''accept'', lit ''decline'', lit ''cancel''}
         then Perform (DoUnsupportedControl i) (\<lambda>r _ _. unlocked (case r of Inl e \<Rightarrow> HFail e | Inr _ \<Rightarrow> HUnsupported))
         else permission_answer sha inc i pid decision native)"

definition permission :: "(bytes \<Rightarrow> bytes) \<Rightarrow> bytes \<Rightarrow> bytes \<Rightarrow> bytes \<Rightarrow> bytes \<Rightarrow> prog" where
  "permission sha inc i pid decision =
     Lock (Snapshot_step (\<lambda>s.
     if inc \<noteq> a_Incarnation s then unlocked (HFail ErrStale)
     else look (\<lambda>b.
     if br_resumeFailure b then unlocked (HFail ErrBusy)
     else Perform (DoBeginControl (lit ''permission'') i inc
            (JObj [(lit ''decision'', JStr decision), (lit ''permission_id'', JStr pid)])) (\<lambda>r _ st.
     case r of
       Inl e \<Rightarrow> unlocked (HFail e)
     | Inr None \<Rightarrow> unlocked (repeated_permission (map_of (a_Controls st) i))
     | Inr (Some _) \<Rightarrow> permission_dispatch sha inc i pid decision))))"

definition interrupt :: "bytes \<Rightarrow> bytes \<Rightarrow> prog" where
  "interrupt inc i =
     Snapshot_step (\<lambda>s.
     if inc \<noteq> a_Incarnation s then Return (HFail ErrStale)
     else look (\<lambda>b.
     if br_resumeFailure b then Return (HFail ErrBusy)
     else Perform (DoBeginControl (lit ''interrupt'') i inc (JObj [(lit ''thread_id'', JStr (a_ThreadID s))])) (\<lambda>r _ st.
     case r of
       Inl e \<Rightarrow> Return (HFail e)
     | Inr None \<Rightarrow> Return (HControl 200 (map_of (a_Controls st) i))
     | Inr (Some _) \<Rightarrow>
         (case List.find (\<lambda>(_, op). op_Incarnation op = a_Incarnation s \<and> op_TurnID op \<noteq> [] \<and> op_Completion op = [])
                 (a_Operations s) of
            None \<Rightarrow> Perform (DoFinishControl i False) (\<lambda>_ _ _.
              Return (HFail (Message ''no known active turn; uncertain acceptance is not resubmitted'')))
          | Some (_, op) \<Rightarrow> Ask (AskInterrupt i (a_ThreadID s) (op_TurnID op)) (\<lambda>a. control_sent i (a \<noteq> None))))))"

text \<open>A message of the actor, with its parameters as the store and the controller decode them.\<close>

record message =
  ms_ID :: bytes
  ms_Method :: bytes
  ms_Params :: bytes
  ms_decoded :: "event_params option"
  ms_call :: tool_call

definition asks_permission :: "bytes \<Rightarrow> bool" where
  "asks_permission method \<longleftrightarrow> method \<in> {lit ''item/commandExecution/requestApproval'', lit ''item/fileChange/requestApproval'',
     lit ''item/permissions/requestApproval'', lit ''item/tool/requestUserInput''}"

definition observe_call :: "(bytes \<Rightarrow> bytes) \<Rightarrow> message \<Rightarrow> prog" where
  "observe_call sha x =
     look (\<lambda>b. Perform (DoRequest (ms_call x) (broker.truncate b)) (\<lambda>r m _.
     case r of
       Inl e \<Rightarrow> unlocked (HFail e)
     | Inr _ \<Rightarrow>
         (case observeControllerRequest sha (ms_call x) (broker.truncate b) m of
            Commit _ (Some (i, native)) \<Rightarrow>
              Fields (\<lambda>b. b\<lparr>br_controllerPending := put i native (br_controllerPending b)\<rparr>) (\<lambda>_. unlocked HDone)
          | _ \<Rightarrow> unlocked HDone)))"

definition Observe :: "(bytes \<Rightarrow> bytes) \<Rightarrow> message \<Rightarrow> prog" where
  "Observe sha x =
     Lock (
     if ms_Method x = lit ''account/login/completed''
     then Fields (\<lambda>b. b\<lparr>br_loginPending := False\<rparr>) (\<lambda>_. unlocked HDone)
     else if ms_Method x = lit ''item/tool/call'' \<and> ms_ID x \<noteq> [] then observe_call sha x
     else if \<not> (has_prefix (ms_Method x) (lit ''item/'') \<or> ms_Method x \<in> {lit ''turn/started'', lit ''turn/completed'', lit ''error''})
     then unlocked HDone
     else if ms_ID x \<noteq> [] \<and> \<not> asks_permission (ms_Method x) then unlocked (HFail (Message ''unsupported actor request''))
     else look (\<lambda>b. Perform (DoObserve (br_incarnation b) (ms_Method x) (ms_ID x) (ms_Params x) (ms_decoded x)) (\<lambda>r m _.
       case observed_event sha (br_incarnation b) (ms_Method x) (ms_ID x) (ms_Params x) (ms_decoded x) r m of
         Some e \<Rightarrow> unlocked (HFail e)
       | None \<Rightarrow>
           if ms_ID x = [] then unlocked HDone
           else Fields (\<lambda>b. b\<lparr>br_pending := put (permissionKey sha (br_incarnation b) (ms_ID x)) (ms_Method x, ms_ID x) (br_pending b)\<rparr>)
                  (\<lambda>_. unlocked HDone))))"

definition ReplyController :: "(bytes \<Rightarrow> bytes) \<Rightarrow> bytes \<Rightarrow> controller_reply \<Rightarrow> prog" where
  "ReplyController sha i reply =
     Lock (look (\<lambda>b. Perform (DoReply i reply (broker.truncate b)) (\<lambda>r m _.
     case r of
       Inl e \<Rightarrow> unlocked (HFail e)
     | Inr _ \<Rightarrow>
         (case reply_begin sha i reply (broker.truncate b) m of
            Commit _ (request, Some native) \<Rightarrow>
              Fields (\<lambda>b. b\<lparr>br_controllerPending := del i (br_controllerPending b)\<rparr>) (\<lambda>_. Unlock (
              Ask (AnswerController native reply) (\<lambda>a.
              Perform (DoReplied i request (a \<noteq> None) (broker.truncate b)) (\<lambda>r _ st.
              Return (case r of Inl e \<Rightarrow> HFail e | Inr _ \<Rightarrow> HRequest (map_of (a_ControllerRequests st) i))))))
          | Answer (request, _) \<Rightarrow> unlocked (HRequest (Some request))
          | _ \<Rightarrow> unlocked HDone))))"

text \<open>
  \<open>continuationHandler\<close>; \<open>taken\<close> is the inventory of the workspace, None when git failed.
\<close>

definition continuation_json :: "continuation_request \<Rightarrow> jvalue" where
  "continuation_json r = JObj [
     (lit ''disposition_id'', JStr (k_DispositionID r)),
     (lit ''intent_ref'', JStr (k_IntentRef r)),
     (lit ''authority_ref'', JStr (k_AuthorityRef r)),
     (lit ''responsible_owner'', JStr (k_ResponsibleOwner r)),
     (lit ''environment_id'', JStr (k_EnvironmentID r)),
     (lit ''workspace_id'', JStr (k_WorkspaceID r)),
     (lit ''session_id'', JStr (k_SessionID r)),
     (lit ''original_operation'', JStr (k_OriginalOperation r)),
     (lit ''original_incarnation'', JStr (k_OriginalIncarnation r)),
     (lit ''original_input_sha256'', JStr (k_OriginalInputSHA256 r)),
     (lit ''original_thread_id'', JStr (k_OriginalThreadID r)),
     (lit ''original_turn_id'', JStr (k_OriginalTurnID r)),
     (lit ''original_fence_operation'', JStr (k_OriginalFenceOperation r)),
     (lit ''predecessor_incarnation'', JStr (k_PredecessorIncarnation r)),
     (lit ''predecessor_fence_operation'', JStr (k_PredecessorFenceOperation r)),
     (lit ''launch_operation'', JStr (k_LaunchOperation r)),
     (lit ''workspace_inventory_sha256'', JStr (k_WorkspaceInventorySHA256 r)),
     (lit ''recovery_description'', JStr (k_RecoveryDescription r)),
     (lit ''external_action_inventory'', JStr (k_ExternalActionInventory r)),
     (lit ''successor'', task_json (k_Successor r))]"

definition inventory_json :: "workspace_inventory \<Rightarrow> jvalue" where
  "inventory_json v = JObj [(lit ''head'', JStr (wi_Head v)), (lit ''status'', JStr (wi_Status v)),
     (lit ''diff_sha256'', JStr (wi_DiffSHA256 v))]"

definition bound_continuation :: "continuation_binding decision \<Rightarrow> hresult" where
  "bound_continuation d = (case d of Commit _ b \<Rightarrow> HBound b | Answer b \<Rightarrow> HBound b | Refuse e \<Rightarrow> HFail e)"

definition continuationHandler :: "(bytes \<Rightarrow> bytes) \<Rightarrow> bytes \<Rightarrow> continuation_binding \<Rightarrow> workspace_inventory option \<Rightarrow> prog" where
  "continuationHandler sha now binding taken =
     (let r = b_Request binding in
      if sha (marshal (continuation_json r)) \<noteq> b_RequestSHA256 binding then Return (HFail ErrConflict)
      else Lock (Lookup (\<lambda>m.
      case continuationLocked (k_DispositionID r) (b_RequestSHA256 binding) m of
        Inl e \<Rightarrow> unlocked (HFail e)
      | Inr (Some old) \<Rightarrow> unlocked (HBound old)
      | Inr None \<Rightarrow>
          (case taken of
             None \<Rightarrow> unlocked (HFail (Message ''inventory''))
           | Some v \<Rightarrow>
               if sha (marshal (inventory_json v)) \<noteq> k_WorkspaceInventorySHA256 r
               then unlocked (HFail (Message ''workspace inventory changed''))
               else let binding = binding\<lparr>b_Inventory := v\<rparr> in
                    Perform (DoContinue now binding) (\<lambda>r m _. case r of
                      Inl e \<Rightarrow> unlocked (HFail e)
                    | Inr _ \<Rightarrow> Fields (\<lambda>b. b\<lparr>br_resumeFailure := False\<rparr>)
                        (\<lambda>_. unlocked (bound_continuation (bindContinuation sha now binding m))))))))"

datatype request =
    DoInitialize "(bytes \<times> bytes \<times> bytes) option"
  | DoSubmit bytes task
  | DoResume bytes
  | DoLogin bytes bytes
  | DoLoginComplete bytes bytes bytes bytes
  | DoPermission bytes bytes bytes bytes
  | DoInterrupt bytes bytes
  | DoMessage message
  | DoReplyController bytes controller_reply
  | DoContinuation bytes continuation_binding "workspace_inventory option"

fun Handler :: "(bytes \<Rightarrow> bytes) \<Rightarrow> request \<Rightarrow> prog" where
  "Handler sha (DoInitialize described) = Initialize described"
| "Handler sha (DoSubmit now t) = Submit now t"
| "Handler sha (DoResume now) = Resume now"
| "Handler sha (DoLogin inc i) = login inc i"
| "Handler sha (DoLoginComplete inc i loginID code) = login_complete inc i loginID code"
| "Handler sha (DoPermission inc i pid decision) = permission sha inc i pid decision"
| "Handler sha (DoInterrupt inc i) = interrupt inc i"
| "Handler sha (DoMessage x) = Observe sha x"
| "Handler sha (DoReplyController i reply) = ReplyController sha i reply"
| "Handler sha (DoContinuation now binding taken) = continuationHandler sha now binding taken"

subsection \<open>Interleavings\<close>

text \<open>
  The handlers that run, each at its next step; the broker's lock and who holds it; and the
  requests made of the actor for an identity, by method. A crash ends all handlers.
\<close>

type_synonym token = "bytes \<times> bytes"

fun dispatches :: "actor_request \<Rightarrow> token option" where
  "dispatches (AskThreadStart i _) = Some (lit ''thread/start'', i)"
| "dispatches (AskTurnStart i _ _) = Some (lit ''turn/start'', i)"
| "dispatches (AskThreadResume i _) = Some (lit ''thread/resume'', i)"
| "dispatches (AskLogin i) = Some (lit ''account/login/start'', i)"
| "dispatches (AskLoginComplete i _ _) = Some (lit ''account/login/complete'', i)"
| "dispatches (AskInterrupt i _ _) = Some (lit ''turn/interrupt'', i)"
| "dispatches (AnswerPermission i _ _) = Some (lit ''permission'', i)"
| "dispatches _ = None"

record broker_sys =
  z_sys :: agent_sys
  z_broker :: full_broker
  z_lock :: "nat option"
  z_threads :: "nat \<Rightarrow> prog option"
  z_sent :: "token list"

definition sent :: "actor_request \<Rightarrow> token list" where
  "sent c = (case dispatches c of None \<Rightarrow> [] | Some t \<Rightarrow> [t])"

abbreviation goes_on :: "nat \<Rightarrow> prog \<Rightarrow> broker_sys \<Rightarrow> broker_sys" where
  "goes_on n p z \<equiv> z\<lparr>z_threads := (z_threads z)(n \<mapsto> p)\<rparr>"

inductive broker_step :: "(bytes \<Rightarrow> bytes) \<Rightarrow> (agent_state \<Rightarrow> nat) \<Rightarrow> broker_sys \<Rightarrow> broker_sys \<Rightarrow> bool"
  for sha :: "bytes \<Rightarrow> bytes" and len :: "agent_state \<Rightarrow> nat" where
  arrive: "z_threads z n = None \<Longrightarrow> y_store (z_sys z) \<noteq> None \<Longrightarrow> broker_step sha len z (goes_on n (Handler sha q) z)"
| snapshot: "z_threads z n = Some (Snapshot_step f) \<Longrightarrow> y_store (z_sys z) = Some m \<Longrightarrow>
    broker_step sha len z (goes_on n (f (g_s m)) z)"
| lookup: "z_threads z n = Some (Lookup f) \<Longrightarrow> y_store (z_sys z) = Some m \<Longrightarrow> broker_step sha len z (goes_on n (f m) z)"
| perform: "z_threads z n = Some (Perform x f) \<Longrightarrow> y_store (z_sys z) = Some m \<Longrightarrow>
    AgentStore.perform len c m (y_disk (z_sys z)) (decide sha x m) = (r, m', k') \<Longrightarrow>
    broker_step sha len z (goes_on n (f r m (g_s m')) (z\<lparr>z_sys := \<lparr>y_store = Some m', y_disk = k'\<rparr>\<rparr>))"
| ask: "z_threads z n = Some (Ask c f) \<Longrightarrow>
    broker_step sha len z (goes_on n (f a) (z\<lparr>z_sent := z_sent z @ sent c\<rparr>))"
| fields: "z_threads z n = Some (Fields g f) \<Longrightarrow> z_lock z \<in> {None, Some n} \<Longrightarrow>
    broker_step sha len z (goes_on n (f (z_broker z)) (z\<lparr>z_broker := g (z_broker z)\<rparr>))"
| lock: "z_threads z n = Some (Lock p) \<Longrightarrow> z_lock z = None \<Longrightarrow>
    broker_step sha len z (goes_on n p (z\<lparr>z_lock := Some n\<rparr>))"
| unlock: "z_threads z n = Some (Unlock p) \<Longrightarrow> z_lock z = Some n \<Longrightarrow>
    broker_step sha len z (goes_on n p (z\<lparr>z_lock := None\<rparr>))"
| return: "z_threads z n = Some (Return r) \<Longrightarrow> broker_step sha len z (z\<lparr>z_threads := (z_threads z)(n := None)\<rparr>)"
| crash: "broker_step sha len z (z\<lparr>z_sys := (z_sys z)\<lparr>y_store := None\<rparr>, z_threads := (\<lambda>_. None), z_lock := None\<rparr>)"
| reopen: "y_store (z_sys z) = None \<Longrightarrow>
    broker_step sha len z (z\<lparr>z_sys := fst (agent_step sha len (Restart environment session inc c) (z_sys z)),
      z_broker := NewBroker inc, z_threads := (\<lambda>_. None), z_lock := None\<rparr>)"

subsection \<open>A request is made only with permission\<close>

text \<open>The identity an operation of the store may dispatch.\<close>

fun names :: "store_op \<Rightarrow> bytes option" where
  "names (DoBegin t) = Some (t_OperationID t)"
| "names (DoBeginControl kind i inc payload) = Some i"
| "names _ = None"

lemma decide_names: "decide sha x m = Commit st (Some i) \<Longrightarrow> names x = Some i"
proof (cases x)
  case (DoBegin t)
  then show "decide sha x m = Commit st (Some i) \<Longrightarrow> names x = Some i"
    by (cases "Begin sha t m")
      (auto simp: Begin_def Let_def new_operation_def dest!: checked_cases split: if_splits option.splits)
next
  case (DoBeginControl kind j inc payload)
  then show "decide sha x m = Commit st (Some i) \<Longrightarrow> names x = Some i"
    by (cases "BeginControl sha kind j inc payload m")
      (auto simp: BeginControl_def Let_def dest!: checked_cases split: if_splits option.splits)
qed simp_all

text \<open>
  A program is licensed by a set of tokens when it makes a request for an identity only with a
  token it has, which is spent, and gets tokens only from the store's permission to dispatch.
\<close>

definition granted :: "agent_error + bytes option \<Rightarrow> token set" where
  "granted r = (case r of Inr (Some i) \<Rightarrow> UNIV \<times> {i} | _ \<Rightarrow> {})"

primrec licensed :: "prog \<Rightarrow> token set \<Rightarrow> bool" where
  "licensed (Return r) G \<longleftrightarrow> True"
| "licensed (Snapshot_step f) G \<longleftrightarrow> (\<forall>s. licensed (f s) G)"
| "licensed (Lookup f) G \<longleftrightarrow> (\<forall>m. licensed (f m) G)"
| "licensed (Perform x f) G \<longleftrightarrow>
     (\<forall>r m s. (\<forall>i. r = Inr (Some i) \<longrightarrow> names x = Some i) \<longrightarrow> licensed (f r m s) (G \<union> granted r))"
| "licensed (Ask c f) G \<longleftrightarrow> set (sent c) \<subseteq> G \<and> (\<forall>a. licensed (f a) (G - set (sent c)))"
| "licensed (Fields g f) G \<longleftrightarrow> (\<forall>b. licensed (f b) G)"
| "licensed (Lock p) G \<longleftrightarrow> licensed p G"
| "licensed (Unlock p) G \<longleftrightarrow> licensed p G"

lemma licensed_cases:
  "(\<And>e. r = Inl e \<Longrightarrow> licensed (f e) G) \<Longrightarrow> (\<And>x. r = Inr x \<Longrightarrow> licensed (g x) G) \<Longrightarrow>
     licensed (case r of Inl e \<Rightarrow> f e | Inr x \<Rightarrow> g x) G"
  "(w = None \<Longrightarrow> licensed p G) \<Longrightarrow> (\<And>x. w = Some x \<Longrightarrow> licensed (h x) G) \<Longrightarrow>
     licensed (case w of None \<Rightarrow> p | Some x \<Rightarrow> h x) G"
  "(b \<Longrightarrow> licensed p G) \<Longrightarrow> (\<not> b \<Longrightarrow> licensed q G) \<Longrightarrow> licensed (if b then p else q) G"
  "(\<And>x y. z = (x, y) \<Longrightarrow> licensed (k x y) G) \<Longrightarrow> licensed (case z of (x, y) \<Rightarrow> k x y) G"
  "(\<And>e. licensed (d1 e) G) \<Longrightarrow> (\<And>a. licensed (d2 a) G) \<Longrightarrow> (\<And>s a. licensed (d3 s a) G) \<Longrightarrow>
     licensed (case d of Refuse e \<Rightarrow> d1 e | Answer a \<Rightarrow> d2 a | Commit s a \<Rightarrow> d3 s a) G"
  by (auto split: sum.split option.split prod.split decision.split)

lemma licensed_steps:
  "(\<And>s. licensed (f1 s) G) \<Longrightarrow> licensed (Snapshot_step f1) G"
  "(\<And>r m s. licensed (f2 r m s) (G \<union> granted r)) \<Longrightarrow> licensed (Perform x f2) G"
  "(\<And>b. licensed (f3 b) G) \<Longrightarrow> licensed (Fields g f3) G"
  "licensed p G \<Longrightarrow> licensed (Lock p) G" "licensed p G \<Longrightarrow> licensed (Unlock p) G" "licensed (Return res) G"
  "sent c = [] \<Longrightarrow> (\<And>a. licensed (f4 a) G) \<Longrightarrow> licensed (Ask c f4) G"
  "(\<And>m. licensed (f5 m) G) \<Longrightarrow> licensed (Lookup f5) G"
  by auto

lemma licensed_unknown: "licensed (submit_unknown t) G"
  by (simp add: submit_unknown_def)

lemma licensed_turn: "(lit ''turn/start'', t_OperationID t) \<in> G \<Longrightarrow> licensed (submit_turn t thread) G"
  by (auto simp: submit_turn_def sent_def licensed_unknown split: option.split sum.split)

lemma licensed_thread:
  "(lit ''thread/start'', t_OperationID t) \<in> G \<Longrightarrow> (lit ''turn/start'', t_OperationID t) \<in> G \<Longrightarrow>
   licensed (submit_thread now t caps) G"
  by (auto simp: submit_thread_def sent_def licensed_unknown lit_def intro!: licensed_turn split: option.split sum.split)

lemma licensed_dispatch: "licensed (submit_dispatch now t) G"
  by (auto simp: submit_dispatch_def granted_def licensed_unknown intro!: licensed_turn licensed_thread
      split: option.split sum.split)

lemma licensed_Submit: "licensed (Submit now t) G"
  by (auto simp: Submit_def authenticatedAccount_def sent_def licensed_dispatch split: option.split sum.split)

lemma licensed_Resume: "licensed (Resume now) G"
  by (auto simp: Resume_def resume_finish_def resumed_def sent_def granted_def Let_def split: option.split sum.split)

lemma licensed_sent: "licensed (control_sent i ok) G"
  by (auto simp: control_sent_def control_result_def split: sum.split)

lemma licensed_controls:
  "licensed (login inc i) G" "licensed (login_complete inc i l c) G" "licensed (interrupt inc i) G"
  by (auto simp: login_def login_complete_def interrupt_def sent_def granted_def licensed_sent split: option.split sum.split)

lemma licensed_permission: "licensed (permission sha inc i pid decision) G"
  by (auto simp: permission_def permission_dispatch_def permission_answer_def sent_def granted_def Let_def
      split: option.split sum.split)

lemma licensed_Observe: "licensed (Observe sha x) G"
  unfolding Observe_def observe_call_def by (intro licensed_cases licensed_steps)

lemma licensed_ReplyController: "licensed (ReplyController sha i reply) G"
  unfolding ReplyController_def by (intro licensed_cases licensed_steps) (simp add: sent_def)

lemma licensed_continuation: "licensed (continuationHandler sha now binding taken) G"
  unfolding continuationHandler_def Let_def by (intro licensed_cases licensed_steps)

lemma licensed_Handler: "licensed (Handler sha q) G"
proof (cases q)
  case (DoInitialize d)
  then show ?thesis
    by (auto simp: Initialize_def initialized_def sent_def Let_def split: option.split)
qed (simp_all add: licensed_Submit licensed_Resume licensed_controls licensed_permission licensed_Observe licensed_ReplyController
    licensed_continuation)

subsection \<open>The invariant of an interleaving\<close>

text \<open>
  Each handler is licensed by tokens of its own; no token is held twice or was used before; and the
  identity of every token, held or used, is recorded in the journal.
\<close>

definition recorded_ids :: "token set \<Rightarrow> agent_sys \<Rightarrow> bool" where
  "recorded_ids T y \<longleftrightarrow> (\<forall>t i. (t, i) \<in> T \<longrightarrow> durable (known i) y)"

definition holding :: "(nat \<Rightarrow> token set) \<Rightarrow> broker_sys \<Rightarrow> bool" where
  "holding G z \<longleftrightarrow> (\<forall>n p. z_threads z n = Some p \<longrightarrow> licensed p (G n)) \<and>
     (\<forall>n. G n \<inter> set (z_sent z) = {}) \<and> (\<forall>n. recorded_ids (G n) (z_sys z)) \<and> (\<forall>n n'. n \<noteq> n' \<longrightarrow> G n \<inter> G n' = {})"

definition broker_inv :: "broker_sys \<Rightarrow> bool" where
  "broker_inv z \<longleftrightarrow> distinct (z_sent z) \<and> recorded_ids (set (z_sent z)) (z_sys z) \<and> (\<exists>G. holding G z)"

lemma recorded_mono:
  "recorded_ids T y \<Longrightarrow> (\<And>i. durable (known i) y \<Longrightarrow> durable (known i) y') \<Longrightarrow> recorded_ids T y'"
  by (auto simp: recorded_ids_def)

lemma recorded_subset: "recorded_ids T y \<Longrightarrow> T' \<subseteq> T \<Longrightarrow> recorded_ids T' y"
  by (auto simp: recorded_ids_def)

text \<open>One handler goes on with the tokens \<open>H\<close>: those it had, less what it spent, and new ones.\<close>

lemma holding_update:
  assumes "holding G z" and "z_threads z' = (z_threads z)(n \<mapsto> p)" and "licensed p H"
    and "set (z_sent z') \<subseteq> set (z_sent z) \<union> G n" and "H \<inter> set (z_sent z') = {}"
    and "\<And>i. durable (known i) (z_sys z) \<Longrightarrow> durable (known i) (z_sys z')" and "recorded_ids H (z_sys z')"
    and "\<And>n'. n' \<noteq> n \<Longrightarrow> H \<inter> G n' = {}"
  shows "holding (G(n := H)) z'"
proof -
  note h = assms(1) [unfolded holding_def]
  have "G n' \<inter> set (z_sent z') = {}" if "n' \<noteq> n" for n'
    using h assms(4) that by blast
  moreover have "recorded_ids (G n') (z_sys z')" for n'
    using h assms(6) recorded_mono by blast
  moreover have "licensed q ((G(n := H)) n')" if "z_threads z' n' = Some q" for n' q
    using h assms(2,3) that by (cases "n' = n") auto
  moreover have "(G(n := H)) a \<inter> (G(n := H)) b = {}" if "a \<noteq> b" for a b
  proof -
    have "G a \<inter> G b = {}" using h that by simp
    then show ?thesis using assms(8) [of a] assms(8) [of b] that by (cases "a = n"; cases "b = n") auto
  qed
  ultimately show ?thesis unfolding holding_def using assms(5,7) by simp
qed

lemma inv_same_tokens:
  assumes "broker_inv z" and "z_threads z n = Some q" and "\<And>H. licensed q H \<Longrightarrow> licensed p H"
    and "z_threads z' = (z_threads z)(n \<mapsto> p)" and "z_sent z' = z_sent z" and "z_sys z' = z_sys z"
  shows "broker_inv z'"
proof -
  obtain G where G: "holding G z" using assms(1) by (auto simp: broker_inv_def)
  note h = G [unfolded holding_def]
  have "holding (G(n := G n)) z'"
    using h assms by (intro holding_update [OF G assms(4)]) auto
  then show ?thesis using assms(1,5,6) unfolding broker_inv_def by auto
qed

lemma inv_arrive:
  assumes "broker_inv z" and "z_threads z n = None"
  shows "broker_inv (goes_on n (Handler sha q) z)"
proof -
  obtain G where G: "holding G z" using assms(1) by (auto simp: broker_inv_def)
  have "holding (G(n := {})) (goes_on n (Handler sha q) z)"
    by (rule holding_update [OF G, of _ n "Handler sha q"]) (auto simp: licensed_Handler recorded_ids_def)
  then show ?thesis using assms(1) unfolding broker_inv_def by auto
qed

lemma inv_ask:
  assumes "broker_inv z" and "z_threads z n = Some (Ask c f)"
  shows "broker_inv (goes_on n (f a) (z\<lparr>z_sent := z_sent z @ sent c\<rparr>))" (is "broker_inv ?z")
proof -
  obtain G where G: "holding G z" using assms(1) by (auto simp: broker_inv_def)
  note h = G [unfolded holding_def]
  have l: "set (sent c) \<subseteq> G n" "licensed (f a) (G n - set (sent c))" using h assms(2) by fastforce+
  have rest: "(G n - set (sent c)) \<inter> (set (z_sent z) \<union> set (sent c)) = {}" "recorded_ids (G n - set (sent c)) (z_sys z)"
    "\<And>n'. n' \<noteq> n \<Longrightarrow> (G n - set (sent c)) \<inter> G n' = {}"
    using h by (blast intro: recorded_subset)+
  have "holding (G(n := G n - set (sent c))) ?z"
    using l rest by (intro holding_update [OF G, of _ n "f a"]) auto
  moreover have "distinct (z_sent ?z)"
  proof -
    have "set (sent c) \<inter> set (z_sent z) = {}" using l(1) h by blast
    then show ?thesis using assms(1) by (auto simp: broker_inv_def sent_def split: option.splits)
  qed
  moreover have "recorded_ids (set (z_sent ?z)) (z_sys ?z)"
  proof -
    have "recorded_ids (set (sent c)) (z_sys z)" using l(1) h by (blast intro: recorded_subset)
    then show ?thesis using assms(1) by (auto simp: broker_inv_def recorded_ids_def)
  qed
  ultimately show ?thesis unfolding broker_inv_def by blast
qed

lemma perform_grant:
  assumes "AgentStore.perform len c m (y_disk y) (decide sha x m) = (Inr (Some i), m', k')"
  shows "names x = Some i"
proof -
  obtain st where "decide sha x m = Commit st (Some i)"
    using assms decide_answer [of sha x m i]
    by (cases "decide sha x m") (auto simp: perform_def save_store_def Let_def split: save_outcome.splits)
  then show ?thesis by (rule decide_names)
qed

lemma inv_perform:
  assumes "broker_inv z" and "z_threads z n = Some (Perform x f)" and "y_store (z_sys z) = Some m"
    and p: "AgentStore.perform len c m (y_disk (z_sys z)) (decide sha x m) = (r, m', k')"
  shows "broker_inv (goes_on n (f r m (g_s m')) (z\<lparr>z_sys := \<lparr>y_store = Some m', y_disk = k'\<rparr>\<rparr>))" (is "broker_inv ?z")
proof -
  obtain G where G: "holding G z" using assms(1) by (auto simp: broker_inv_def)
  note h = G [unfolded holding_def]
  have step: "fst (agent_step sha len (Do x c) (z_sys z)) = \<lparr>y_store = Some m', y_disk = k'\<rparr>"
    "snd (agent_step sha len (Do x c) (z_sys z)) = (case r of Inl e \<Rightarrow> None | Inr g \<Rightarrow> g)"
    using assms(3) p by simp_all
  have keep: "durable (known i) (z_sys z) \<Longrightarrow> durable (known i) (z_sys ?z)" for i
    using step_durable [OF lasting_known, of i "z_sys z" sha len "Do x c"] step(1) by simp
  have new: "durable (known i) (z_sys ?z) \<and> \<not> durable (known i) (z_sys z)" if "r = Inr (Some i)" for i
    using step_grant [of sha len "Do x c" "z_sys z" i] step that assms(3) by (auto simp: durable_def)
  have fresh: "granted r \<inter> T = {}" if "recorded_ids T (z_sys z)" for T
    using new that by (auto simp: granted_def recorded_ids_def split: sum.splits option.splits)
  have l: "licensed (f r m (g_s m')) (G n \<union> granted r)"
  proof -
    have "licensed (Perform x f) (G n)" using h assms(2) by blast
    moreover have "\<forall>i. r = Inr (Some i) \<longrightarrow> names x = Some i" using perform_grant p by blast
    ultimately show ?thesis by simp
  qed
  have rec: "recorded_ids (G n \<union> granted r) (z_sys ?z)"
    using h keep new by (auto simp: recorded_ids_def granted_def split: sum.splits option.splits; blast)
  have disj: "(G n \<union> granted r) \<inter> set (z_sent z) = {}" "\<And>n'. n' \<noteq> n \<Longrightarrow> (G n \<union> granted r) \<inter> G n' = {}"
    using h fresh assms(1) unfolding broker_inv_def by blast+
  have "holding (G(n := G n \<union> granted r)) ?z"
    using l rec disj keep by (intro holding_update [OF G, of _ n "f r m (g_s m')"]) auto
  moreover have "recorded_ids (set (z_sent ?z)) (z_sys ?z)"
    using assms(1) keep recorded_mono by (simp add: broker_inv_def) blast
  ultimately show ?thesis using assms(1) unfolding broker_inv_def by auto
qed

lemma inv_no_threads:
  assumes "broker_inv z" and "\<And>i. durable (known i) (z_sys z) \<Longrightarrow> durable (known i) (z_sys z')"
    and "z_threads z' = (\<lambda>_. None)" and "z_sent z' = z_sent z"
  shows "broker_inv z'"
proof -
  have "holding (\<lambda>_. {}) z'" using assms(3) by (simp add: holding_def recorded_ids_def)
  then show ?thesis using assms(1,2,4) recorded_mono unfolding broker_inv_def by metis
qed

lemma inv_return:
  assumes "broker_inv z"
  shows "broker_inv (z\<lparr>z_threads := (z_threads z)(n := None)\<rparr>)"
proof -
  obtain G where "holding G z" using assms by (auto simp: broker_inv_def)
  then have "holding G (z\<lparr>z_threads := (z_threads z)(n := None)\<rparr>)" by (auto simp: holding_def)
  then show ?thesis using assms unfolding broker_inv_def by auto
qed

lemma broker_step_inv: "broker_step sha len z z' \<Longrightarrow> broker_inv z \<Longrightarrow> broker_inv z'"
proof (induction rule: broker_step.induct)
  case (arrive z n q)
  from arrive.prems arrive.hyps(1) show ?case by (rule inv_arrive)
next
  case (snapshot z n f m)
  from snapshot.prems snapshot.hyps(1) show ?case by (rule inv_same_tokens) simp_all
next
  case (lookup z n f m)
  from lookup.prems lookup.hyps(1) show ?case by (rule inv_same_tokens) simp_all
next
  case (perform z n x f m c r m' k')
  from perform.prems perform.hyps show ?case by (rule inv_perform)
next
  case (ask z n c f a)
  from ask.prems ask.hyps show ?case by (rule inv_ask)
next
  case (fields z n g f)
  from fields.prems fields.hyps(1) show ?case by (rule inv_same_tokens) simp_all
next
  case (lock z n p)
  from lock.prems lock.hyps(1) show ?case by (rule inv_same_tokens) simp_all
next
  case (unlock z n p)
  from unlock.prems unlock.hyps(1) show ?case by (rule inv_same_tokens) simp_all
next
  case (return z n r)
  from return.prems show ?case by (rule inv_return)
next
  case (crash z)
  then show ?case by (rule inv_no_threads) (auto simp: durable_def)
next
  case (reopen z environment session inc c)
  from reopen(2) show ?case
    by (rule inv_no_threads) (auto simp: lasting_known step_durable simp del: agent_step.simps)
qed

definition quiescent :: "broker_sys \<Rightarrow> bool" where
  "quiescent z \<longleftrightarrow> z_threads z = (\<lambda>_. None) \<and> z_sent z = []"

lemma reached_inv:
  assumes "quiescent z0" and "(broker_step sha len)\<^sup>*\<^sup>* z0 z"
  shows "broker_inv z"
proof -
  have "broker_inv z0"
    using assms(1) by (auto simp: quiescent_def broker_inv_def recorded_ids_def holding_def intro!: exI [of _ "\<lambda>_. {}"])
  with assms(2) show ?thesis by induction (auto intro: broker_step_inv)
qed

text \<open>
  C5. The actor is asked at most once and never without a record: however submissions, resumes,
  logins, permissions, interrupts, the actor's messages and replies interleave, with writes that
  fail, crashes and new incarnations between them, each of the actor's methods is called at most
  once for an operation or control, and whenever a call has been made its identity is in the journal
  on disk.
\<close>

theorem actor_asked_at_most_once:
  assumes "quiescent z0" and "(broker_step sha len)\<^sup>*\<^sup>* z0 z"
  shows "distinct (z_sent z) \<and>
    (\<forall>(method, i) \<in> set (z_sent z). \<exists>st. ad_session (y_disk (z_sys z)) = Some st \<and> known i st)"
  using reached_inv [OF assms] by (auto simp: broker_inv_def recorded_ids_def durable_def)

subsection \<open>A login\<close>

definition login_op :: bytes where
  "login_op = lit ''op''"

definition quiet_a :: broker_sys where
  "quiet_a = \<lparr>z_sys = session_a, z_broker = NewBroker (lit ''i1''), z_lock = None, z_threads = (\<lambda>_. None), z_sent = []\<rparr>"

lemma login_decided:
  "\<exists>st. decide id (DoBeginControl (lit ''login'') login_op (lit ''i1'') payload) store_a = Commit st (Some login_op)"
proof -
  have "validID login_op" by code_simp
  then show ?thesis
    by (simp add: BeginControl_def checked_def check_def Let_def store_a_def fresh_state_def op_a_def login_op_def lit_def)
qed

lemma login_asks:
  "\<exists>z. (broker_step id (\<lambda>_. 0))\<^sup>*\<^sup>* quiet_a z \<and> z_sent z = [(lit ''account/login/start'', login_op)]"
proof -
  let ?R = "broker_step id (\<lambda>_. 0)"
  let ?c = "\<lparr>pc_marshal = True, pc_file = calls_ok\<rparr>"
  define x where "x = DoBeginControl (lit ''login'') login_op (lit ''i1'') (JObj [(lit ''type'', JStr (lit ''chatgptDeviceCode''))])"
  define p0 where "p0 = Handler id (DoLogin (lit ''i1'') login_op)"
  have p0: "p0 = Snapshot_step (\<lambda>s. if lit ''i1'' \<noteq> a_Incarnation s then Return (HFail ErrStale) else Perform x (\<lambda>r _ st.
     case r of Inl e \<Rightarrow> Return (HFail e) | Inr None \<Rightarrow> Return (HControl 200 (map_of (a_Controls st) login_op))
     | Inr (Some _) \<Rightarrow> Fields (\<lambda>b. b\<lparr>br_loginPending := True\<rparr>) (\<lambda>b. if br_loginPending b
         then Perform (DoFinishControl login_op False) (\<lambda>_ _ _. Return (HFail (Message ''login already pending; do not silently restart it'')))
         else Ask (AskLogin login_op) (\<lambda>a. control_sent login_op (a \<noteq> None)))))" (is "_ = Snapshot_step (\<lambda>s. if _ then _ else Perform x ?f)")
    unfolding p0_def x_def Handler.simps login_def by (rule refl)
  obtain st where d: "decide id x store_a = Commit st (Some login_op)" using login_decided x_def by metis
  obtain m' k' where p: "AgentStore.perform (\<lambda>_. 0) ?c store_a (y_disk session_a) (decide id x store_a) = (Inr (Some login_op), m', k')"
    by (simp add: d perform_def save_store_def persist_def replace_file_ok)
  define z1 where "z1 = goes_on 0 p0 quiet_a"
  define z2 where "z2 = goes_on 0 (Perform x ?f) z1"
  define z3 where "z3 = goes_on 0 (?f (Inr (Some login_op)) store_a (g_s m')) (z2\<lparr>z_sys := \<lparr>y_store = Some m', y_disk = k'\<rparr>\<rparr>)"
  define z4 where "z4 = goes_on 0 (Ask (AskLogin login_op) (\<lambda>a. control_sent login_op (a \<noteq> None)))
    (z3\<lparr>z_broker := (z_broker z3)\<lparr>br_loginPending := True\<rparr>\<rparr>)"
  define z5 where "z5 = goes_on 0 (control_sent login_op True) (z4\<lparr>z_sent := z_sent z4 @ sent (AskLogin login_op)\<rparr>)"
  have "?R quiet_a z1"
    unfolding z1_def p0_def by (rule broker_step.arrive) (simp_all add: quiet_a_def session_a_def)
  moreover have "?R z1 z2"
    using broker_step.snapshot [of z1 0 _ store_a id "\<lambda>_. 0"] unfolding z2_def
    by (simp add: z1_def p0 quiet_a_def session_a_def store_a_def fresh_state_def)
  moreover have "?R z2 z3"
    using broker_step.perform [of z2 0 x ?f store_a "\<lambda>_. 0" ?c id "Inr (Some login_op)" m' k'] p unfolding z3_def
    by (simp add: z2_def z1_def quiet_a_def session_a_def)
  moreover have "?R z3 z4"
    using broker_step.fields [of z3 0 "\<lambda>b. b\<lparr>br_loginPending := True\<rparr>" _ id "\<lambda>_. 0"] unfolding z4_def
    by (simp add: z3_def z2_def z1_def quiet_a_def NewBroker_def)
  moreover have "?R z4 z5"
    using broker_step.ask [of z4 0 "AskLogin login_op" "\<lambda>a. control_sent login_op (a \<noteq> None)" id "\<lambda>_. 0" "Some undefined"] unfolding z5_def
    by (simp add: z4_def)
  ultimately have "?R\<^sup>*\<^sup>* quiet_a z5" by (meson rtranclp.rtrancl_into_rtrancl rtranclp.rtrancl_refl)
  moreover have "z_sent z5 = [(lit ''account/login/start'', login_op)]"
    by (simp add: z5_def z4_def z3_def z2_def z1_def quiet_a_def sent_def)
  ultimately show ?thesis by blast
qed

theorem actor_asked_at_most_once_witness:
  "\<exists>z st. (broker_step id (\<lambda>_. 0))\<^sup>*\<^sup>* quiet_a z \<and> z_sent z = [(lit ''account/login/start'', login_op)] \<and>
     ad_session (y_disk (z_sys z)) = Some st \<and> known login_op st"
proof -
  have "quiescent quiet_a" by (simp add: quiescent_def quiet_a_def)
  with login_asks actor_asked_at_most_once [of quiet_a id "\<lambda>_. 0"] show ?thesis by fastforce
qed

end
