(* ===== verification/Inspection.thy ===== *)
theory Inspection
  imports Broker
begin

text \<open>
  The routes of \<open>internal/agentenv/broker.go\<close> that only read a session: what is retained of an
  operation, and the events after a cursor. An answer is a constructor per branch, with what the
  response carries; the texts that go with a status are left out.
\<close>

subsection \<open>One operation\<close>

datatype inspection =
    OtherScope                     \<comment> \<open>409, evidence unknown\<close>
  | RetainedOperation operation
  | RetainedControl agent_control
  | OtherIncarnation               \<comment> \<open>the conflict error\<close>
  | NoEvidence                     \<comment> \<open>409, evidence unknown\<close>
  | DurableNonAcceptance bytes bytes  \<comment> \<open>404, with incarnation and session\<close>

definition inspect_operation :: "agent_state \<Rightarrow> bytes \<Rightarrow> bytes \<Rightarrow> bytes \<Rightarrow> inspection" where
  "inspect_operation s i session inc =
     (if session \<noteq> a_SessionID s \<or> inc = [] then OtherScope
      else case map_of (a_Operations s) i of
        None \<Rightarrow>
          (case map_of (a_Controls s) i of
             Some control \<Rightarrow> if inc \<noteq> c_Incarnation control then OtherIncarnation else RetainedControl control
           | None \<Rightarrow> if inc \<noteq> a_Incarnation s then NoEvidence
                     else DurableNonAcceptance (a_Incarnation s) (a_SessionID s))
      | Some op \<Rightarrow> if inc \<noteq> op_Incarnation op then OtherIncarnation else RetainedOperation op)"

text \<open>
  C15. A report that an operation was not accepted is true: in every state that handlers reach, when
  the inspection of an identity answers with durable non-acceptance, the actor has not been asked
  anything for that identity, and no handler that still runs may ask it.
\<close>

theorem non_acceptance_is_true:
  assumes "quiescent z0" and "(broker_step sha len)\<^sup>*\<^sup>* z0 z" and "y_store (z_sys z) = Some m"
    and "inspect_operation (g_s m) i session inc = DurableNonAcceptance inc' session'"
  shows "(\<forall>method. (method, i) \<notin> set (z_sent z)) \<and>
    (\<forall>n c f. z_threads z n = Some (Ask c f) \<longrightarrow> (\<forall>method. (method, i) \<notin> set (sent c)))"
proof -
  have unknown: "\<not> durable (known i) (z_sys z)"
    using assms(3,4) by (auto simp: durable_def known_def inspect_operation_def split: if_splits option.splits)
  have "broker_inv z" using assms(1,2) by (rule reached_inv)
  then obtain G where G: "recorded_ids (set (z_sent z)) (z_sys z)" "holding G z"
    by (auto simp: broker_inv_def)
  have "set (sent c) \<subseteq> G n \<and> recorded_ids (G n) (z_sys z)" if "z_threads z n = Some (Ask c f)" for n c f
    using G(2) that by (fastforce simp: holding_def)
  then show ?thesis using unknown G(1) unfolding recorded_ids_def by blast
qed

theorem non_acceptance_is_true_witness:
  "inspect_operation (g_s store_a) login_op (lit ''s'') (lit ''i1'') = DurableNonAcceptance (lit ''i1'') (lit ''s'') \<and>
   (\<forall>method. (method, login_op) \<notin> set (z_sent quiet_a))"
proof -
  have "inspect_operation (g_s store_a) login_op (lit ''s'') (lit ''i1'') = DurableNonAcceptance (lit ''i1'') (lit ''s'')"
    by (simp add: inspect_operation_def store_a_def fresh_state_def login_op_def lit_def op_a_def)
  moreover from this have "\<forall>method. (method, login_op) \<notin> set (z_sent quiet_a)"
    using non_acceptance_is_true [of quiet_a id "\<lambda>_. 0" quiet_a store_a]
    by (simp add: quiescent_def quiet_a_def session_a_def)
  ultimately show ?thesis by blast
qed

subsection \<open>Events\<close>

datatype events_answer = InvalidCursor | BeyondJournal | Page "agent_event list" nat  \<comment> \<open>the events and the next cursor\<close>

definition events_after :: "agent_state \<Rightarrow> bytes \<Rightarrow> events_answer" where
  "events_after s text =
     (let answer = (\<lambda>after. let last = length (a_Events s) in
            if int last < after then BeyondJournal
            else Page (filter (\<lambda>e. after < int (ev_Sequence e)) (a_Events s)) last)
      in if text = [] then answer 0
         else case parse_uint text 0 of Val after \<Rightarrow> answer after | _ \<Rightarrow> InvalidCursor)"

text \<open>A cursor is a position: the page after it is what follows in the journal.\<close>

lemma filter_after:
  "map ev_Sequence es = [k + 1..<k + length es + 1] \<Longrightarrow> k \<le> n \<Longrightarrow> filter (\<lambda>e. n < ev_Sequence e) es = drop (n - k) es"
proof (induction es arbitrary: k)
  case (Cons e es)
  have tl: "ev_Sequence e = k + 1" "map ev_Sequence es = [Suc k + 1..<Suc k + length es + 1]"
    using Cons.prems(1) by (auto simp: upt_conv_Cons simp del: upt_Suc)
  show ?case
  proof (cases "n = k")
    case True
    have "\<forall>x \<in> set es. n < ev_Sequence x"
    proof
      fix x assume "x \<in> set es"
      then have "ev_Sequence x \<in> set (map ev_Sequence es)" by simp
      then have "ev_Sequence x \<in> {Suc k + 1..<Suc k + length es + 1}" unfolding tl(2) set_upt .
      then show "n < ev_Sequence x" using True by simp
    qed
    then show ?thesis using tl(1) True by (simp add: filter_id_conv)
  next
    case False
    then have "n - k = Suc (n - Suc k)" using Cons.prems(2) by simp
    then show ?thesis using Cons.IH [OF tl(2)] tl(1) Cons.prems(2) False by simp
  qed
qed simp

lemma events_after_cursor:
  assumes "journal_ok s" and "n \<le> length (a_Events s)"
  shows "events_after s (itoa_nat n) = Page (drop n (a_Events s)) (length (a_Events s))"
proof -
  have "length (a_Events s) \<le> 8192" "map ev_Sequence (a_Events s) = [0 + 1..<0 + length (a_Events s) + 1]"
    using assms(1) by (simp_all add: journal_ok_def)
  with filter_after [of "a_Events s" 0 n] assms(2) show ?thesis
    by (simp add: events_after_def parse_uint_itoa_nat)
qed

text \<open>
  A reader that asks again and again, each time from the cursor it was given, while the store
  carries out operations between its requests: all the events it was given.
\<close>

fun watch :: "(bytes \<Rightarrow> bytes) \<Rightarrow> (agent_state \<Rightarrow> nat) \<Rightarrow> (store_op \<times> persist_calls) list list \<Rightarrow> agent_sys \<Rightarrow> nat \<Rightarrow>
    (agent_event list \<times> agent_sys) option" where
  "watch sha len [] y cursor = Some ([], y)"
| "watch sha len (batch # rest) y cursor =
     (let y = fst (run (agent_step sha len) (map (\<lambda>(x, c). Do x c) batch) y) in
      case y_store y of
        None \<Rightarrow> None
      | Some m \<Rightarrow>
          (case events_after (g_s m) (itoa_nat cursor) of
             Page es cursor' \<Rightarrow> map_option (\<lambda>(more, z). (es @ more, z)) (watch sha len rest y cursor')
           | _ \<Rightarrow> None))"

definition shows_events :: "agent_event list \<Rightarrow> agent_sys \<Rightarrow> bool" where
  "shows_events es y \<longleftrightarrow> everywhere journal_ok y \<and> (\<exists>m. y_store y = Some m \<and> a_Events (g_s m) = es)"

lemma batch_shows:
  assumes "shows_events es y"
  shows "\<exists>more. shows_events (es @ more) (fst (run (agent_step sha len) (map (\<lambda>(x, c). Do x c) batch) y))"
  using assms
proof (induction batch arbitrary: y es)
  case (Cons b batch)
  obtain x c where b: "b = (x, c)" by fastforce
  obtain m where m: "y_store y = Some m" "a_Events (g_s m) = es" using Cons.prems by (auto simp: shows_events_def)
  obtain r m' k' where p: "perform len c m (y_disk y) (decide sha x m) = (r, m', k')" by (metis prod.exhaust)
  have "store_extends (g_s m) (g_s m') \<or> m' = m"
    using perform_cases [OF p] decide_keeps [of m sha x] by (auto simp: commits_def)
  then have "\<exists>more. a_Events (g_s m') = es @ more"
    using m(2) by (auto simp: store_extends_def grows_def)
  then obtain more where more: "a_Events (g_s m') = es @ more" ..
  have "shows_events (es @ more) (fst (agent_step sha len (Do x c) y))"
    using Cons.prems agent_step_ok [of y sha len "Do x c"] m p more by (simp add: shows_events_def)
  from Cons.IH [OF this] show ?case
    by (auto simp: b Let_def split_beta simp del: agent_step.simps)
qed (auto intro: exI [of _ "[]"])

lemma watch_events:
  assumes "shows_events es y"
  shows "\<exists>more z. watch sha len batches y (length es) = Some (more, z) \<and> shows_events (es @ more) z"
  using assms
proof (induction batches arbitrary: y es)
  case (Cons b rest)
  let ?y = "fst (run (agent_step sha len) (map (\<lambda>(x, c). Do x c) b) y)"
  obtain more where y: "shows_events (es @ more) ?y" using batch_shows [OF Cons.prems] by blast
  then obtain m where m: "y_store ?y = Some m" "a_Events (g_s m) = es @ more" "journal_ok (g_s m)"
    by (auto simp: shows_events_def everywhere_def)
  have "events_after (g_s m) (itoa_nat (length es)) = Page more (length (es @ more))"
    using events_after_cursor [OF m(3), of "length es"] m(2) by simp
  with Cons.IH [OF y] m(1) show ?case by (auto simp: Let_def)
qed auto

text \<open>
  C21. A reader of the events misses nothing and sees nothing twice: whatever operations the store
  carries out between its requests, failed writes included, a reader that starts at the beginning
  and asks each time from the cursor it was given is always answered, and what it was given, page
  after page, is exactly the events the store holds.
\<close>

theorem every_event_seen_once:
  assumes "y = fst (run (agent_step sha len) xs no_session)" and "y_store y \<noteq> None" and "batches \<noteq> []"
  shows "\<exists>es z m. watch sha len batches y 0 = Some (es, z) \<and> y_store z = Some m \<and> a_Events (g_s m) = es"
proof -
  have ok: "everywhere journal_ok y" unfolding assms(1) by (rule run_ok) (simp add: everywhere_def no_session_def)
  obtain b rest where b: "batches = b # rest" using assms(3) by (cases batches) auto
  let ?y = "fst (run (agent_step sha len) (map (\<lambda>(x, c). Do x c) b) y)"
  obtain m where "y_store y = Some m" using assms(2) by auto
  then have "shows_events (a_Events (g_s m)) y" using ok by (simp add: shows_events_def)
  then obtain es where y: "shows_events es ?y" using batch_shows by blast
  then obtain m' where m: "y_store ?y = Some m'" "a_Events (g_s m') = es" "journal_ok (g_s m')"
    by (auto simp: shows_events_def everywhere_def)
  have "events_after (g_s m') (itoa_nat 0) = Page es (length es)"
    using events_after_cursor [OF m(3), of 0] m(2) by simp
  with watch_events [OF y, of sha len rest] m(1) show ?thesis
    by (auto simp: b Let_def shows_events_def)
qed

definition calls_b :: open_calls where
  "calls_b = \<lparr>oc_dir = True, oc_lock = True, oc_read = True, oc_persist = \<lparr>pc_marshal = True, pc_file = calls_ok\<rparr>, oc_marker = True\<rparr>"

definition opened_b :: agent_sys where
  "opened_b = fst (run (agent_step id (\<lambda>_. 0)) [Restart (lit ''e'') (lit ''s'') (lit ''i1'') calls_b] no_session)"

lemma opened_b_store: "\<exists>m. y_store opened_b = Some m \<and> \<not> g_fatal m \<and> a_Incarnation (g_s m) = lit ''i1'' \<and> a_Events (g_s m) = []"
proof -
  have "validID (lit ''e'')" "validID (lit ''s'')" "validID (lit ''i1'')" by code_simp+
  then show ?thesis
    by (simp add: opened_b_def agent_Open_def open_state_def no_session_def calls_b_def persist_def fresh_state_def Let_def)
qed

theorem every_event_seen_once_witness:
  "\<exists>es z m. watch id (\<lambda>_. 0) [[(DoObserve (lit ''i1'') (lit ''error'') [] [] (Some no_params), \<lparr>pc_marshal = True, pc_file = calls_ok\<rparr>)], []]
     opened_b 0 = Some (es, z) \<and> y_store z = Some m \<and> a_Events (g_s m) = es"
  using every_event_seen_once [OF opened_b_def] opened_b_store by blast

text \<open>
  An event whose write failed is shown all the same, and is gone after a restart: a reader that was
  given it is then told that its cursor is beyond the journal.
\<close>

theorem unsaved_event_is_shown:
  assumes "decide sha x m = Commit st None" and "a_Events st = a_Events (g_s m) @ [e]" and "journal_ok (g_s m)"
    and "ad_session k = Some (g_s m)" and "\<not> pc_marshal c"
    and "y = fst (agent_step sha len (Do x c) \<lparr>y_store = Some m, y_disk = k\<rparr>)"
  shows "(\<exists>m'. y_store y = Some m' \<and>
      events_after (g_s m') (itoa_nat (length (a_Events (g_s m)))) = Page [e] (length (a_Events (g_s m)) + 1)) \<and>
    (\<forall>m'. y_store (fst (run (agent_step sha len) [Crash, Restart environment session inc calls] y)) = Some m' \<longrightarrow>
      events_after (g_s m') (itoa_nat (length (a_Events (g_s m)) + 1)) = BeyondJournal)"
proof -
  have st: "journal_ok st" using decide_ok [OF assms(3), of sha x] assms(1) by simp
  have y: "y = \<lparr>y_store = Some \<lparr>g_s = st, g_fatal = True\<rparr>, y_disk = k\<rparr>"
    using assms(1,5) unfolding assms(6) by (simp add: perform_def save_store_def persist_def)
  have "a_Events (g_s m') = a_Events (g_s m)"
    if "agent_Open len environment session inc calls k = (Inr m', k')" for m' k'
    using that assms(4) by (auto simp: agent_Open_def open_state_def reopened_def Let_def split: if_splits sum.splits save_outcome.splits)
  moreover have "int (length (a_Events (g_s m)) + 1) \<le> 18446744073709551615"
    using assms(3) by (simp add: journal_ok_def)
  ultimately have "events_after (g_s m') (itoa_nat (length (a_Events (g_s m)) + 1)) = BeyondJournal"
    if "agent_Open len environment session inc calls k = (Inr m', k')" for m' k'
    using that parse_uint_itoa_nat [of "length (a_Events (g_s m)) + 1"] by (simp add: events_after_def)
  moreover have "events_after st (itoa_nat (length (a_Events (g_s m)))) = Page [e] (length (a_Events (g_s m)) + 1)"
    using events_after_cursor [OF st, of "length (a_Events (g_s m))"] assms(2) by simp
  ultimately show ?thesis unfolding y by (cases "agent_Open len environment session inc calls k") (auto split: sum.splits)
qed

end
