(* ===== verification/EnvData.thy ===== *)
theory EnvData
  imports Controller GoPath
begin

text \<open>
  The data of the environment host of \<open>internal/agentenv\<close>: the owner's configuration and profiles
  (\<open>host.go\<close>, \<open>seat_launch.go\<close>, \<open>fixture.go\<close>), an environment with its actions and fences
  (\<open>host.go\<close>, \<open>harness_switch.go\<close>, \<open>reconcile.go\<close>, \<open>retirement.go\<close>), and a process as
  \<open>internal/proc\<close> lists it. Strings the code uses as enumerations are datatypes; Go's maps are lists
  of entries with one entry a key; times that are only copied are their printed form. A process's CPU
  time, which the host never reads, is left out.
\<close>

subsection \<open>Configuration\<close>

record seat_launch =
  sl_Sandbox :: bytes
  sl_Approvals :: bytes
  sl_NetworkAccess :: "bool option"
  sl_Model :: bytes
  sl_Effort :: bytes
  sl_CWD :: bytes

record qualification_fixture =
  qf_Source :: bytes
  qf_SHA256 :: bytes
  qf_Size :: int
  qf_Destination :: bytes

record environment_profile =
  pf_Mail :: bool
  pf_SeatLaunch :: "seat_launch option"
  pf_ControllerCapabilities :: "bytes list"
  pf_Base :: bytes
  pf_ImageRef :: bytes
  pf_ImageDigest :: bytes
  pf_SourceBundle :: bytes
  pf_SourceSHA :: bytes
  pf_AllowedHosts :: "bytes list"
  pf_Agent :: bytes
  pf_AgentVersion :: bytes
  pf_AgentArchive :: bytes
  pf_AgentArchiveSHA256 :: bytes
  pf_Qualification :: bool
  pf_QualificationFixture :: "qualification_fixture option"
  pf_Seat :: bytes
  pf_SeatDeclarationSHA256 :: bytes

record host_config =
  hc_SeatLaunch :: "seat_launch option"
  hc_ControllerCapabilities :: "bytes list"
  hc_Root :: bytes
  hc_Helper :: bytes
  hc_Store :: bytes
  hc_Base :: bytes
  hc_Kernel :: bytes
  hc_InitRef :: bytes
  hc_InitDigest :: bytes
  hc_ImageRef :: bytes
  hc_ImageDigest :: bytes
  hc_GuestBinary :: bytes
  hc_ShimBinary :: bytes
  hc_CodexArchive :: bytes
  hc_CodexArchiveSHA256 :: bytes
  hc_SourceBundle :: bytes
  hc_SourceSHA :: bytes
  hc_GoProxySocket :: bytes
  hc_AllowedHosts :: "bytes list"
  hc_MailOrigin :: bytes
  hc_MaxLive :: int
  hc_CPUs :: int
  hc_MemoryBytes :: "64 word"
  hc_Profiles :: "(bytes \<times> environment_profile) list"
  hc_Agent :: bytes
  hc_AgentVersion :: bytes
  hc_QualificationFixture :: "qualification_fixture option"
  hc_SeatRoot :: bytes
  hc_SeatHere :: bytes
  hc_Seat :: bytes
  hc_SeatDeclarationSHA256 :: bytes

subsection \<open>Environments\<close>

record vm_spec =
  v_RequireRetainedDisk :: bool
  v_HostConfig :: host_config
  v_Environment :: bytes
  v_Profile :: bytes
  v_Session :: bytes
  v_Incarnation :: bytes
  v_Directory :: bytes
  v_Rootfs :: bytes
  v_ControlSocket :: bytes
  v_EgressSocket :: bytes
  v_MailSocket :: bytes

datatype env_phase = Created | Launching | Running | Revoking | Stopped | Fenced | Reconciling | ExecutionUnknown | Retired

datatype action_kind = KCreate | KStart | KStop | KReplace | KReconcile | KRetire

datatype action_state = ADispatching | ACompleted | AAcceptanceUnknown | AExecutionUnknown | ACleanupPending

record harness_switch =
  hs_SessionID :: bytes
  hs_FromProfile :: bytes
  hs_TargetProfile :: bytes
  hs_FromAgent :: bytes
  hs_TargetAgent :: bytes
  hs_TargetBinding :: bytes
  hs_Selected :: bool  \<comment> \<open>its phase: prepared or selected\<close>

record fence =
  f_Incarnation :: bytes
  f_ScopeID :: bytes
  f_NetworkRevoked :: bool
  f_AdapterAccessRevoked :: bool
  f_WorkspaceWriteRevoked :: bool
  f_TerminationConfirmed :: bool
  f_State :: bytes

record retire_request =
  rr_OperationID :: bytes
  rr_SessionID :: bytes
  rr_Incarnation :: bytes
  rr_FenceOperation :: bytes
  rr_Mode :: bytes
  rr_RetentionReference :: bytes
  rr_ResumeCleanup :: bool

record retirement =
  rt_Request :: retire_request
  rt_InputSHA256 :: bytes
  rt_WorkspaceState :: bytes
  rt_Device :: "64 word"
  rt_Inode :: "64 word"
  rt_Bytes :: int
  rt_EvidenceFile :: bytes
  rt_EvidenceSHA256 :: bytes

record env_action =
  ac_Switch :: "harness_switch option"
  ac_Kind :: action_kind
  ac_Expected :: bytes
  ac_State :: action_state
  ac_Fence :: "fence option"
  ac_Reconciliation :: "reconciliation option"
  ac_Retirement :: "retirement option"
  ac_ResultingIncarnation :: bytes

record process =
  pr_PID :: int
  pr_UID :: int
  pr_Start :: bytes
  pr_Args :: bytes

record helper_exit =
  hx_Incarnation :: bytes
  hx_PID :: int
  hx_ObservedAt :: bytes
  hx_ExitCode :: int
  hx_Signal :: int

record environment =
  e_Spec :: vm_spec
  e_Phase :: env_phase
  e_Process :: process
  e_Actions :: "(bytes \<times> env_action) list"
  e_LastFence :: "fence option"
  e_CurrentReconciliation :: bytes
  e_LaunchRevoked :: "bytes list"
  e_HelperExit :: "helper_exit option"

text \<open>What the native probe of executors and writers is asked, and answers.\<close>

record probe_request =
  pq_Environment :: bytes
  pq_Session :: bytes
  pq_Incarnation :: bytes
  pq_Operation :: bytes
  pq_Rootfs :: bytes
  pq_Helper :: bytes
  pq_PID :: int
  pq_UID :: int
  pq_Birth :: int
  pq_WorkspaceAbsent :: bool
  pq_Container :: bytes

record probe_evidence =
  pe_Environment :: bytes
  pe_Session :: bytes
  pe_Incarnation :: bytes
  pe_Operation :: bytes
  pe_ObservedAt :: bytes
  pe_Coverage :: bytes
  pe_ObserverUID :: int
  pe_ProcessCount :: int
  pe_OwnProcessesChecked :: int
  pe_VnodeDescriptorsChecked :: int
  pe_FileportsChecked :: int
  pe_RegionsChecked :: int
  pe_KernelZombiesChecked :: "int list option"
  pe_RootfsDevice :: "32 word"
  pe_RootfsInode :: "64 word"
  pe_WorkspaceAbsent :: bool
  pe_ContainerAbsent :: bool
  pe_Issues :: "bytes list option"
  pe_Confirmed :: bool

subsection \<open>Encodings that are hashed\<close>

text \<open>A nil slice is encoded as null.\<close>

definition list_json :: "('a \<Rightarrow> jvalue) \<Rightarrow> 'a list option \<Rightarrow> jvalue" where
  "list_json f xs = (case xs of None \<Rightarrow> JNull | Some xs \<Rightarrow> JArr (map f xs))"

definition evidence_json :: "probe_evidence \<Rightarrow> jvalue" where
  "evidence_json v = JObj [
     (lit ''environment'', JStr (pe_Environment v)),
     (lit ''session'', JStr (pe_Session v)),
     (lit ''incarnation'', JStr (pe_Incarnation v)),
     (lit ''operation'', JStr (pe_Operation v)),
     (lit ''observedAt'', JStr (pe_ObservedAt v)),
     (lit ''coverage'', JStr (pe_Coverage v)),
     (lit ''observerUID'', JNum (pe_ObserverUID v)),
     (lit ''processCount'', JNum (pe_ProcessCount v)),
     (lit ''ownProcessesChecked'', JNum (pe_OwnProcessesChecked v)),
     (lit ''vnodeDescriptorsChecked'', JNum (pe_VnodeDescriptorsChecked v)),
     (lit ''fileportsChecked'', JNum (pe_FileportsChecked v)),
     (lit ''regionsChecked'', JNum (pe_RegionsChecked v)),
     (lit ''kernelZombiesChecked'', list_json JNum (pe_KernelZombiesChecked v)),
     (lit ''rootfsDevice'', JNum (uint (pe_RootfsDevice v))),
     (lit ''rootfsInode'', JNum (uint (pe_RootfsInode v))),
     (lit ''workspaceAbsent'', JBool (pe_WorkspaceAbsent v)),
     (lit ''containerAbsent'', JBool (pe_ContainerAbsent v)),
     (lit ''issues'', list_json JStr (pe_Issues v)),
     (lit ''confirmed'', JBool (pe_Confirmed v))]"

definition reconcile_json :: "reconcile_request \<Rightarrow> jvalue" where
  "reconcile_json r = JObj [
     (lit ''operation_id'', JStr (rq_OperationID r)),
     (lit ''session_id'', JStr (rq_SessionID r)),
     (lit ''expected_incarnation'', JStr (rq_Incarnation r)),
     (lit ''launch_operation'', JStr (rq_LaunchOperation r)),
     (lit ''fence_operation'', JStr (rq_FenceOperation r))]"

definition helper_exit_json :: "helper_exit \<Rightarrow> jvalue" where
  "helper_exit_json x = JObj [
     (lit ''incarnation'', JStr (hx_Incarnation x)),
     (lit ''pid'', JNum (hx_PID x)),
     (lit ''observed_at'', JStr (hx_ObservedAt x)),
     (lit ''exit_code'', JNum (hx_ExitCode x)),
     (lit ''signal'', JNum (hx_Signal x))]"

text \<open>\<open>resume_cleanup\<close> is left out when it is false.\<close>

definition retire_json :: "retire_request \<Rightarrow> jvalue" where
  "retire_json r = JObj ([
     (lit ''operation_id'', JStr (rr_OperationID r)),
     (lit ''session_id'', JStr (rr_SessionID r)),
     (lit ''expected_incarnation'', JStr (rr_Incarnation r)),
     (lit ''fence_operation'', JStr (rr_FenceOperation r)),
     (lit ''mode'', JStr (rr_Mode r)),
     (lit ''retention_reference'', JStr (rr_RetentionReference r))] @
     (if rr_ResumeCleanup r then [(lit ''resume_cleanup'', JBool True)] else []))"

definition seat_launch_json :: "seat_launch option \<Rightarrow> jvalue" where
  "seat_launch_json l =
     (case l of
        None \<Rightarrow> JNull
      | Some l \<Rightarrow> JObj [
          (lit ''sandbox'', JStr (sl_Sandbox l)),
          (lit ''approvals'', JStr (sl_Approvals l)),
          (lit ''network_access'', case sl_NetworkAccess l of None \<Rightarrow> JNull | Some b \<Rightarrow> JBool b),
          (lit ''model'', JStr (sl_Model l)),
          (lit ''effort'', JStr (sl_Effort l)),
          (lit ''cwd'', JStr (sl_CWD l))])"

end
