(* ===== verification/EnvConfig.thy ===== *)
theory EnvConfig
  imports EnvData
begin

text \<open>
  The owner's configuration: \<open>ValidateAgent\<close>, \<open>profileConfig\<close> and the checks of \<open>OpenHost\<close> in
  \<open>internal/agentenv/host.go\<close>, \<open>SeatLaunch.Validate\<close>, and the choice of a harness in
  \<open>harness_switch.go\<close>. Checks that read files or parse addresses (fixtures, mail origins, egress
  names, the harness archive) are arguments.
\<close>

subsection \<open>Formats\<close>

text \<open>\<open>^[0-9]+(\.[0-9]+){0,3}$\<close>\<close>

definition agentVersion :: "bytes \<Rightarrow> bool" where
  "agentVersion s \<longleftrightarrow>
     (let parts = split_on 0x2e s in length parts \<le> 4 \<and> list_all (\<lambda>p. p \<noteq> [] \<and> list_all is_digit p) parts)"

text \<open>\<open>^[a-zA-Z0-9][a-zA-Z0-9_-]{0,127}$\<close>\<close>

definition environmentID :: "bytes \<Rightarrow> bool" where
  "environmentID s \<longleftrightarrow> s \<noteq> [] \<and> length s \<le> 128 \<and> alnum (hd s) \<and> list_all (\<lambda>c. alnum c \<or> c = 0x5f \<or> c = 0x2d) (tl s)"

text \<open>\<open>^[a-z][a-z0-9-]{0,62}$\<close>\<close>

definition seatProfileName :: "bytes \<Rightarrow> bool" where
  "seatProfileName s \<longleftrightarrow> s \<noteq> [] \<and> length s \<le> 63 \<and> 0x61 \<le> hd s \<and> hd s \<le> 0x7a \<and>
     list_all (\<lambda>c. (0x61 \<le> c \<and> c \<le> 0x7a) \<or> is_digit c \<or> c = 0x2d) (tl s)"

text \<open>\<open>^[0-9a-f]{40}$\<close>\<close>

definition hex40 :: "bytes \<Rightarrow> bool" where
  "hex40 s \<longleftrightarrow> length s = 40 \<and> list_all (\<lambda>c. (0x30 \<le> c \<and> c \<le> 0x39) \<or> (0x61 \<le> c \<and> c \<le> 0x66)) s"

text \<open>\<open>^sha256:[0-9a-f]{64}$\<close>\<close>

definition sha256_digest :: "bytes \<Rightarrow> bool" where
  "sha256_digest s \<longleftrightarrow> has_prefix s (lit ''sha256:'') \<and> hex64 (drop 7 s)"

definition has_suffix :: "bytes \<Rightarrow> bytes \<Rightarrow> bool" where
  "has_suffix s p \<longleftrightarrow> has_prefix (rev s) (rev p)"

subsection \<open>Agents and launch settings\<close>

definition ValidateAgent :: "host_config \<Rightarrow> agent_error option" where
  "ValidateAgent c =
     (if hc_Agent c = [] \<or> hc_Agent c = lit ''codex'' then
        if hc_AgentVersion c \<noteq> [] \<and> (hc_Seat c = [] \<or> hc_AgentVersion c \<noteq> lit ''0.160.0'')
        then Some (Message ''Codex requires the supported pinned version 0.160.0'') else None
      else if hc_Agent c = lit ''claude'' then
        if \<not> agentVersion (hc_AgentVersion c) then Some (Message ''the claude agent needs a pinned numeric agentVersion'')
        else if hc_ControllerCapabilities c \<noteq> [] \<and> hc_AgentVersion c \<noteq> lit ''2.1.280''
        then Some (Message ''controller capabilities are not qualified for this claude agent version'') else None
      else Some (Message ''unknown agent''))"

definition seat_launch_Validate :: "seat_launch option \<Rightarrow> agent_error option" where
  "seat_launch_Validate launch =
     (case launch of
        None \<Rightarrow> Some (Message ''Codex seat needs declared launch settings and explicit network access'')
      | Some l \<Rightarrow>
          (case sl_NetworkAccess l of
             None \<Rightarrow> Some (Message ''Codex seat needs declared launch settings and explicit network access'')
           | Some network \<Rightarrow>
               if sl_Sandbox l \<notin> {lit ''read-only'', lit ''workspace-write'', lit ''danger-full-access''}
               then Some (Message ''unknown declared sandbox'')
               else if sl_Approvals l \<noteq> lit ''never'' \<and> sl_Approvals l \<noteq> lit ''on-request''
               then Some (Message ''unknown declared approval policy'')
               else if \<not> ident128 (sl_Model l) then Some (Message ''declared model must be a bounded identifier'')
               else if sl_Effort l \<noteq> lit ''medium'' \<and> sl_Effort l \<noteq> lit ''high'' then Some (Message ''unknown declared effort'')
               else if sl_CWD l \<noteq> lit ''/work''
               then Some (Message ''the current seat source materializer supports declared cwd /work only'')
               else if sl_Sandbox l = lit ''read-only'' \<and> network
               then Some (Message ''read-only cannot promise the workspace-write network override'')
               else if sl_Sandbox l = lit ''danger-full-access'' \<and> \<not> network
               then Some (Message ''danger-full-access cannot promise a disabled tool network'') else None))"

definition profileConfig :: "host_config \<Rightarrow> bytes \<Rightarrow> agent_error + host_config" where
  "profileConfig config name =
     (let c = config\<lparr>hc_Profiles := []\<rparr> in
      if name = [] then Inr c
      else case map_of (hc_Profiles config) name of
        None \<Rightarrow> Inl (Message ''unknown owner environment profile'')
      | Some p \<Rightarrow>
          let c = c\<lparr>hc_Base := pf_Base p, hc_ImageRef := pf_ImageRef p, hc_ImageDigest := pf_ImageDigest p,
                    hc_SourceBundle := pf_SourceBundle p, hc_SourceSHA := pf_SourceSHA p,
                    hc_AllowedHosts := pf_AllowedHosts p, hc_ControllerCapabilities := pf_ControllerCapabilities p\<rparr>;
              c = (if pf_Agent p \<noteq> [] then c\<lparr>hc_Agent := pf_Agent p, hc_AgentVersion := pf_AgentVersion p\<rparr> else c);
              c = (if pf_AgentArchive p \<noteq> []
                   then c\<lparr>hc_CodexArchive := pf_AgentArchive p, hc_CodexArchiveSHA256 := pf_AgentArchiveSHA256 p\<rparr> else c);
              c = c\<lparr>hc_Seat := pf_Seat p, hc_SeatDeclarationSHA256 := pf_SeatDeclarationSHA256 p, hc_SeatLaunch := pf_SeatLaunch p\<rparr>;
              c = (if pf_Mail p then c else c\<lparr>hc_MailOrigin := []\<rparr>)
          in Inr (c\<lparr>hc_QualificationFixture := (if pf_Qualification p then pf_QualificationFixture p else None)\<rparr>))"

subsection \<open>The checks of OpenHost\<close>

text \<open>
  What is checked outside: whether a mail relay can be made for a seat, whether a fixture is in the
  owner's custody for an agent, and whether the names are exact DNS names.
\<close>

record config_checks =
  cc_mail :: "bytes \<Rightarrow> bytes \<Rightarrow> bool"
  cc_fixture :: "bytes \<Rightarrow> qualification_fixture \<Rightarrow> bytes \<Rightarrow> bool"
  cc_egress :: "bytes list \<Rightarrow> bool"

definition profile_seat_ok :: "environment_profile \<Rightarrow> host_config \<Rightarrow> bool" where
  "profile_seat_ok p effective \<longleftrightarrow>
     seatProfileName (pf_Seat p) \<and>
     (hc_Agent effective = lit ''claude'' \<or> hc_Agent effective = lit ''codex'' \<and> hc_AgentVersion effective = lit ''0.160.0'') \<and>
     pf_ControllerCapabilities p = [] \<and> \<not> pf_Qualification p"

definition profile_inputs_ok :: "bytes \<Rightarrow> environment_profile \<Rightarrow> bool" where
  "profile_inputs_ok name p \<longleftrightarrow> environmentID name \<and> IsAbs (pf_Base p) \<and> IsAbs (pf_SourceBundle p) \<and> hex40 (pf_SourceSHA p) \<and>
     sha256_digest (pf_ImageDigest p) \<and> has_suffix (pf_ImageRef p) (lit ''@'' @ pf_ImageDigest p)"

definition profile_archive_ok :: "environment_profile \<Rightarrow> bool" where
  "profile_archive_ok p \<longleftrightarrow> (pf_AgentArchive p = []) = (pf_AgentArchiveSHA256 p = []) \<and>
     (pf_AgentArchive p = [] \<or> IsAbs (pf_AgentArchive p) \<and> hex64 (pf_AgentArchiveSHA256 p))"

definition check_profile :: "config_checks \<Rightarrow> host_config \<Rightarrow> bytes \<Rightarrow> environment_profile \<Rightarrow> agent_error option" where
  "check_profile k config name p =
     (let effective = (let c = config\<lparr>hc_Seat := pf_Seat p, hc_ControllerCapabilities := pf_ControllerCapabilities p\<rparr> in
            if pf_Agent p \<noteq> [] then c\<lparr>hc_Agent := pf_Agent p, hc_AgentVersion := pf_AgentVersion p\<rparr> else c);
          fixture_agent = (if pf_Agent p \<noteq> [] then pf_Agent p else hc_Agent config);
          agent = (if hc_Agent effective = [] then lit ''codex'' else hc_Agent effective)
      in if pf_Mail p \<and> pf_Seat p = [] then Some (Message ''mail belongs to an owner-bound seat profile'')
         else if pf_Mail p \<and> \<not> cc_mail k (pf_Seat p) (hc_MailOrigin config) then Some (Message ''mail'')
         else if pf_QualificationFixture p \<noteq> None \<and> \<not> pf_Qualification p
         then Some (Message ''a qualification fixture needs a profile marked qualification'')
         else if (case pf_QualificationFixture p of None \<Rightarrow> False | Some f \<Rightarrow> \<not> cc_fixture k (hc_Root config) f fixture_agent)
         then Some (Message ''qualification fixture'')
         else if ValidateControllerCapabilities (pf_ControllerCapabilities p) \<noteq> None
         then ValidateControllerCapabilities (pf_ControllerCapabilities p)
         else if pf_Seat p \<noteq> [] \<and> agent = lit ''codex'' \<and> seat_launch_Validate (pf_SeatLaunch p) \<noteq> None
         then seat_launch_Validate (pf_SeatLaunch p)
         else if \<not> (pf_Seat p \<noteq> [] \<and> agent = lit ''codex'') \<and> pf_SeatLaunch p \<noteq> None
         then Some (Message ''declared Codex launch settings belong to a Codex seat profile'')
         else if pf_Seat p \<noteq> [] \<and> \<not> profile_seat_ok p effective
         then Some (Message ''a seat profile names a seat, runs a pinned supported coding agent, and has no controller capabilities or qualification fixture'')
         else if (pf_Seat p \<noteq> []) \<noteq> (pf_SeatDeclarationSHA256 p \<noteq> []) \<or> pf_Seat p \<noteq> [] \<and> \<not> hex64 (pf_SeatDeclarationSHA256 p)
         then Some (Message ''a seat profile names the sha256 of the declaration it was compiled from, and only a seat profile does'')
         else if ValidateAgent effective \<noteq> None then ValidateAgent effective
         else if \<not> profile_archive_ok p then Some (Message ''an agent archive needs an absolute path and its sha256'')
         else if \<not> profile_inputs_ok name p then Some (Message ''invalid owner environment profile'')
         else if \<not> cc_egress k (pf_AllowedHosts p) then Some (Message ''egress needs exact lower-case DNS names'')
         else None)"

text \<open>Profiles are checked in any order; the first refusal is reported.\<close>

fun check_profiles :: "config_checks \<Rightarrow> host_config \<Rightarrow> (bytes \<times> environment_profile) list \<Rightarrow> agent_error option" where
  "check_profiles k config [] = None"
| "check_profiles k config ((name, p) # ps) =
     (case check_profile k config name p of Some e \<Rightarrow> Some e | None \<Rightarrow> check_profiles k config ps)"

definition check_config :: "config_checks \<Rightarrow> host_config \<Rightarrow> agent_error option" where
  "check_config k config =
     (if ValidateControllerCapabilities (hc_ControllerCapabilities config) \<noteq> None
      then ValidateControllerCapabilities (hc_ControllerCapabilities config)
      else if \<not> IsAbs (hc_Root config) \<or> hc_MaxLive config < 1 \<or> 3 < hc_MaxLive config \<or> hc_CPUs config < 1 \<or> 4 < hc_CPUs config \<or>
              hc_MemoryBytes config < 536870912 \<or> 8589934592 < hc_MemoryBytes config
      then Some (Message ''invalid development resource configuration'')
      else if ValidateAgent config \<noteq> None then ValidateAgent config
      else if hc_Seat config \<noteq> [] \<or> hc_SeatDeclarationSHA256 config \<noteq> [] \<or> hc_SeatLaunch config \<noteq> None
      then Some (Message ''a seat belongs to a seat profile, not the host configuration'')
      else if hc_QualificationFixture config \<noteq> None
      then Some (Message ''a qualification fixture belongs to a qualification profile, not the host configuration'')
      else check_profiles k config (hc_Profiles config))"

subsection \<open>Choosing a harness\<close>

definition harnessName :: "host_config \<Rightarrow> bytes" where
  "harnessName c = (if hc_Agent c = [] then lit ''codex'' else hc_Agent c)"

text \<open>The list of hosts is nil when it is empty: \<open>profileConfig\<close> copies it by appending to nil.\<close>

definition harnessBinding :: "(bytes \<Rightarrow> bytes) \<Rightarrow> host_config \<Rightarrow> bytes" where
  "harnessBinding sha c = sha (marshal (JObj [
     (lit ''Agent'', JStr (harnessName c)),
     (lit ''Version'', JStr (hc_AgentVersion c)),
     (lit ''Archive'', JStr (hc_CodexArchive c)),
     (lit ''ArchiveSHA'', JStr (hc_CodexArchiveSHA256 c)),
     (lit ''Seat'', JStr (hc_Seat c)),
     (lit ''Declaration'', JStr (hc_SeatDeclarationSHA256 c)),
     (lit ''Launch'', seat_launch_json (hc_SeatLaunch c)),
     (lit ''Hosts'', list_json JStr (if hc_AllowedHosts c = [] then None else Some (hc_AllowedHosts c)))]))"

definition same_box :: "host_config \<Rightarrow> host_config \<Rightarrow> bool" where
  "same_box old c \<longleftrightarrow>
     hc_Root old = hc_Root c \<and> hc_Store old = hc_Store c \<and> hc_Helper old = hc_Helper c \<and> hc_Base old = hc_Base c \<and>
     hc_Kernel old = hc_Kernel c \<and> hc_InitRef old = hc_InitRef c \<and> hc_InitDigest old = hc_InitDigest c \<and>
     hc_ImageRef old = hc_ImageRef c \<and> hc_ImageDigest old = hc_ImageDigest c \<and> hc_SourceSHA old = hc_SourceSHA c \<and>
     hc_SourceBundle old = hc_SourceBundle c \<and> hc_GuestBinary old = hc_GuestBinary c \<and> hc_ShimBinary old = hc_ShimBinary c \<and>
     hc_CPUs old = hc_CPUs c \<and> hc_MemoryBytes old = hc_MemoryBytes c"

text \<open>\<open>archive\<close> tells whether the target's archive is a bounded regular file with the pinned digest.\<close>

definition prepareHarnessSwitch :: "(bytes \<Rightarrow> bytes) \<Rightarrow> bool \<Rightarrow> host_config \<Rightarrow> environment \<Rightarrow> bytes \<Rightarrow> bytes \<Rightarrow>
    agent_error + host_config \<times> harness_switch" where
  "prepareHarnessSwitch sha archive config e profile session =
     (let old = v_HostConfig (e_Spec e) in
      if session = [] \<or> session \<noteq> v_Session (e_Spec e) then Inl ErrStale
      else if e_Phase e \<notin> {Running, Stopped, Fenced} then Inl (Message ''harness switch requires an established seat'')
      else if profile = [] \<or> profile = v_Profile (e_Spec e) then Inl (Message ''name a different owner harness profile'')
      else case profileConfig config profile of
        Inl err \<Rightarrow> Inl err
      | Inr c \<Rightarrow>
          if hc_Seat old = [] \<or> hc_Seat c \<noteq> hc_Seat old \<or> hc_QualificationFixture old \<noteq> None \<or>
             hc_QualificationFixture c \<noteq> None \<or> hc_ControllerCapabilities c \<noteq> []
          then Inl (Message ''harness switch requires two interactive profiles for the same seat'')
          else if harnessName old = harnessName c then Inl (Message ''target must select a different harness'')
          else case ValidateAgent c of
            Some err \<Rightarrow> Inl err
          | None \<Rightarrow>
          (case (if harnessName c = lit ''codex'' then seat_launch_Validate (hc_SeatLaunch c)
                 else if hc_SeatLaunch c \<noteq> None then Some (Message ''Claude profile cannot carry Codex launch settings'')
                 else None) of
             Some err \<Rightarrow> Inl err
           | None \<Rightarrow>
               if \<not> IsAbs (hc_CodexArchive c) \<or> \<not> hex64 (hc_CodexArchiveSHA256 c) \<or> \<not> hex64 (hc_SeatDeclarationSHA256 c)
               then Inl (Message ''target needs pinned archive and seat declaration'')
               else if \<not> same_box old c
               then Inl (Message ''target changes retained box inputs or resources; harness switch refused'')
               else if \<not> archive then Inl (Message ''target harness archive'')
               else Inr (c, \<lparr>hs_SessionID = session, hs_FromProfile = v_Profile (e_Spec e), hs_TargetProfile = profile,
                      hs_FromAgent = harnessName old, hs_TargetAgent = harnessName c,
                      hs_TargetBinding = harnessBinding sha c, hs_Selected = False\<rparr>)))"

definition sameHarnessRequest :: "harness_switch option \<Rightarrow> bytes \<Rightarrow> bytes \<Rightarrow> bool" where
  "sameHarnessRequest s profile session \<longleftrightarrow>
     (case s of None \<Rightarrow> profile = [] \<and> session = [] | Some s \<Rightarrow> hs_TargetProfile s = profile \<and> hs_SessionID s = session)"

definition hasHarnessSwitch :: "environment \<Rightarrow> bool" where
  "hasHarnessSwitch e \<longleftrightarrow> list_ex (\<lambda>(_, a). case ac_Switch a of None \<Rightarrow> False | Some s \<Rightarrow> hs_Selected s) (e_Actions e)"

end
