(* ===== verification/EnvHost.thy ===== *)
theory EnvHost
  imports EnvConfig HostPolicy "HOL-Library.List_Lexorder"
begin

text \<open>
  The environment host of \<open>internal/agentenv\<close>: launching and stopping (\<open>host.go\<close>), reconciling
  (\<open>reconcile.go\<close>, \<open>predecessor.go\<close>), switching the harness (\<open>harness_switch.go\<close>) and retiring
  (\<open>retirement.go\<close>). Each operation is a function of the host's memory and disk and of the outcomes
  of the calls it makes. What it does to the world, as far as a theorem speaks of it, is appended
  to a trace.
\<close>

subsection \<open>State\<close>

datatype env_effect =
    Launched bytes bytes bool  \<comment> \<open>an environment, its incarnation, and whether its disk must exist\<close>
  | StopMarker bytes bytes
  | StopObserved bytes bytes  \<comment> \<open>the VM's receipt and the helper's departure\<close>
  | ProbeConfirmed bytes bytes
  | DiskProbed bytes bytes "64 word" "64 word"
  | DiskRemoved bytes "64 word" "64 word"

text \<open>A stop that waits with the environment's operation lock held, and what follows it.\<close>

record pending_action =
  pa_Kind :: action_kind
  pa_OperationID :: bytes
  pa_Target :: "host_config option"

record host_world =
  w_up :: bool
  w_config :: host_config
  w_envs :: "(bytes \<times> environment) list"
  w_gates :: "(bytes \<times> bool) list"  \<comment> \<open>whether an environment's lease is open\<close>
  w_fatal :: bool
  w_waiters :: "(bytes \<times> bytes \<times> int) list"  \<comment> \<open>helpers waited for: environment, incarnation, process\<close>
  w_pending :: "(bytes \<times> pending_action) list"
  w_uid :: int
  w_disk :: "(bytes \<times> environment) list"
  w_trace :: "env_effect list"
  w_drawn :: "bytes list"  \<comment> \<open>the incarnations drawn at random so far\<close>

abbreviation env_id :: "environment \<Rightarrow> bytes" where
  "env_id e \<equiv> v_Environment (e_Spec e)"

abbreviation env_inc :: "environment \<Rightarrow> bytes" where
  "env_inc e \<equiv> v_Incarnation (e_Spec e)"

abbreviation directory :: "environment \<Rightarrow> bytes" where
  "directory e \<equiv> v_Directory (e_Spec e)"

definition set_action :: "bytes \<Rightarrow> env_action \<Rightarrow> environment \<Rightarrow> environment" where
  "set_action i a e = e\<lparr>e_Actions := put i a (e_Actions e)\<rparr>"

definition note_effect :: "env_effect \<Rightarrow> host_world \<Rightarrow> host_world" where
  "note_effect x w = w\<lparr>w_trace := w_trace w @ [x]\<rparr>"

definition store_env :: "environment \<Rightarrow> host_world \<Rightarrow> host_world" where
  "store_env e w = w\<lparr>w_envs := put (env_id e) e (w_envs w)\<rparr>"

text \<open>\<open>save\<close>: a failure is fatal for the host's mutations.\<close>

definition save_env :: "file_calls \<Rightarrow> environment \<Rightarrow> host_world \<Rightarrow> bool \<times> host_world" where
  "save_env c e w =
     (case replace_file c of
        Committed \<Rightarrow> (True, w\<lparr>w_disk := put (env_id e) e (w_disk w)\<rparr>)
      | NotCommitted \<Rightarrow> (False, w\<lparr>w_fatal := True\<rparr>)
      | CommittedUncertain \<Rightarrow> (False, w\<lparr>w_disk := put (env_id e) e (w_disk w), w_fatal := True\<rparr>))"

text \<open>A change of an environment in memory, and its save.\<close>

definition commit_env :: "file_calls \<Rightarrow> environment \<Rightarrow> host_world \<Rightarrow> bool \<times> host_world" where
  "commit_env c e w = save_env c e (store_env e w)"

definition revoke_gate :: "bytes \<Rightarrow> host_world \<Rightarrow> host_world" where
  "revoke_gate i w = (if map_of (w_gates w) i = None then w else w\<lparr>w_gates := put i False (w_gates w)\<rparr>)"

subsection \<open>Processes\<close>

definition find_process :: "process list \<Rightarrow> int \<Rightarrow> process option" where
  "find_process ps pid = List.find (\<lambda>p. pr_PID p = pid) ps"

definition config_file :: "environment \<Rightarrow> bytes" where
  "config_file e = Join (directory e) (lit ''vm-config-'' @ env_inc e @ lit ''.json'')"

text \<open>The list is None when the processes could not be listed.\<close>

definition alive :: "int \<Rightarrow> process list option \<Rightarrow> environment \<Rightarrow> bool" where
  "alive uid ps e =
     (case ps of
        None \<Rightarrow> False
      | Some ps \<Rightarrow>
          (case find_process ps (pr_PID (e_Process e)) of
             None \<Rightarrow> False
           | Some p \<Rightarrow> pr_Start p = pr_Start (e_Process e) \<and> pr_UID p = uid \<and>
               contains (pr_Args p) (hc_Helper (v_HostConfig (e_Spec e))) \<and> contains (pr_Args p) (config_file e)))"

definition departed :: "process list option \<Rightarrow> environment \<Rightarrow> bool" where
  "departed ps e =
     (case ps of
        None \<Rightarrow> False
      | Some ps \<Rightarrow>
          (case find_process ps (pr_PID (e_Process e)) of None \<Rightarrow> True | Some p \<Rightarrow> pr_Start p \<noteq> pr_Start (e_Process e)))"

subsection \<open>Channels\<close>

text \<open>Whether each step of setting up an incarnation's channels succeeds.\<close>

record gate_calls =
  gc_egress :: bool
  gc_listen :: bool
  gc_go :: bool
  gc_mail :: bool

definition gate :: "gate_calls \<Rightarrow> environment \<Rightarrow> host_world \<Rightarrow> bool \<times> environment \<times> host_world" where
  "gate c e w =
     (let i = env_id e;
          shut = w\<lparr>w_gates := del i (w_gates w)\<rparr>;
          opened = w\<lparr>w_gates := put i True (w_gates w)\<rparr>;
          proxied = e\<lparr>e_Spec := (e_Spec e)\<lparr>v_HostConfig := (v_HostConfig (e_Spec e))\<lparr>hc_GoProxySocket := Join (directory e) (lit ''go.sock'')\<rparr>,
             v_MailSocket := []\<rparr>\<rparr>;
          without_mail = (\<lambda>e. e\<lparr>e_Spec := (e_Spec e)\<lparr>v_MailSocket := []\<rparr>\<rparr>)
      in if \<not> gc_egress c then (False, e, shut)
         else if \<not> gc_listen c \<or> \<not> gc_go c then (False, without_mail e, shut)
         else if hc_Seat (v_HostConfig (e_Spec e)) \<noteq> [] \<and> hc_MailOrigin (v_HostConfig (e_Spec e)) \<noteq> [] then
           if \<not> gc_mail c then (False, proxied, shut)
           else (True, proxied\<lparr>e_Spec := (e_Spec proxied)\<lparr>v_MailSocket := Join (directory e) (lit ''mail.sock'')\<rparr>\<rparr>, opened)
         else (True, proxied, opened))"

subsection \<open>Reconciliation\<close>

text \<open>Reading the VM's status; its decoding as a map of strings is None when it is not one.\<close>

datatype status_read = StatusAbsent | StatusError | StatusRead bytes "(bytes \<times> bytes) list option"

definition status_field :: "(bytes \<times> bytes) list \<Rightarrow> string \<Rightarrow> bytes" where
  "status_field m k = (case map_of m (lit k) of None \<Rightarrow> [] | Some v \<Rightarrow> v)"

definition status_of :: "environment \<Rightarrow> (bytes \<times> bytes) list \<Rightarrow> bool" where
  "status_of e m \<longleftrightarrow> status_field m ''environment'' = env_id e \<and> status_field m ''session'' = v_Session (e_Spec e) \<and>
     status_field m ''incarnation'' = env_inc e"

text \<open>The native probe's answer: an error with what was decoded before it, or the evidence.\<close>

type_synonym probe_answer = "(bytes \<times> probe_evidence) + probe_evidence"

datatype lstat = Absent | LstatError | Present "64 word" "64 word"  \<comment> \<open>device and inode\<close>

text \<open>
  The outcomes of a reconciliation: the launch configuration and its decoding, the helper's birth
  (seconds) as its start time parses, the time of its exit and the clock (nanoseconds), the status,
  whether the disk and the container are absent before and after the probe, the saves, the probe,
  the disk after it, the time it is recorded, and the write of its evidence.
\<close>

record reconcile_calls =
  rl_config :: "(bytes \<times> vm_spec option) option"
  rl_birth :: "int option"
  rl_exited :: "int option"
  rl_now :: int
  rl_status :: status_read
  rl_absent :: bool
  rl_save :: file_calls
  rl_probe :: "probe_request \<Rightarrow> probe_answer"
  rl_rootfs :: lstat
  rl_absent_after :: bool
  rl_observed_at :: bytes
  rl_write :: bool
  rl_save_after :: file_calls

definition no_evidence :: probe_evidence where
  "no_evidence = \<lparr>pe_Environment = [], pe_Session = [], pe_Incarnation = [], pe_Operation = [], pe_ObservedAt = [],
     pe_Coverage = [], pe_ObserverUID = 0, pe_ProcessCount = 0, pe_OwnProcessesChecked = 0, pe_VnodeDescriptorsChecked = 0,
     pe_FileportsChecked = 0, pe_RegionsChecked = 0, pe_KernelZombiesChecked = None, pe_RootfsDevice = 0, pe_RootfsInode = 0,
     pe_WorkspaceAbsent = False, pe_ContainerAbsent = False, pe_Issues = None, pe_Confirmed = False\<rparr>"

text \<open>\<open>strings.Fields\<close>: the pieces between runs of white space.\<close>

definition starts_space :: "bytes \<Rightarrow> bytes option" where
  "starts_space s = find (\<lambda>e. e \<noteq> [] \<and> take (length e) s = e) (map encode_rune spaces)"

function go_fields :: "bytes \<Rightarrow> bytes \<Rightarrow> bytes list" where
  "go_fields word [] = (if word = [] then [] else [rev word])"
| "go_fields word (c # cs) =
     (case starts_space (c # cs) of
        Some e \<Rightarrow> (if word = [] then [] else [rev word]) @ go_fields [] (drop (length e) (c # cs))
      | None \<Rightarrow> go_fields (c # word) cs)"
  by pat_completeness auto
termination
  by (relation "measure (\<lambda>(word, s). length s)") (auto simp: starts_space_def dest: find_prefix_nonempty)

definition observedPrebootRefusal :: "environment \<Rightarrow> int \<Rightarrow> reconcile_calls \<Rightarrow> bool" where
  "observedPrebootRefusal e birth c =
     (case e_HelperExit e of
        None \<Rightarrow> False
      | Some x \<Rightarrow> hx_Incarnation x = env_inc e \<and> hx_PID x = pr_PID (e_Process e) \<and> hx_ExitCode x = 2 \<and> hx_Signal x = 0 \<and>
          (case rl_exited c of None \<Rightarrow> False | Some t \<Rightarrow> birth * 1000000000 \<le> t \<and> t \<le> rl_now c))"

definition launched_action :: "env_action \<Rightarrow> bool" where
  "launched_action a \<longleftrightarrow> (ac_Kind a = KStart \<or> ac_Kind a = KReplace) \<and> ac_State a = ACompleted"

definition revoked_fence :: "bytes \<Rightarrow> env_action \<Rightarrow> bool" where
  "revoked_fence inc a \<longleftrightarrow>
     (case ac_Fence a of
        None \<Rightarrow> False
      | Some f \<Rightarrow> ac_Expected a = inc \<and> f_Incarnation f = inc \<and> f_NetworkRevoked f \<and> f_AdapterAccessRevoked f)"

definition same_launch :: "environment \<Rightarrow> reconcile_request \<Rightarrow> vm_spec \<Rightarrow> bool" where
  "same_launch e req original \<longleftrightarrow>
     v_Environment original = env_id e \<and> v_Session original = rq_SessionID req \<and> v_Incarnation original = rq_Incarnation req \<and>
     v_Rootfs original = v_Rootfs (e_Spec e) \<and> hc_Helper (v_HostConfig original) = hc_Helper (v_HostConfig (e_Spec e)) \<and>
     v_Directory original = directory e \<and> hc_Store (v_HostConfig original) = hc_Store (v_HostConfig (e_Spec e))"

definition launch_command :: "int \<Rightarrow> environment \<Rightarrow> vm_spec \<Rightarrow> bool" where
  "launch_command uid e original \<longleftrightarrow> pr_UID (e_Process e) = uid \<and>
     go_fields [] (pr_Args (e_Process e)) =
       [hc_Helper (v_HostConfig original), lit ''agent-environment'', lit ''--config'', config_file e]"

text \<open>The launch and the revocation that a reconciliation rests on.\<close>

definition reconcile_basis :: "environment \<Rightarrow> reconcile_request \<Rightarrow> agent_error option" where
  "reconcile_basis e req =
     (case (map_of (e_Actions e) (rq_LaunchOperation req), map_of (e_Actions e) (rq_FenceOperation req)) of
        (Some launch, Some fence) \<Rightarrow>
          if \<not> launched_action launch \<or> \<not> revoked_fence (rq_Incarnation req) fence
          then Some (Message ''original launch and retained scope revocation do not bind'')
          else if ac_ResultingIncarnation launch \<noteq> [] \<and> ac_ResultingIncarnation launch \<noteq> rq_Incarnation req
          then Some ErrConflict
          else if ac_ResultingIncarnation launch = [] \<and> length (filter (\<lambda>(_, a). launched_action a) (e_Actions e)) \<noteq> 1
          then Some (Message ''legacy launch ownership is ambiguous'')
          else None
      | _ \<Rightarrow> Some (Message ''original launch and retained scope revocation do not bind''))"

text \<open>
  The receipt a reconciliation starts from, the helper that was launched and its birth, and whether
  it is a refusal before the first boot.
\<close>

definition reconcile_receipt :: "(bytes \<Rightarrow> bytes) \<Rightarrow> int \<Rightarrow> reconcile_calls \<Rightarrow> environment \<Rightarrow> reconcile_request \<Rightarrow>
    agent_error + reconciliation \<times> vm_spec \<times> int \<times> bool" where
  "reconcile_receipt sha uid c e req =
     (case rl_config c of
        None \<Rightarrow> Inl (Message ''original launch config unavailable'')
      | Some (raw, None) \<Rightarrow> Inl (Message ''original launch config identity mismatch'')
      | Some (raw, Some original) \<Rightarrow>
          if \<not> same_launch e req original then Inl (Message ''original launch config identity mismatch'')
          else if \<not> launch_command uid e original then Inl (Message ''retained process launch ownership mismatch'')
          else case rl_birth c of
            None \<Rightarrow> Inl (Message ''retained process birth unavailable'')
          | Some birth \<Rightarrow>
              if birth \<le> 0 then Inl (Message ''retained process birth unavailable'')
              else let receipt = \<lparr>rc_Request = req, rc_InputSHA256 = sha (marshal (reconcile_json req)),
                         rc_HistoricalExecution = lit ''unknown'', rc_ObservedAt = [], rc_CurrentScope = lit ''unknown'',
                         rc_ReplacementEligible = False, rc_EvidenceFile = [], rc_EvidenceSHA256 = [],
                         rc_OriginalConfigSHA256 = sha raw, rc_OriginalStatusSHA256 = [],
                         rc_OriginalHelperExitSHA256 = [], rc_Issues = []\<rparr>
                   in (case rl_status c of
                         StatusError \<Rightarrow> Inl (Message ''original VM receipt unavailable'')
                       | StatusRead status decoded \<Rightarrow>
                           if (case decoded of None \<Rightarrow> True | Some m \<Rightarrow> \<not> status_of e m)
                           then Inl (Message ''original VM receipt identity mismatch'')
                           else Inr (receipt\<lparr>rc_OriginalStatusSHA256 := sha status\<rparr>, original, birth, False)
                       | StatusAbsent \<Rightarrow>
                           (case e_HelperExit e of
                              None \<Rightarrow> Inl (Message ''original VM receipt unavailable'')
                            | Some x \<Rightarrow>
                                if \<not> observedPrebootRefusal e birth c then Inl (Message ''original VM receipt unavailable'')
                                else if v_Rootfs original \<noteq> Join (v_Directory original) (lit ''workspace.ext4'') \<or>
                                        hc_Store (v_HostConfig original) = [] \<or> \<not> IsAbs (hc_Store (v_HostConfig original))
                                then Inl (Message ''preboot workspace/container binding incomplete'')
                                else if \<not> rl_absent c then Inl (Message ''preboot workspace/container absence unconfirmed'')
                                else Inr (receipt\<lparr>rc_OriginalHelperExitSHA256 := sha (marshal (helper_exit_json x)),
                                            rc_HistoricalExecution := lit ''preboot_refused''\<rparr>, original, birth, True))))"

definition probe_coverage :: "reconcile_calls \<Rightarrow> bool \<Rightarrow> probe_evidence \<Rightarrow> bool" where
  "probe_coverage c preboot v =
     (if preboot
      then pe_Coverage v = lit ''direct-vz-preboot-refusal/v1'' \<and> pe_WorkspaceAbsent v \<and> pe_ContainerAbsent v \<and>
           rl_rootfs c = Absent \<and> rl_absent_after c
      else pe_Coverage v = lit ''direct-vz-private-disk/v1'' \<and>
           (case rl_rootfs c of Present dev ino \<Rightarrow> ucast dev = pe_RootfsDevice v \<and> ino = pe_RootfsInode v | _ \<Rightarrow> False))"

definition probe_matches :: "int \<Rightarrow> environment \<Rightarrow> reconcile_request \<Rightarrow> probe_evidence \<Rightarrow> bool" where
  "probe_matches uid e req v \<longleftrightarrow>
     pe_Environment v = env_id e \<and> pe_Session v = rq_SessionID req \<and> pe_Incarnation v = rq_Incarnation req \<and>
     pe_Operation v = rq_OperationID req \<and> pe_ObserverUID v = uid \<and> pe_ProcessCount v \<noteq> 0 \<and> pe_OwnProcessesChecked v \<noteq> 0 \<and>
     pe_ObservedAt v \<noteq> []"

definition issues_of :: "probe_evidence \<Rightarrow> bytes list" where
  "issues_of v = (case pe_Issues v of None \<Rightarrow> [] | Some xs \<Rightarrow> xs)"

text \<open>What the probe is asked, and its answer judged: an error stands for the issue it becomes.\<close>

definition fence_probe :: "environment \<Rightarrow> reconcile_request \<Rightarrow> vm_spec \<Rightarrow> int \<Rightarrow> bool \<Rightarrow> probe_request" where
  "fence_probe e req original birth preboot =
     \<lparr>pq_Environment = env_id e, pq_Session = rq_SessionID req, pq_Incarnation = rq_Incarnation req,
      pq_Operation = rq_OperationID req, pq_Rootfs = v_Rootfs (e_Spec e), pq_Helper = hc_Helper (v_HostConfig original),
      pq_PID = pr_PID (e_Process e), pq_UID = pr_UID (e_Process e), pq_Birth = birth, pq_WorkspaceAbsent = preboot,
      pq_Container = Join (Join (hc_Store (v_HostConfig original)) (lit ''containers''))
        (lit ''agent-'' @ v_Environment original @ lit ''-'' @ v_Incarnation original)\<rparr>"

definition probe_issues :: "int \<Rightarrow> reconcile_calls \<Rightarrow> environment \<Rightarrow> reconcile_request \<Rightarrow> bool \<Rightarrow> probe_answer \<Rightarrow> bytes list" where
  "probe_issues uid c e req preboot answer =
     (case answer of
        Inl (err, v) \<Rightarrow> err # issues_of v
      | Inr v \<Rightarrow> issues_of v @
          (if probe_matches uid e req v \<and> probe_coverage c preboot v then []
           else [lit ''native probe identity or coverage incomplete'']))"

definition evidence_of :: "probe_answer \<Rightarrow> probe_evidence" where
  "evidence_of answer = (case answer of Inl (_, v) \<Rightarrow> v | Inr v \<Rightarrow> v)"

text \<open>The receipt with what was observed, before it is judged.\<close>

definition observed_receipt :: "(bytes \<Rightarrow> bytes) \<Rightarrow> int \<Rightarrow> reconcile_calls \<Rightarrow> environment \<Rightarrow> reconcile_request \<Rightarrow> bool \<Rightarrow>
    probe_answer \<Rightarrow> reconciliation \<Rightarrow> reconciliation" where
  "observed_receipt sha uid c e req preboot answer receipt =
     receipt\<lparr>rc_Issues := probe_issues uid c e req preboot answer, rc_ObservedAt := rl_observed_at c,
       rc_EvidenceFile := lit ''reconcile-evidence-'' @ rq_OperationID req @ lit ''.json'',
       rc_EvidenceSHA256 := sha (marshal (evidence_json (evidence_of answer)))\<rparr>"

definition probe_confirmed :: "int \<Rightarrow> reconcile_calls \<Rightarrow> environment \<Rightarrow> reconcile_request \<Rightarrow> bool \<Rightarrow> probe_answer \<Rightarrow> bool" where
  "probe_confirmed uid c e req preboot answer \<longleftrightarrow>
     \<not> isl answer \<and> pe_Confirmed (evidence_of answer) \<and> probe_issues uid c e req preboot answer = []"

definition reconcile_action :: "reconcile_request \<Rightarrow> reconciliation \<Rightarrow> env_action" where
  "reconcile_action req receipt = \<lparr>ac_Switch = None, ac_Kind = KReconcile, ac_Expected = rq_Incarnation req, ac_State = ADispatching,
     ac_Fence = None, ac_Reconciliation = Some receipt, ac_Retirement = None, ac_ResultingIncarnation = []\<rparr>"

definition reconcile_fence :: "bytes \<Rightarrow> bool \<Rightarrow> fence" where
  "reconcile_fence inc confirmed = \<lparr>f_Incarnation = inc, f_ScopeID = lit ''scope-'' @ inc, f_NetworkRevoked = True,
     f_AdapterAccessRevoked = True, f_WorkspaceWriteRevoked = confirmed, f_TerminationConfirmed = confirmed,
     f_State = (if confirmed then lit ''confirmed_current'' else lit ''execution_unknown'')\<rparr>"

type_synonym 'a env_result = "(agent_error + 'a) \<times> environment \<times> host_world"

text \<open>The last part: the judgement of the probe, saved.\<close>

definition reconcile_settle :: "(bytes \<Rightarrow> bytes) \<Rightarrow> reconcile_calls \<Rightarrow> reconcile_request \<Rightarrow> reconciliation \<Rightarrow> bool \<Rightarrow>
    probe_answer \<Rightarrow> environment \<Rightarrow> host_world \<Rightarrow> env_action env_result" where
  "reconcile_settle sha c req receipt preboot answer e w =
     (let receipt = observed_receipt sha (w_uid w) c e req preboot answer receipt;
          confirmed = probe_confirmed (w_uid w) c e req preboot answer;
          a = reconcile_action req receipt
      in if \<not> rl_write c
         then let e = set_action (rq_OperationID req) a e in
              (Inl SaveError, e, (store_env e w)\<lparr>w_fatal := True\<rparr>)
         else let w = (if confirmed then note_effect (ProbeConfirmed (env_id e) (rq_Incarnation req)) w else w);
                  fence = reconcile_fence (rq_Incarnation req) confirmed;
                  judged = (if confirmed then receipt\<lparr>rc_CurrentScope := lit ''fenced_now'', rc_ReplacementEligible := True\<rparr> else receipt);
                  a = a\<lparr>ac_State := (if confirmed then ACompleted else AExecutionUnknown), ac_Fence := Some fence,
                        ac_Reconciliation := Some judged\<rparr>;
                  e = (set_action (rq_OperationID req) a e)\<lparr>e_Phase := (if confirmed then Fenced else ExecutionUnknown), e_LastFence := Some fence\<rparr>;
                  (ok, w) = commit_env (rl_save_after c) e w
              in if ok then (Inr a, e, w)
                 else let a = a\<lparr>ac_Reconciliation := Some (judged\<lparr>rc_ReplacementEligible := False\<rparr>)\<rparr>;
                          e = (set_action (rq_OperationID req) a e)\<lparr>e_Phase := ExecutionUnknown\<rparr>
                      in (Inl SaveError, e, store_env e w))"

definition reconcileLocked :: "(bytes \<Rightarrow> bytes) \<Rightarrow> reconcile_calls \<Rightarrow> reconcile_request \<Rightarrow> environment \<Rightarrow> host_world \<Rightarrow>
    env_action env_result" where
  "reconcileLocked sha c req e w =
     (if w_fatal w then (Inl JournalUncertain, e, w)
      else case map_of (e_Actions e) (rq_OperationID req) of
        Some a \<Rightarrow>
          if ac_Kind a \<noteq> KReconcile \<or>
             (case ac_Reconciliation a of None \<Rightarrow> True | Some r \<Rightarrow> rc_InputSHA256 r \<noteq> sha (marshal (reconcile_json req)))
          then (Inl ErrConflict, e, w) else (Inr a, e, w)
      | None \<Rightarrow>
          if rq_Incarnation req \<noteq> env_inc e \<or> rq_SessionID req \<noteq> v_Session (e_Spec e) then (Inl ErrStale, e, w)
          else if e_Phase e \<notin> {ExecutionUnknown, Revoking, Reconciling, Stopped, Fenced}
          then (Inl (Message ''reconciliation requires a held or stopped execution scope''), e, w)
          else case reconcile_basis e req of
            Some err \<Rightarrow> (Inl err, e, w)
          | None \<Rightarrow>
          (case reconcile_receipt sha (w_uid w) c e req of
             Inl err \<Rightarrow> (Inl err, e, w)
           | Inr (receipt, original, birth, preboot) \<Rightarrow>
               let e = (set_action (rq_OperationID req) (reconcile_action req receipt) e)\<lparr>e_Phase := Reconciling,
                     e_CurrentReconciliation := rq_OperationID req, e_LaunchRevoked := e_LaunchRevoked e @ [rq_Incarnation req]\<rparr>;
                   (ok, w) = commit_env (rl_save c) e (revoke_gate (env_id e) w)
               in if \<not> ok then (Inl SaveError, e, w)
                  else reconcile_settle sha c req receipt preboot (rl_probe c (fence_probe e req original birth preboot)) e w))"

subsection \<open>The predecessor's evidence\<close>

definition predecessorOperation :: "environment \<Rightarrow> bytes \<Rightarrow> bytes option" where
  "predecessorOperation e inc =
     (let i = e_CurrentReconciliation e in
      case map_of (e_Actions e) i of
        None \<Rightarrow> None
      | Some a \<Rightarrow>
          (case (ac_Reconciliation a, ac_Fence a) of
             (Some r, Some f) \<Rightarrow>
               if i \<noteq> [] \<and> ac_Kind a = KReconcile \<and> ac_State a = ACompleted \<and> ac_Expected a = inc \<and> f_Incarnation f = inc \<and>
                  f_NetworkRevoked f \<and> f_AdapterAccessRevoked f \<and> f_WorkspaceWriteRevoked f \<and> f_TerminationConfirmed f \<and>
                  rq_OperationID (rc_Request r) = i \<and> rq_SessionID (rc_Request r) = v_Session (e_Spec e) \<and>
                  rq_Incarnation (rc_Request r) = inc \<and> rc_CurrentScope r = lit ''fenced_now'' \<and> rc_ReplacementEligible r \<and>
                  rc_Issues r = []
               then Some i else None
           | _ \<Rightarrow> None))"

text \<open>\<open>filepath.Base\<close>\<close>

definition base_name :: "bytes \<Rightarrow> bytes" where
  "base_name s =
     (if s = [] then dot
      else let t = dropWhile (\<lambda>c. c = slash) (rev s) in
        if t = [] then [slash] else rev (takeWhile (\<lambda>c. c \<noteq> slash) t))"

text \<open>
  The launch and the fence that an automatic reconciliation names: the source goes through the
  operations in the order of their identities and keeps the last that fits.
\<close>

definition last_action :: "(env_action \<Rightarrow> bool) \<Rightarrow> environment \<Rightarrow> bytes" where
  "last_action P e =
     (let ids = sort (map fst (filter (\<lambda>(_, a). P a) (e_Actions e))) in if ids = [] then [] else last ids)"

definition predecessor_launch :: "environment \<Rightarrow> bytes" where
  "predecessor_launch e =
     (let launch = last_action (\<lambda>a. launched_action a \<and> ac_ResultingIncarnation a = env_inc e) e in
      if launch = [] \<and> length (filter (\<lambda>(_, a). launched_action a) (e_Actions e)) = 1
      then last_action (\<lambda>a. launched_action a \<and> ac_ResultingIncarnation a = []) e else launch)"

text \<open>\<open>evidence\<close> is what the evidence file holds, None when it cannot be read privately.\<close>

definition ensurePredecessor :: "(bytes \<Rightarrow> bytes) \<Rightarrow> bytes option \<Rightarrow> reconcile_calls \<Rightarrow> environment \<Rightarrow> host_world \<Rightarrow>
    bytes env_result" where
  "ensurePredecessor sha evidence c e w =
     (if w_fatal w then (Inl JournalUncertain, e, w)
      else case predecessorOperation e (env_inc e) of
        Some i \<Rightarrow>
          (case Option.bind (map_of (e_Actions e) i) ac_Reconciliation of
             None \<Rightarrow> (Inl (Message ''predecessor evidence path invalid''), e, w)
           | Some r \<Rightarrow>
               if base_name (rc_EvidenceFile r) \<noteq> rc_EvidenceFile r \<or> rc_EvidenceFile r = dot \<or> rc_EvidenceFile r = []
               then (Inl (Message ''predecessor evidence path invalid''), e, w)
               else if (case evidence of None \<Rightarrow> True | Some b \<Rightarrow> sha b \<noteq> rc_EvidenceSHA256 r)
               then (Inl (Message ''predecessor evidence unavailable or changed''), e, w)
               else (Inr i, e, w))
      | None \<Rightarrow>
          if e_CurrentReconciliation e \<noteq> [] \<and>
             (case map_of (e_Actions e) (e_CurrentReconciliation e) of
                None \<Rightarrow> True | Some a \<Rightarrow> ac_Kind a \<noteq> KReconcile \<or> ac_Expected a = env_inc e)
          then (Inl (Message ''current predecessor reconciliation is not eligible; fresh explicit reconciliation required''), e, w)
          else if list_ex (\<lambda>(_, a). ac_Kind a = KReconcile \<and> ac_Expected a = env_inc e) (e_Actions e)
          then (Inl (Message ''predecessor observation is not current; fresh explicit reconciliation required''), e, w)
          else let launch = predecessor_launch e; fence = last_action (revoked_fence (env_inc e)) e in
            if launch = [] \<or> fence = []
            then (Inl (Message ''predecessor launch/revocation evidence unavailable; incarnation retained''), e, w)
            else let i = lit ''predecessor-'' @ sha (v_Session (e_Spec e) @ [0] @ env_inc e) in
              (case reconcileLocked sha c \<lparr>rq_OperationID = i, rq_SessionID = v_Session (e_Spec e), rq_Incarnation = env_inc e,
                      rq_LaunchOperation = launch, rq_FenceOperation = fence\<rparr> e w of
                 (Inl err, e, w) \<Rightarrow> (Inl err, e, w)
               | (Inr a, e, w) \<Rightarrow>
                   if ac_State a \<noteq> ACompleted \<or> (case ac_Reconciliation a of None \<Rightarrow> True | Some r \<Rightarrow> \<not> rc_ReplacementEligible r)
                   then (Inl (Message ''predecessor probe incomplete; inspect retained reconciliation before launch''), e, w)
                   else (Inr i, e, w)))"

subsection \<open>Launching\<close>

text \<open>
  The outcomes of a start: the fixture's custody, the predecessor's evidence and reconciliation, the
  new incarnation's random identity, the saves, the channels, removing the old stop marker, writing
  the configuration, opening the log, starting the helper with its process identity, and its entry
  in the list of processes.
\<close>

record start_calls =
  sc_fixture :: bool
  sc_evidence :: "bytes option"
  sc_reconcile :: reconcile_calls
  sc_random :: bytes
  sc_save :: file_calls
  sc_gate :: gate_calls
  sc_marker :: bool
  sc_config :: bool
  sc_log :: bool
  sc_started :: "int option"
  sc_processes :: "process list option"
  sc_save_running :: file_calls

definition dormant :: "env_phase \<Rightarrow> bool" where
  "dormant p \<longleftrightarrow> p \<in> {Stopped, Created, Fenced, Retired}"

definition live_count :: "host_world \<Rightarrow> nat" where
  "live_count w = length (filter (\<lambda>(_, e). \<not> dormant (e_Phase e)) (w_envs w))"

definition unit_result :: "agent_error option \<Rightarrow> environment \<Rightarrow> host_world \<Rightarrow> unit env_result" where
  "unit_result err e w = ((case err of None \<Rightarrow> Inr () | Some err \<Rightarrow> Inl err), e, w)"

text \<open>From the helper's start on.\<close>

definition launch_helper :: "start_calls \<Rightarrow> environment \<Rightarrow> host_world \<Rightarrow> unit env_result" where
  "launch_helper c e w =
     (case sc_started c of
        None \<Rightarrow> (Inl (Message ''helper''), e, w)
      | Some pid \<Rightarrow>
          let w = (note_effect (Launched (env_id e) (env_inc e) (v_RequireRetainedDisk (e_Spec e))) w)\<lparr>w_waiters := (env_id e, env_inc e, pid) # w_waiters w\<rparr>
          in (case Option.bind (sc_processes c) (\<lambda>ps. find_process ps pid) of
                None \<Rightarrow> (Inl (Message ''helper departure unknown after launch''), e, w)
              | Some p \<Rightarrow>
                  let e = e\<lparr>e_Process := p, e_Phase := Running\<rparr>;
                      (ok, w) = commit_env (sc_save_running c) e w
                  in unit_result (if ok then None else Some SaveError) e w))"

definition launch :: "start_calls \<Rightarrow> host_config \<Rightarrow> environment \<Rightarrow> host_world \<Rightarrow> unit env_result" where
  "launch c cfg e w =
     (let e = e\<lparr>e_Spec := (e_Spec e)\<lparr>v_Incarnation := sc_random c, v_HostConfig := cfg\<rparr>, e_HelperExit := None, e_Phase := Launching\<rparr>;
          (ok, w) = commit_env (sc_save c) e (w\<lparr>w_drawn := w_drawn w @ [sc_random c]\<rparr>)
      in if \<not> ok then (Inl SaveError, e, w)
         else let (ok, e, w) = gate (sc_gate c) e w; w = store_env e w
              in if \<not> ok then (Inl (Message ''gate''), e, w)
                 else if \<not> sc_marker c then (Inl (Message ''stop marker''), e, w)
                 else if \<not> sc_config c then (Inl (Message ''vm-config''), e, w)
                 else if \<not> sc_log c then (Inl (Message ''helper.log''), e, w)
                 else launch_helper c e w)"

text \<open>What must not have changed since the environment was made.\<close>

definition start_refusal :: "(bytes \<Rightarrow> bytes) \<Rightarrow> start_calls \<Rightarrow> host_config \<Rightarrow> environment \<Rightarrow> agent_error option" where
  "start_refusal sha c cfg e =
     (let old = v_HostConfig (e_Spec e) in
      if hasHarnessSwitch e \<and> harnessBinding sha cfg \<noteq> harnessBinding sha old
      then Some (Message ''selected harness profile changed; original selection held'')
      else if hc_SeatDeclarationSHA256 cfg \<noteq> hc_SeatDeclarationSHA256 old \<or> hc_SeatLaunch cfg \<noteq> hc_SeatLaunch old
      then Some (Message ''retained seat declaration changed; original environment held'')
      else if hc_MailOrigin cfg \<noteq> hc_MailOrigin old \<or> hc_Seat cfg \<noteq> hc_Seat old
      then Some (Message ''retained mail binding changed; original environment held'')
      else if hc_SourceSHA cfg \<noteq> hc_SourceSHA old \<or> hc_SourceBundle cfg \<noteq> hc_SourceBundle old \<or> hc_Base cfg \<noteq> hc_Base old \<or>
              hc_ImageDigest cfg \<noteq> hc_ImageDigest old \<or> hc_ImageRef cfg \<noteq> hc_ImageRef old
      then Some (Message ''retained project inputs changed; use a distinct environment'')
      else if hc_QualificationFixture cfg \<noteq> hc_QualificationFixture old
      then Some (Message ''retained qualification fixture changed; use a distinct environment'')
      else if hc_QualificationFixture cfg \<noteq> None \<and> \<not> sc_fixture c then Some (Message ''qualification fixture'')
      else None)"

definition require_disk :: "bytes \<Rightarrow> environment \<Rightarrow> environment" where
  "require_disk i e =
     (case Option.bind (map_of (e_Actions e) i) ac_Reconciliation of
        None \<Rightarrow> e
      | Some r \<Rightarrow> if rc_HistoricalExecution r \<noteq> lit ''preboot_refused''
          then e\<lparr>e_Spec := (e_Spec e)\<lparr>v_RequireRetainedDisk := True\<rparr>\<rparr> else e)"

definition start :: "(bytes \<Rightarrow> bytes) \<Rightarrow> start_calls \<Rightarrow> environment \<Rightarrow> host_world \<Rightarrow> unit env_result" where
  "start sha c e w =
     (if w_fatal w then (Inl JournalUncertain, e, w)
      else if e_Phase e \<notin> {Created, Stopped, Fenced} then (Inl (Message ''environment is not confirmed stopped''), e, w)
      else if hc_MaxLive (w_config w) \<le> int (live_count w) then (Inl (Message ''development environment limit reached''), e, w)
      else case profileConfig (w_config w) (v_Profile (e_Spec e)) of
        Inl err \<Rightarrow> (Inl err, e, w)
      | Inr cfg \<Rightarrow>
          (case start_refusal sha c cfg e of
             Some err \<Rightarrow> (Inl err, e, w)
           | None \<Rightarrow>
               if e_Phase e = Created then launch c cfg e w
               else (case ensurePredecessor sha (sc_evidence c) (sc_reconcile c) e w of
                       (Inl err, e, w) \<Rightarrow> (Inl err, e, w)
                     | (Inr i, e, w) \<Rightarrow> launch c cfg (require_disk i e) w)))"

subsection \<open>Stopping\<close>

definition stop_fence :: "environment \<Rightarrow> fence" where
  "stop_fence e = \<lparr>f_Incarnation = env_inc e, f_ScopeID = lit ''scope-'' @ env_inc e, f_NetworkRevoked = True,
     f_AdapterAccessRevoked = True, f_WorkspaceWriteRevoked = False, f_TerminationConfirmed = False, f_State = lit ''execution_unknown''\<rparr>"

datatype stop_progress = StopReturns "agent_error option" | StopWaits

text \<open>Up to the wait, in which the host's lock is released.\<close>

definition stop_begin :: "file_calls \<Rightarrow> bool \<Rightarrow> environment \<Rightarrow> host_world \<Rightarrow> stop_progress \<times> environment \<times> host_world" where
  "stop_begin save marker e w =
     (if e_Phase e \<in> {Stopped, Fenced, Retired} then (StopReturns None, e, w)
      else let e = e\<lparr>e_Phase := Revoking, e_LastFence := Some (stop_fence e)\<rparr>;
               (ok, w) = commit_env save e (revoke_gate (env_id e) w)
           in if \<not> ok then (StopReturns (Some SaveError), e, w)
              else if \<not> marker then (StopReturns (Some (Message ''stop marker'')), e, w)
              else (StopWaits, e, note_effect (StopMarker (env_id e) (env_inc e)) w))"

definition stop_confirmed :: "status_read \<Rightarrow> process list option \<Rightarrow> environment \<Rightarrow> bool" where
  "stop_confirmed status ps e =
     (case status of
        StatusRead _ (Some m) \<Rightarrow> status_of e m \<and> status_field m ''vm_stopped'' = lit ''true'' \<and> departed ps e
      | _ \<Rightarrow> False)"

definition stop_done :: "file_calls \<Rightarrow> environment \<Rightarrow> host_world \<Rightarrow> unit env_result" where
  "stop_done save e w =
     (let e = e\<lparr>e_Phase := Stopped, e_LastFence := map_option (\<lambda>f. f\<lparr>f_WorkspaceWriteRevoked := True, f_TerminationConfirmed := True,
            f_State := lit ''confirmed''\<rparr>) (e_LastFence e)\<rparr>;
          (ok, w) = commit_env save e (note_effect (StopObserved (env_id e) (env_inc e)) w)
      in unit_result (if ok then None else Some SaveError) e w)"

definition stop_timeout :: "file_calls \<Rightarrow> environment \<Rightarrow> host_world \<Rightarrow> unit env_result" where
  "stop_timeout save e w =
     (let e = e\<lparr>e_Phase := ExecutionUnknown\<rparr>; (ok, w) = commit_env save e w
      in (Inl (Message ''network revoked but VM execution departure unconfirmed; replacement refused''), e, w))"

subsection \<open>Selecting a harness\<close>

definition selectHarness :: "(bytes \<Rightarrow> bytes) \<Rightarrow> bytes option \<Rightarrow> reconcile_calls \<Rightarrow> file_calls \<Rightarrow> bytes \<Rightarrow> host_config \<Rightarrow>
    environment \<Rightarrow> host_world \<Rightarrow> unit env_result" where
  "selectHarness sha evidence c save operation cfg e w =
     (case map_of (e_Actions e) operation of
        None \<Rightarrow> (Inl ErrConflict, e, w)
      | Some a \<Rightarrow>
          (case ac_Switch a of
             None \<Rightarrow> (Inl ErrConflict, e, w)
           | Some s \<Rightarrow>
               if hs_Selected s \<or> hs_FromProfile s \<noteq> v_Profile (e_Spec e) \<or>
                  hs_FromAgent s \<noteq> harnessName (v_HostConfig (e_Spec e)) \<or> hs_SessionID s \<noteq> v_Session (e_Spec e) \<or>
                  ac_Expected a \<noteq> env_inc e \<or> hs_TargetBinding s \<noteq> harnessBinding sha cfg
               then (Inl ErrConflict, e, w)
               else if (e_Phase e \<noteq> Stopped \<and> e_Phase e \<noteq> Fenced) \<or>
                  (case e_LastFence e of
                     None \<Rightarrow> True
                   | Some f \<Rightarrow> \<not> f_TerminationConfirmed f \<or> \<not> f_WorkspaceWriteRevoked f \<or> \<not> f_NetworkRevoked f \<or>
                       \<not> f_AdapterAccessRevoked f \<or> f_Incarnation f \<noteq> env_inc e)
               then (Inl (Message ''predecessor is not fenced''), e, w)
               else (case ensurePredecessor sha evidence c e w of
                       (Inl err, e, w) \<Rightarrow> (Inl err, e, w)
                     | (Inr _, e, w) \<Rightarrow>
                         let e = (set_action operation (a\<lparr>ac_Switch := Some (s\<lparr>hs_Selected := True\<rparr>)\<rparr>) e);
                             e = e\<lparr>e_Spec := (e_Spec e)\<lparr>v_HostConfig := cfg, v_Profile := hs_TargetProfile s, v_RequireRetainedDisk := True\<rparr>\<rparr>;
                             (ok, w) = commit_env save e w
                         in unit_result (if ok then None else Some SaveError) e w)))"

end
