(* ===== verification/EnvRetire.thy ===== *)
theory EnvRetire
  imports EnvHost
begin

text \<open>
  Retiring an environment (\<open>internal/agentenv/retirement.go\<close>) and the host's routes that create,
  start, stop and replace one (\<open>host.go\<close>), its opening, and the goroutine that waits for a helper.
  A route that stops an environment releases the host's lock while it waits, with the environment's
  operation lock held: it is two functions, with what is left to do kept in between.
\<close>

subsection \<open>Retirement\<close>

datatype disk_custody = DiskAbsent | DiskRefused | DiskPrivate "64 word" "64 word" int  \<comment> \<open>device, inode and size\<close>

text \<open>\<open>privateRetirementDisk\<close>, with the checks of the directory and of the file as an argument.\<close>

definition privateRetirementDisk :: "disk_custody \<Rightarrow> environment \<Rightarrow> disk_custody" where
  "privateRetirementDisk custody e =
     (if v_Rootfs (e_Spec e) \<noteq> Join (directory e) (lit ''workspace.ext4'') then DiskRefused else custody)"

definition retiredFence :: "environment \<Rightarrow> retire_request \<Rightarrow> bool" where
  "retiredFence e r =
     (case map_of (e_Actions e) (rr_FenceOperation r) of
        None \<Rightarrow> False
      | Some a \<Rightarrow>
          (case ac_Fence a of
             None \<Rightarrow> False
           | Some f \<Rightarrow> ac_State a = ACompleted \<and> (ac_Kind a = KStop \<or> ac_Kind a = KReconcile) \<and> ac_Expected a = rr_Incarnation r \<and>
               e_LastFence e = Some f \<and> f_Incarnation f = rr_Incarnation r \<and> f_NetworkRevoked f \<and> f_AdapterAccessRevoked f \<and>
               f_WorkspaceWriteRevoked f \<and> f_TerminationConfirmed f))"

record retire_probe_calls =
  rp_birth :: "int option"
  rp_random :: bytes
  rp_probe :: "probe_request \<Rightarrow> probe_evidence option"
  rp_disk :: disk_custody
  rp_write :: bool

definition proof_complete :: "int \<Rightarrow> environment \<Rightarrow> probe_evidence \<Rightarrow> bool" where
  "proof_complete uid e v \<longleftrightarrow> pe_Confirmed v \<and> issues_of v = [] \<and> pe_Environment v = env_id e \<and> pe_Session v = v_Session (e_Spec e) \<and>
     pe_Incarnation v = env_inc e \<and> pe_ObserverUID v = uid \<and> pe_Coverage v = lit ''direct-vz-private-disk/v1'' \<and>
     pe_ProcessCount v \<noteq> 0 \<and> pe_OwnProcessesChecked v \<noteq> 0 \<and> pe_ObservedAt v \<noteq> []"

definition retirementProbe :: "(bytes \<Rightarrow> bytes) \<Rightarrow> retire_probe_calls \<Rightarrow> environment \<Rightarrow> retirement \<Rightarrow> host_world \<Rightarrow>
    (agent_error + retirement) \<times> host_world" where
  "retirementProbe sha c e ret w =
     (if (case rp_birth c of None \<Rightarrow> True | Some b \<Rightarrow> b \<le> 0) \<or> pr_PID (e_Process e) \<le> 0 \<or> pr_UID (e_Process e) \<noteq> w_uid w
      then (Inl (Message ''retirement process binding incomplete''), w)
      else let op = rr_OperationID (rt_Request ret) @ lit ''-'' @ rp_random c in
        case rp_probe c \<lparr>pq_Environment = env_id e, pq_Session = v_Session (e_Spec e), pq_Incarnation = env_inc e, pq_Operation = op,
               pq_Rootfs = v_Rootfs (e_Spec e), pq_Helper = hc_Helper (v_HostConfig (e_Spec e)), pq_PID = pr_PID (e_Process e),
               pq_UID = pr_UID (e_Process e), pq_Birth = (case rp_birth c of None \<Rightarrow> 0 | Some b \<Rightarrow> b), pq_WorkspaceAbsent = False,
               pq_Container = []\<rparr> of
          None \<Rightarrow> (Inl (Message ''native executor/access probe failed''), w)
        | Some v \<Rightarrow>
            (case privateRetirementDisk (rp_disk c) e of
               DiskPrivate dev ino _ \<Rightarrow>
                 if \<not> proof_complete (w_uid w) e v \<or> pe_Operation v \<noteq> op \<or> dev \<noteq> rt_Device ret \<or> ino \<noteq> rt_Inode ret \<or>
                    pe_RootfsDevice v \<noteq> ucast dev \<or> pe_RootfsInode v \<noteq> ino
                 then (Inl (Message ''retirement native executor/writer coverage incomplete''), w)
                 else if \<not> rp_write c then (Inl SaveError, w\<lparr>w_fatal := True\<rparr>)
                 else (Inr (ret\<lparr>rt_EvidenceFile := lit ''retirement-evidence-'' @ op @ lit ''.json'',
                         rt_EvidenceSHA256 := sha (marshal (evidence_json v))\<rparr>),
                       note_effect (DiskProbed (env_id e) (env_inc e) dev ino) w)
             | _ \<Rightarrow> (Inl (Message ''retirement disk''), w)))"

text \<open>\<open>file\<close> is what the evidence file holds and its decoding.\<close>

definition validateRetirementProof :: "(bytes \<Rightarrow> bytes) \<Rightarrow> int \<Rightarrow> (bytes \<times> probe_evidence option) option \<Rightarrow> environment \<Rightarrow>
    retirement \<Rightarrow> agent_error option" where
  "validateRetirementProof sha uid file e ret =
     (if base_name (rt_EvidenceFile ret) \<noteq> rt_EvidenceFile ret \<or>
         \<not> has_prefix (rt_EvidenceFile ret) (lit ''retirement-evidence-'' @ rr_OperationID (rt_Request ret) @ lit ''-'') \<or>
         rt_Device ret = 0 \<or> rt_Inode ret = 0
      then Some (Message ''retirement cleanup proof binding unavailable'')
      else case file of
        Some (b, Some v) \<Rightarrow>
          if sha b = rt_EvidenceSHA256 ret \<and> proof_complete uid e v \<and>
             has_prefix (pe_Operation v) (rr_OperationID (rt_Request ret) @ lit ''-'') \<and>
             pe_RootfsDevice v = ucast (rt_Device ret) \<and> pe_RootfsInode v = rt_Inode ret
          then None else Some (Message ''retirement cleanup proof incomplete or changed'')
      | _ \<Rightarrow> Some (Message ''retirement cleanup proof incomplete or changed''))"

record retire_calls =
  re_proof :: "(bytes \<times> probe_evidence option) option"
  re_disk :: disk_custody
  re_probe :: retire_probe_calls
  re_save :: file_calls
  re_disk_now :: disk_custody
  re_probe_now :: retire_probe_calls
  re_remove :: bool
  re_sync :: bool
  re_save_done :: file_calls

definition delete_mode :: bytes where
  "delete_mode = lit ''delete-workspace-and-auth''"

text \<open>The terminal record, saved before anything is removed.\<close>

definition retire_begin :: "(bytes \<Rightarrow> bytes) \<Rightarrow> retire_calls \<Rightarrow> retire_request \<Rightarrow> bytes \<Rightarrow> environment \<Rightarrow> host_world \<Rightarrow> env_action env_result" where
  "retire_begin sha c req hash e w =
     (let ret = \<lparr>rt_Request = req, rt_InputSHA256 = hash, rt_WorkspaceState = lit ''retained'', rt_Device = 0, rt_Inode = 0, rt_Bytes = 0,
            rt_EvidenceFile = [], rt_EvidenceSHA256 = []\<rparr>;
          finish = (\<lambda>ret state w.
            let a = \<lparr>ac_Switch = None, ac_Kind = KRetire, ac_Expected = rr_Incarnation req, ac_State = state, ac_Fence = e_LastFence e,
                      ac_Reconciliation = None, ac_Retirement = Some ret, ac_ResultingIncarnation = []\<rparr>;
                e = (set_action (rr_OperationID req) a e)\<lparr>e_Phase := Retired\<rparr>;
                (ok, w) = commit_env (re_save c) e w
            in if ok then (Inr a, e, w) else (Inl SaveError, e, w))
      in if rr_Mode req \<noteq> delete_mode then finish ret ACompleted w
         else case privateRetirementDisk (re_disk c) e of
           DiskPrivate dev ino n \<Rightarrow>
             (case retirementProbe sha (re_probe c) e (ret\<lparr>rt_Device := dev, rt_Inode := ino, rt_Bytes := n\<rparr>) w of
                (Inl err, w) \<Rightarrow> (Inl err, e, w)
              | (Inr ret, w) \<Rightarrow> finish (ret\<lparr>rt_WorkspaceState := lit ''cleanup_pending''\<rparr>) ACleanupPending w)
         | _ \<Rightarrow> (Inl (Message ''retirement disk''), e, w))"

definition finishRetirement :: "file_calls \<Rightarrow> env_action \<Rightarrow> retirement \<Rightarrow> environment \<Rightarrow> host_world \<Rightarrow> env_action env_result" where
  "finishRetirement save a ret e w =
     (let i = rr_OperationID (rt_Request ret);
          a = a\<lparr>ac_State := ACompleted, ac_Retirement := Some (ret\<lparr>rt_WorkspaceState := lit ''absent_after_cleanup''\<rparr>)\<rparr>;
          e = set_action i a e;
          (ok, w) = commit_env save e w
      in if ok then (Inr a, e, w)
         else let a = a\<lparr>ac_State := ACleanupPending, ac_Retirement := Some (ret\<lparr>rt_WorkspaceState := lit ''cleanup_pending''\<rparr>)\<rparr>;
                  e = set_action i a e
              in (Inl SaveError, e, store_env e w))"

text \<open>
  Removing the disk. In a continuation (\<open>exists\<close>) it is probed again, which replaces the evidence
  the action names, and its absence completes the cleanup.
\<close>

definition retire_cleanup :: "(bytes \<Rightarrow> bytes) \<Rightarrow> retire_calls \<Rightarrow> bool \<Rightarrow> bytes \<Rightarrow> env_action \<Rightarrow> retirement \<Rightarrow> environment \<Rightarrow> host_world \<Rightarrow>
    env_action env_result" where
  "retire_cleanup sha c exists i a ret e w =
     (let sync = (\<lambda>a ret e w. if \<not> re_sync c then (Inl (Message ''sync''), e, w) else finishRetirement (re_save_done c) a ret e w);
          remove = (\<lambda>a ret e w.
            if \<not> re_remove c then (Inl (Message ''remove''), e, w)
            else sync a ret e (note_effect (DiskRemoved (env_id e) (rt_Device ret) (rt_Inode ret)) w))
      in case privateRetirementDisk (re_disk_now c) e of
           DiskPrivate dev ino _ \<Rightarrow>
             if dev \<noteq> rt_Device ret \<or> ino \<noteq> rt_Inode ret then (Inl (Message ''retirement disk identity changed''), e, w)
             else if \<not> exists then remove a ret e w
             else (case retirementProbe sha (re_probe_now c) e ret w of
                     (Inl err, w) \<Rightarrow> (Inl err, e, w)
                   | (Inr ret, w) \<Rightarrow>
                       let a = a\<lparr>ac_Retirement := Some ret\<rparr>; e = set_action i a e in remove a ret e (store_env e w))
         | DiskAbsent \<Rightarrow> if exists then sync a ret e w else (Inl (Message ''retirement disk''), e, w)
         | DiskRefused \<Rightarrow> (Inl (Message ''retirement disk''), e, w))"

definition retire_identities_ok :: "retire_request \<Rightarrow> bool" where
  "retire_identities_ok r \<longleftrightarrow> list_all validID [rr_OperationID r, rr_SessionID r, rr_Incarnation r, rr_FenceOperation r]"

text \<open>A retirement that was begun before: whether its cleanup may go on.\<close>

definition retire_again :: "(bytes \<Rightarrow> bytes) \<Rightarrow> retire_calls \<Rightarrow> retire_request \<Rightarrow> bool \<Rightarrow> env_action \<Rightarrow> environment \<Rightarrow> host_world \<Rightarrow>
    env_action env_result" where
  "retire_again sha c req resume a e w =
     (case ac_Retirement a of
        None \<Rightarrow> (Inl ErrConflict, e, w)
      | Some ret \<Rightarrow>
          if ac_Kind a \<noteq> KRetire \<or> rt_InputSHA256 ret \<noteq> sha (marshal (retire_json req)) then (Inl ErrConflict, e, w)
          else if ac_State a = ACompleted then (Inr a, e, w)
          else if \<not> resume \<or> ac_State a \<noteq> ACleanupPending \<or> e_Phase e \<noteq> Retired \<or> rr_Mode req \<noteq> delete_mode
          then (Inl (Message ''inspect retained retirement; explicit cleanup continuation required''), e, w)
          else (case validateRetirementProof sha (w_uid w) (re_proof c) e ret of
                  Some err \<Rightarrow> (Inl err, e, w)
                | None \<Rightarrow>
                    if \<not> retiredFence e req
                    then (Inl (Message ''retirement requires the original complete current fence''), e, w)
                    else retire_cleanup sha c True (rr_OperationID req) a ret e w))"

definition retire :: "(bytes \<Rightarrow> bytes) \<Rightarrow> retire_calls \<Rightarrow> retire_request \<Rightarrow> environment \<Rightarrow> host_world \<Rightarrow> env_action env_result" where
  "retire sha c req e w =
     (let resume = rr_ResumeCleanup req; req = req\<lparr>rr_ResumeCleanup := False\<rparr> in
      if \<not> retire_identities_ok req then (Inl (Message ''invalid retirement identity''), e, w)
      else if (rr_Mode req \<noteq> lit ''retain'' \<and> rr_Mode req \<noteq> delete_mode) \<or> rr_RetentionReference req = [] \<or>
              1024 < length (rr_RetentionReference req)
      then (Inl (Message ''explicit retention mode and owner retention reference required''), e, w)
      else if w_fatal w then (Inl JournalUncertain, e, w)
      else if rr_Incarnation req \<noteq> env_inc e \<or> rr_SessionID req \<noteq> v_Session (e_Spec e) then (Inl ErrStale, e, w)
      else case map_of (e_Actions e) (rr_OperationID req) of
        Some a \<Rightarrow> retire_again sha c req resume a e w
      | None \<Rightarrow>
          if resume \<or> (e_Phase e \<noteq> Stopped \<and> e_Phase e \<noteq> Fenced)
          then (Inl (Message ''retirement requires a confirmed stopped scope''), e, w)
          else if \<not> retiredFence e req
          then (Inl (Message ''retirement requires the original complete current fence''), e, w)
          else (case retire_begin sha c req (sha (marshal (retire_json req))) e w of
                  (Inl err, e, w) \<Rightarrow> (Inl err, e, w)
                | (Inr a, e, w) \<Rightarrow>
                    (case ac_Retirement a of
                       Some ret \<Rightarrow> if rr_Mode req = delete_mode
                         then retire_cleanup sha c False (rr_OperationID req) a ret e w else (Inr a, e, w)
                     | None \<Rightarrow> (Inr a, e, w))))"

subsection \<open>Creation\<close>

record create_request =
  cr_ID :: bytes
  cr_OperationID :: bytes
  cr_Profile :: bytes

record create_calls =
  ca_mkdir :: bool
  ca_session :: bytes
  ca_incarnation :: bytes
  ca_save :: file_calls

definition no_action :: env_action where
  "no_action = \<lparr>ac_Switch = None, ac_Kind = KCreate, ac_Expected = [], ac_State = ADispatching, ac_Fence = None,
     ac_Reconciliation = None, ac_Retirement = None, ac_ResultingIncarnation = []\<rparr>"

definition new_environment :: "create_calls \<Rightarrow> host_config \<Rightarrow> bytes \<Rightarrow> create_request \<Rightarrow> environment" where
  "new_environment c cfg root req =
     (let dir = Join root (cr_ID req) in
      \<lparr>e_Spec = \<lparr>v_RequireRetainedDisk = False, v_HostConfig = cfg, v_Environment = cr_ID req, v_Profile = cr_Profile req,
          v_Session = lit ''session-'' @ ca_session c, v_Incarnation = lit ''created-'' @ ca_incarnation c, v_Directory = dir,
          v_Rootfs = Join dir (lit ''workspace.ext4''), v_ControlSocket = Join dir (lit ''agent.sock''),
          v_EgressSocket = Join dir (lit ''egress.sock''), v_MailSocket = []\<rparr>,
       e_Phase = Created, e_Process = \<lparr>pr_PID = 0, pr_UID = 0, pr_Start = [], pr_Args = []\<rparr>,
       e_Actions = [(cr_OperationID req, no_action\<lparr>ac_State := ACompleted\<rparr>)], e_LastFence = None,
       e_CurrentReconciliation = [], e_LaunchRevoked = [], e_HelperExit = None\<rparr>)"

definition create :: "create_calls \<Rightarrow> create_request \<Rightarrow> host_world \<Rightarrow> (agent_error + environment) \<times> host_world" where
  "create c req w =
     (if \<not> environmentID (cr_ID req) \<or> \<not> validID (cr_OperationID req) then (Inl (Message ''invalid identifiers''), w)
      else if w_fatal w then (Inl JournalUncertain, w)
      else case map_of (w_envs w) (cr_ID req) of
        Some existing \<Rightarrow>
          (case map_of (e_Actions existing) (cr_OperationID req) of
             None \<Rightarrow> (Inl ErrConflict, w)
           | Some a \<Rightarrow> if ac_Kind a \<noteq> KCreate \<or> v_Profile (e_Spec existing) \<noteq> cr_Profile req then (Inl ErrConflict, w)
               else (Inr existing, w))
      | None \<Rightarrow>
          (case profileConfig (w_config w) (cr_Profile req) of
             Inl err \<Rightarrow> (Inl err, w)
           | Inr cfg \<Rightarrow>
               if \<not> ca_mkdir c then (Inl (Message ''mkdir''), w)
               else let e = new_environment c cfg (hc_Root (w_config w)) req;
                        (ok, w) = save_env (ca_save c) e (w\<lparr>w_drawn := w_drawn w @ [env_inc e]\<rparr>)
                    in if ok then (Inr e, store_env e w) else (Inl SaveError, w)))"

subsection \<open>Start, stop and replace\<close>

record action_request =
  aq_Kind :: action_kind  \<comment> \<open>start, stop or replace; the route knows no other\<close>
  aq_OperationID :: bytes
  aq_Incarnation :: bytes
  aq_SessionID :: bytes
  aq_TargetProfile :: bytes

text \<open>The outcomes of a route: the target's archive, the saves, the stop marker, and those of a harness selection and a start.\<close>

record action_calls =
  al_archive :: bool
  al_save :: file_calls
  al_stop_save :: file_calls
  al_marker :: bool
  al_fence_save :: file_calls
  al_evidence :: "bytes option"
  al_reconcile :: reconcile_calls
  al_select_save :: file_calls
  al_start :: start_calls
  al_finish_save :: file_calls

definition update_action :: "bytes \<Rightarrow> (env_action \<Rightarrow> env_action) \<Rightarrow> environment \<Rightarrow> environment" where
  "update_action i f e = set_action i (f (case map_of (e_Actions e) i of None \<Rightarrow> no_action | Some a \<Rightarrow> a)) e"

text \<open>The end of a route: the outcome is recorded and saved.\<close>

definition act_finish :: "action_calls \<Rightarrow> action_kind \<Rightarrow> bytes \<Rightarrow> unit env_result \<Rightarrow> unit env_result" where
  "act_finish c kind i r =
     (case r of
        (res, e, w) \<Rightarrow>
          let e = update_action i (\<lambda>a. a\<lparr>ac_State := (if isl res then AAcceptanceUnknown else ACompleted),
                    ac_Fence := (if kind \<noteq> KStart then e_LastFence e else ac_Fence a),
                    ac_ResultingIncarnation := (if \<not> isl res \<and> kind \<noteq> KStop then env_inc e else ac_ResultingIncarnation a)\<rparr>) e;
              (ok, w) = commit_env (al_finish_save c) e w
          in (if ok then res else Inl SaveError, e, w))"

text \<open>What follows the stop of a stop or replacement.\<close>

definition act_stopped :: "(bytes \<Rightarrow> bytes) \<Rightarrow> action_calls \<Rightarrow> pending_action \<Rightarrow> unit env_result \<Rightarrow> unit env_result" where
  "act_stopped sha c p r =
     (case r of
        (res, e, w) \<Rightarrow>
          act_finish c (pa_Kind p) (pa_OperationID p)
            (if isl res \<or> pa_Kind p \<noteq> KReplace then r
             else let e = update_action (pa_OperationID p) (\<lambda>a. a\<lparr>ac_Fence := e_LastFence e\<rparr>) e;
                      (ok, w) = commit_env (al_fence_save c) e w
                  in if \<not> ok then (Inl SaveError, e, w)
                     else case pa_Target p of
                       None \<Rightarrow> start sha (al_start c) e w
                     | Some cfg \<Rightarrow>
                         (case selectHarness sha (al_evidence c) (al_reconcile c) (al_select_save c) (pa_OperationID p) cfg e w of
                            (Inl err, e, w) \<Rightarrow> (Inl err, e, w)
                          | (Inr _, e, w) \<Rightarrow> start sha (al_start c) e w)))"

datatype act_progress = ActRefused agent_error | ActRepeated | ActReturns "agent_error + unit" | ActWaits pending_action

text \<open>The switch a request asks for, if any.\<close>

definition requested_switch :: "(bytes \<Rightarrow> bytes) \<Rightarrow> action_calls \<Rightarrow> action_request \<Rightarrow> environment \<Rightarrow> host_world \<Rightarrow>
    agent_error + (host_config \<times> harness_switch) option" where
  "requested_switch sha c req e w =
     (if aq_TargetProfile req \<noteq> [] then
        if aq_Kind req \<noteq> KReplace then Inl (Message ''target_profile is only valid on replacement'')
        else (case prepareHarnessSwitch sha (al_archive c) (w_config w) e (aq_TargetProfile req) (aq_SessionID req) of
                Inl err \<Rightarrow> Inl err | Inr s \<Rightarrow> Inr (Some s))
      else if aq_SessionID req \<noteq> [] then Inl (Message ''session_id requires an explicit target_profile'')
      else Inr None)"

text \<open>The action as it is first recorded: dispatching.\<close>

definition dispatched :: "action_request \<Rightarrow> harness_switch option \<Rightarrow> env_action" where
  "dispatched req switching = no_action\<lparr>ac_Kind := aq_Kind req, ac_Expected := aq_Incarnation req, ac_Switch := switching\<rparr>"

definition act_dispatch :: "(bytes \<Rightarrow> bytes) \<Rightarrow> action_calls \<Rightarrow> action_request \<Rightarrow> host_config option \<Rightarrow> environment \<Rightarrow> host_world \<Rightarrow>
    act_progress \<times> environment \<times> host_world" where
  "act_dispatch sha c req target e w =
     (let i = aq_OperationID req; p = \<lparr>pa_Kind = aq_Kind req, pa_OperationID = i, pa_Target = target\<rparr>;
          returned = (\<lambda>r. case r of (res, e, w) \<Rightarrow> (ActReturns res, e, w))
      in if aq_Kind req = KStart then returned (act_finish c KStart i (start sha (al_start c) e w))
         else (case stop_begin (al_stop_save c) (al_marker c) e w of
                 (StopWaits, e, w) \<Rightarrow> (ActWaits p, e, w)
               | (StopReturns err, e, w) \<Rightarrow> returned (act_stopped sha c p (unit_result err e w))))"

definition act :: "(bytes \<Rightarrow> bytes) \<Rightarrow> action_calls \<Rightarrow> action_request \<Rightarrow> environment \<Rightarrow> host_world \<Rightarrow>
    act_progress \<times> environment \<times> host_world" where
  "act sha c req e w =
     (if aq_Kind req \<notin> {KStart, KStop, KReplace} then (ActRefused (Message ''unknown action''), e, w)
      else if w_fatal w then (ActRefused JournalUncertain, e, w)
      else case map_of (e_Actions e) (aq_OperationID req) of
        Some a \<Rightarrow>
          if ac_Kind a \<noteq> aq_Kind req \<or> ac_Expected a \<noteq> aq_Incarnation req \<or>
             \<not> sameHarnessRequest (ac_Switch a) (aq_TargetProfile req) (aq_SessionID req)
          then (ActRefused ErrConflict, e, w) else (ActRepeated, e, w)
      | None \<Rightarrow>
          if aq_Incarnation req \<noteq> env_inc e then (ActRefused ErrStale, e, w)
          else if \<not> validID (aq_OperationID req) then (ActRefused (Message ''invalid operation id''), e, w)
          else (case requested_switch sha c req e w of
                  Inl err \<Rightarrow> (ActRefused err, e, w)
                | Inr s \<Rightarrow>
                    let e = set_action (aq_OperationID req) (dispatched req (map_option snd s)) e;
                        (ok, w) = commit_env (al_save c) e w
                    in if \<not> ok then (ActRefused SaveError, e, w) else act_dispatch sha c req (map_option fst s) e w))"

subsection \<open>The wait for a helper\<close>

text \<open>
  What is known when a helper ends: None when its state is not available, else the record of its
  exit. Only the current incarnation's is kept.
\<close>

definition helper_ended :: "bytes \<Rightarrow> helper_exit option \<Rightarrow> file_calls \<Rightarrow> environment \<Rightarrow> host_world \<Rightarrow> host_world" where
  "helper_ended inc x save e w =
     (if env_inc e \<noteq> inc then w
      else case x of
        None \<Rightarrow> snd (commit_env save (e\<lparr>e_Phase := ExecutionUnknown\<rparr>) w)
      | Some x \<Rightarrow>
          let e = e\<lparr>e_HelperExit := Some x\<rparr> in
          if e_Phase e = Running then snd (commit_env save (e\<lparr>e_Phase := ExecutionUnknown\<rparr>) (revoke_gate (env_id e) w))
          else snd (commit_env save e w))"

subsection \<open>Opening\<close>

record open_host_calls =
  oh_checks :: config_checks
  oh_dir :: bool
  oh_lock :: bool
  oh_processes :: "bytes \<Rightarrow> process list option"
  oh_gate :: "bytes \<Rightarrow> gate_calls"
  oh_save :: "bytes \<Rightarrow> file_calls"

text \<open>The retained environments, one after the other; None when one of them stops the opening.\<close>

fun open_envs :: "open_host_calls \<Rightarrow> (bytes \<times> environment) list \<Rightarrow> host_world \<Rightarrow> bool \<times> host_world" where
  "open_envs c [] w = (True, w)"
| "open_envs c ((i, e) # es) w =
     (if \<not> validID (env_id e) \<or> directory e \<noteq> Join (hc_Root (w_config w)) (env_id e) then (False, w)
      else let w = store_env e w in
        if e_Phase e \<noteq> Running then open_envs c es w
        else if \<not> alive (w_uid w) (oh_processes c i) e
        then open_envs c es (snd (commit_env (oh_save c i) (e\<lparr>e_Phase := ExecutionUnknown\<rparr>) w))
        else (case gate (oh_gate c i) e w of
                (True, e, w) \<Rightarrow> open_envs c es (store_env e w)
              | (False, e, w) \<Rightarrow> (False, store_env e w)))"

text \<open>What is left when the host's process ends: the disk.\<close>

definition down :: "host_world \<Rightarrow> host_world" where
  "down w = w\<lparr>w_up := False, w_envs := [], w_gates := [], w_fatal := False, w_waiters := [], w_pending := []\<rparr>"

definition OpenHost :: "open_host_calls \<Rightarrow> host_config \<Rightarrow> host_world \<Rightarrow> (agent_error option) \<times> host_world" where
  "OpenHost c config w =
     (case check_config (oh_checks c) config of
        Some err \<Rightarrow> (Some err, w)
      | None \<Rightarrow>
          if \<not> oh_dir c then (Some (Message ''host data root must be private and not redirected''), w)
          else if \<not> oh_lock c then (Some (Message ''agent host already owned''), w)
          else let (ok, w') = open_envs c (w_disk w) ((down w)\<lparr>w_config := config\<rparr>)
               in if ok then (None, w'\<lparr>w_up := True\<rparr>)
                  else (Some (Message ''invalid retained environment identity''), down w'))"

end
