(* ===== verification/EnvSteps.thy ===== *)
theory EnvSteps
  imports EnvRetire
begin

text \<open>
  Runs of the environment host: any sequence of requests, ends of waits and of helpers, crashes and
  openings. Every operation is shown to be a sequence of small steps on an environment and the
  host's world, and the invariants are proved of the small steps.
\<close>

subsection \<open>Runs\<close>

datatype env_op =
    OpCreate create_calls create_request
  | OpAct bytes action_calls action_request
  | OpStopSeen bytes status_read "process list option" file_calls action_calls
  | OpStopTimeout bytes file_calls action_calls
  | OpReconcile bytes reconcile_calls reconcile_request
  | OpRetire bytes retire_calls retire_request
  | OpHelperEnded bytes bytes "helper_exit option" file_calls
  | OpCrash
  | OpOpen open_host_calls host_config

definition reconcile_ids_ok :: "reconcile_request \<Rightarrow> bool" where
  "reconcile_ids_ok r \<longleftrightarrow>
     list_all validID [rq_OperationID r, rq_SessionID r, rq_Incarnation r, rq_LaunchOperation r, rq_FenceOperation r]"

text \<open>An environment's operations wait for one another: none begins while a stop waits.\<close>

definition free_env :: "bytes \<Rightarrow> host_world \<Rightarrow> environment option" where
  "free_env i w = (if w_up w \<and> map_of (w_pending w) i = None then map_of (w_envs w) i else None)"

definition waiting_env :: "bytes \<Rightarrow> host_world \<Rightarrow> (pending_action \<times> environment) option" where
  "waiting_env i w =
     (if w_up w then case (map_of (w_pending w) i, map_of (w_envs w) i) of (Some p, Some e) \<Rightarrow> Some (p, e) | _ \<Rightarrow> None else None)"

definition keep_env :: "'r env_result \<Rightarrow> host_world" where
  "keep_env r = (case r of (_, e, w) \<Rightarrow> store_env e w)"

text \<open>A step, and the operation whose action it begins.\<close>

fun env_step :: "(bytes \<Rightarrow> bytes) \<Rightarrow> env_op \<Rightarrow> host_world \<Rightarrow> host_world \<times> (bytes \<times> bytes) option" where
  "env_step sha (OpCreate c req) w = (if w_up w then snd (create c req w) else w, None)"
| "env_step sha (OpAct i c req) w =
     (case free_env i w of
        None \<Rightarrow> (w, None)
      | Some e \<Rightarrow>
          (case act sha c req e w of
             (ActWaits p, e, w) \<Rightarrow> ((store_env e w)\<lparr>w_pending := put i p (w_pending w)\<rparr>, Some (i, aq_OperationID req))
           | (ActReturns _, e, w) \<Rightarrow> (store_env e w, Some (i, aq_OperationID req))
           | (_, e, w) \<Rightarrow> (store_env e w, None)))"
| "env_step sha (OpStopSeen i status ps save c) w =
     (case waiting_env i w of
        None \<Rightarrow> (w, None)
      | Some (p, e) \<Rightarrow>
          if stop_confirmed status ps e
          then (keep_env (act_stopped sha c p (stop_done save e (w\<lparr>w_pending := del i (w_pending w)\<rparr>))), None)
          else (w, None))"
| "env_step sha (OpStopTimeout i save c) w =
     (case waiting_env i w of
        None \<Rightarrow> (w, None)
      | Some (p, e) \<Rightarrow> (keep_env (act_stopped sha c p (stop_timeout save e (w\<lparr>w_pending := del i (w_pending w)\<rparr>))), None))"
| "env_step sha (OpReconcile i c req) w =
     (case free_env i w of
        None \<Rightarrow> (w, None)
      | Some e \<Rightarrow> (if reconcile_ids_ok req then keep_env (reconcileLocked sha c req e w) else w, None))"
| "env_step sha (OpRetire i c req) w =
     (case free_env i w of None \<Rightarrow> (w, None) | Some e \<Rightarrow> (keep_env (retire sha c req e w), None))"
| "env_step sha (OpHelperEnded i inc x save) w =
     (if w_up w \<and> list_ex (\<lambda>(j, n, _). j = i \<and> n = inc) (w_waiters w)
      then case map_of (w_envs w) i of None \<Rightarrow> (w, None) | Some e \<Rightarrow> (helper_ended inc x save e w, None)
      else (w, None))"
| "env_step sha OpCrash w = (down w, None)"
| "env_step sha (OpOpen c config) w = (if w_up w then w else snd (OpenHost c config w), None)"

subsection \<open>Small steps\<close>

text \<open>The project inputs of an environment, and where it lives.\<close>

definition inputs_of :: "host_config \<Rightarrow> bytes list" where
  "inputs_of c = [hc_SourceSHA c, hc_SourceBundle c, hc_Base c, hc_ImageDigest c, hc_ImageRef c]"

definition identity_of :: "environment \<Rightarrow> bytes list" where
  "identity_of e = env_id e # v_Session (e_Spec e) # directory e # v_Rootfs (e_Spec e) # inputs_of (v_HostConfig (e_Spec e))"

text \<open>A change that leaves the incarnation, the phase and the actions alone.\<close>

definition edit :: "environment \<Rightarrow> environment \<Rightarrow> bool" where
  "edit e e' \<longleftrightarrow> identity_of e' = identity_of e \<and> env_inc e' = env_inc e \<and> e_Phase e' = e_Phase e \<and> e_Actions e' = e_Actions e \<and>
     (v_RequireRetainedDisk (e_Spec e) \<longrightarrow> v_RequireRetainedDisk (e_Spec e'))"

text \<open>A recorded reconciliation: its request, with the digest, is for the incarnation the action names.\<close>

definition reconciles :: "(bytes \<Rightarrow> bytes) \<Rightarrow> env_action \<Rightarrow> reconcile_request \<Rightarrow> bool" where
  "reconciles sha a req \<longleftrightarrow> ac_Kind a = KReconcile \<and> ac_Expected a = rq_Incarnation req \<and> ac_Retirement a = None \<and>
     (\<exists>r. ac_Reconciliation a = Some r \<and> rc_Request r = req \<and> rc_InputSHA256 r = sha (marshal (reconcile_json req)))"

text \<open>
  The current incarnation has a completed reconciliation, or one whose request has the digest of a
  request for it.
\<close>

definition proven :: "(bytes \<Rightarrow> bytes) \<Rightarrow> environment \<Rightarrow> bool" where
  "proven sha e \<longleftrightarrow> (\<exists>j a. map_of (e_Actions e) j = Some a \<and> ac_Kind a = KReconcile \<and> ac_State a = ACompleted \<and>
     (ac_Expected a = env_inc e \<or>
      (\<exists>r req. ac_Reconciliation a = Some r \<and> rq_Incarnation req = env_inc e \<and> rc_InputSHA256 r = sha (marshal (reconcile_json req)))))"

text \<open>A retirement is kept under the operation that asked for it.\<close>

definition own_retirement :: "bytes \<Rightarrow> env_action \<Rightarrow> bool" where
  "own_retirement j a \<longleftrightarrow> (\<forall>ret. ac_Retirement a = Some ret \<longrightarrow> ac_Kind a = KRetire \<and> rr_OperationID (rt_Request ret) = j)"

text \<open>
  The small steps, each with what the code has made sure of when it is taken. The end of a helper
  whose state is not available (\<open>lost\<close>) sets the phase whatever it was.
\<close>

inductive micro :: "(bytes \<Rightarrow> bytes) \<Rightarrow> bool \<Rightarrow> environment \<times> host_world \<Rightarrow> environment \<times> host_world \<Rightarrow> bool"
  for sha :: "bytes \<Rightarrow> bytes" and lost :: bool where
  store: "micro sha lost (e, w) (e, store_env e w)"
| save: "map_of (w_envs w) (env_id e) = Some e \<Longrightarrow> micro sha lost (e, w) (e, snd (save_env c e w))"
| fatal: "micro sha lost (e, w) (e, w\<lparr>w_fatal := True\<rparr>)"
| revoke: "map_of g (env_id e) \<noteq> Some True \<Longrightarrow> (\<And>j. j \<noteq> env_id e \<Longrightarrow> map_of g j = map_of (w_gates w) j) \<Longrightarrow>
    micro sha lost (e, w) (e, w\<lparr>w_gates := g\<rparr>)"
| open_gate: "e_Phase e = Launching \<or> e_Phase e = Running \<Longrightarrow> map_of (w_envs w) (env_id e) \<noteq> None \<Longrightarrow> micro sha lost (e, w) (e, w\<lparr>w_gates := put (env_id e) True (w_gates w)\<rparr>)"
| edit: "edit e e' \<Longrightarrow> micro sha lost (e, w) (e', w)"
| hold: "e_Phase e \<noteq> Retired \<Longrightarrow> p \<in> {Revoking, Reconciling, ExecutionUnknown} \<Longrightarrow> map_of (w_gates w) (env_id e) \<noteq> Some True \<Longrightarrow>
    micro sha lost (e, w) (e\<lparr>e_Phase := p\<rparr>, w)"
| run: "e_Phase e = Launching \<Longrightarrow> micro sha lost (e, w) (e\<lparr>e_Phase := Running\<rparr>, w)"
| stopped: "e_Phase e \<noteq> Retired \<Longrightarrow> map_of (w_gates w) (env_id e) \<noteq> Some True \<Longrightarrow>
    micro sha lost (e, w) (e\<lparr>e_Phase := Stopped\<rparr>, note_effect (StopObserved (env_id e) (env_inc e)) w)"
| begin_action: "map_of (e_Actions e) j = None \<Longrightarrow> ac_Kind a \<noteq> KReconcile \<Longrightarrow> \<not> launched_action a \<Longrightarrow> ac_Retirement a = None \<Longrightarrow>
    micro sha lost (e, w) (set_action j a e, w)"
| update: "map_of (e_Actions e) j = Some a \<Longrightarrow> ac_Kind a \<noteq> KReconcile \<Longrightarrow> ac_Kind a' = ac_Kind a \<Longrightarrow> ac_Expected a' = ac_Expected a \<Longrightarrow>
    (launched_action a' \<Longrightarrow> e_Phase e = Running \<and> ac_ResultingIncarnation a' = env_inc e \<or>
       launched_action a \<and> ac_ResultingIncarnation a' = ac_ResultingIncarnation a) \<Longrightarrow>
    own_retirement j a' \<or> ac_Retirement a' = ac_Retirement a \<Longrightarrow>
    micro sha lost (e, w) (set_action j a' e, w)"
| begin_reconcile: "map_of (e_Actions e) j = None \<Longrightarrow> reconciles sha a req \<Longrightarrow> rq_Incarnation req = env_inc e \<Longrightarrow> ac_State a \<noteq> ACompleted \<Longrightarrow>
    e_Phase e = Reconciling \<Longrightarrow> (\<exists>l. launched_action l \<and> l \<in> snd ` set (e_Actions e)) \<Longrightarrow> micro sha lost (e, w) (set_action j a e, w)"
| observe: "map_of (e_Actions e) j = Some a \<Longrightarrow> reconciles sha a req \<Longrightarrow> reconciles sha a' req \<Longrightarrow>
    ac_State a' = ACompleted \<longrightarrow> ac_State a = ACompleted \<Longrightarrow> micro sha lost (e, w) (set_action j a' e, w)"
| probed: "micro sha lost (e, w) (e, note_effect (ProbeConfirmed (env_id e) (env_inc e)) w)"
| confirm: "map_of (e_Actions e) j = Some a \<Longrightarrow> reconciles sha a req \<Longrightarrow> reconciles sha a' req \<Longrightarrow> rq_Incarnation req = env_inc e \<Longrightarrow>
    w_trace w \<noteq> [] \<Longrightarrow> last (w_trace w) = ProbeConfirmed (env_id e) (env_inc e) \<Longrightarrow> e_Phase e = Reconciling \<Longrightarrow>
    micro sha lost (e, w) ((set_action j a' e)\<lparr>e_Phase := Fenced\<rparr>, w)"
| draw: "e_Phase e = Created \<or> (e_Phase e = Stopped \<or> e_Phase e = Fenced) \<and> proven sha e \<Longrightarrow>
    inputs_of cfg = inputs_of (v_HostConfig (e_Spec e)) \<Longrightarrow>
    micro sha lost (e, w) (e\<lparr>e_Spec := (e_Spec e)\<lparr>v_Incarnation := inc, v_HostConfig := cfg\<rparr>, e_HelperExit := None, e_Phase := Launching\<rparr>,
      w\<lparr>w_drawn := w_drawn w @ [inc]\<rparr>)"
| launched: "e_Phase e = Created \<or> (e_Phase e = Stopped \<or> e_Phase e = Fenced) \<and> proven sha e \<Longrightarrow>
    inputs_of cfg = inputs_of (v_HostConfig (e_Spec e)) \<Longrightarrow>
    e1 = e\<lparr>e_Spec := (e_Spec e)\<lparr>v_Incarnation := inc, v_HostConfig := cfg\<rparr>, e_HelperExit := None, e_Phase := Launching\<rparr> \<Longrightarrow>
    commit_env c e1 (w\<lparr>w_drawn := w_drawn w @ [inc]\<rparr>) = (True, w1) \<Longrightarrow> gate g e1 w1 = (True, e2, w2) \<Longrightarrow>
    int (live_count (store_env e2 w2)) \<le> hc_MaxLive (w_config w2) \<Longrightarrow>
    micro sha lost (e, w) (e2, note_effect (Launched (env_id e2) (env_inc e2) (v_RequireRetainedDisk (e_Spec e2))) (store_env e2 w2))"
| waiters: "micro sha lost (e, w) (e, w\<lparr>w_waiters := x # w_waiters w\<rparr>)"
| marker: "micro sha lost (e, w) (e, note_effect (StopMarker (env_id e) (env_inc e)) w)"
| disk_probed: "micro sha lost (e, w) (e, note_effect (DiskProbed (env_id e) (env_inc e) dev ino) w)"
| retire: "e_Phase e = Stopped \<or> e_Phase e = Fenced \<Longrightarrow> map_of (e_Actions e) j = None \<Longrightarrow> ac_Kind a = KRetire \<Longrightarrow> own_retirement j a \<Longrightarrow>
    micro sha lost (e, w) ((set_action j a e)\<lparr>e_Phase := Retired\<rparr>, snd (commit_env c ((set_action j a e)\<lparr>e_Phase := Retired\<rparr>) w))"
| removed: "e_Phase e = Retired \<Longrightarrow> map_of (w_disk w) (env_id e) = Some e' \<Longrightarrow> e_Phase e' = Retired \<Longrightarrow>
    DiskProbed (env_id e) (env_inc e) dev ino \<in> set (w_trace w) \<Longrightarrow>
    micro sha lost (e, w) (e, note_effect (DiskRemoved (env_id e) dev ino) w)"
| lost: "lost \<Longrightarrow> micro sha lost (e, w) (e\<lparr>e_Phase := ExecutionUnknown\<rparr>, w)"

abbreviation micros :: "(bytes \<Rightarrow> bytes) \<Rightarrow> bool \<Rightarrow> environment \<times> host_world \<Rightarrow> environment \<times> host_world \<Rightarrow> bool" where
  "micros sha lost \<equiv> (micro sha lost)\<^sup>*\<^sup>*"

subsection \<open>Operations as small steps\<close>

lemma edit_simps [simp]:
  "edit e e" "edit e (e\<lparr>e_LastFence := f\<rparr>)" "edit e (e\<lparr>e_Process := p\<rparr>)" "edit e (e\<lparr>e_HelperExit := x\<rparr>)"
  "edit e (e\<lparr>e_CurrentReconciliation := i, e_LaunchRevoked := l\<rparr>)" "edit e (require_disk j e)"
  by (auto simp: edit_def identity_of_def require_disk_def split: option.split)

lemma micros_edit: "edit e e' \<Longrightarrow> micros sha lost (e, w) (e', w)"
  by (rule r_into_rtranclp) (rule micro.edit)

lemma micros_commit: "micros sha lost (e, w) (e, snd (commit_env c e w))"
  unfolding commit_env_def by (rule converse_rtranclp_into_rtranclp, rule micro.store, rule r_into_rtranclp, rule micro.save)
    (simp add: store_env_def map_of_put)

lemma commit_cases:
  "commit_env c e w = (ok, w') \<Longrightarrow>
     w_envs w' = put (env_id e) e (w_envs w) \<and> w_gates w' = w_gates w \<and> w_trace w' = w_trace w \<and> w_drawn w' = w_drawn w \<and>
     w_config w' = w_config w \<and> w_pending w' = w_pending w \<and> w_up w' = w_up w \<and> w_uid w' = w_uid w \<and>
     (if ok then w_disk w' = put (env_id e) e (w_disk w) \<and> w_fatal w' = w_fatal w
      else w_fatal w' \<and> w_disk w' \<in> {w_disk w, put (env_id e) e (w_disk w)})"
  by (auto simp: commit_env_def save_env_def store_env_def split: save_outcome.splits)

lemma micros_revoke: "micros sha lost (e, w) (e, revoke_gate (env_id e) w)"
proof (cases "map_of (w_gates w) (env_id e) = None")
  case False
  have "micro sha lost (e, w) (e, revoke_gate (env_id e) w)"
    unfolding revoke_gate_def if_not_P [OF False] by (rule micro.revoke) (simp_all add: map_of_put)
  then show ?thesis ..
qed (simp add: revoke_gate_def)

lemma revoke_gate_simps [simp]:
  "map_of (w_gates (revoke_gate i w)) i \<noteq> Some True" "w_trace (revoke_gate i w) = w_trace w" "w_envs (revoke_gate i w) = w_envs w"
  "w_fatal (revoke_gate i w) = w_fatal w" "w_disk (revoke_gate i w) = w_disk w" "w_config (revoke_gate i w) = w_config w"
  "w_pending (revoke_gate i w) = w_pending w" "w_up (revoke_gate i w) = w_up w" "w_drawn (revoke_gate i w) = w_drawn w"
  "w_uid (revoke_gate i w) = w_uid w" "w_waiters (revoke_gate i w) = w_waiters w"
  by (simp_all add: revoke_gate_def map_of_put)

lemma set_action_simps [simp]:
  "e_Spec (set_action i a e) = e_Spec e" "e_Phase (set_action i a e) = e_Phase e" "e_Actions (set_action i a e) = put i a (e_Actions e)"
  "e_LastFence (set_action i a e) = e_LastFence e" "e_Process (set_action i a e) = e_Process e"
  "e_HelperExit (set_action i a e) = e_HelperExit e" "e_CurrentReconciliation (set_action i a e) = e_CurrentReconciliation e"
  by (simp_all add: set_action_def)

lemma note_effect_simps [simp]:
  "w_trace (note_effect x w) = w_trace w @ [x]" "w_envs (note_effect x w) = w_envs w" "w_gates (note_effect x w) = w_gates w"
  "w_fatal (note_effect x w) = w_fatal w" "w_disk (note_effect x w) = w_disk w" "w_config (note_effect x w) = w_config w"
  "w_pending (note_effect x w) = w_pending w" "w_up (note_effect x w) = w_up w" "w_drawn (note_effect x w) = w_drawn w"
  "w_uid (note_effect x w) = w_uid w" "w_waiters (note_effect x w) = w_waiters w"
  by (simp_all add: note_effect_def)

lemma store_env_simps [simp]:
  "w_trace (store_env e w) = w_trace w" "w_envs (store_env e w) = put (env_id e) e (w_envs w)" "w_gates (store_env e w) = w_gates w"
  "w_fatal (store_env e w) = w_fatal w" "w_disk (store_env e w) = w_disk w" "w_config (store_env e w) = w_config w"
  "w_pending (store_env e w) = w_pending w" "w_up (store_env e w) = w_up w" "w_drawn (store_env e w) = w_drawn w"
  "w_uid (store_env e w) = w_uid w" "w_waiters (store_env e w) = w_waiters w"
  by (simp_all add: store_env_def)

text \<open>A reconciliation settles: confirmed, or held again.\<close>

lemma reconciles_action:
  "rc_Request r = req \<Longrightarrow> rc_InputSHA256 r = sha (marshal (reconcile_json req)) \<Longrightarrow> reconciles sha (reconcile_action req r) req"
  by (simp add: reconciles_def reconcile_action_def)

lemma settle_micros:
  assumes a: "map_of (e_Actions e) (rq_OperationID req) = Some (reconcile_action req receipt)"
    and r: "rc_Request receipt = req" "rc_InputSHA256 receipt = sha (marshal (reconcile_json req))"
    and e: "e_Phase e = Reconciling" "rq_Incarnation req = env_inc e" "map_of (w_gates w) (env_id e) \<noteq> Some True"
    and s: "reconcile_settle sha c req receipt preboot answer e w = (res, e', w')"
  shows "micros sha lost (e, w) (e', w')"
proof -
  let ?j = "rq_OperationID req"
  define conf where "conf = probe_confirmed (w_uid w) c e req preboot answer"
  define rec where "rec = observed_receipt sha (w_uid w) c e req preboot answer receipt"
  define a1 where "a1 = reconcile_action req rec"
  have rs: "rc_Request rec = req" "rc_InputSHA256 rec = sha (marshal (reconcile_json req))"
    using r by (simp_all add: rec_def observed_receipt_def)
  have old: "reconciles sha (reconcile_action req receipt) req" "ac_State (reconcile_action req receipt) = ADispatching"
    using r by (simp_all add: reconciles_action) (simp add: reconcile_action_def)
  show ?thesis
  proof (cases "rl_write c")
    case False
    have e': "e' = set_action ?j a1 e" "w' = (store_env e' w)\<lparr>w_fatal := True\<rparr>"
      using s False by (auto simp: reconcile_settle_def Let_def a1_def rec_def)
    have "micro sha lost (e, w) (e', w)" unfolding e'(1)
      using rs by (intro micro.observe [OF a old(1)]) (simp_all add: a1_def reconciles_action, simp add: reconcile_action_def)
    moreover have "micro sha lost (e', w) (e', store_env e' w)" by (rule micro.store)
    moreover have "micro sha lost (e', store_env e' w) (e', w')" unfolding e'(2) by (rule micro.fatal)
    ultimately show ?thesis by (meson converse_rtranclp_into_rtranclp r_into_rtranclp)
  next
    case True
    define w1 where "w1 = (if conf then note_effect (ProbeConfirmed (env_id e) (env_inc e)) w else w)"
    define judged where "judged = (if conf then rec\<lparr>rc_CurrentScope := lit ''fenced_now'', rc_ReplacementEligible := True\<rparr> else rec)"
    define f where "f = reconcile_fence (env_inc e) conf"
    define a2 where "a2 = a1\<lparr>ac_State := (if conf then ACompleted else AExecutionUnknown), ac_Fence := Some f, ac_Reconciliation := Some judged\<rparr>"
    define e2 where "e2 = (set_action ?j a2 e)\<lparr>e_Phase := (if conf then Fenced else ExecutionUnknown)\<rparr>"
    define e3 where "e3 = e2\<lparr>e_LastFence := Some f\<rparr>"
    obtain ok w2 where w2: "commit_env (rl_save_after c) e3 w1 = (ok, w2)" by (metis prod.exhaust)
    define a4 where "a4 = a2\<lparr>ac_Reconciliation := Some (judged\<lparr>rc_ReplacementEligible := False\<rparr>)\<rparr>"
    define e4 where "e4 = (set_action ?j a4 e3)\<lparr>e_Phase := ExecutionUnknown\<rparr>"
    have res: "(e', w') = (if ok then (e3, w2) else (e4, store_env e4 w2))"
      using s True w2 e(2)
      by (auto simp: reconcile_settle_def Let_def a1_def rec_def conf_def w1_def judged_def f_def a2_def e2_def e3_def a4_def e4_def)
    have a2: "reconciles sha a2 req" "reconciles sha a4 req"
      using rs by (simp_all add: a2_def a4_def a1_def judged_def reconciles_def reconcile_action_def)
    have g: "map_of (w_gates w1) (env_id e) \<noteq> Some True" using e(3) by (simp add: w1_def)
    have "micros sha lost (e, w) (e2, w1)"
    proof (cases conf)
      case True
      have "micro sha lost (e, w) (e, w1)" using True by (simp add: w1_def micro.probed)
      moreover have "micro sha lost (e, w1) (e2, w1)"
        using True micro.confirm [OF a old(1) a2(1) e(2), of w1 lost] e(1) by (simp add: e2_def w1_def)
      ultimately show ?thesis by (meson converse_rtranclp_into_rtranclp r_into_rtranclp)
    next
      case False
      have "micro sha lost (e, w1) (set_action ?j a2 e, w1)"
        using False by (intro micro.observe [OF a old(1) a2(1)]) (simp add: a2_def)
      moreover have "micro sha lost (set_action ?j a2 e, w1) (e2, w1)"
        using False e(1) g by (simp add: e2_def micro.hold)
      ultimately show ?thesis using False by (simp add: w1_def)
    qed
    also have "micros sha lost (e2, w1) (e3, w1)" unfolding e3_def by (intro micros_edit) simp
    also have "micros sha lost (e3, w1) (e3, w2)" using micros_commit [of sha lost e3 w1 "rl_save_after c"] w2 by simp
    finally have m: "micros sha lost (e, w) (e3, w2)" .
    show ?thesis
    proof (cases ok)
      case True
      then show ?thesis using m res by simp
    next
      case False
      have "micro sha lost (e3, w2) (set_action ?j a4 e3, w2)"
        using a2 by (intro micro.observe [of _ _ a2]) (simp_all add: e3_def e2_def map_of_put a4_def)
      moreover have "micro sha lost (set_action ?j a4 e3, w2) (e4, w2)"
        unfolding e4_def using g commit_cases [OF w2] by (intro micro.hold) (simp_all add: e3_def e2_def)
      moreover have "micro sha lost (e4, w2) (e4, store_env e4 w2)" by (rule micro.store)
      ultimately show ?thesis using m res False by simp
    qed
  qed
qed

text \<open>What an operation leaves of the host's memory: the environment it worked on, and all others.\<close>

definition touches :: "environment \<times> host_world \<Rightarrow> environment \<times> host_world \<Rightarrow> bool" where
  "touches p q \<longleftrightarrow> w_envs (snd q) = w_envs (snd p) \<and> fst q = fst p \<or>
     env_id (fst q) = env_id (fst p) \<and> w_envs (snd q) = put (env_id (fst p)) (fst q) (w_envs (snd p))"

lemma put_put [simp]: "put i y (put i x m) = put i y m"
  by (induction i x m rule: put.induct) auto

lemma provenI:
  "map_of (e_Actions e) j = Some a \<Longrightarrow> ac_Kind a = KReconcile \<Longrightarrow> ac_State a = ACompleted \<Longrightarrow> ac_Expected a = env_inc e \<Longrightarrow> proven sha e"
  unfolding proven_def by blast

lemma reconcile_basis_launch: "reconcile_basis e req = None \<Longrightarrow> \<exists>l. launched_action l \<and> l \<in> snd ` set (e_Actions e)"
  by (force simp: reconcile_basis_def split: option.splits if_splits dest: map_of_SomeD)

lemma reconcile_receipt_fields:
  "reconcile_receipt sha uid c e req = Inr (receipt, original, birth, preboot) \<Longrightarrow>
     rc_Request receipt = req \<and> rc_InputSHA256 receipt = sha (marshal (reconcile_json req))"
  by (auto simp: reconcile_receipt_def Let_def split: option.splits if_splits status_read.splits)

lemma settle_result:
  assumes "reconcile_settle sha c req receipt preboot answer e w = (res, e', w')" and "rq_Incarnation req = env_inc e"
  shows "touches (e, w) (e', w') \<and> w_config w' = w_config w \<and> w_pending w' = w_pending w \<and> w_up w' = w_up w \<and>
    (\<forall>a. res = Inr a \<longrightarrow> (ac_State a = ACompleted \<longrightarrow> e_Phase e' = Fenced) \<and> map_of (e_Actions e') (rq_OperationID req) = Some a \<and>
       ac_Kind a = KReconcile \<and> ac_Expected a = env_inc e' \<and> w_fatal w' = w_fatal w) \<and> env_inc e' = env_inc e"
  using assms
  by (auto simp: reconcile_settle_def Let_def touches_def map_of_put reconcile_action_def split: if_splits prod.splits
      dest!: commit_cases)

lemma reconcileLocked_micros:
  assumes "reconcileLocked sha c req e w = (res, e', w')"
  shows "micros sha lost (e, w) (e', w') \<and> touches (e, w) (e', w') \<and> w_config w' = w_config w \<and> w_pending w' = w_pending w \<and> w_up w' = w_up w \<and>
    (\<forall>a. res = Inr a \<and> rq_Incarnation req = env_inc e \<longrightarrow> ac_State a = ACompleted \<longrightarrow>
       (e' = e \<or> e_Phase e' = Fenced) \<and> proven sha e' \<and> env_inc e' = env_inc e \<and> \<not> w_fatal w')"
proof -
  consider (same) err where "(res, e', w') = (Inl err, e, w)"
    | (old) a where "(res, e', w') = (Inr a, e, w)" "map_of (e_Actions e) (rq_OperationID req) = Some a" "ac_Kind a = KReconcile" "\<not> w_fatal w"
        "\<exists>r. ac_Reconciliation a = Some r \<and> rc_InputSHA256 r = sha (marshal (reconcile_json req))"
    | (fresh) receipt original birth preboot where "\<not> w_fatal w" "map_of (e_Actions e) (rq_OperationID req) = None" "rq_Incarnation req = env_inc e"
        "e_Phase e \<in> {ExecutionUnknown, Revoking, Reconciling, Stopped, Fenced}" "reconcile_basis e req = None"
        "reconcile_receipt sha (w_uid w) c e req = Inr (receipt, original, birth, preboot)"
        "rq_SessionID req = v_Session (e_Spec e)"
    using assms by (auto simp: reconcileLocked_def split: if_splits option.splits sum.splits)
  then show ?thesis
  proof cases
    case same
    then show ?thesis by (simp add: touches_def)
  next
    case old
    then show ?thesis by (auto simp: touches_def proven_def)
  next
    case fresh
    let ?j = "rq_OperationID req" and ?a = "reconcile_action req receipt"
    note rc = reconcile_receipt_fields [OF fresh(6)]
    define w1 where "w1 = revoke_gate (env_id e) w"
    define e1 where "e1 = e\<lparr>e_Phase := Reconciling\<rparr>"
    define e2 where "e2 = set_action ?j ?a e1"
    define e3 where "e3 = e2\<lparr>e_CurrentReconciliation := ?j, e_LaunchRevoked := e_LaunchRevoked e @ [rq_Incarnation req]\<rparr>"
    have e3: "e3 = (set_action ?j ?a e)\<lparr>e_Phase := Reconciling, e_CurrentReconciliation := ?j, e_LaunchRevoked := e_LaunchRevoked e @ [rq_Incarnation req]\<rparr>"
      by (simp add: e3_def e2_def e1_def set_action_def)
    obtain ok w2 where w2: "commit_env (rl_save c) e3 w1 = (ok, w2)" by (metis prod.exhaust)
    have "micros sha lost (e, w) (e, w1)" unfolding w1_def by (rule micros_revoke)
    also have "micro sha lost (e, w1) (e1, w1)" unfolding e1_def using fresh(4) by (intro micro.hold) (auto simp: w1_def)
    also have "micro sha lost (e1, w1) (e2, w1)" unfolding e2_def
      using fresh(2,3) reconcile_basis_launch [OF fresh(5)] rc
      by (intro micro.begin_reconcile [of _ _ _ _ req]) (simp_all add: e1_def reconciles_action, simp add: reconcile_action_def)
    also have "micros sha lost (e2, w1) (e3, w1)" unfolding e3_def by (intro micros_edit) simp
    also have "micros sha lost (e3, w1) (e3, w2)" using micros_commit [of sha lost e3 w1 "rl_save c"] w2 by simp
    finally have m: "micros sha lost (e, w) (e3, w2)" .
    have res: "(res, e', w') = (if ok then reconcile_settle sha c req receipt preboot (rl_probe c (fence_probe e3 req original birth preboot)) e3 w2
        else (Inl SaveError, e3, w2))"
      using assms fresh w2 unfolding e3 w1_def by (simp add: reconcileLocked_def Let_def split: if_splits)
    note cc = commit_cases [OF w2]
    have ids: "env_id e3 = env_id e" "env_inc e3 = env_inc e" "e_Phase e3 = Reconciling" "map_of (e_Actions e3) ?j = Some ?a"
      by (simp_all add: e3 map_of_put)
    show ?thesis
    proof (cases ok)
      case False
      then show ?thesis using m res cc ids by (simp add: touches_def w1_def)
    next
      case True
      have s: "reconcile_settle sha c req receipt preboot (rl_probe c (fence_probe e3 req original birth preboot)) e3 w2 = (res, e', w')"
        using res True by simp
      have g: "map_of (w_gates w2) (env_id e3) \<noteq> Some True" using cc ids by (simp add: w1_def)
      have inc: "rq_Incarnation req = env_inc e3" using fresh(3) ids by simp
      have "micros sha lost (e3, w2) (e', w')"
        using settle_micros [OF ids(4) _ _ ids(3) inc g s] rc by simp
      with m have "micros sha lost (e, w) (e', w')" by simp
      moreover note settle_result [OF s inc]
      ultimately show ?thesis
        using cc ids fresh(1) True by (auto simp: touches_def w1_def intro: provenI)
    qed
  qed
qed

text \<open>\<open>ensurePredecessor\<close>, when it names an operation, leaves proof for the current incarnation.\<close>

lemma ensurePredecessor_micros:
  assumes "ensurePredecessor sha evidence c e w = (res, e', w')"
  shows "micros sha lost (e, w) (e', w') \<and> touches (e, w) (e', w') \<and> w_config w' = w_config w \<and> w_pending w' = w_pending w \<and> w_up w' = w_up w \<and>
    (\<forall>i. res = Inr i \<longrightarrow> (e' = e \<or> e_Phase e' = Fenced) \<and> proven sha e' \<and> env_inc e' = env_inc e \<and> \<not> w_fatal w')"
proof (cases "\<exists>i. predecessorOperation e (env_inc e) = Some i")
  case True
  then obtain i where i: "predecessorOperation e (env_inc e) = Some i" by blast
  then have "proven sha e"
    unfolding proven_def predecessorOperation_def by (fastforce simp: Let_def split: option.splits if_splits)
  then show ?thesis
    using assms i by (auto simp: ensurePredecessor_def touches_def split: if_splits option.splits)
next
  case False
  define req where "req = \<lparr>rq_OperationID = lit ''predecessor-'' @ sha (v_Session (e_Spec e) @ [0] @ env_inc e), rq_SessionID = v_Session (e_Spec e),
    rq_Incarnation = env_inc e, rq_LaunchOperation = predecessor_launch e, rq_FenceOperation = last_action (revoked_fence (env_inc e)) e\<rparr>"
  obtain r2 e2 w2 where r: "reconcileLocked sha c req e w = (r2, e2, w2)" by (metis prod.exhaust)
  note rl = reconcileLocked_micros [OF r, of lost]
  have inc: "rq_Incarnation req = env_inc e" by (simp add: req_def)
  have "(\<exists>err. (res, e', w') = (Inl err, e, w)) \<or>
    (e', w') = (e2, w2) \<and> (\<forall>i. res = Inr i \<longrightarrow> (\<exists>a. r2 = Inr a \<and> ac_State a = ACompleted))"
    using assms False r unfolding req_def
    by (auto simp: ensurePredecessor_def Let_def split: if_splits option.splits sum.splits)
  then show ?thesis using rl inc by (auto simp: touches_def)
qed

lemma live_put: "length (filter P (put i x m)) \<le> length (filter P m) + (if P (i, x) then 1 else 0)"
  by (induction i x m rule: put.induct) auto

lemma gate_result:
  assumes "gate c e w = (ok, e', w')"
  shows "edit e e' \<and> w_envs w' = w_envs w \<and> w_disk w' = w_disk w \<and> w_trace w' = w_trace w \<and> w_drawn w' = w_drawn w \<and>
    w_config w' = w_config w \<and> w_pending w' = w_pending w \<and> w_up w' = w_up w \<and> w_fatal w' = w_fatal w"
  using assms by (auto simp: gate_def Let_def edit_def identity_of_def inputs_of_def split: if_splits)

lemma gate_micros:
  assumes "gate c e w = (ok, e', w')" and "e_Phase e = Launching \<or> e_Phase e = Running" "map_of (w_envs w) (env_id e) \<noteq> None"
  shows "micros sha lost (e, w) (e', w')"
proof -
  have "micro sha lost (e, w) (e, w')"
  proof -
    consider "w' = w\<lparr>w_gates := del (env_id e) (w_gates w)\<rparr>" | "w' = w\<lparr>w_gates := put (env_id e) True (w_gates w)\<rparr>"
      using assms(1) by (auto simp: gate_def Let_def split: if_splits)
    then show ?thesis
    proof cases
      case 1
      then show ?thesis by (simp, intro micro.revoke) (simp_all add: map_of_del)
    next
      case 2
      then show ?thesis using assms(2,3) by (simp add: micro.open_gate)
    qed
  qed
  also have "micros sha lost (e, w') (e', w')" using gate_result [OF assms(1)] by (intro micros_edit) simp
  finally show ?thesis .
qed

lemma edit_keeps:
  "edit e e' \<Longrightarrow> env_id e' = env_id e \<and> env_inc e' = env_inc e \<and> e_Phase e' = e_Phase e \<and> e_Actions e' = e_Actions e"
  by (simp add: edit_def identity_of_def)

lemma launched_state:
  assumes "e1 = e\<lparr>e_Spec := (e_Spec e)\<lparr>v_Incarnation := inc, v_HostConfig := cfg\<rparr>, e_HelperExit := None, e_Phase := Launching\<rparr>"
    and "commit_env c e1 (w\<lparr>w_drawn := w_drawn w @ [inc]\<rparr>) = (True, w1)" and "gate g e1 w1 = (True, e2, w2)"
    and "inputs_of cfg = inputs_of (v_HostConfig (e_Spec e))"
  shows "identity_of e2 = identity_of e \<and> env_id e2 = env_id e \<and> env_inc e2 = inc \<and> e_Phase e2 = Launching \<and> e_Actions e2 = e_Actions e \<and>
    w_envs w2 = put (env_id e) e1 (w_envs w) \<and> w_disk w2 = put (env_id e) e1 (w_disk w) \<and> w_trace w2 = w_trace w \<and>
    w_drawn w2 = w_drawn w @ [inc] \<and> w_config w2 = w_config w \<and> w_pending w2 = w_pending w \<and> w_up w2 = w_up w \<and> w_fatal w2 = w_fatal w \<and>
    w_gates w2 = put (env_id e) True (w_gates w) \<and> (v_RequireRetainedDisk (e_Spec e) \<longrightarrow> v_RequireRetainedDisk (e_Spec e2))"
proof -
  have "w_gates w2 = put (env_id e1) True (w_gates w1)" using assms(3) by (auto simp: gate_def Let_def split: if_splits)
  moreover have "identity_of e1 = identity_of e" using assms(4) by (simp add: assms(1) identity_of_def)
  ultimately show ?thesis
    using gate_result [OF assms(3)] commit_cases [OF assms(2)] by (simp add: assms(1) edit_def identity_of_def)
qed

lemma launch_helper_micros:
  assumes "launch_helper c e w = (res, e', w')" and "e_Phase e = Launching" and "sc_started c = Some pid"
    and m: "micros sha lost p (e, note_effect (Launched (env_id e) (env_inc e) (v_RequireRetainedDisk (e_Spec e))) w)"
  shows "micros sha lost p (e', w') \<and> (w_envs w' = put (env_id e) e' (w_envs w) \<or> w_envs w' = w_envs w \<and> e' = e) \<and>
    env_id e' = env_id e \<and> (\<not> isl res \<longrightarrow> e_Phase e' = Running)"
proof -
  define x where "x = Launched (env_id e) (env_inc e) (v_RequireRetainedDisk (e_Spec e))"
  define w1 where "w1 = (note_effect x w)\<lparr>w_waiters := (env_id e, env_inc e, pid) # w_waiters w\<rparr>"
  have "micros sha lost p (e, note_effect x w)" using m by (simp add: x_def)
  also have "micro sha lost (e, note_effect x w) (e, w1)"
    using micro.waiters [of sha lost e "note_effect x w"] by (simp add: w1_def note_effect_def)
  finally have m: "micros sha lost p (e, w1)" .
  show ?thesis
  proof (cases "Option.bind (sc_processes c) (\<lambda>ps. find_process ps pid)")
    case None
    then show ?thesis using assms(1,3) m by (auto simp: launch_helper_def Let_def w1_def x_def)
  next
    case (Some q)
    define e1 where "e1 = e\<lparr>e_Process := q\<rparr>"
    define e2 where "e2 = e1\<lparr>e_Phase := Running\<rparr>"
    obtain ok w2 where w2: "commit_env (sc_save_running c) e2 w1 = (ok, w2)" by (metis prod.exhaust)
    note m
    also have "micros sha lost (e, w1) (e1, w1)" unfolding e1_def by (intro micros_edit) simp
    also have "micro sha lost (e1, w1) (e2, w1)" unfolding e2_def using assms(2) by (intro micro.run) (simp add: e1_def)
    also have "micros sha lost (e2, w1) (e2, w2)" using micros_commit [of sha lost e2 w1 "sc_save_running c"] w2 by simp
    finally have m2: "micros sha lost p (e2, w2)" .
    have "(res, e', w') = (if ok then Inr () else Inl SaveError, e2, w2)"
      using assms(1,3) Some w2
      by (simp add: launch_helper_def Let_def w1_def x_def e2_def e1_def unit_result_def split: if_splits)
    then show ?thesis using m2 commit_cases [OF w2] by (auto simp: e2_def e1_def w1_def)
  qed
qed

lemma launch_micros:
  assumes "launch c cfg e w = (res, e', w')"
    and ready: "e_Phase e = Created \<or> (e_Phase e = Stopped \<or> e_Phase e = Fenced) \<and> proven sha e"
    and inputs: "inputs_of cfg = inputs_of (v_HostConfig (e_Spec e))" and "int (live_count w) < hc_MaxLive (w_config w)"
  shows "micros sha lost (e, w) (e', w') \<and> env_id e' = env_id e \<and> w_envs w' = put (env_id e) e' (w_envs w) \<and> (\<not> isl res \<longrightarrow> e_Phase e' = Running)"
proof -
  define e1 where "e1 = e\<lparr>e_Spec := (e_Spec e)\<lparr>v_Incarnation := sc_random c, v_HostConfig := cfg\<rparr>, e_HelperExit := None, e_Phase := Launching\<rparr>"
  define w1 where "w1 = w\<lparr>w_drawn := w_drawn w @ [sc_random c]\<rparr>"
  obtain ok w2 where w2: "commit_env (sc_save c) e1 w1 = (ok, w2)" by (metis prod.exhaust)
  obtain ok' e3 w3 where g: "gate (sc_gate c) e1 w2 = (ok', e3, w3)" by (metis prod.exhaust)
  define w4 where "w4 = store_env e3 w3"
  note cc = commit_cases [OF w2] and gr = gate_result [OF g]
  note ek = edit_keeps [OF conjunct1 [OF gr]]
  have "micro sha lost (e, w) (e1, w1)" unfolding e1_def w1_def using ready inputs by (rule micro.draw)
  also have "micros sha lost (e1, w1) (e1, w2)" using micros_commit [of sha lost e1 w1 "sc_save c"] w2 by simp
  finally have m2: "micros sha lost (e, w) (e1, w2)" .
  also have "micros sha lost (e1, w2) (e3, w3)" using cc by (intro gate_micros [OF g]) (simp_all add: e1_def map_of_put)
  also have "micro sha lost (e3, w3) (e3, w4)" unfolding w4_def by (rule micro.store)
  finally have m4: "micros sha lost (e, w) (e3, w4)" .
  have envs: "w_envs w2 = put (env_id e) e1 (w_envs w)" "w_envs w4 = put (env_id e) e3 (w_envs w)" "env_id e3 = env_id e" "e_Phase e3 = Launching"
    using cc gr ek by (simp_all add: w4_def w1_def e1_def)
  have live: "int (live_count w4) \<le> hc_MaxLive (w_config w3)"
  proof -
    have "live_count w4 \<le> live_count w + 1"
      using live_put [of "\<lambda>(_, e). \<not> dormant (e_Phase e)" "env_id e" e3 "w_envs w"] envs(2)
      by (simp add: live_count_def split: if_splits)
    then show ?thesis using assms(4) cc gr by (simp add: w1_def)
  qed
  consider (save) "(res, e', w') = (Inl SaveError, e1, w2)" | (early) err where "(res, e', w') = (Inl err, e3, w4)"
    | (started) pid where "ok" "ok'" "sc_started c = Some pid" "launch_helper c e3 w4 = (res, e', w')"
    using assms(1) w2 g
    by (cases "sc_started c") (auto simp: launch_def Let_def e1_def w1_def w4_def launch_helper_def split: if_splits)
  then show ?thesis
  proof cases
    case started
    have "micro sha lost (e, w) (e3, note_effect (Launched (env_id e3) (env_inc e3) (v_RequireRetainedDisk (e_Spec e3))) w4)"
      unfolding w4_def
      using started(1,2) w2 g live unfolding w1_def w4_def by (intro micro.launched [OF ready inputs e1_def]) auto
    then have "micros sha lost (e, w) (e', w') \<and> (w_envs w' = put (env_id e3) e' (w_envs w4) \<or> w_envs w' = w_envs w4 \<and> e' = e3) \<and>
        env_id e' = env_id e3 \<and> (\<not> isl res \<longrightarrow> e_Phase e' = Running)"
      by (intro launch_helper_micros [OF started(4) envs(4) started(3)]) (rule r_into_rtranclp)
    then show ?thesis using envs by auto
  qed (use m2 m4 envs in \<open>auto simp: e1_def\<close>)
qed

text \<open>No small step changes what an environment is made of.\<close>

lemma micro_identity: "micro sha lost p q \<Longrightarrow> identity_of (fst q) = identity_of (fst p)"
proof (induction rule: micro.induct)
  case (launched e cfg e1 inc c w w1 g e2 w2)
  then show ?case using launched_state [OF launched(3-5,2)] by simp
qed (auto simp: identity_of_def edit_def)

lemma micros_identity: "micros sha lost p q \<Longrightarrow> identity_of (fst q) = identity_of (fst p)"
  by (induction rule: rtranclp_induct) (auto simp: micro_identity)

lemma start_refusal_inputs: "start_refusal sha c cfg e = None \<Longrightarrow> inputs_of cfg = inputs_of (v_HostConfig (e_Spec e))"
  by (auto simp: start_refusal_def inputs_of_def Let_def split: if_splits)

lemma start_micros:
  assumes "start sha c e w = (res, e', w')"
  shows "micros sha lost (e, w) (e', w') \<and> touches (e, w) (e', w') \<and> (\<not> isl res \<longrightarrow> e_Phase e' = Running)"
proof -
  consider (refused) err where "(res, e', w') = (Inl err, e, w)"
    | (first) cfg where "e_Phase e = Created" "start_refusal sha c cfg e = None" "int (live_count w) < hc_MaxLive (w_config w)"
        "launch c cfg e w = (res, e', w')"
    | (again) cfg where "e_Phase e \<in> {Stopped, Fenced}" "start_refusal sha c cfg e = None" "int (live_count w) < hc_MaxLive (w_config w)"
        "(case ensurePredecessor sha (sc_evidence c) (sc_reconcile c) e w of
            (Inl err, e, w) \<Rightarrow> (Inl err, e, w) | (Inr i, e, w) \<Rightarrow> launch c cfg (require_disk i e) w) = (res, e', w')"
    using assms by (auto simp: start_def not_le split: if_splits sum.splits option.splits)
  then show ?thesis
  proof cases
    case refused
    then show ?thesis by (auto simp: touches_def)
  next
    case first
    then show ?thesis using launch_micros [OF first(4), of sha lost] start_refusal_inputs [OF first(2)] by (simp add: touches_def)
  next
    case again
    obtain r2 e2 w2 where p: "ensurePredecessor sha (sc_evidence c) (sc_reconcile c) e w = (r2, e2, w2)" by (metis prod.exhaust)
    note ep = ensurePredecessor_micros [OF p, of lost]
    show ?thesis
    proof (cases r2)
      case (Inl err)
      then show ?thesis using ep again(4) p by auto
    next
      case (Inr i)
      define e3 where "e3 = require_disk i e2"
      have ed: "edit e2 e3" by (simp add: e3_def)
      note ek = edit_keeps [OF ed]
      have l: "launch c cfg e3 w2 = (res, e', w')" using again(4) p Inr by (simp add: e3_def)
      have e2: "e_Phase e2 = Stopped \<or> e_Phase e2 = Fenced" "proven sha e2" "env_id e2 = env_id e"
        using ep Inr again(1) by (auto simp: touches_def)
      have live: "live_count w2 \<le> live_count w"
        using ep e2(1) live_put [of "\<lambda>(_, e). \<not> dormant (e_Phase e)" "env_id e" e2 "w_envs w"]
        by (auto simp: touches_def live_count_def dormant_def)
      have "proven sha e3" using e2(2) ek by (simp add: proven_def)
      moreover have "inputs_of cfg = inputs_of (v_HostConfig (e_Spec e3))"
      proof -
        have "identity_of e3 = identity_of e2" using ed by (simp add: edit_def)
        moreover have "identity_of e2 = identity_of e" using ep micros_identity by auto
        ultimately show ?thesis using start_refusal_inputs [OF again(2)] by (simp add: identity_of_def)
      qed
      ultimately have l: "micros sha lost (e3, w2) (e', w') \<and> env_id e' = env_id e3 \<and> w_envs w' = put (env_id e3) e' (w_envs w2) \<and>
          (\<not> isl res \<longrightarrow> e_Phase e' = Running)"
        using live again(3) ep ek e2(1) by (intro launch_micros [OF l]) auto
      have "touches (e, w) (e', w')"
        using ep l ek e2(3) by (auto simp: touches_def)
      moreover have "micros sha lost (e, w) (e', w')"
        using ep l micros_edit [OF ed] by (meson rtranclp_trans)
      ultimately show ?thesis using l by simp
    qed
  qed
qed

text \<open>No small step forgets an action or changes what it is; nor does it touch the host's other fields.\<close>

lemma micro_actions:
  "micro sha lost p q \<Longrightarrow> map_of (e_Actions (fst p)) j = Some a \<Longrightarrow>
     \<exists>a'. map_of (e_Actions (fst q)) j = Some a' \<and> ac_Kind a' = ac_Kind a \<and> ac_Expected a' = ac_Expected a"
proof (induction rule: micro.induct)
  case (launched e cfg e1 inc c w w1 g e2 w2)
  then show ?case using launched_state [OF launched(3-5,2)] by simp
qed (auto simp: map_of_put edit_def reconciles_def)

lemma micros_actions:
  "micros sha lost p q \<Longrightarrow> map_of (e_Actions (fst p)) j = Some a \<Longrightarrow>
     \<exists>a'. map_of (e_Actions (fst q)) j = Some a' \<and> ac_Kind a' = ac_Kind a \<and> ac_Expected a' = ac_Expected a"
proof (induction arbitrary: a rule: converse_rtranclp_induct)
  case (step p p')
  from micro_actions [OF step(1) step(4)] step(3) show ?case by force
qed auto

lemma save_env_frame [simp]:
  "w_config (snd (save_env c e w)) = w_config w" "w_pending (snd (save_env c e w)) = w_pending w" "w_up (snd (save_env c e w)) = w_up w"
  "w_trace (snd (save_env c e w)) = w_trace w" "w_drawn (snd (save_env c e w)) = w_drawn w" "w_envs (snd (save_env c e w)) = w_envs w"
  "w_gates (snd (save_env c e w)) = w_gates w"
  by (simp_all add: save_env_def split: save_outcome.split)

lemma micro_frame:
  "micro sha lost p q \<Longrightarrow> w_config (snd q) = w_config (snd p) \<and> w_pending (snd q) = w_pending (snd p) \<and> w_up (snd q) = w_up (snd p)"
proof (induction rule: micro.induct)
  case (launched e cfg e1 inc c w w1 g e2 w2)
  then show ?case using launched_state [OF launched(3-5,2)] by simp
qed (auto simp: commit_env_def)

lemma micros_frame:
  "micros sha lost p q \<Longrightarrow> w_config (snd q) = w_config (snd p) \<and> w_pending (snd q) = w_pending (snd p) \<and> w_up (snd q) = w_up (snd p)"
  by (induction rule: rtranclp_induct) (auto dest: micro_frame)

text \<open>An action that neither launched nor retired anything yet.\<close>

definition plain_action :: "env_action \<Rightarrow> bool" where
  "plain_action a \<longleftrightarrow> \<not> launched_action a \<and> ac_Retirement a = None"

lemma selectHarness_micros:
  assumes "selectHarness sha evidence c save i cfg e w = (res, e', w')"
    and "map_of (e_Actions e) i = Some b" "ac_Kind b = KReplace" "plain_action b" "inputs_of cfg = inputs_of (v_HostConfig (e_Spec e))"
  shows "micros sha lost (e, w) (e', w') \<and> touches (e, w) (e', w')"
proof -
  obtain r2 e2 w2 where p: "ensurePredecessor sha evidence c e w = (r2, e2, w2)" by (metis prod.exhaust)
  note ep = ensurePredecessor_micros [OF p, of lost]
  show ?thesis
  proof (cases "\<exists>err e0 w0. (res, e', w') = (Inl err, e0, w0) \<and> (e0, w0) \<in> {(e, w), (e2, w2)}")
    case True
    then show ?thesis using ep by (auto simp: touches_def)
  next
    case False
    then obtain h where h: "ac_Switch b = Some h" using assms(1,2) by (cases "ac_Switch b") (auto simp: selectHarness_def)
    define b' where "b' = b\<lparr>ac_Switch := Some (h\<lparr>hs_Selected := True\<rparr>)\<rparr>"
    define e3 where "e3 = set_action i b' e2"
    define e4 where "e4 = e3\<lparr>e_Spec := (e_Spec e3)\<lparr>v_HostConfig := cfg, v_Profile := hs_TargetProfile h, v_RequireRetainedDisk := True\<rparr>\<rparr>"
    obtain ok w4 where w4: "commit_env save e4 w2 = (ok, w4)" by (metis prod.exhaust)
    have res: "(e', w') = (e4, w4)"
      using assms(1,2) h p False w4
      by (auto simp: selectHarness_def Let_def unit_result_def e4_def e3_def b'_def split: if_splits sum.splits option.splits)
    obtain b2 where b2: "map_of (e_Actions e2) i = Some b2" "ac_Kind b2 = ac_Kind b" "ac_Expected b2 = ac_Expected b"
      using micros_actions [of sha lost "(e, w)" "(e2, w2)" i b] ep assms(2) by auto
    have id: "identity_of e2 = identity_of e" using micros_identity [of sha lost "(e, w)" "(e2, w2)"] ep by simp
    have "micro sha lost (e2, w2) (e3, w2)" unfolding e3_def
      using b2 assms(3,4) by (intro micro.update [OF b2(1)]) (auto simp: b'_def launched_action_def plain_action_def own_retirement_def)
    also have "micros sha lost (e3, w2) (e4, w2)"
      using id assms(5) by (intro micros_edit) (simp add: e4_def e3_def edit_def identity_of_def)
    also have "micros sha lost (e4, w2) (e4, w4)" using micros_commit [of sha lost e4 w2 save] w4 by simp
    finally have m: "micros sha lost (e2, w2) (e', w')" using res by simp
    moreover have "touches (e, w) (e', w')"
      using ep commit_cases [OF w4] res by (auto simp: touches_def e4_def e3_def)
    ultimately show ?thesis using ep by (meson rtranclp_trans)
  qed
qed

lemma act_finish_micros:
  assumes "act_finish c kind i (res0, e, w) = (res, e', w')" and "map_of (e_Actions e) i = Some a" "ac_Kind a = kind" "kind \<noteq> KReconcile"
    and "\<not> isl res0 \<Longrightarrow> kind = KStart \<or> kind = KReplace \<Longrightarrow> e_Phase e = Running"
  shows "micros sha lost (e, w) (e', w') \<and> env_id e' = env_id e \<and> w_envs w' = put (env_id e) e' (w_envs w)"
proof -
  define a' where "a' = a\<lparr>ac_State := (if isl res0 then AAcceptanceUnknown else ACompleted),
     ac_Fence := (if kind \<noteq> KStart then e_LastFence e else ac_Fence a),
     ac_ResultingIncarnation := (if \<not> isl res0 \<and> kind \<noteq> KStop then env_inc e else ac_ResultingIncarnation a)\<rparr>"
  obtain ok w2 where w2: "commit_env (al_finish_save c) (set_action i a' e) w = (ok, w2)" by (metis prod.exhaust)
  have res: "e' = set_action i a' e" "w' = w2"
    using assms(1,2) w2 by (auto simp: act_finish_def update_action_def Let_def a'_def split: if_splits)
  have "micro sha lost (e, w) (e', w)" unfolding res(1)
    using assms(3-) by (intro micro.update [OF assms(2)]) (auto simp: a'_def launched_action_def)
  also have "micros sha lost (e', w) (e', w')" using micros_commit [of sha lost e' w "al_finish_save c"] w2 res by simp
  finally show ?thesis using commit_cases [OF w2] res by simp
qed

lemma act_stopped_micros:
  assumes "act_stopped sha c p (res0, e, w) = (res, e', w')" and "map_of (e_Actions e) (pa_OperationID p) = Some a"
    and "ac_Kind a = pa_Kind p" "pa_Kind p = KStop \<or> pa_Kind p = KReplace" "plain_action a"
    and "\<And>cfg. pa_Target p = Some cfg \<Longrightarrow> inputs_of cfg = inputs_of (v_HostConfig (e_Spec e))"
  shows "micros sha lost (e, w) (e', w') \<and> env_id e' = env_id e \<and> w_envs w' = put (env_id e) e' (w_envs w)"
proof (cases "isl res0 \<or> pa_Kind p \<noteq> KReplace")
  case True
  then have "act_finish c (pa_Kind p) (pa_OperationID p) (res0, e, w) = (res, e', w')"
    using assms(1) by (auto simp: act_stopped_def)
  then show ?thesis using True assms(2-4) by (intro act_finish_micros) auto
next
  case False
  let ?i = "pa_OperationID p"
  define a1 where "a1 = a\<lparr>ac_Fence := e_LastFence e\<rparr>"
  define e1 where "e1 = set_action ?i a1 e"
  obtain ok w1 where w1: "commit_env (al_fence_save c) e1 w = (ok, w1)" by (metis prod.exhaust)
  note cc = commit_cases [OF w1]
  have "micro sha lost (e, w) (e1, w)" unfolding e1_def
    using assms(3-5) by (intro micro.update [OF assms(2)]) (auto simp: a1_def launched_action_def plain_action_def)
  also have "micros sha lost (e1, w) (e1, w1)" using micros_commit [of sha lost e1 w "al_fence_save c"] w1 by simp
  finally have m1: "micros sha lost (e, w) (e1, w1)" .
  have a1: "map_of (e_Actions e1) ?i = Some a1" "ac_Kind a1 = KReplace" "plain_action a1"
    using assms(3-5) False by (simp_all add: e1_def map_of_put a1_def launched_action_def plain_action_def)
  define r2 where "r2 = (if \<not> ok then (Inl SaveError, e1, w1)
     else case pa_Target p of
       None \<Rightarrow> start sha (al_start c) e1 w1
     | Some cfg \<Rightarrow>
         (case selectHarness sha (al_evidence c) (al_reconcile c) (al_select_save c) ?i cfg e1 w1 of
            (Inl err, e, w) \<Rightarrow> (Inl err, e, w)
          | (Inr _, e, w) \<Rightarrow> start sha (al_start c) e w))"
  obtain res2 e2 w2 where r2: "r2 = (res2, e2, w2)" by (metis prod.exhaust)
  have upd: "update_action ?i (\<lambda>a. a\<lparr>ac_Fence := e_LastFence e\<rparr>) e = e1"
    using assms(2) by (simp add: update_action_def e1_def a1_def)
  have "act_stopped sha c p (res0, e, w) = act_finish c (pa_Kind p) ?i r2"
    using False unfolding r2_def act_stopped_def Let_def prod.case upd w1 by simp
  then have fin: "act_finish c (pa_Kind p) ?i (res2, e2, w2) = (res, e', w')" using assms(1) r2 by simp
  have m2: "micros sha lost (e1, w1) (e2, w2) \<and> touches (e1, w1) (e2, w2) \<and> (\<not> isl res2 \<longrightarrow> e_Phase e2 = Running)"
  proof (cases "ok \<and> pa_Target p \<noteq> None")
    case True
    then obtain cfg where cfg: "pa_Target p = Some cfg" by auto
    obtain r3 e3 w3 where r3: "selectHarness sha (al_evidence c) (al_reconcile c) (al_select_save c) ?i cfg e1 w1 = (r3, e3, w3)"
      by (metis prod.exhaust)
    have m3: "micros sha lost (e1, w1) (e3, w3)" "touches (e1, w1) (e3, w3)"
      using selectHarness_micros [OF r3 a1, of lost] assms(6) [OF cfg] by (simp_all add: e1_def)
    show ?thesis
    proof (cases r3)
      case (Inl err)
      then show ?thesis using r2 r3 cfg True m3 by (auto simp: r2_def)
    next
      case (Inr u)
      then have st: "start sha (al_start c) e3 w3 = (res2, e2, w2)" using r2 r3 cfg True by (simp add: r2_def)
      then show ?thesis using start_micros [OF st, of lost] m3 by (auto simp: touches_def intro: rtranclp_trans)
    qed
  next
    case False
    then show ?thesis using r2 start_micros [of sha "al_start c" e1 w1 res2 e2 w2 lost]
      by (auto simp: r2_def touches_def split: if_splits option.splits)
  qed
  obtain a2 where a2: "map_of (e_Actions e2) ?i = Some a2" "ac_Kind a2 = KReplace"
    using micros_actions [of sha lost "(e1, w1)" "(e2, w2)" ?i a1] m2 a1 by auto
  have "micros sha lost (e2, w2) (e', w') \<and> env_id e' = env_id e2 \<and> w_envs w' = put (env_id e2) e' (w_envs w2)"
    using a2 False m2 by (intro act_finish_micros [OF fin a2(1)]) auto
  moreover have "env_id e2 = env_id e" "put (env_id e) e' (w_envs w2) = put (env_id e) e' (w_envs w)"
    using m2 cc by (auto simp: touches_def e1_def)
  ultimately show ?thesis using m1 m2 by (auto intro: rtranclp_trans)
qed

lemma stop_begin_micros:
  assumes "stop_begin save marker e w = (r, e', w')"
  shows "micros sha lost (e, w) (e', w') \<and> touches (e, w) (e', w') \<and> e_Actions e' = e_Actions e \<and>
    (r = StopWaits \<longrightarrow> e_Phase e' = Revoking \<and> map_of (w_gates w') (env_id e') \<noteq> Some True)"
proof (cases "e_Phase e \<in> {Stopped, Fenced, Retired}")
  case True
  then show ?thesis using assms by (auto simp: stop_begin_def touches_def)
next
  case False
  define w1 where "w1 = revoke_gate (env_id e) w"
  define e1 where "e1 = e\<lparr>e_Phase := Revoking\<rparr>"
  define e2 where "e2 = e1\<lparr>e_LastFence := Some (stop_fence e)\<rparr>"
  obtain ok w2 where w2: "commit_env save e2 w1 = (ok, w2)" by (metis prod.exhaust)
  have "micros sha lost (e, w) (e, w1)" unfolding w1_def by (rule micros_revoke)
  also have "micro sha lost (e, w1) (e1, w1)" unfolding e1_def using False by (intro micro.hold) (auto simp: w1_def)
  also have "micros sha lost (e1, w1) (e2, w1)" unfolding e2_def by (intro micros_edit) simp
  also have "micros sha lost (e2, w1) (e2, w2)" using micros_commit [of sha lost e2 w1 save] w2 by simp
  finally have m: "micros sha lost (e, w) (e2, w2)" .
  moreover have "micro sha lost (e2, w2) (e2, note_effect (StopMarker (env_id e2) (env_inc e2)) w2)" by (rule micro.marker)
  moreover have "e' = e2" "w' = (if ok \<and> marker then note_effect (StopMarker (env_id e2) (env_inc e2)) w2 else w2)"
    using assms False w2 by (auto simp: stop_begin_def Let_def e2_def e1_def w1_def split: if_splits)
  ultimately show ?thesis using commit_cases [OF w2] by (auto simp: touches_def e2_def e1_def w1_def)
qed

lemma stop_done_micros:
  assumes "stop_done save e w = (res, e', w')" and "e_Phase e \<noteq> Retired" "map_of (w_gates w) (env_id e) \<noteq> Some True"
  shows "micros sha lost (e, w) (e', w') \<and> env_id e' = env_id e \<and> w_envs w' = put (env_id e) e' (w_envs w) \<and> e_Actions e' = e_Actions e"
proof -
  define w1 where "w1 = note_effect (StopObserved (env_id e) (env_inc e)) w"
  define e1 where "e1 = e\<lparr>e_Phase := Stopped\<rparr>"
  define e2 where "e2 = e1\<lparr>e_LastFence := map_option (\<lambda>f. f\<lparr>f_WorkspaceWriteRevoked := True, f_TerminationConfirmed := True,
            f_State := lit ''confirmed''\<rparr>) (e_LastFence e)\<rparr>"
  obtain ok w2 where w2: "commit_env save e2 w1 = (ok, w2)" by (metis prod.exhaust)
  have "micro sha lost (e, w) (e1, w1)" unfolding e1_def w1_def using assms(2,3) by (rule micro.stopped)
  also have "micros sha lost (e1, w1) (e2, w1)" unfolding e2_def by (intro micros_edit) simp
  also have "micros sha lost (e2, w1) (e2, w2)" using micros_commit [of sha lost e2 w1 save] w2 by simp
  finally have "micros sha lost (e, w) (e2, w2)" .
  moreover have "e' = e2" "w' = w2" using assms(1) w2 by (auto simp: stop_done_def Let_def unit_result_def e2_def e1_def w1_def)
  ultimately show ?thesis using commit_cases [OF w2] by (simp add: e2_def e1_def w1_def)
qed

lemma stop_timeout_micros:
  assumes "stop_timeout save e w = (res, e', w')" and "e_Phase e \<noteq> Retired" "map_of (w_gates w) (env_id e) \<noteq> Some True"
  shows "micros sha lost (e, w) (e', w') \<and> env_id e' = env_id e \<and> w_envs w' = put (env_id e) e' (w_envs w) \<and> e_Actions e' = e_Actions e"
proof -
  define e1 where "e1 = e\<lparr>e_Phase := ExecutionUnknown\<rparr>"
  obtain ok w2 where w2: "commit_env save e1 w = (ok, w2)" by (metis prod.exhaust)
  have "micro sha lost (e, w) (e1, w)" unfolding e1_def using assms(2,3) by (intro micro.hold) auto
  also have "micros sha lost (e1, w) (e1, w2)" using micros_commit [of sha lost e1 w save] w2 by simp
  finally have "micros sha lost (e, w) (e1, w2)" .
  moreover have "e' = e1" "w' = w2" using assms(1) w2 by (auto simp: stop_timeout_def Let_def e1_def)
  ultimately show ?thesis using commit_cases [OF w2] by (simp add: e1_def)
qed

text \<open>What is known of a stop that waits.\<close>

definition waits_ok :: "pending_action \<Rightarrow> environment \<Rightarrow> host_world \<Rightarrow> bool" where
  "waits_ok p e w \<longleftrightarrow> e_Phase e \<noteq> Retired \<and> map_of (w_gates w) (env_id e) \<noteq> Some True \<and> (pa_Kind p = KStop \<or> pa_Kind p = KReplace) \<and>
     (\<exists>a. map_of (e_Actions e) (pa_OperationID p) = Some a \<and> ac_Kind a = pa_Kind p \<and> plain_action a) \<and>
     (\<forall>cfg. pa_Target p = Some cfg \<longrightarrow> inputs_of cfg = inputs_of (v_HostConfig (e_Spec e)))"

lemma requested_switch_inputs:
  "requested_switch sha c req e w = Inr (Some (cfg, s)) \<Longrightarrow> inputs_of cfg = inputs_of (v_HostConfig (e_Spec e))"
  by (auto simp: requested_switch_def prepareHarnessSwitch_def same_box_def inputs_of_def Let_def
      split: if_splits sum.splits option.splits)

lemma act_dispatch_micros:
  assumes "act_dispatch sha c req target e w = (r, e', w')" and "map_of (e_Actions e) (aq_OperationID req) = Some a"
    and "ac_Kind a = aq_Kind req" "aq_Kind req \<in> {KStart, KStop, KReplace}" "plain_action a"
    and "\<And>cfg. target = Some cfg \<Longrightarrow> inputs_of cfg = inputs_of (v_HostConfig (e_Spec e))"
  shows "micros sha lost (e, w) (e', w') \<and> touches (e, w) (e', w') \<and> (\<forall>p. r = ActWaits p \<longrightarrow> waits_ok p e' w')"
proof (cases "aq_Kind req = KStart")
  case True
  obtain r1 e1 w1 where s: "start sha (al_start c) e w = (r1, e1, w1)" by (metis prod.exhaust)
  note sm = start_micros [OF s, of lost]
  obtain a1 where a1: "map_of (e_Actions e1) (aq_OperationID req) = Some a1" "ac_Kind a1 = KStart"
    using micros_actions [of sha lost "(e, w)" "(e1, w1)" _ a] sm assms(2,3) True by auto
  obtain r2 where f: "act_finish c KStart (aq_OperationID req) (r1, e1, w1) = (r2, e', w')" "r = ActReturns r2"
    using assms(1) True s by (auto simp: act_dispatch_def Let_def split: prod.splits)
  have "micros sha lost (e1, w1) (e', w') \<and> env_id e' = env_id e1 \<and> w_envs w' = put (env_id e1) e' (w_envs w1)"
    using sm a1 by (intro act_finish_micros [OF f(1) a1(1)]) auto
  then show ?thesis using sm f(2) by (auto simp: touches_def intro: rtranclp_trans)
next
  case False
  define p where "p = \<lparr>pa_Kind = aq_Kind req, pa_OperationID = aq_OperationID req, pa_Target = target\<rparr>"
  obtain r1 e1 w1 where s: "stop_begin (al_stop_save c) (al_marker c) e w = (r1, e1, w1)" by (metis prod.exhaust)
  note sm = stop_begin_micros [OF s, of sha lost]
  have id: "identity_of e1 = identity_of e" using micros_identity [of sha lost "(e, w)" "(e1, w1)"] sm by simp
  have inp: "inputs_of cfg = inputs_of (v_HostConfig (e_Spec e1))" if "pa_Target p = Some cfg" for cfg
    using assms(6) that id by (simp add: p_def identity_of_def)
  have kind: "map_of (e_Actions e1) (pa_OperationID p) = Some a" "ac_Kind a = pa_Kind p" "pa_Kind p = KStop \<or> pa_Kind p = KReplace"
    using sm assms(2-4) False by (auto simp: p_def)
  show ?thesis
  proof (cases r1)
    case StopWaits
    have "(r, e', w') = (ActWaits p, e1, w1)" using assms(1) s StopWaits False by (simp add: act_dispatch_def p_def)
    moreover have "waits_ok p e1 w1" using sm StopWaits kind assms(5) inp by (auto simp: waits_ok_def)
    ultimately show ?thesis using sm by simp
  next
    case (StopReturns err)
    obtain r2 where f: "act_stopped sha c p (case err of None \<Rightarrow> Inr () | Some err \<Rightarrow> Inl err, e1, w1) = (r2, e', w')" "r = ActReturns r2"
      using assms(1) False s StopReturns by (auto simp: act_dispatch_def unit_result_def p_def Let_def split: prod.splits)
    note act_stopped_micros [OF f(1) kind assms(5) inp, of lost]
    then show ?thesis using sm f(2) by (auto simp: touches_def intro: rtranclp_trans)
  qed
qed

text \<open>An operation is recorded: on disk, and in the host's memory if it has the environment.\<close>

definition begun_before :: "bytes \<times> bytes \<Rightarrow> host_world \<Rightarrow> bool" where
  "begun_before k w \<longleftrightarrow> (\<exists>d. map_of (w_disk w) (fst k) = Some d \<and> map_of (e_Actions d) (snd k) \<noteq> None) \<and>
     (\<forall>e. map_of (w_envs w) (fst k) = Some e \<longrightarrow> map_of (e_Actions e) (snd k) \<noteq> None)"

definition recorded_with :: "bytes \<times> bytes \<Rightarrow> environment \<times> host_world \<Rightarrow> bool" where
  "recorded_with k p \<longleftrightarrow> begun_before k (snd p) \<and> (env_id (fst p) = fst k \<longrightarrow> map_of (e_Actions (fst p)) (snd k) \<noteq> None)"

lemma save_env_disk: "w_disk (snd (save_env c e w)) = w_disk w \<or> w_disk (snd (save_env c e w)) = put (env_id e) e (w_disk w)"
  by (simp add: save_env_def split: save_outcome.split)

lemma recorded_other [simp]:
  "begun_before k (w\<lparr>w_fatal := b\<rparr>) = begun_before k w" "begun_before k (w\<lparr>w_gates := g\<rparr>) = begun_before k w" "begun_before k (note_effect x w) = begun_before k w"
  "begun_before k (w\<lparr>w_drawn := l\<rparr>) = begun_before k w" "begun_before k (w\<lparr>w_waiters := ws\<rparr>) = begun_before k w" "begun_before k (w\<lparr>w_pending := ps\<rparr>) = begun_before k w"
  "begun_before k (w\<lparr>w_up := u\<rparr>) = begun_before k w"
  by (simp_all add: begun_before_def)

lemma recorded_store: "begun_before k w \<Longrightarrow> env_id e = fst k \<longrightarrow> map_of (e_Actions e) (snd k) \<noteq> None \<Longrightarrow> begun_before k (store_env e w)"
  by (auto simp: begun_before_def map_of_put)

lemma recorded_save: "begun_before k w \<Longrightarrow> env_id e = fst k \<longrightarrow> map_of (e_Actions e) (snd k) \<noteq> None \<Longrightarrow> begun_before k (snd (save_env c e w))"
  using save_env_disk [of c e w] by (auto simp: begun_before_def map_of_put)

lemma micro_recorded: "micro sha lost p q \<Longrightarrow> recorded_with k p \<Longrightarrow> recorded_with k q"
proof (induction rule: micro.induct)
  case (launched e cfg e1 inc c w w1 g e2 w2)
  then show ?case using launched_state [OF launched(3-5,2)]
    by (auto simp: recorded_with_def begun_before_def map_of_put)
qed (auto simp: recorded_with_def map_of_put edit_def identity_of_def commit_env_def intro!: recorded_store recorded_save)

lemma micros_recorded: "micros sha lost p q \<Longrightarrow> recorded_with k p \<Longrightarrow> recorded_with k q"
  by (induction rule: rtranclp_induct) (auto simp: micro_recorded)

lemma act_micros:
  assumes "act sha c req e w = (r, e', w')"
  shows "micros sha lost (e, w) (e', w') \<and> touches (e, w) (e', w') \<and> (\<forall>p. r = ActWaits p \<longrightarrow> waits_ok p e' w') \<and>
    ((\<exists>p. r = ActWaits p) \<or> (\<exists>x. r = ActReturns x) \<longrightarrow>
       map_of (e_Actions e) (aq_OperationID req) = None \<and> recorded_with (env_id e, aq_OperationID req) (e', w'))"
proof (cases "(e', w') = (e, w) \<and> ((\<exists>err. r = ActRefused err) \<or> r = ActRepeated)")
  case True
  then show ?thesis by (auto simp: touches_def)
next
  case False
  let ?i = "aq_OperationID req"
  obtain sw where sw: "requested_switch sha c req e w = Inr sw" "map_of (e_Actions e) ?i = None" "aq_Kind req \<in> {KStart, KStop, KReplace}"
    using assms False by (auto simp: act_def split: if_splits option.splits sum.splits)
  define a where "a = dispatched req (map_option snd sw)"
  define e1 where "e1 = set_action ?i a e"
  obtain ok w1 where w1: "commit_env (al_save c) e1 w = (ok, w1)" by (metis prod.exhaust)
  note cc = commit_cases [OF w1]
  have a: "ac_Kind a = aq_Kind req" "plain_action a"
    by (simp_all add: a_def dispatched_def no_action_def launched_action_def plain_action_def)
  have "micro sha lost (e, w) (e1, w)" unfolding e1_def using sw a by (intro micro.begin_action) (auto simp: plain_action_def)
  also have "micros sha lost (e1, w) (e1, w1)" using micros_commit [of sha lost e1 w "al_save c"] w1 by simp
  finally have m1: "micros sha lost (e, w) (e1, w1)" .
  have t1: "touches (e, w) (e1, w1)" using cc by (simp add: touches_def e1_def)
  have res: "(r, e', w') = (if ok then act_dispatch sha c req (map_option fst sw) e1 w1 else (ActRefused SaveError, e1, w1))"
    using assms False sw w1 by (auto simp: act_def Let_def e1_def a_def split: if_splits)
  show ?thesis
  proof (cases ok)
    case False
    then show ?thesis using res m1 t1 by simp
  next
    case True
    then have d: "act_dispatch sha c req (map_option fst sw) e1 w1 = (r, e', w')" using res by simp
    have "inputs_of cfg = inputs_of (v_HostConfig (e_Spec e1))" if "map_option fst sw = Some cfg" for cfg
      using requested_switch_inputs sw(1) that by (auto simp: e1_def)
    then have m2: "micros sha lost (e1, w1) (e', w') \<and> touches (e1, w1) (e', w') \<and> (\<forall>p. r = ActWaits p \<longrightarrow> waits_ok p e' w')"
      using a sw by (intro act_dispatch_micros [OF d, of a]) (auto simp: e1_def map_of_put)
    moreover have "recorded_with (env_id e, ?i) (e1, w1)"
      using cc True by (simp add: recorded_with_def begun_before_def map_of_put e1_def)
    ultimately have "recorded_with (env_id e, ?i) (e', w')" using micros_recorded by blast
    then show ?thesis using m1 m2 t1 sw(2) by (auto simp: touches_def e1_def intro: rtranclp_trans)
  qed
qed

lemma helper_ended_micros:
  assumes "x \<noteq> None \<or> lost" and w': "helper_ended inc x save e w = w'"
  shows "\<exists>e'. micros sha lost (e, w) (e', w') \<and> env_id e' = env_id e \<and> (w_envs w' = put (env_id e) e' (w_envs w) \<or> w' = w \<and> e' = e) \<and>
    e_Actions e' = e_Actions e \<and> (w_gates w' = w_gates w \<or> map_of (w_gates w') (env_id e) \<noteq> Some True \<and>
      (\<forall>j. j \<noteq> env_id e \<longrightarrow> map_of (w_gates w') j = map_of (w_gates w) j)) \<and> (e_Phase e \<noteq> Retired \<longrightarrow> e_Phase e' \<noteq> Retired)"
proof -
  let ?P = "\<lambda>e'. micros sha lost (e, w) (e', w') \<and> env_id e' = env_id e \<and> (w_envs w' = put (env_id e) e' (w_envs w) \<or> w' = w \<and> e' = e) \<and>
    e_Actions e' = e_Actions e \<and> (w_gates w' = w_gates w \<or> map_of (w_gates w') (env_id e) \<noteq> Some True \<and>
      (\<forall>j. j \<noteq> env_id e \<longrightarrow> map_of (w_gates w') j = map_of (w_gates w) j)) \<and> (e_Phase e \<noteq> Retired \<longrightarrow> e_Phase e' \<noteq> Retired)"
  consider (other) "w' = w" | (unknown) "x = None" "w' = snd (commit_env save (e\<lparr>e_Phase := ExecutionUnknown\<rparr>) w)"
    | (running) y where "e_Phase e = Running" "w' = snd (commit_env save (e\<lparr>e_HelperExit := Some y, e_Phase := ExecutionUnknown\<rparr>) (revoke_gate (env_id e) w))"
    | (ended) y where "e_Phase e \<noteq> Running" "w' = snd (commit_env save (e\<lparr>e_HelperExit := Some y\<rparr>) w)"
    using w' by (auto simp: helper_ended_def Let_def split: if_splits option.splits)
  then show ?thesis
  proof cases
    case other
    then show ?thesis by auto
  next
    case unknown
    have "micro sha lost (e, w) (e\<lparr>e_Phase := ExecutionUnknown\<rparr>, w)" using unknown(1) assms(1) by (intro micro.lost) auto
    also have "micros sha lost (e\<lparr>e_Phase := ExecutionUnknown\<rparr>, w) (e\<lparr>e_Phase := ExecutionUnknown\<rparr>, w')" unfolding unknown(2) by (rule micros_commit)
    finally have "?P (e\<lparr>e_Phase := ExecutionUnknown\<rparr>)" by (simp add: unknown(2) commit_env_def)
    then show ?thesis ..
  next
    case running
    define w1 where "w1 = revoke_gate (env_id e) w"
    define e1 where "e1 = e\<lparr>e_HelperExit := Some y\<rparr>"
    define e2 where "e2 = e1\<lparr>e_Phase := ExecutionUnknown\<rparr>"
    have w2: "w' = snd (commit_env save e2 w1)" by (simp add: running(2) e2_def e1_def w1_def)
    have "micros sha lost (e, w) (e, w1)" unfolding w1_def by (rule micros_revoke)
    also have "micros sha lost (e, w1) (e1, w1)" unfolding e1_def by (intro micros_edit) simp
    also have "micro sha lost (e1, w1) (e2, w1)" unfolding e2_def using running(1) by (intro micro.hold) (auto simp: e1_def w1_def)
    also have "micros sha lost (e2, w1) (e2, w')" unfolding w2 by (rule micros_commit)
    finally have "?P e2" by (auto simp: w2 commit_env_def e2_def e1_def w1_def) (auto simp: revoke_gate_def map_of_put)
    then show ?thesis ..
  next
    case ended
    have "micros sha lost (e, w) (e\<lparr>e_HelperExit := Some y\<rparr>, w)" by (intro micros_edit) simp
    also have "micros sha lost (e\<lparr>e_HelperExit := Some y\<rparr>, w) (e\<lparr>e_HelperExit := Some y\<rparr>, w')" unfolding ended(2) by (rule micros_commit)
    finally have "?P (e\<lparr>e_HelperExit := Some y\<rparr>)" by (simp add: ended(2) commit_env_def)
    then show ?thesis ..
  qed
qed

text \<open>Retirement: the terminal record first, then the disk.\<close>

lemma retirementProbe_micros:
  assumes "retirementProbe sha c e ret w = (res, w')"
  shows "micros sha lost (e, w) (e, w') \<and> w_envs w' = w_envs w \<and> w_disk w' = w_disk w \<and>
    (\<forall>ret'. res = Inr ret' \<longrightarrow> rt_Device ret' = rt_Device ret \<and> rt_Inode ret' = rt_Inode ret \<and> rt_Request ret' = rt_Request ret \<and>
       DiskProbed (env_id e) (env_inc e) (rt_Device ret) (rt_Inode ret) \<in> set (w_trace w'))"
proof -
  consider (same) err where "(res, w') = (Inl err, w)" | (bad) "(res, w') = (Inl SaveError, w\<lparr>w_fatal := True\<rparr>)"
    | (good) ret' where "res = Inr ret'" "w' = note_effect (DiskProbed (env_id e) (env_inc e) (rt_Device ret) (rt_Inode ret)) w"
        "rt_Device ret' = rt_Device ret" "rt_Inode ret' = rt_Inode ret" "rt_Request ret' = rt_Request ret"
    using assms by (auto simp: retirementProbe_def Let_def split: if_splits option.splits disk_custody.splits)
  then show ?thesis by cases (auto intro: micro.fatal micro.disk_probed r_into_rtranclp)
qed

lemma finishRetirement_micros:
  assumes "finishRetirement save a ret e w = (res, e', w')" and "map_of (e_Actions e) (rr_OperationID (rt_Request ret)) = Some b"
    and "ac_Kind a = KRetire" "ac_Kind b = KRetire" "ac_Expected b = ac_Expected a"
  shows "micros sha lost (e, w) (e', w') \<and> touches (e, w) (e', w')"
proof -
  let ?i = "rr_OperationID (rt_Request ret)"
  define a1 where "a1 = a\<lparr>ac_State := ACompleted, ac_Retirement := Some (ret\<lparr>rt_WorkspaceState := lit ''absent_after_cleanup''\<rparr>)\<rparr>"
  define a2 where "a2 = a1\<lparr>ac_State := ACleanupPending, ac_Retirement := Some (ret\<lparr>rt_WorkspaceState := lit ''cleanup_pending''\<rparr>)\<rparr>"
  obtain ok w1 where w1: "commit_env save (set_action ?i a1 e) w = (ok, w1)" by (metis prod.exhaust)
  have "micro sha lost (e, w) (set_action ?i a1 e, w)"
    using assms(3-) by (intro micro.update [OF assms(2)]) (auto simp: a1_def launched_action_def own_retirement_def)
  also have "micros sha lost (set_action ?i a1 e, w) (set_action ?i a1 e, w1)" using micros_commit [of sha lost "set_action ?i a1 e" w save] w1 by simp
  finally have m: "micros sha lost (e, w) (set_action ?i a1 e, w1)" .
  show ?thesis
  proof (cases ok)
    case True
    then have "e' = set_action ?i a1 e" "w' = w1" using assms(1) w1 by (auto simp: finishRetirement_def Let_def a1_def)
    then show ?thesis using m commit_cases [OF w1] by (simp add: touches_def)
  next
    case False
    define e2 where "e2 = set_action ?i a2 (set_action ?i a1 e)"
    have r: "e' = e2" "w' = store_env e2 w1" using assms(1) w1 False by (auto simp: finishRetirement_def Let_def a1_def a2_def e2_def)
    note m
    also have "micro sha lost (set_action ?i a1 e, w1) (e2, w1)"
      unfolding e2_def using assms(3) by (intro micro.update [of _ _ a1]) (auto simp: map_of_put a1_def a2_def launched_action_def own_retirement_def)
    also have "micro sha lost (e2, w1) (e2, store_env e2 w1)" by (rule micro.store)
    finally show ?thesis using r commit_cases [OF w1] by (simp add: touches_def e2_def)
  qed
qed

lemma retire_cleanup_micros:
  assumes "retire_cleanup sha c exists i a ret e w = (res, e', w')" and "map_of (e_Actions e) i = Some b" "ac_Kind b = KRetire" "ac_Expected b = ac_Expected a"
    and "ac_Kind a = KRetire" "rr_OperationID (rt_Request ret) = i" "e_Phase e = Retired"
    and d: "map_of (w_disk w) (env_id e) = Some d" "e_Phase d = Retired"
    and "\<not> exists \<Longrightarrow> DiskProbed (env_id e) (env_inc e) (rt_Device ret) (rt_Inode ret) \<in> set (w_trace w)"
  shows "micros sha lost (e, w) (e', w') \<and> touches (e, w) (e', w')"
proof -
  have finish: "micros sha lost (e, w) (e', w') \<and> touches (e, w) (e', w')"
    if "finishRetirement (re_save_done c) a ret e w = (res, e', w')"
    by (rule finishRetirement_micros [OF that, of b]) (use assms in simp_all)
  have remove: "micros sha lost (e1, w1) (e', w') \<and> touches (e1, w1) (e', w')"
    if "(if \<not> re_remove c then (Inl (Message ''remove''), e1, w1)
         else if \<not> re_sync c then (Inl (Message ''sync''), e1, note_effect (DiskRemoved (env_id e1) (rt_Device ret1) (rt_Inode ret1)) w1)
         else finishRetirement (re_save_done c) a1 ret1 e1 (note_effect (DiskRemoved (env_id e1) (rt_Device ret1) (rt_Inode ret1)) w1)) = (res, e', w')"
      and "DiskProbed (env_id e1) (env_inc e1) (rt_Device ret1) (rt_Inode ret1) \<in> set (w_trace w1)" and "e_Phase e1 = Retired"
      and "map_of (w_disk w1) (env_id e1) = Some d" and b1: "map_of (e_Actions e1) i = Some b1" "ac_Kind b1 = KRetire" "ac_Expected b1 = ac_Expected a1"
      and "rr_OperationID (rt_Request ret1) = i" "ac_Kind a1 = KRetire"
    for e1 w1 a1 ret1 b1
  proof -
    define w2 where "w2 = note_effect (DiskRemoved (env_id e1) (rt_Device ret1) (rt_Inode ret1)) w1"
    have m: "micro sha lost (e1, w1) (e1, w2)" unfolding w2_def using that d(2) by (intro micro.removed [of _ _ d])
    have "micros sha lost (e1, w2) (e', w') \<and> touches (e1, w2) (e', w')" if "finishRetirement (re_save_done c) a1 ret1 e1 w2 = (res, e', w')"
      by (rule finishRetirement_micros [OF that, of b1]) (use b1 \<open>rr_OperationID (rt_Request ret1) = i\<close> \<open>ac_Kind a1 = KRetire\<close> in simp_all)
    then show ?thesis using that(1) m unfolding w2_def
      by (auto simp: touches_def split: if_splits intro: converse_rtranclp_into_rtranclp)
  qed
  show ?thesis
  proof (cases "privateRetirementDisk (re_disk_now c) e")
    case (DiskPrivate dev ino n)
    show ?thesis
    proof (cases "dev = rt_Device ret \<and> ino = rt_Inode ret \<and> exists")
      case False
      then show ?thesis
        using assms(1) DiskPrivate remove [of e w ret a b] assms(2-7,10) d
        by (auto simp: retire_cleanup_def Let_def touches_def split: if_splits)
    next
      case True
      obtain r1 w1 where p: "retirementProbe sha (re_probe_now c) e ret w = (r1, w1)" by (metis prod.exhaust)
      note pm = retirementProbe_micros [OF p, of lost]
      show ?thesis
      proof (cases r1)
        case (Inl err)
        then show ?thesis using assms(1) DiskPrivate True p pm by (auto simp: retire_cleanup_def touches_def)
      next
        case (Inr ret1)
        define a1 where "a1 = a\<lparr>ac_Retirement := Some ret1\<rparr>"
        define e1 where "e1 = set_action i a1 e"
        have id1: "rr_OperationID (rt_Request ret1) = i"
          using pm Inr assms(6) by simp
        note conjunct1 [OF pm]
        also have "micro sha lost (e, w1) (e1, w1)" unfolding e1_def
          using assms(3-5) id1 by (intro micro.update [OF assms(2)]) (auto simp: a1_def launched_action_def own_retirement_def)
        also have "micro sha lost (e1, w1) (e1, store_env e1 w1)" by (rule micro.store)
        finally have m: "micros sha lost (e, w) (e1, store_env e1 w1)" .
        have "micros sha lost (e1, store_env e1 w1) (e', w') \<and> touches (e1, store_env e1 w1) (e', w')"
        proof (rule remove [of e1 "store_env e1 w1" ret1 a1 a1])
          show "(if \<not> re_remove c then (Inl (Message ''remove''), e1, store_env e1 w1)
           else if \<not> re_sync c then (Inl (Message ''sync''), e1, note_effect (DiskRemoved (env_id e1) (rt_Device ret1) (rt_Inode ret1)) (store_env e1 w1))
           else finishRetirement (re_save_done c) a1 ret1 e1 (note_effect (DiskRemoved (env_id e1) (rt_Device ret1) (rt_Inode ret1)) (store_env e1 w1))) = (res, e', w')"
            using assms(1) DiskPrivate True p Inr by (auto simp: retire_cleanup_def Let_def a1_def e1_def split: if_splits)
        qed (use pm Inr assms(5,7) d id1 in \<open>simp_all add: e1_def a1_def map_of_put\<close>)
        then show ?thesis using m pm by (auto simp: touches_def e1_def intro: rtranclp_trans)
      qed
    qed
  qed (use assms(1) finish in \<open>auto simp: retire_cleanup_def Let_def touches_def split: if_splits\<close>)
qed

text \<open>A retirement, of an environment whose retirements are kept under their own operations.\<close>

definition retirements_own :: "environment \<Rightarrow> bool" where
  "retirements_own e \<longleftrightarrow> (\<forall>j a. map_of (e_Actions e) j = Some a \<longrightarrow> own_retirement j a)"

lemma retire_begin_micros:
  assumes "retire_begin sha c req hash e w = (res, e', w')" and "e_Phase e = Stopped \<or> e_Phase e = Fenced"
    and "map_of (e_Actions e) (rr_OperationID req) = None"
  shows "micros sha lost (e, w) (e', w') \<and> touches (e, w) (e', w') \<and>
    (\<forall>a. res = Inr a \<longrightarrow> env_id e' = env_id e \<and> map_of (e_Actions e') (rr_OperationID req) = Some a \<and> ac_Kind a = KRetire \<and> e_Phase e' = Retired \<and>
       map_of (w_disk w') (env_id e') = Some e' \<and>
       (\<exists>ret. ac_Retirement a = Some ret \<and> rr_OperationID (rt_Request ret) = rr_OperationID req \<and>
          (rr_Mode req = delete_mode \<longrightarrow> DiskProbed (env_id e') (env_inc e') (rt_Device ret) (rt_Inode ret) \<in> set (w_trace w'))))"
proof -
  let ?i = "rr_OperationID req"
  define act where "act = (\<lambda>ret st. \<lparr>ac_Switch = None, ac_Kind = KRetire, ac_Expected = rr_Incarnation req, ac_State = st, ac_Fence = e_LastFence e,
     ac_Reconciliation = None, ac_Retirement = Some ret, ac_ResultingIncarnation = []\<rparr>)"
  have finish: "micros sha lost (e, w1) (e1, w2) \<and> touches (e, w1) (e1, w2) \<and> env_id e1 = env_id e \<and> env_inc e1 = env_inc e \<and>
      map_of (e_Actions e1) ?i = Some (act ret st) \<and> e_Phase e1 = Retired \<and> w_trace w2 = w_trace w1 \<and> (ok \<longrightarrow> map_of (w_disk w2) (env_id e1) = Some e1)"
    if "e1 = (set_action ?i (act ret st) e)\<lparr>e_Phase := Retired\<rparr>" "commit_env (re_save c) e1 w1 = (ok, w2)" "rr_OperationID (rt_Request ret) = ?i"
    for ret st w1 e1 ok w2
  proof -
    have "micro sha lost (e, w1) (e1, snd (commit_env (re_save c) e1 w1))" unfolding that(1)
      using assms(2,3) that(3) by (intro micro.retire) (auto simp: act_def own_retirement_def)
    then show ?thesis using that(2) commit_cases [OF that(2)] by (auto simp: that(1) touches_def map_of_put)
  qed
  define ret0 where "ret0 = \<lparr>rt_Request = req, rt_InputSHA256 = hash, rt_WorkspaceState = lit ''retained'', rt_Device = 0, rt_Inode = 0, rt_Bytes = 0,
     rt_EvidenceFile = [], rt_EvidenceSHA256 = []\<rparr>"
  show ?thesis
  proof (cases "rr_Mode req = delete_mode")
    case False
    define e1 where "e1 = (set_action ?i (act ret0 ACompleted) e)\<lparr>e_Phase := Retired\<rparr>"
    obtain ok w2 where w2: "commit_env (re_save c) e1 w = (ok, w2)" by (metis prod.exhaust)
    have "(res, e', w') = (if ok then Inr (act ret0 ACompleted) else Inl SaveError, e1, w2)"
      using assms(1) False w2 by (simp add: retire_begin_def Let_def act_def ret0_def e1_def split: if_splits)
    then show ?thesis using finish [OF e1_def w2] False by (auto simp: ret0_def act_def)
  next
    case True
    show ?thesis
    proof (cases "privateRetirementDisk (re_disk c) e")
      case (DiskPrivate dev ino n)
      define ret1 where "ret1 = ret0\<lparr>rt_Device := dev, rt_Inode := ino, rt_Bytes := n\<rparr>"
      obtain r1 w1 where p: "retirementProbe sha (re_probe c) e ret1 w = (r1, w1)" by (metis prod.exhaust)
      note pm = retirementProbe_micros [OF p, of lost]
      show ?thesis
      proof (cases r1)
        case (Inl err)
        then show ?thesis using assms(1) True DiskPrivate p pm by (auto simp: retire_begin_def Let_def ret0_def ret1_def touches_def)
      next
        case (Inr ret2)
        define ret3 where "ret3 = ret2\<lparr>rt_WorkspaceState := lit ''cleanup_pending''\<rparr>"
        define e1 where "e1 = (set_action ?i (act ret3 ACleanupPending) e)\<lparr>e_Phase := Retired\<rparr>"
        obtain ok w2 where w2: "commit_env (re_save c) e1 w1 = (ok, w2)" by (metis prod.exhaust)
        have id: "rr_OperationID (rt_Request ret3) = ?i" "rt_Device ret3 = rt_Device ret1" "rt_Inode ret3 = rt_Inode ret1"
          using pm Inr by (simp_all add: ret3_def ret1_def ret0_def)
        have "(res, e', w') = (if ok then Inr (act ret3 ACleanupPending) else Inl SaveError, e1, w2)"
          using assms(1) True DiskPrivate p Inr w2 by (simp add: retire_begin_def Let_def act_def ret0_def ret1_def ret3_def e1_def split: if_splits)
        then show ?thesis using finish [OF e1_def w2 id(1)] pm Inr id
          by (auto simp: act_def touches_def intro: rtranclp_trans)
      qed
    qed (use assms(1) True in \<open>auto simp: retire_begin_def Let_def touches_def\<close>)
  qed
qed

lemma retire_micros:
  assumes "retire sha c req e w = (res, e', w')" and "retirements_own e"
    and "\<not> w_fatal w \<Longrightarrow> e_Phase e = Retired \<Longrightarrow> \<exists>d. map_of (w_disk w) (env_id e) = Some d \<and> e_Phase d = Retired"
  shows "micros sha lost (e, w) (e', w') \<and> touches (e, w) (e', w')"
proof -
  let ?i = "rr_OperationID req" and ?req = "req\<lparr>rr_ResumeCleanup := False\<rparr>"
  consider (same) err where "(res, e', w') = (Inl err, e, w)" | (repeated) a where "(res, e', w') = (Inr a, e, w)"
    | (again) a ret where "\<not> w_fatal w" "map_of (e_Actions e) ?i = Some a" "ac_Retirement a = Some ret" "e_Phase e = Retired"
        "retire_cleanup sha c True ?i a ret e w = (res, e', w')"
    | (first) hash where "map_of (e_Actions e) ?i = None" "e_Phase e = Stopped \<or> e_Phase e = Fenced"
        "(case retire_begin sha c ?req hash e w of
            (Inl err, e, w) \<Rightarrow> (Inl err, e, w)
          | (Inr a, e, w) \<Rightarrow> (case ac_Retirement a of
               Some ret \<Rightarrow> if rr_Mode ?req = delete_mode then retire_cleanup sha c False (rr_OperationID ?req) a ret e w else (Inr a, e, w)
             | None \<Rightarrow> (Inr a, e, w))) = (res, e', w')"
    using assms(1) by (auto simp: retire_def retire_again_def Let_def split: if_splits option.splits)
  then show ?thesis
  proof cases
    case again
    have own: "ac_Kind a = KRetire" "rr_OperationID (rt_Request ret) = ?i"
      using assms(2) again(2,3) by (auto simp: retirements_own_def own_retirement_def)
    obtain d where d: "map_of (w_disk w) (env_id e) = Some d" "e_Phase d = Retired" using assms(3) again(1,4) by blast
    show ?thesis by (rule retire_cleanup_micros [OF again(5) again(2) own(1) refl own again(4) d]) simp
  next
    case first
    obtain r1 e1 w1 where b: "retire_begin sha c ?req hash e w = (r1, e1, w1)" by (metis prod.exhaust)
    have bm: "micros sha lost (e, w) (e1, w1)" "touches (e, w) (e1, w1)"
      and ba: "\<And>a. r1 = Inr a \<Longrightarrow> env_id e1 = env_id e \<and> map_of (e_Actions e1) ?i = Some a \<and> ac_Kind a = KRetire \<and> e_Phase e1 = Retired \<and>
         map_of (w_disk w1) (env_id e1) = Some e1 \<and> (\<exists>ret. ac_Retirement a = Some ret \<and> rr_OperationID (rt_Request ret) = ?i \<and>
            (rr_Mode req = delete_mode \<longrightarrow> DiskProbed (env_id e1) (env_inc e1) (rt_Device ret) (rt_Inode ret) \<in> set (w_trace w1)))"
      using retire_begin_micros [OF b first(2), of lost] first(1) by auto
    show ?thesis
    proof (cases "\<exists>a. r1 = Inr a \<and> rr_Mode req = delete_mode")
      case False
      then have "(e', w') = (e1, w1)" using first(3) b ba by (cases r1) (auto split: option.splits)
      then show ?thesis using bm by simp
    next
      case True
      then obtain a where a: "r1 = Inr a" "rr_Mode req = delete_mode" by blast
      from ba [OF a(1)] obtain ret where ret: "ac_Retirement a = Some ret" "rr_OperationID (rt_Request ret) = ?i"
        "DiskProbed (env_id e1) (env_inc e1) (rt_Device ret) (rt_Inode ret) \<in> set (w_trace w1)" using a(2) by blast
      have c: "retire_cleanup sha c False ?i a ret e1 w1 = (res, e', w')" using first(3) b a ret(1) by simp
      have "micros sha lost (e1, w1) (e', w') \<and> touches (e1, w1) (e', w')"
        using ba [OF a(1)] ret by (intro retire_cleanup_micros [OF c, of a e1]) auto
      then show ?thesis using bm by (auto simp: touches_def intro: rtranclp_trans)
    qed
  qed (auto simp: touches_def)
qed

end
