(* ===== verification/EnvWorld.thy ===== *)
theory EnvWorld
  imports EnvSteps AtMostOnce
begin

text \<open>
  Steps of the whole environment host: work on one environment, as small steps; making one; the end
  of the host's process; its opening, one retained environment after the other. The operations are
  shown to be such steps, and an invariant is proved of every run once it is known of them.
\<close>

declare map_of_eq_Some_iff [simp del]

lemma dom_put [simp]: "dom (map_of (put i r m)) = insert i (dom (map_of m))"
  by (auto simp: map_of_put dom_def)

subsection \<open>Steps of the host\<close>

definition just_created :: "environment \<Rightarrow> bool" where
  "just_created e \<longleftrightarrow> e_Phase e = Created \<and>
     (\<forall>j a. map_of (e_Actions e) j = Some a \<longrightarrow> ac_Kind a = KCreate \<and> ac_Retirement a = None)"

inductive wstep :: "(bytes \<Rightarrow> bytes) \<Rightarrow> bool \<Rightarrow> (host_config \<Rightarrow> bool) \<Rightarrow> host_world \<Rightarrow> host_world \<Rightarrow> bool"
  for sha :: "bytes \<Rightarrow> bytes" and lost :: bool and C :: "host_config \<Rightarrow> bool" where
  work: "w_up w \<Longrightarrow> map_of (w_envs w) i = Some e \<Longrightarrow> micros sha lost (e, w\<lparr>w_pending := ps\<rparr>) (e', w') \<Longrightarrow> w_envs w' = put i e' (w_envs w) \<Longrightarrow>
    wstep sha lost C w (w'\<lparr>w_pending := ps'\<rparr>)"
| made: "map_of (w_envs w) (env_id e) = None \<Longrightarrow> map_of (w_disk w) (env_id e) = None \<Longrightarrow> just_created e \<Longrightarrow>
    save_env c e (w\<lparr>w_drawn := w_drawn w @ [env_inc e]\<rparr>) = (ok, w') \<Longrightarrow> wstep sha lost C w (if ok then store_env e w' else w')"
| ended: "wstep sha lost C w (down w)"
| configured: "C c \<Longrightarrow> wstep sha lost C w ((down w)\<lparr>w_config := c\<rparr>)"
| loaded: "\<not> w_up w \<Longrightarrow> map_of (w_disk w) i = Some e \<Longrightarrow> env_id e = i \<Longrightarrow> map_of (w_envs w) i = None \<Longrightarrow> map_of (w_gates w) i = None \<Longrightarrow>
    micros sha lost (e, w) (e', w') \<Longrightarrow> w_envs w' = put i e' (w_envs w) \<Longrightarrow> w_trace w' = w_trace w \<Longrightarrow> wstep sha lost C w w'"
| opened: "\<not> w_up w \<Longrightarrow> dom (map_of (w_disk w)) \<subseteq> dom (map_of (w_envs w)) \<Longrightarrow> wstep sha lost C w (w\<lparr>w_up := True\<rparr>)"

abbreviation wsteps :: "(bytes \<Rightarrow> bytes) \<Rightarrow> bool \<Rightarrow> (host_config \<Rightarrow> bool) \<Rightarrow> host_world \<Rightarrow> host_world \<Rightarrow> bool" where
  "wsteps sha lost C \<equiv> (wstep sha lost C)\<^sup>*\<^sup>*"

subsection \<open>Invariants\<close>

text \<open>
  An invariant is a property of the environments the host has in memory and one of the host; small
  steps on one environment keep both and do not disturb another environment.
\<close>

locale env_invariant =
  fixes sha :: "bytes \<Rightarrow> bytes" and lost :: bool and C :: "host_config \<Rightarrow> bool"
    and E :: "environment \<Rightarrow> host_world \<Rightarrow> bool" and W :: "host_world \<Rightarrow> bool"
  assumes own: "micro sha lost (e, w) (e', w') \<Longrightarrow> E e w \<Longrightarrow> W w \<Longrightarrow> E e' w' \<and> W w'"
    and other: "micro sha lost (e, w) (e', w') \<Longrightarrow> E e w \<Longrightarrow> W w \<Longrightarrow> E x w \<Longrightarrow> env_id x \<noteq> env_id e \<Longrightarrow> E x w'"
    and pending: "E e (w\<lparr>w_pending := ps\<rparr>) = E e w" "W (w\<lparr>w_pending := ps\<rparr>) = W w"
    and new: "W w \<Longrightarrow> map_of (w_envs w) (env_id e) = None \<Longrightarrow> map_of (w_disk w) (env_id e) = None \<Longrightarrow> just_created e \<Longrightarrow>
      save_env c e (w\<lparr>w_drawn := w_drawn w @ [env_inc e]\<rparr>) = (ok, w1) \<Longrightarrow> w' = (if ok then store_env e w1 else w1) \<Longrightarrow>
      W w' \<and> E e w' \<and> (\<forall>x. E x w \<longrightarrow> env_id x \<noteq> env_id e \<longrightarrow> E x w')"
    and ends: "W w \<Longrightarrow> W (down w)"
    and configure: "C config \<Longrightarrow> W w \<Longrightarrow> W ((down w)\<lparr>w_config := config\<rparr>)"
    and load: "W w \<Longrightarrow> \<not> w_up w \<Longrightarrow> map_of (w_disk w) (env_id e) = Some e \<Longrightarrow> map_of (w_envs w) (env_id e) = None \<Longrightarrow>
      map_of (w_gates w) (env_id e) = None \<Longrightarrow> E e w"
    and open_up: "W w \<Longrightarrow> \<not> w_up w \<Longrightarrow> dom (map_of (w_disk w)) \<subseteq> dom (map_of (w_envs w)) \<Longrightarrow> W (w\<lparr>w_up := True\<rparr>)"
      "E e w \<Longrightarrow> E e (w\<lparr>w_up := True\<rparr>)"
begin

definition env_inv :: "host_world \<Rightarrow> bool" where
  "env_inv w \<longleftrightarrow> W w \<and> (\<forall>i e. map_of (w_envs w) i = Some e \<longrightarrow> env_id e = i \<and> E e w)"

lemma micros_keep:
  "micros sha lost p q \<Longrightarrow> E (fst p) (snd p) \<Longrightarrow> W (snd p) \<Longrightarrow>
     E (fst q) (snd q) \<and> W (snd q) \<and> env_id (fst q) = env_id (fst p) \<and>
     (\<forall>x. E x (snd p) \<longrightarrow> env_id x \<noteq> env_id (fst p) \<longrightarrow> E x (snd q))"
proof (induction rule: rtranclp_induct)
  case (step q r)
  have m: "micro sha lost (fst q, snd q) (fst r, snd r)" using step(2) by simp
  have "env_id (fst r) = env_id (fst q)" using micro_identity [OF step(2)] by (simp add: identity_of_def)
  then show ?case using step(3) [OF step(4,5)] own [OF m] other [OF m] by metis
qed auto

lemma wstep_keeps: "wstep sha lost C w w' \<Longrightarrow> env_inv w \<Longrightarrow> env_inv w'"
proof (induction rule: wstep.induct)
  case (work w i e ps e' w' ps')
  have "E e w" "W w" "env_id e = i" using work(2,5) by (auto simp: env_inv_def)
  then show ?case using micros_keep [OF work(3)] work(4,5) by (auto simp: env_inv_def pending map_of_put)
next
  case (made w e c ok w')
  have "W w" using made(5) by (simp add: env_inv_def)
  from new [OF this made(1-4) refl] have "W (if ok then store_env e w' else w')" "E e (if ok then store_env e w' else w')"
    "\<forall>x. E x w \<longrightarrow> env_id x \<noteq> env_id e \<longrightarrow> E x (if ok then store_env e w' else w')" by blast+
  moreover have "w_envs w' = w_envs w" using save_env_frame(6) [of c e "w\<lparr>w_drawn := w_drawn w @ [env_inc e]\<rparr>"] made(4) by simp
  moreover have "\<And>i x. map_of (w_envs w) i = Some x \<Longrightarrow> env_id x = i \<and> E x w \<and> i \<noteq> env_id e" using made(1,5) by (auto simp: env_inv_def)
  ultimately show ?case by (cases ok) (simp_all add: env_inv_def map_of_put)
next
  case (loaded w i e e' w')
  have "W w" "E e w" "env_id e = i" using loaded(1-5,9) load by (auto simp: env_inv_def)
  then show ?case using micros_keep [OF loaded(6)] loaded(7,9) by (auto simp: env_inv_def map_of_put)
qed (auto simp: env_inv_def intro: ends configure open_up, auto simp: down_def)

lemma wsteps_keep: "wsteps sha lost C w w' \<Longrightarrow> env_inv w \<Longrightarrow> env_inv w'"
  by (induction rule: rtranclp_induct) (auto intro: wstep_keeps)

end

subsection \<open>What the operations rely on\<close>

text \<open>
  Retirements are kept under their own operations and a retired environment is retired on disk too;
  while nothing failed the host has every environment of the disk.
\<close>

definition retired_ok :: "environment \<Rightarrow> host_world \<Rightarrow> bool" where
  "retired_ok e w \<longleftrightarrow> retirements_own e \<and>
     (\<not> w_fatal w \<and> e_Phase e = Retired \<longrightarrow> (\<exists>d. map_of (w_disk w) (env_id e) = Some d \<and> e_Phase d = Retired))"

definition stored_ok :: "host_world \<Rightarrow> bool" where
  "stored_ok w \<longleftrightarrow> distinct (map fst (w_disk w)) \<and> distinct (map fst (w_envs w)) \<and>
     (\<forall>i d. map_of (w_disk w) i = Some d \<longrightarrow> env_id d = i \<and> retirements_own d) \<and>
     (w_up w \<and> \<not> w_fatal w \<longrightarrow> dom (map_of (w_disk w)) \<subseteq> dom (map_of (w_envs w)))"

lemma own_retirement_put:
  "retirements_own e \<Longrightarrow> own_retirement j a \<Longrightarrow> retirements_own (set_action j a e)"
  by (auto simp: retirements_own_def map_of_put)

lemma save_cases:
  "save_env c e w = (ok, w') \<Longrightarrow>
     (if ok then w' = w\<lparr>w_disk := put (env_id e) e (w_disk w)\<rparr>
      else w' = w\<lparr>w_fatal := True\<rparr> \<or> w' = w\<lparr>w_disk := put (env_id e) e (w_disk w), w_fatal := True\<rparr>)"
  by (auto simp: save_env_def split: save_outcome.splits)

lemma retired_ok_fields [simp]:
  "retired_ok e (w\<lparr>w_gates := g\<rparr>) = retired_ok e w" "retired_ok e (w\<lparr>w_waiters := ws\<rparr>) = retired_ok e w"
  "retired_ok e (w\<lparr>w_pending := ps\<rparr>) = retired_ok e w" "retired_ok e (w\<lparr>w_up := u\<rparr>) = retired_ok e w"
  "retired_ok e (w\<lparr>w_drawn := l\<rparr>) = retired_ok e w" "retired_ok e (note_effect x w) = retired_ok e w"
  "retired_ok e (store_env e' w) = retired_ok e w" "retired_ok e (w\<lparr>w_fatal := True\<rparr>) = retirements_own e"
  by (simp_all add: retired_ok_def)

lemma stored_ok_fields [simp]:
  "stored_ok (w\<lparr>w_gates := g\<rparr>) = stored_ok w" "stored_ok (w\<lparr>w_waiters := ws\<rparr>) = stored_ok w"
  "stored_ok (w\<lparr>w_pending := ps\<rparr>) = stored_ok w" "stored_ok (w\<lparr>w_drawn := l\<rparr>) = stored_ok w" "stored_ok (note_effect x w) = stored_ok w"
  by (simp_all add: stored_ok_def)

lemma stored_ok_fatal: "stored_ok w \<Longrightarrow> stored_ok (w\<lparr>w_fatal := True\<rparr>)"
  by (simp add: stored_ok_def)

lemma stored_ok_store: "stored_ok w \<Longrightarrow> stored_ok (store_env e w)"
  by (auto simp: stored_ok_def map_of_put put_distinct)

lemma stored_ok_disk:
  "stored_ok w \<Longrightarrow> retirements_own e \<Longrightarrow> w_fatal w \<or> map_of (w_envs w) (env_id e) \<noteq> None \<Longrightarrow>
     stored_ok (w\<lparr>w_disk := put (env_id e) e (w_disk w)\<rparr>)"
  by (auto simp: stored_ok_def map_of_put put_distinct split: if_splits)

lemma stored_ok_torn:
  "stored_ok w \<Longrightarrow> retirements_own e \<Longrightarrow> stored_ok (w\<lparr>w_disk := put (env_id e) e (w_disk w), w_fatal := True\<rparr>)"
  by (auto simp: stored_ok_def map_of_put put_distinct split: if_splits)

lemma save_stored:
  assumes "save_env c e w = (ok, w')" and "stored_ok w" "retirements_own e" "ok \<Longrightarrow> map_of (w_envs w) (env_id e) \<noteq> None"
  shows "stored_ok w'"
proof (cases ok)
  case True
  then show ?thesis using save_cases [OF assms(1)] assms(2-) by (simp add: stored_ok_disk)
next
  case False
  then show ?thesis using save_cases [OF assms(1)] assms(2,3) stored_ok_fatal stored_ok_torn by auto
qed

lemma save_retired:
  assumes "save_env c e w = (ok, w')"
  shows "retired_ok e w \<Longrightarrow> retired_ok e w'" and "retired_ok x w \<Longrightarrow> env_id x \<noteq> env_id e \<Longrightarrow> retired_ok x w'"
  using save_cases [OF assms] by (auto simp: retired_ok_def map_of_put split: if_splits)

lemma commit_retired:
  assumes "commit_env c e w = (ok, w')"
  shows "retirements_own e \<Longrightarrow> retired_ok e w'" and "retired_ok x w \<Longrightarrow> env_id x \<noteq> env_id e \<Longrightarrow> retired_ok x w'"
  using save_cases [OF assms [unfolded commit_env_def]] by (auto simp: retired_ok_def map_of_put split: if_splits)

lemma commit_stored: "commit_env c e w = (ok, w') \<Longrightarrow> stored_ok w \<Longrightarrow> retirements_own e \<Longrightarrow> stored_ok w'"
  unfolding commit_env_def by (erule save_stored) (simp_all add: stored_ok_store map_of_put)

lemma retired_ok_change:
  "retired_ok e w \<Longrightarrow> env_id e' = env_id e \<Longrightarrow> retirements_own e' \<Longrightarrow> e_Phase e' = Retired \<longrightarrow> e_Phase e = Retired \<Longrightarrow> retired_ok e' w"
  by (auto simp: retired_ok_def)

lemma retired_own:
  "micro sha lost p q \<Longrightarrow> retired_ok (fst p) (snd p) \<Longrightarrow> stored_ok (snd p) \<Longrightarrow>
     retired_ok (fst q) (snd q) \<and> stored_ok (snd q) \<and>
     (\<forall>x. retired_ok x (snd p) \<longrightarrow> env_id x \<noteq> env_id (fst p) \<longrightarrow> retired_ok x (snd q))"
proof (induction rule: micro.induct)
  case (save w e c)
  obtain ok w' where s: "save_env c e w = (ok, w')" by (metis prod.exhaust)
  then show ?case using save save_retired [OF s] save_stored [OF s] by (auto simp: retired_ok_def [of e w])
next
  case (launched e cfg e1 inc c w w1 g e2 w2)
  note l = launched_state [OF launched(3-5,2)]
  have own: "retirements_own e1" "retirements_own e2" "env_id e1 = env_id e" "e_Phase e2 = Launching" "env_id e2 = env_id e"
    using l launched(7) by (simp_all add: launched(3) retired_ok_def retirements_own_def)
  have c: "stored_ok w1" "\<forall>x. retired_ok x w \<longrightarrow> env_id x \<noteq> env_id e \<longrightarrow> retired_ok x w1"
    using commit_stored [OF launched(4)] commit_retired(2) [OF launched(4)] launched(8) own by simp_all
  have g: "w_envs w2 = w_envs w1" "w_disk w2 = w_disk w1" "w_fatal w2 = w_fatal w1" "w_up w2 = w_up w1"
    using gate_result [OF launched(5)] by simp_all
  then have "stored_ok w2 = stored_ok w1" "\<And>x. retired_ok x w2 = retired_ok x w1" by (simp_all add: stored_ok_def retired_ok_def)
  then show ?case using c own by (auto intro: stored_ok_store) (simp add: retired_ok_def)
next
  case (retire e j a w c)
  let ?e = "(set_action j a e)\<lparr>e_Phase := Retired\<rparr>"
  obtain ok w' where s: "commit_env c ?e w = (ok, w')" by (metis prod.exhaust)
  have "retirements_own ?e" using retire(4,5) by (auto simp: retired_ok_def retirements_own_def map_of_put)
  then show ?case using commit_retired [OF s] commit_stored [OF s] retire(6) s by auto
next
  case (update e j a a' w)
  have "own_retirement j a'" using update by (auto simp: retired_ok_def retirements_own_def own_retirement_def)
  then show ?case using update(7,8) by (auto intro!: retired_ok_change [of e] own_retirement_put) (simp add: retired_ok_def)
next
  case (begin_action e j a w)
  then show ?case by (auto simp: own_retirement_def retired_ok_def intro!: own_retirement_put)
next
  case (begin_reconcile e j a req w)
  then show ?case by (auto simp: own_retirement_def retired_ok_def reconciles_def intro!: own_retirement_put)
next
  case (observe e j a req a' w)
  then show ?case by (auto simp: own_retirement_def retired_ok_def reconciles_def intro!: own_retirement_put)
next
  case (confirm e j a req a' w)
  then have "retirements_own (set_action j a' e)"
    by (auto simp: own_retirement_def retired_ok_def reconciles_def intro!: own_retirement_put)
  then show ?case using confirm(8,9) by (simp add: retired_ok_def retirements_own_def)
qed (auto simp: retired_ok_def retirements_own_def edit_def identity_of_def intro: stored_ok_store stored_ok_fatal)

lemma retired_new:
  assumes "stored_ok w" "just_created e" and s: "save_env c e (w\<lparr>w_drawn := w_drawn w @ [env_inc e]\<rparr>) = (ok, w1)"
    and w': "w' = (if ok then store_env e w1 else w1)"
  shows "stored_ok w' \<and> retired_ok e w' \<and> (\<forall>x. retired_ok x w \<longrightarrow> env_id x \<noteq> env_id e \<longrightarrow> retired_ok x w')"
proof -
  have own: "retirements_own e" "e_Phase e = Created"
    using assms(2) by (auto simp: just_created_def retirements_own_def own_retirement_def)
  have "stored_ok w'"
  proof (cases ok)
    case True
    then have "w' = (store_env e w)\<lparr>w_drawn := w_drawn w @ [env_inc e], w_disk := put (env_id e) e (w_disk w)\<rparr>"
      using save_cases [OF s] by (simp add: w' store_env_def)
    then show ?thesis
      using stored_ok_disk [of "(store_env e w)\<lparr>w_drawn := w_drawn w @ [env_inc e]\<rparr>" e] stored_ok_store [OF assms(1)] own by (simp add: map_of_put)
  next
    case False
    then show ?thesis using save_stored [OF s] assms(1) own by (simp add: w')
  qed
  moreover have "retired_ok e w'" using own by (simp add: retired_ok_def)
  ultimately show ?thesis using save_retired(2) [OF s] by (simp add: w')
qed

interpretation base: env_invariant sha lost C retired_ok stored_ok for sha lost C
proof (unfold_locales, goal_cases)
  case (1 e w e' w')
  then show ?case using retired_own [OF 1(1)] by simp
next
  case (2 e w e' w' x)
  then show ?case using retired_own [OF 2(1)] by simp
next
  case (5 w e c ok w1 w')
  then show ?case by (intro retired_new)
next
  case (8 w e)
  have "retirements_own e" using 8(1,3) unfolding stored_ok_def by blast
  then show ?case using 8(3) by (simp add: retired_ok_def)
qed (simp_all add: stored_ok_def down_def)

subsection \<open>The operations are such steps\<close>

text \<open>A stop that waits is known to the host; nothing else is done to its environment meanwhile.\<close>

definition waiting_ok :: "host_world \<Rightarrow> bool" where
  "waiting_ok w \<longleftrightarrow> (\<forall>i p. map_of (w_pending w) i = Some p \<longrightarrow> (\<exists>e. map_of (w_envs w) i = Some e \<and> waits_ok p e w))"

definition host_ok :: "host_world \<Rightarrow> bool" where
  "host_ok w \<longleftrightarrow> base.env_inv w \<and> waiting_ok w"

text \<open>What a theorem may ask of the operations: that no helper's state is lost, and of the configurations.\<close>

definition op_ok :: "bool \<Rightarrow> (host_config \<Rightarrow> bool) \<Rightarrow> env_op \<Rightarrow> bool" where
  "op_ok lost C x = (case x of OpHelperEnded _ _ None _ \<Rightarrow> lost | OpOpen _ c \<Rightarrow> C c | _ \<Rightarrow> True)"

lemma put_same [simp]: "map_of m i = Some x \<Longrightarrow> put i x m = m"
  by (induction i x m rule: put.induct) (auto split: if_splits)

lemma host_okD:
  assumes "host_ok w"
  shows "stored_ok w" "waiting_ok w" and "map_of (w_envs w) i = Some e \<Longrightarrow> env_id e = i \<and> retired_ok e w"
  using assms by (auto simp: host_ok_def base.env_inv_def)

lemma waiting_envD:
  assumes "host_ok w" and "waiting_env i w = Some (p, e)"
  shows "map_of (w_envs w) i = Some e" "env_id e = i" "waits_ok p e w" "w_up w"
proof -
  have e: "map_of (w_pending w) i = Some p" "map_of (w_envs w) i = Some e" "w_up w"
    using assms(2) by (auto simp: waiting_env_def split: if_splits option.splits)
  then obtain e' where "map_of (w_envs w) i = Some e'" "waits_ok p e' w" using host_okD(2) [OF assms(1)] unfolding waiting_ok_def by blast
  then show "map_of (w_envs w) i = Some e" "env_id e = i" "waits_ok p e w" "w_up w" using e host_okD(3) [OF assms(1) e(2)] by simp_all
qed

lemma work_touches:
  assumes "map_of (w_envs w) i = Some e" "env_id e = i" and "micros sha lost (e, w\<lparr>w_pending := ps\<rparr>) (e', w')" and "w_up w"
    and "touches (e, w\<lparr>w_pending := ps\<rparr>) (e', w')"
  shows "wstep sha lost C w ((store_env e' w')\<lparr>w_pending := ps'\<rparr>)"
proof -
  have t: "w_envs w' = put i e' (w_envs w)" "env_id e' = i" using assms(1,2,5) by (auto simp: touches_def)
  then have "store_env e' w' = w'" using put_put [of i e' e' "w_envs w"] by (simp add: store_env_def)
  then show ?thesis using wstep.work [OF assms(4,1,3) t(1)] by simp
qed

lemma just_created_new: "just_created (new_environment c cfg root req)"
  by (auto simp: just_created_def new_environment_def no_action_def Let_def split: if_splits)

lemma create_wsteps:
  assumes "host_ok w" "w_up w"
  shows "wsteps sha lost C w (snd (create c req w))"
proof (cases "environmentID (cr_ID req) \<and> validID (cr_OperationID req) \<and> \<not> w_fatal w \<and> map_of (w_envs w) (cr_ID req) = None \<and>
    \<not> isl (profileConfig (w_config w) (cr_Profile req)) \<and> ca_mkdir c")
  case False
  then have "snd (create c req w) = w" by (auto simp: create_def split: option.splits sum.splits)
  then show ?thesis by simp
next
  case True
  then obtain cfg where cfg: "profileConfig (w_config w) (cr_Profile req) = Inr cfg" by (cases "profileConfig (w_config w) (cr_Profile req)") auto
  define e where "e = new_environment c cfg (hc_Root (w_config w)) req"
  obtain ok w' where s: "save_env (ca_save c) e (w\<lparr>w_drawn := w_drawn w @ [env_inc e]\<rparr>) = (ok, w')" by (metis prod.exhaust)
  have r: "snd (create c req w) = (if ok then store_env e w' else w')" using True cfg s by (simp add: create_def Let_def e_def)
  have i: "env_id e = cr_ID req" "just_created e" unfolding e_def by (simp add: new_environment_def Let_def) (rule just_created_new)
  have "map_of (w_disk w) (cr_ID req) = None" using host_okD(1) [OF assms(1)] assms(2) True unfolding stored_ok_def by blast
  then show ?thesis unfolding r using True i by (intro r_into_rtranclp wstep.made [OF _ _ _ s]) simp_all
qed

text \<open>One retained environment: refused at once, or loaded, and the opening goes on or stops.\<close>

lemma open_one:
  assumes "env_id e = i" and gates: "map_of (w_gates w) i = None"
  shows "open_envs c ((i, e) # es) w = (False, w) \<or>
    (\<exists>ok e' w'. open_envs c ((i, e) # es) w = (if ok then open_envs c es w' else (False, w')) \<and> micros sha lost (e, w) (e', w') \<and>
       w_envs w' = put i e' (w_envs w) \<and> (w_disk w' = w_disk w \<or> w_disk w' = put i e' (w_disk w)) \<and>
       (\<forall>j. j \<noteq> i \<longrightarrow> map_of (w_gates w') j = map_of (w_gates w) j) \<and> w_up w' = w_up w \<and> w_trace w' = w_trace w)" (is "_ \<or> (\<exists>ok e' w'. ?P ok e' w')")
proof (cases "validID (env_id e) \<and> directory e = Join (hc_Root (w_config w)) (env_id e)")
  case ok: True
  have s: "micros sha lost (e, w) (e, store_env e w)" by (rule r_into_rtranclp) (rule micro.store)
  show ?thesis
  proof (cases "e_Phase e = Running")
    case False
    then have "?P True e (store_env e w)" using ok s assms(1) by simp
    then show ?thesis by blast
  next
    case run: True
    show ?thesis
    proof (cases "alive (w_uid w) (oh_processes c i) e")
      case False
      define e1 where "e1 = e\<lparr>e_Phase := ExecutionUnknown\<rparr>"
      obtain b w1 where w1: "commit_env (oh_save c i) e1 (store_env e w) = (b, w1)" by (metis prod.exhaust)
      have "micro sha lost (e, store_env e w) (e1, store_env e w)" unfolding e1_def using run gates assms(1) by (intro micro.hold) auto
      also have "micros sha lost (e1, store_env e w) (e1, w1)" using micros_commit [of sha lost e1 "store_env e w" "oh_save c i"] w1 by simp
      finally have "micros sha lost (e, w) (e1, w1)" using s by simp
      then have "?P True e1 w1"
        using ok run False w1 commit_cases [OF w1] assms(1) by (auto simp: e1_def Let_def split: if_splits)
      then show ?thesis by blast
    next
      case True
      obtain b e1 w1 where g: "gate (oh_gate c i) e (store_env e w) = (b, e1, w1)" by (metis prod.exhaust)
      note gr = gate_result [OF g]
      have i: "env_id e1 = i" using gr assms(1) edit_keeps by metis
      note s
      also have "micros sha lost (e, store_env e w) (e1, w1)" using run by (intro gate_micros [OF g]) (simp_all add: map_of_put)
      also have "micro sha lost (e1, w1) (e1, store_env e1 w1)" by (rule micro.store)
      finally have m: "micros sha lost (e, w) (e1, store_env e1 w1)" .
      have "w_gates w1 = del i (w_gates w) \<or> w_gates w1 = put i True (w_gates w)"
        using g assms(1) by (auto simp: gate_def Let_def split: if_splits)
      then have "?P b e1 (store_env e1 w1)"
        using ok run True g gr assms(1) i m by (auto simp: map_of_put map_of_del Let_def)
      then show ?thesis by blast
    qed
  qed
qed simp

lemma open_envs_wsteps:
  "open_envs c es w = (ok, w') \<Longrightarrow> \<not> w_up w \<Longrightarrow> distinct (map fst es) \<Longrightarrow>
     (\<And>i e. (i, e) \<in> set es \<Longrightarrow> map_of (w_disk w) i = Some e \<and> env_id e = i \<and> map_of (w_envs w) i = None \<and> map_of (w_gates w) i = None) \<Longrightarrow>
     wsteps sha lost C w w' \<and> \<not> w_up w' \<and> dom (map_of (w_disk w')) = dom (map_of (w_disk w)) \<and>
     (ok \<longrightarrow> dom (map_of (w_envs w')) = dom (map_of (w_envs w)) \<union> fst ` set es)"
proof (induction es arbitrary: w)
  case (Cons p es)
  obtain i e where p: "p = (i, e)" by (cases p)
  have e: "map_of (w_disk w) i = Some e" "env_id e = i" "map_of (w_envs w) i = None" "map_of (w_gates w) i = None" using Cons(5) p by auto
  consider "open_envs c ((i, e) # es) w = (False, w)"
    | b e1 w1 where "open_envs c ((i, e) # es) w = (if b then open_envs c es w1 else (False, w1))" "micros sha lost (e, w) (e1, w1)"
        "w_envs w1 = put i e1 (w_envs w)" "w_disk w1 = w_disk w \<or> w_disk w1 = put i e1 (w_disk w)"
        "\<forall>j. j \<noteq> i \<longrightarrow> map_of (w_gates w1) j = map_of (w_gates w) j" "w_up w1 = w_up w" "w_trace w1 = w_trace w"
    using open_one [OF e(2,4), of c es sha lost] by blast
  then show ?case
  proof cases
    case 1
    then show ?thesis using Cons(2,3) p by simp
  next
    case 2
    have w: "wstep sha lost C w w1" using Cons(3) e 2 by (intro wstep.loaded)
    have d: "dom (map_of (w_disk w1)) = dom (map_of (w_disk w))" "dom (map_of (w_envs w1)) = insert i (dom (map_of (w_envs w)))"
      using 2(3,4) domI [of "map_of (w_disk w)", OF e(1)] by (elim disjE; simp add: insert_absorb)+
    show ?thesis
    proof (cases b)
      case False
      then show ?thesis using 2(1,6) Cons(2,3) p w d by auto
    next
      case True
      have "(j, x) \<in> set es \<Longrightarrow> map_of (w_disk w1) j = Some x \<and> env_id x = j \<and> map_of (w_envs w1) j = None \<and> map_of (w_gates w1) j = None" for j x
      proof -
        assume j: "(j, x) \<in> set es"
        have "j \<noteq> i" using Cons(4) p j by force
        then show ?thesis using Cons(5) [of j x] j 2(3,4,5) by (elim disjE) (simp_all add: map_of_put)
      qed
      then have "wsteps sha lost C w1 w' \<and> \<not> w_up w' \<and> dom (map_of (w_disk w')) = dom (map_of (w_disk w1)) \<and>
         (ok \<longrightarrow> dom (map_of (w_envs w')) = dom (map_of (w_envs w1)) \<union> fst ` set es)"
        using True 2(1,6) Cons(2-4) p by (intro Cons(1)) auto
      then show ?thesis using w d p by (auto intro: converse_rtranclp_into_rtranclp)
    qed
  qed
qed simp

lemma OpenHost_wsteps:
  assumes "host_ok w" and "C config"
  shows "wsteps sha lost C w (snd (OpenHost c config w))"
proof -
  let ?w = "(down w)\<lparr>w_config := config\<rparr>"
  obtain ok w' where o: "open_envs c (w_disk w) ?w = (ok, w')" by (metis prod.exhaust)
  have s: "stored_ok w" using assms(1) by (rule host_okD)
  have "wsteps sha lost C ?w w' \<and> \<not> w_up w' \<and> dom (map_of (w_disk w')) = dom (map_of (w_disk ?w)) \<and>
     (ok \<longrightarrow> dom (map_of (w_envs w')) = dom (map_of (w_envs ?w)) \<union> fst ` set (w_disk w))"
    using s by (intro open_envs_wsteps [OF o]) (auto simp: stored_ok_def down_def)
  moreover have "wstep sha lost C w ?w" using assms(2) by (rule wstep.configured)
  ultimately have m: "wsteps sha lost C w w'" "\<not> w_up w'" "ok \<longrightarrow> dom (map_of (w_disk w')) \<subseteq> dom (map_of (w_envs w'))"
    by (auto simp: down_def dom_map_of_conv_image_fst intro: converse_rtranclp_into_rtranclp)
  have "wsteps sha lost C w' (w'\<lparr>w_up := True\<rparr>)" if ok using m that by (intro r_into_rtranclp wstep.opened) simp_all
  moreover have "wsteps sha lost C w' (down w')" by (intro r_into_rtranclp wstep.ended)
  ultimately have "wsteps sha lost C w (if ok then w'\<lparr>w_up := True\<rparr> else down w')" using m(1) by auto
  then show ?thesis using o by (auto simp: OpenHost_def Let_def split: option.splits)
qed

lemma micro_gates:
  "micro sha lost p q \<Longrightarrow> j \<noteq> env_id (fst p) \<Longrightarrow> map_of (w_gates (snd q)) j = map_of (w_gates (snd p)) j"
proof (induction rule: micro.induct)
  case (launched e cfg e1 inc c w w1 g e2 w2)
  then show ?case using launched_state [OF launched(3-5,2)] by (simp add: map_of_put)
qed (auto simp: map_of_put commit_env_def)

lemma micros_gates:
  "micros sha lost p q \<Longrightarrow> env_id (fst q) = env_id (fst p) \<and>
     (\<forall>j. j \<noteq> env_id (fst p) \<longrightarrow> map_of (w_gates (snd q)) j = map_of (w_gates (snd p)) j)"
proof (induction rule: rtranclp_induct)
  case (step q r)
  then show ?case using micro_gates [OF step(2)] micro_identity [OF step(2)] by (simp add: identity_of_def)
qed simp

lemma waiting_keep:
  assumes "host_ok w" and "map_of (w_envs w) i = Some e" and m: "micros sha lost (e, w\<lparr>w_pending := ps\<rparr>) (e', w')"
    and envs: "w_envs w' = put i e' (w_envs w)"
    and others: "\<And>j. j \<noteq> i \<Longrightarrow> map_of ps' j = map_of (w_pending w) j" and here: "\<And>p. map_of ps' i = Some p \<Longrightarrow> waits_ok p e' w'"
  shows "waiting_ok (w'\<lparr>w_pending := ps'\<rparr>)"
  unfolding waiting_ok_def
proof (intro allI impI)
  fix j p assume j: "map_of (w_pending (w'\<lparr>w_pending := ps'\<rparr>)) j = Some p"
  have i: "env_id e = i" using host_okD(3) [OF assms(1,2)] by simp
  show "\<exists>x. map_of (w_envs (w'\<lparr>w_pending := ps'\<rparr>)) j = Some x \<and> waits_ok p x (w'\<lparr>w_pending := ps'\<rparr>)"
  proof (cases "j = i")
    case True
    then show ?thesis using j here envs by (simp add: map_of_put waits_ok_def)
  next
    case False
    then obtain x where x: "map_of (w_envs w) j = Some x" "waits_ok p x w"
      using j others [OF False] host_okD(2) [OF assms(1)] unfolding waiting_ok_def by auto
    moreover have "env_id x = j" using host_okD(3) [OF assms(1) x(1)] by simp
    ultimately show ?thesis using micros_gates [OF m] False i envs by (simp add: map_of_put waits_ok_def)
  qed
qed

text \<open>A step on one environment, from the operation's small steps.\<close>

lemma work_ok:
  assumes "host_ok w" and up: "w_up w" and e: "map_of (w_envs w) i = Some e" and m: "micros sha lost (e, w\<lparr>w_pending := ps\<rparr>) (e', w')"
    and t: "touches (e, w\<lparr>w_pending := ps\<rparr>) (e', w')"
    and others: "\<And>j. j \<noteq> i \<Longrightarrow> map_of ps' j = map_of (w_pending w) j" and here: "\<And>p. map_of ps' i = Some p \<Longrightarrow> waits_ok p e' w'"
  shows "wsteps sha lost C w ((store_env e' w')\<lparr>w_pending := ps'\<rparr>) \<and> waiting_ok ((store_env e' w')\<lparr>w_pending := ps'\<rparr>)"
proof -
  have i: "env_id e = i" using host_okD(3) [OF assms(1) e] by simp
  have u: "w_envs w' = put i e' (w_envs w)" "env_id e' = i" using e i t by (auto simp: touches_def)
  then have "store_env e' w' = w'" using put_put [of i e' e' "w_envs w"] by (simp add: store_env_def)
  then show ?thesis
    using work_touches [OF e i m up t] waiting_keep [OF assms(1) e m u(1) others here] by (auto intro: r_into_rtranclp)
qed

lemma env_step_work:
  assumes ok: "host_ok w" "op_ok lost C x"
    and kind: "\<And>c req. x \<noteq> OpCreate c req" "x \<noteq> OpCrash" "\<And>c config. x \<noteq> OpOpen c config"
  shows "wsteps sha lost C w (fst (env_step sha x w)) \<and> waiting_ok (fst (env_step sha x w))"
proof -
  have same: ?thesis if "fst (env_step sha x w) = w" using that host_okD(2) [OF ok(1)] by simp
  have free: "map_of (w_envs w) i = Some e" "map_of (w_pending w) i = None" "env_id e = i" "retired_ok e w" "w_up w" if "free_env i w = Some e" for i e
    using that host_okD(3) [OF ok(1), of i e] by (auto simp: free_env_def split: if_splits)
  have keep: "wsteps sha lost C w (store_env e' w') \<and> waiting_ok (store_env e' w')"
    if "free_env i w = Some e" "micros sha lost (e, w) (e', w')" "touches (e, w) (e', w')" for i e e' w'
  proof -
    have "(store_env e' w')\<lparr>w_pending := w_pending w\<rparr> = store_env e' w'" using micros_frame [OF that(2)] by (simp add: store_env_def)
    then show ?thesis
      using work_ok [OF ok(1) free(5,1) [OF that(1)], of sha lost "w_pending w" e' w' "w_pending w" C] that(2,3) free(2) [OF that(1)] by simp
  qed
  have stopping: "wsteps sha lost C w (keep_env (act_stopped sha c p (r, e1, w1))) \<and> waiting_ok (keep_env (act_stopped sha c p (r, e1, w1)))"
    if wait: "waiting_env i w = Some (p, e)" and m: "micros sha lost (e, w\<lparr>w_pending := del i (w_pending w)\<rparr>) (e1, w1)"
      and e1: "env_id e1 = env_id e" "w_envs w1 = put (env_id e) e1 (w_envs w)" "e_Actions e1 = e_Actions e" for i p e r e1 w1 c
  proof -
    note w = waiting_envD [OF ok(1) wait]
    obtain r2 e2 w2 where a: "act_stopped sha c p (r, e1, w1) = (r2, e2, w2)" by (metis prod.exhaust)
    have inputs: "inputs_of (v_HostConfig (e_Spec e1)) = inputs_of (v_HostConfig (e_Spec e))"
      using micros_identity [OF m] by (simp add: identity_of_def inputs_of_def)
    obtain b where "map_of (e_Actions e) (pa_OperationID p) = Some b" "ac_Kind b = pa_Kind p" "plain_action b"
      using w(3) unfolding waits_ok_def by blast
    then have "micros sha lost (e1, w1) (e2, w2) \<and> env_id e2 = env_id e1 \<and> w_envs w2 = put (env_id e1) e2 (w_envs w1)"
      using w(3) e1(3) inputs by (intro act_stopped_micros [OF a, of b]) (simp_all add: waits_ok_def)
    then have all: "micros sha lost (e, w\<lparr>w_pending := del i (w_pending w)\<rparr>) (e2, w2)"
      "touches (e, w\<lparr>w_pending := del i (w_pending w)\<rparr>) (e2, w2)" using m e1 by (auto simp: touches_def)
    have "w_pending w2 = del i (w_pending w)" using micros_frame [OF all(1)] by simp
    then have "(store_env e2 w2)\<lparr>w_pending := del i (w_pending w)\<rparr> = store_env e2 w2" by (simp add: store_env_def)
    then show ?thesis
      using work_ok [OF ok(1) w(4,1) all, of "del i (w_pending w)" C] by (simp add: a keep_env_def map_of_del)
  qed
  show ?thesis
  proof (cases x)
    case (OpAct i c req)
    show ?thesis
    proof (cases "free_env i w")
      case (Some e)
      obtain r e' w' where a: "act sha c req e w = (r, e', w')" by (metis prod.exhaust)
      note am = act_micros [OF a, of lost]
      show ?thesis
      proof (cases "\<exists>p. r = ActWaits p")
        case True
        then obtain p where p: "r = ActWaits p" by blast
        have "fst (env_step sha x w) = (store_env e' w')\<lparr>w_pending := put i p (w_pending w')\<rparr>" using OpAct Some a p by simp
        then show ?thesis
          using work_ok [OF ok(1) free(5,1) [OF Some], of sha lost "w_pending w" e' w' "put i p (w_pending w')"] am p micros_frame [OF conjunct1 [OF am]]
          by (simp add: map_of_put)
      next
        case False
        then have "fst (env_step sha x w) = store_env e' w'" using OpAct Some a by (cases r) auto
        then show ?thesis using keep [OF Some] am by simp
      qed
    qed (use OpAct same in simp)
  next
    case (OpReconcile i c req)
    obtain e r e' w' where "free_env i w = None \<or> \<not> reconcile_ids_ok req \<or> free_env i w = Some e \<and> reconcile_ids_ok req \<and> reconcileLocked sha c req e w = (r, e', w')"
      by (metis option.exhaust prod.exhaust)
    then show ?thesis
      using OpReconcile same keep [of i e e' w'] reconcileLocked_micros [of sha c req e w r e' w' lost] by (auto simp: keep_env_def split: option.splits)
  next
    case (OpRetire i c req)
    show ?thesis
    proof (cases "free_env i w")
      case (Some e)
      obtain r e' w' where a: "retire sha c req e w = (r, e', w')" by (metis prod.exhaust)
      have "micros sha lost (e, w) (e', w') \<and> touches (e, w) (e', w')"
        using free(4) [OF Some] by (intro retire_micros [OF a]) (auto simp: retired_ok_def)
      then show ?thesis using OpRetire Some a keep [OF Some, of e' w'] by (simp add: keep_env_def)
    qed (use OpRetire same in simp)
  next
    case (OpHelperEnded i inc y save)
    show ?thesis
    proof (cases "map_of (w_envs w) i")
      case (Some e)
      define w' where "w' = helper_ended inc y save e w"
      have i: "env_id e = i" using host_okD(3) [OF ok(1) Some] by simp
      have "y \<noteq> None \<or> lost" using ok(2) OpHelperEnded by (auto simp: op_ok_def split: option.splits)
      from helper_ended_micros [OF this w'_def [symmetric], of sha] obtain e' where h: "micros sha lost (e, w) (e', w')" "env_id e' = i"
        "w_envs w' = put i e' (w_envs w) \<or> w' = w \<and> e' = e" "e_Actions e' = e_Actions e"
        "w_gates w' = w_gates w \<or> map_of (w_gates w') i \<noteq> Some True" "e_Phase e \<noteq> Retired \<longrightarrow> e_Phase e' \<noteq> Retired"
        using i by blast
      have envs: "w_envs w' = put i e' (w_envs w)" using h(3) Some by auto
      have inputs: "inputs_of (v_HostConfig (e_Spec e')) = inputs_of (v_HostConfig (e_Spec e))"
        using micros_identity [OF h(1)] by (simp add: identity_of_def inputs_of_def)
      have "waits_ok p e' w'" if "map_of (w_pending w) i = Some p" for p
      proof -
        have "\<exists>e. map_of (w_envs w) i = Some e \<and> waits_ok p e w" using host_okD(2) [OF ok(1)] that unfolding waiting_ok_def by blast
        then have "waits_ok p e w" using Some by simp
        then show ?thesis using h(2,4-6) i inputs unfolding waits_ok_def by auto
      qed
      then have "wsteps sha lost C w ((store_env e' w')\<lparr>w_pending := w_pending w\<rparr>) \<and> waiting_ok ((store_env e' w')\<lparr>w_pending := w_pending w\<rparr>)"
        if "w_up w" using work_ok [OF ok(1) that Some, of sha lost "w_pending w" e' w' "w_pending w"] h(1,2) envs i by (simp add: touches_def)
      moreover have "(store_env e' w')\<lparr>w_pending := w_pending w\<rparr> = w'"
        using envs h(2) micros_frame [OF h(1)] by (simp add: store_env_def)
      ultimately show ?thesis using OpHelperEnded Some same by (auto simp: w'_def)
    qed (use OpHelperEnded same in simp)
  next
    case (OpStopSeen i status ps save c)
    show ?thesis
    proof (cases "\<exists>p e. waiting_env i w = Some (p, e) \<and> stop_confirmed status ps e")
      case True
      then obtain p e where p: "waiting_env i w = Some (p, e)" "stop_confirmed status ps e" by blast
      note w = waiting_envD(3) [OF ok(1) p(1)]
      obtain r e1 w1 where s: "stop_done save e (w\<lparr>w_pending := del i (w_pending w)\<rparr>) = (r, e1, w1)" by (metis prod.exhaust)
      show ?thesis using stop_done_micros [OF s, of sha lost] w stopping [OF p(1)] OpStopSeen p s by (simp add: waits_ok_def)
    qed (use OpStopSeen same in \<open>auto split: option.splits\<close>)
  next
    case (OpStopTimeout i save c)
    show ?thesis
    proof (cases "waiting_env i w")
      case (Some pe)
      obtain p e where p: "waiting_env i w = Some (p, e)" using Some by (cases pe) simp
      note w = waiting_envD(3) [OF ok(1) p]
      obtain r e1 w1 where s: "stop_timeout save e (w\<lparr>w_pending := del i (w_pending w)\<rparr>) = (r, e1, w1)" by (metis prod.exhaust)
      show ?thesis using stop_timeout_micros [OF s, of sha lost] w stopping [OF p] OpStopTimeout p s by (simp add: waits_ok_def)
    qed (use OpStopTimeout same in simp)
  qed (use kind in auto)
qed

lemma env_step_wsteps:
  assumes "host_ok w" "op_ok lost C x"
  shows "wsteps sha lost C w (fst (env_step sha x w)) \<and> waiting_ok (fst (env_step sha x w))"
proof (cases x)
  case (OpCreate c req)
  have "w_pending (snd (create c req w)) = w_pending w \<and> w_gates (snd (create c req w)) = w_gates w \<and>
      (\<forall>i e. map_of (w_envs w) i = Some e \<longrightarrow> map_of (w_envs (snd (create c req w))) i = Some e)"
    by (auto simp: create_def Let_def store_env_def map_of_put new_environment_def split: option.splits sum.splits prod.splits dest!: save_cases)
  then have "waiting_ok (snd (create c req w))" using host_okD(2) [OF assms(1)] unfolding waiting_ok_def waits_ok_def by metis
  then show ?thesis using create_wsteps [OF assms(1)] host_okD(2) [OF assms(1)] OpCreate by auto
next
  case OpCrash
  then show ?thesis using wstep.ended [of sha lost C w] by (auto simp: waiting_ok_def down_def)
next
  case (OpOpen c config)
  have "w_pending w' = w_pending w" if "open_envs c es w = (ok, w')" for es w ok w'
    using that
  proof (induction es arbitrary: w)
    case (Cons p es)
    then show ?case
      by (cases p) (auto simp: Let_def commit_env_def split: if_splits prod.splits bool.splits dest!: gate_result)
  qed simp
  then have "waiting_ok (snd (OpenHost c config w))"
    using host_okD(2) [OF assms(1)] by (auto simp: OpenHost_def Let_def waiting_ok_def down_def split: option.splits prod.splits)
  then show ?thesis using OpenHost_wsteps [OF assms(1), of C config] assms(2) OpOpen host_okD(2) [OF assms(1)] by (auto simp: op_ok_def)
qed (use env_step_work [OF assms] in auto)

lemma op_ok_any: "op_ok True (\<lambda>_. True) x"
  by (simp add: op_ok_def split: env_op.split option.split)

lemma host_ok_step: "host_ok w \<Longrightarrow> host_ok (fst (env_step sha x w))"
  using env_step_wsteps [OF _ op_ok_any, of w sha x] base.wsteps_keep [of sha True "\<lambda>_. True" w] by (auto simp: host_ok_def)

text \<open>An invariant of the host's steps holds after every run.\<close>

context env_invariant
begin

lemma run_keeps:
  "host_ok w \<Longrightarrow> env_inv w \<Longrightarrow> list_all (op_ok lost C) ops \<Longrightarrow>
     host_ok (fst (run (env_step sha) ops w)) \<and> env_inv (fst (run (env_step sha) ops w))"
proof (induction ops arbitrary: w)
  case (Cons x ops)
  have "env_inv (fst (env_step sha x w))" using wsteps_keep [OF conjunct1 [OF env_step_wsteps [OF Cons(2), of lost C x sha]]] Cons(3,4) by simp
  then show ?case using Cons(1) [OF host_ok_step [OF Cons(2)]] Cons(4) by (simp add: split_beta Let_def)
qed simp

end

text \<open>A host before its first opening.\<close>

definition new_host :: "int \<Rightarrow> host_config \<Rightarrow> host_world" where
  "new_host uid config = \<lparr>w_up = False, w_config = config, w_envs = [], w_gates = [], w_fatal = False, w_waiters = [], w_pending = [],
     w_uid = uid, w_disk = [], w_trace = [], w_drawn = []\<rparr>"

lemma new_host_ok: "host_ok (new_host uid config)"
  by (simp add: host_ok_def base.env_inv_def stored_ok_def waiting_ok_def new_host_def)

end
