(* ===== verification/EnvExample.thy ===== *)
theory EnvExample
  imports EnvWorld
begin

text \<open>
  A run of the environment host on concrete data: it is opened, an environment is created, started,
  stopped and started again, after a probe of its first incarnation. The theorems' witnesses apply
  them to this run. Every call succeeds; the digest is the text itself.
\<close>

definition demo_config :: host_config where
  "demo_config = \<lparr>hc_SeatLaunch = None, hc_ControllerCapabilities = [], hc_Root = lit ''/r'', hc_Helper = lit ''/h'', hc_Store = lit ''/s'',
     hc_Base = [], hc_Kernel = [], hc_InitRef = [], hc_InitDigest = [], hc_ImageRef = [], hc_ImageDigest = [], hc_GuestBinary = [],
     hc_ShimBinary = [], hc_CodexArchive = [], hc_CodexArchiveSHA256 = [], hc_SourceBundle = [], hc_SourceSHA = [], hc_GoProxySocket = [],
     hc_AllowedHosts = [], hc_MailOrigin = [], hc_MaxLive = 1, hc_CPUs = 1, hc_MemoryBytes = 536870912, hc_Profiles = [], hc_Agent = [],
     hc_AgentVersion = [], hc_QualificationFixture = None, hc_SeatRoot = [], hc_SeatHere = [], hc_Seat = [], hc_SeatDeclarationSHA256 = []\<rparr>"

definition demo_open :: open_host_calls where
  "demo_open = \<lparr>oh_checks = \<lparr>cc_mail = (\<lambda>_ _. True), cc_fixture = (\<lambda>_ _ _. True), cc_egress = (\<lambda>_. True)\<rparr>, oh_dir = True, oh_lock = True,
     oh_processes = (\<lambda>_. None), oh_gate = (\<lambda>_. \<lparr>gc_egress = True, gc_listen = True, gc_go = True, gc_mail = True\<rparr>), oh_save = (\<lambda>_. calls_ok)\<rparr>"

definition demo_create :: create_calls where
  "demo_create = \<lparr>ca_mkdir = True, ca_session = lit ''1'', ca_incarnation = lit ''0'', ca_save = calls_ok\<rparr>"

definition demo_req :: create_request where
  "demo_req = \<lparr>cr_ID = lit ''e'', cr_OperationID = lit ''make'', cr_Profile = []\<rparr>"

definition demo_spec :: vm_spec where
  "demo_spec = (e_Spec (new_environment demo_create demo_config (lit ''/r'') demo_req))
     \<lparr>v_Incarnation := lit ''a''\<rparr>"

definition demo_evidence :: "probe_request \<Rightarrow> probe_evidence" where
  "demo_evidence q = no_evidence\<lparr>pe_Environment := pq_Environment q, pe_Session := pq_Session q, pe_Incarnation := pq_Incarnation q,
     pe_Operation := pq_Operation q, pe_ObservedAt := lit ''now'', pe_Coverage := lit ''direct-vz-private-disk/v1'', pe_ObserverUID := 7,
     pe_ProcessCount := 1, pe_OwnProcessesChecked := 1, pe_RootfsDevice := 3, pe_RootfsInode := 4, pe_Confirmed := True\<rparr>"

definition demo_status :: "(bytes \<times> bytes) list" where
  "demo_status = [(lit ''environment'', lit ''e''), (lit ''session'', lit ''session-1''), (lit ''incarnation'', lit ''a''), (lit ''vm_stopped'', lit ''true'')]"

definition demo_reconcile :: reconcile_calls where
  "demo_reconcile = \<lparr>rl_config = Some ([], Some demo_spec), rl_birth = Some 1, rl_exited = None, rl_now = 0, rl_status = StatusRead [] (Some demo_status),
     rl_absent = True, rl_save = calls_ok, rl_probe = (\<lambda>q. Inr (demo_evidence q)), rl_rootfs = Present 3 4, rl_absent_after = True,
     rl_observed_at = lit ''now'', rl_write = True, rl_save_after = calls_ok\<rparr>"

definition demo_start :: "string \<Rightarrow> start_calls" where
  "demo_start inc = \<lparr>sc_fixture = True, sc_evidence = None, sc_reconcile = demo_reconcile, sc_random = lit inc, sc_save = calls_ok,
     sc_gate = oh_gate demo_open [], sc_marker = True, sc_config = True, sc_log = True, sc_started = Some 5,
     sc_processes = Some [\<lparr>pr_PID = 5, pr_UID = 7, pr_Start = lit ''t'', pr_Args = lit ''/h agent-environment --config /r/e/vm-config-a.json''\<rparr>],
     sc_save_running = calls_ok\<rparr>"

definition demo_act :: "string \<Rightarrow> action_calls" where
  "demo_act inc = \<lparr>al_archive = True, al_save = calls_ok, al_stop_save = calls_ok, al_marker = True, al_fence_save = calls_ok, al_evidence = None,
     al_reconcile = demo_reconcile, al_select_save = calls_ok, al_start = demo_start inc, al_finish_save = calls_ok\<rparr>"

definition demo_request :: "action_kind \<Rightarrow> string \<Rightarrow> string \<Rightarrow> action_request" where
  "demo_request kind i inc = \<lparr>aq_Kind = kind, aq_OperationID = lit i, aq_Incarnation = lit inc, aq_SessionID = [], aq_TargetProfile = []\<rparr>"

definition demo_ops :: "env_op list" where
  "demo_ops =
     [OpOpen demo_open demo_config,
      OpCreate demo_create demo_req,
      OpAct (lit ''e'') (demo_act ''a'') (demo_request KStart ''start-1'' ''created-0''),
      OpAct (lit ''e'') (demo_act ''a'') (demo_request KStop ''stop-1'' ''a''),
      OpStopSeen (lit ''e'') (StatusRead [] (Some demo_status)) (Some []) calls_ok (demo_act ''a''),
      OpAct (lit ''e'') (demo_act ''b'') (demo_request KStart ''start-2'' ''a'')]"

definition demo_end :: host_world where
  "demo_end = fst (run (env_step id) demo_ops (new_host 7 demo_config))"

text \<open>The same environment, retired after its stop, with its disk.\<close>

definition demo_probe :: retire_probe_calls where
  "demo_probe = \<lparr>rp_birth = Some 1, rp_random = lit ''x'', rp_probe = (\<lambda>q. Some (demo_evidence q)), rp_disk = DiskPrivate 3 4 0, rp_write = True\<rparr>"

definition demo_retire :: env_op where
  "demo_retire = OpRetire (lit ''e'')
     \<lparr>re_proof = None, re_disk = DiskPrivate 3 4 0, re_probe = demo_probe, re_save = calls_ok, re_disk_now = DiskPrivate 3 4 0, re_probe_now = demo_probe,
      re_remove = True, re_sync = True, re_save_done = calls_ok\<rparr>
     \<lparr>rr_OperationID = lit ''retire-1'', rr_SessionID = lit ''session-1'', rr_Incarnation = lit ''a'', rr_FenceOperation = lit ''stop-1'',
      rr_Mode = delete_mode, rr_RetentionReference = lit ''r'', rr_ResumeCleanup = False\<rparr>"

definition demo_retired :: host_world where
  "demo_retired = fst (run (env_step id) (butlast demo_ops @ [demo_retire]) (new_host 7 demo_config))"

lemma lit_inject [simp]: "lit s = lit t \<longleftrightarrow> s = t"
proof -
  have "unat (word_of_nat (of_char c) :: 8 word) = of_char c" for c :: char
    by (simp add: unat_of_nat)
  then have "inj (\<lambda>c :: char. word_of_nat (of_char c) :: 8 word)" by (metis injI of_char_eq_iff)
  then show ?thesis by (simp add: lit_def inj_map_eq_map)
qed

lemma lit_append: "lit s @ lit t = lit (s @ t)"
  by (simp add: lit_def)

lemma lit_empty [simp]: "lit s = [] \<longleftrightarrow> s = []" "[] = lit s \<longleftrightarrow> s = []"
  by (auto simp: lit_def)

lemma demo_ids [simp]:
  "environmentID (lit ''e'')" "validID (lit ''make'')" "validID (lit ''start-1'')" "validID (lit ''stop-1'')" "validID (lit ''start-2'')"
  "validID (lit ''e'')" "IsAbs (lit ''/r'')" "ValidateControllerCapabilities [] = None"
  by code_simp+

lemma demo_profile: "profileConfig demo_config [] = Inr demo_config"
  by (simp add: profileConfig_def demo_config_def)

lemma demo_root [simp]: "hc_Root demo_config = lit ''/r''" "hc_MaxLive demo_config = 1" "hc_Helper demo_config = lit ''/h''" "hc_Store demo_config = lit ''/s''"
  by (simp_all add: demo_config_def)

definition demo_up :: host_world where
  "demo_up = (new_host 7 demo_config)\<lparr>w_up := True\<rparr>"

lemma demo_step_1: "env_step id (OpOpen demo_open demo_config) (new_host 7 demo_config) = (demo_up, None)"
  by (simp add: demo_up_def OpenHost_def demo_open_def check_config_def demo_config_def new_host_def down_def ValidateAgent_def)

definition demo_made :: environment where
  "demo_made = new_environment demo_create demo_config (lit ''/r'') demo_req"

definition demo_at :: "environment \<Rightarrow> string list \<Rightarrow> bool \<Rightarrow> env_effect list \<Rightarrow> host_world" where
  "demo_at e ids lease tr = demo_up\<lparr>w_envs := [(lit ''e'', e)], w_disk := [(lit ''e'', e)], w_drawn := map lit ids,
     w_gates := (if lease then [(lit ''e'', True)] else []), w_trace := tr\<rparr>"

lemma demo_step_2: "env_step id (OpCreate demo_create demo_req) demo_up = (demo_at demo_made [''created-0''] False [], None)"
  by (simp add: demo_up_def demo_at_def create_def demo_profile new_host_def demo_req_def demo_create_def demo_made_def new_environment_def save_env_def
      store_env_def Let_def demo_root lit_append)
 
definition demo_process :: process where
  "demo_process = \<lparr>pr_PID = 5, pr_UID = 7, pr_Start = lit ''t'', pr_Args = lit ''/h agent-environment --config /r/e/vm-config-a.json''\<rparr>"

definition demo_go :: host_config where
  "demo_go = demo_config\<lparr>hc_GoProxySocket := Join (Join (lit ''/r'') (lit ''e'')) (lit ''go.sock'')\<rparr>"

definition demo_acts :: "nat \<Rightarrow> (bytes \<times> env_action) list" where
  "demo_acts n = take n
     [(lit ''make'', no_action\<lparr>ac_State := ACompleted\<rparr>),
      (lit ''start-1'', (dispatched (demo_request KStart ''start-1'' ''created-0'') None)\<lparr>ac_State := ACompleted, ac_ResultingIncarnation := lit ''a''\<rparr>)]"

definition demo_env :: "string \<Rightarrow> env_phase \<Rightarrow> (bytes \<times> env_action) list \<Rightarrow> environment" where
  "demo_env inc ph acts = demo_made\<lparr>e_Spec := (e_Spec demo_made)\<lparr>v_Incarnation := lit inc, v_HostConfig := demo_go\<rparr>, e_Phase := ph,
     e_Process := demo_process, e_Actions := acts\<rparr>"

lemmas demo_calls = demo_open_def demo_create_def demo_start_def demo_act_def demo_request_def

lemmas demo_state = demo_at_def demo_up_def new_host_def demo_env_def demo_acts_def demo_process_def demo_go_def demo_made_def new_environment_def
  demo_req_def no_action_def dispatched_def

lemmas step_defs = free_env_def act_def requested_switch_def act_dispatch_def set_action_def start_def live_count_def dormant_def demo_profile
  start_refusal_def hasHarnessSwitch_def launch_def launch_helper_def gate_def note_effect_def act_finish_def update_action_def unit_result_def
  find_process_def commit_env_def save_env_def store_env_def

lemma demo_step_3:
  "env_step id (OpAct (lit ''e'') (demo_act ''a'') (demo_request KStart ''start-1'' ''created-0'')) (demo_at demo_made [''created-0''] False []) =
     ((demo_at (demo_env ''a'' Running (demo_acts 2)) [''created-0'', ''a''] True [Launched (lit ''e'') (lit ''a'') False])
        \<lparr>w_waiters := [(lit ''e'', lit ''a'', 5)]\<rparr>, Some (lit ''e'', lit ''start-1''))"
  by (simp add: demo_state demo_calls step_defs Let_def lit_append) (simp add: demo_config_def)

definition demo_stop :: env_action where
  "demo_stop = dispatched (demo_request KStop ''stop-1'' ''a'') None"

definition demo_fence :: "bool \<Rightarrow> fence" where
  "demo_fence b = \<lparr>f_Incarnation = lit ''a'', f_ScopeID = lit ''scope-a'', f_NetworkRevoked = True, f_AdapterAccessRevoked = True,
     f_WorkspaceWriteRevoked = b, f_TerminationConfirmed = b, f_State = (if b then lit ''confirmed'' else lit ''execution_unknown'')\<rparr>"

definition demo_stopping :: host_world where
  "demo_stopping = (demo_at ((demo_env ''a'' Revoking (demo_acts 2 @ [(lit ''stop-1'', demo_stop)]))\<lparr>e_LastFence := Some (demo_fence False)\<rparr>)
     [''created-0'', ''a''] True [Launched (lit ''e'') (lit ''a'') False, StopMarker (lit ''e'') (lit ''a'')])
     \<lparr>w_gates := [(lit ''e'', False)], w_waiters := [(lit ''e'', lit ''a'', 5)],
      w_pending := [(lit ''e'', \<lparr>pa_Kind = KStop, pa_OperationID = lit ''stop-1'', pa_Target = None\<rparr>)]\<rparr>"

lemma demo_step_4:
  "env_step id (OpAct (lit ''e'') (demo_act ''a'') (demo_request KStop ''stop-1'' ''a''))
     ((demo_at (demo_env ''a'' Running (demo_acts 2)) [''created-0'', ''a''] True [Launched (lit ''e'') (lit ''a'') False])
        \<lparr>w_waiters := [(lit ''e'', lit ''a'', 5)]\<rparr>) = (demo_stopping, Some (lit ''e'', lit ''stop-1''))"
  by (simp add: demo_stopping_def demo_stop_def demo_fence_def demo_state demo_calls step_defs Let_def lit_append stop_begin_def stop_fence_def revoke_gate_def)

definition demo_stopped :: host_world where
  "demo_stopped = (demo_at ((demo_env ''a'' Stopped (demo_acts 2 @ [(lit ''stop-1'', demo_stop\<lparr>ac_State := ACompleted, ac_Fence := Some (demo_fence True)\<rparr>)]))
       \<lparr>e_LastFence := Some (demo_fence True)\<rparr>) [''created-0'', ''a''] True
       [Launched (lit ''e'') (lit ''a'') False, StopMarker (lit ''e'') (lit ''a''), StopObserved (lit ''e'') (lit ''a'')])
     \<lparr>w_gates := [(lit ''e'', False)], w_waiters := [(lit ''e'', lit ''a'', 5)]\<rparr>"

lemma demo_step_5:
  "env_step id (OpStopSeen (lit ''e'') (StatusRead [] (Some demo_status)) (Some []) calls_ok (demo_act ''a'')) demo_stopping = (demo_stopped, None)"
  by (simp add: demo_stopping_def demo_stopped_def demo_stop_def demo_fence_def demo_state demo_calls step_defs Let_def lit_append waiting_env_def
      stop_confirmed_def status_of_def status_field_def demo_status_def departed_def stop_done_def act_stopped_def keep_env_def del_def)

lemma demo_paths [simp]:
  "config_file e = lit ''/r/e/vm-config-a.json''" if "directory e = Join (lit ''/r'') (lit ''e'')" "env_inc e = lit ''a''"
proof -
  have "Join (Join (lit ''/r'') (lit ''e'')) (lit ''vm-config-a.json'') = lit ''/r/e/vm-config-a.json''" by code_simp
  then show ?thesis using that by (simp add: config_file_def lit_append)
qed

lemma space_bytes: "map encode_rune spaces = [[9], [10], [11], [12], [13], [32], [194, 133], [194, 160], [225, 154, 128],
   [226, 128, 128], [226, 128, 129], [226, 128, 130], [226, 128, 131], [226, 128, 132], [226, 128, 133], [226, 128, 134], [226, 128, 135],
   [226, 128, 136], [226, 128, 137], [226, 128, 138], [226, 128, 168], [226, 128, 169], [226, 128, 175], [226, 129, 159], [227, 128, 128]]"
  by code_simp

lemma no_space: "c \<notin> {9, 10, 11, 12, 13, 32, 194, 225, 226, 227} \<Longrightarrow> starts_space (c # cs) = None" 
  unfolding starts_space_def space_bytes by (simp add: find_None_iff)

lemma fields_word: "list_all (\<lambda>c. c \<notin> {9, 10, 11, 12, 13, 32, 194, 225, 226, 227}) s \<Longrightarrow> acc \<noteq> [] \<or> s \<noteq> [] \<Longrightarrow>
   go_fields acc (s @ 32 # cs) = (rev acc @ s) # go_fields [] cs"
proof (induction s arbitrary: acc)
  case Nil
  have "starts_space (32 # cs) = Some [32]" unfolding starts_space_def space_bytes by simp
  then show ?case using Nil by simp
next
  case (Cons c s)
  then show ?case using no_space [of c] by simp
qed

lemma fields_last: "list_all (\<lambda>c. c \<notin> {9, 10, 11, 12, 13, 32, 194, 225, 226, 227}) s \<Longrightarrow> acc \<noteq> [] \<or> s \<noteq> [] \<Longrightarrow> go_fields acc s = [rev acc @ s]"
  by (induction s arbitrary: acc) (auto simp: no_space)

lemma demo_fields [simp]:
  "go_fields [] (lit ''/h agent-environment --config /r/e/vm-config-a.json'') =
     [lit ''/h'', lit ''agent-environment'', lit ''--config'', lit ''/r/e/vm-config-a.json'']"
proof -
  have "lit ''/h agent-environment --config /r/e/vm-config-a.json'' =
    lit ''/h'' @ 32 # lit ''agent-environment'' @ 32 # lit ''--config'' @ 32 # lit ''/r/e/vm-config-a.json''" by (simp add: lit_def)
  moreover have "list_all (\<lambda>c. c \<notin> {9, 10, 11, 12, 13, 32, 194, 225, 226, 227}) (lit s)"
    if "s \<in> {''/h'', ''agent-environment'', ''--config'', ''/r/e/vm-config-a.json''}" for s using that by (auto simp: lit_def)
  ultimately show ?thesis by (simp add: fields_word fields_last)
qed

lemmas reconcile_defs = ensurePredecessor_def predecessorOperation_def predecessor_launch_def last_action_def launched_action_def revoked_fence_def
  reconcileLocked_def reconcile_basis_def reconcile_receipt_def same_launch_def launch_command_def status_of_def status_field_def revoke_gate_def
  reconcile_settle_def observed_receipt_def probe_confirmed_def probe_issues_def probe_matches_def probe_coverage_def issues_of_def evidence_of_def
  fence_probe_def reconcile_action_def reconcile_fence_def require_disk_def

text \<open>The operation under which the host reconciles the first incarnation by itself.\<close>

definition demo_pred :: bytes where
  "demo_pred = lit ''predecessor-'' @ lit ''session-1'' @ 0 # lit ''a''"

lemma demo_pred_key [simp]:
  "lit ''predecessor-'' @ lit ''session-1'' @ 0 # lit ''a'' = demo_pred"
  "demo_pred \<noteq> lit ''make''" "demo_pred \<noteq> lit ''start-1''" "demo_pred \<noteq> lit ''stop-1''" "demo_pred \<noteq> lit ''start-2''"
  "lit ''make'' \<noteq> demo_pred" "lit ''start-1'' \<noteq> demo_pred" "lit ''stop-1'' \<noteq> demo_pred" "lit ''start-2'' \<noteq> demo_pred"
  unfolding demo_pred_def by (rule refl) code_simp+

definition demo_starting :: environment where
  "demo_starting = (demo_env ''a'' Stopped (demo_acts 2 @ [(lit ''stop-1'', demo_stop\<lparr>ac_State := ACompleted, ac_Fence := Some (demo_fence True)\<rparr>),
     (lit ''start-2'', dispatched (demo_request KStart ''start-2'' ''a'') None)]))\<lparr>e_LastFence := Some (demo_fence True)\<rparr>"

definition demo_rq :: reconcile_request where
  "demo_rq = \<lparr>rq_OperationID = demo_pred, rq_SessionID = lit ''session-1'', rq_Incarnation = lit ''a'', rq_LaunchOperation = lit ''start-1'',
     rq_FenceOperation = lit ''stop-1''\<rparr>"

lemmas demo_starting_defs = demo_starting_def demo_stop_def demo_fence_def demo_state demo_calls lit_append Let_def

lemma demo_basis: "reconcile_basis demo_starting demo_rq = None"
  by (simp add: reconcile_basis_def demo_rq_def launched_action_def revoked_fence_def demo_starting_defs)

lemma demo_predecessor: "predecessor_launch demo_starting = lit ''start-1''" "last_action (revoked_fence (lit ''a'')) demo_starting = lit ''stop-1''"
  by (simp_all add: predecessor_launch_def last_action_def launched_action_def revoked_fence_def demo_starting_defs)

lemma demo_receipt:
  "\<exists>r. reconcile_receipt id 7 demo_reconcile demo_starting demo_rq = Inr (r, demo_spec, 1, False) \<and> rc_HistoricalExecution r = lit ''unknown''"
  by (simp add: reconcile_receipt_def demo_reconcile_def same_launch_def launch_command_def status_of_def status_field_def demo_status_def
      demo_rq_def demo_spec_def demo_starting_defs)

text \<open>A reconciliation whose probe is confirmed.\<close>

definition confirmed_action :: "reconcile_request \<Rightarrow> reconciliation \<Rightarrow> env_action" where
  "confirmed_action req r = (reconcile_action req r)\<lparr>ac_State := ACompleted, ac_Fence := Some (reconcile_fence (rq_Incarnation req) True),
     ac_Reconciliation := Some (r\<lparr>rc_CurrentScope := lit ''fenced_now'', rc_ReplacementEligible := True\<rparr>)\<rparr>"

lemma settle_confirmed:
  assumes "probe_confirmed (w_uid w) c e req preboot answer" "rl_write c" "rl_save_after c = calls_ok"
    and "a = confirmed_action req (observed_receipt sha (w_uid w) c e req preboot answer receipt)"
    and "e' = (set_action (rq_OperationID req) a e)\<lparr>e_Phase := Fenced, e_LastFence := Some (reconcile_fence (rq_Incarnation req) True)\<rparr>"
  shows "reconcile_settle sha c req receipt preboot answer e w =
    (Inr a, e', snd (commit_env calls_ok e' (note_effect (ProbeConfirmed (env_id e) (rq_Incarnation req)) w)))"
  using assms by (simp add: reconcile_settle_def Let_def confirmed_action_def commit_env_def save_env_def store_env_def)

definition demo_held :: "reconciliation \<Rightarrow> environment" where
  "demo_held r = (set_action demo_pred (reconcile_action demo_rq r) demo_starting)
     \<lparr>e_Phase := Reconciling, e_CurrentReconciliation := demo_pred, e_LaunchRevoked := [lit ''a'']\<rparr>"

lemma demo_probe_confirmed:
  "probe_confirmed 7 demo_reconcile (demo_held r) demo_rq False (rl_probe demo_reconcile (fence_probe (demo_held r) demo_rq demo_spec 1 False))"
  by (simp add: probe_confirmed_def evidence_of_def probe_issues_def demo_reconcile_def demo_evidence_def no_evidence_def issues_of_def probe_matches_def
      probe_coverage_def fence_probe_def demo_held_def demo_rq_def)

definition demo_fenced :: "env_action \<Rightarrow> environment" where
  "demo_fenced a = (set_action demo_pred a demo_starting)\<lparr>e_Phase := Fenced, e_CurrentReconciliation := demo_pred, e_LaunchRevoked := [lit ''a''],
     e_LastFence := Some (reconcile_fence (lit ''a'') True)\<rparr>"

lemma demo_starting_facts [simp]:
  "env_id demo_starting = lit ''e''" "env_inc demo_starting = lit ''a''" "v_Session (e_Spec demo_starting) = lit ''session-1''"
  "e_Phase demo_starting = Stopped" "map_of (e_Actions demo_starting) demo_pred = None" "e_LaunchRevoked demo_starting = []"
  "e_CurrentReconciliation demo_starting = []"
  by (simp_all add: demo_starting_defs)

lemma demo_reconcile_facts [simp]:
  "rl_write demo_reconcile" "rl_save_after demo_reconcile = calls_ok" "rl_save demo_reconcile = calls_ok"
  "rq_OperationID demo_rq = demo_pred" "rq_Incarnation demo_rq = lit ''a''" "rq_SessionID demo_rq = lit ''session-1''"
  by (simp_all add: demo_reconcile_def demo_rq_def)

lemma demo_reconciled:
  assumes "\<not> w_fatal w" "w_uid w = 7" "w_gates w = [(lit ''e'', False)]" "w_envs w = [(lit ''e'', x)]" "w_disk w = [(lit ''e'', y)]"
  shows "\<exists>a r. reconcileLocked id demo_reconcile demo_rq demo_starting w =
       (Inr a, demo_fenced a, w\<lparr>w_envs := [(lit ''e'', demo_fenced a)], w_disk := [(lit ''e'', demo_fenced a)],
          w_gates := [(lit ''e'', False)], w_trace := w_trace w @ [ProbeConfirmed (lit ''e'') (lit ''a'')]\<rparr>) \<and>
     ac_Kind a = KReconcile \<and> ac_State a = ACompleted \<and> ac_Switch a = None \<and> ac_Reconciliation a = Some r \<and> rc_ReplacementEligible r \<and>
     rc_HistoricalExecution r = lit ''unknown''"
proof -
  obtain r where r: "reconcile_receipt id 7 demo_reconcile demo_starting demo_rq = Inr (r, demo_spec, 1, False)" "rc_HistoricalExecution r = lit ''unknown''"
    using demo_receipt by blast
  define answer where "answer = rl_probe demo_reconcile (fence_probe (demo_held r) demo_rq demo_spec 1 False)"
  define a where "a = confirmed_action demo_rq (observed_receipt id 7 demo_reconcile (demo_held r) demo_rq False answer r)"
  define w1 where "w1 = w\<lparr>w_gates := [(lit ''e'', False)], w_envs := [(lit ''e'', demo_held r)], w_disk := [(lit ''e'', demo_held r)]\<rparr>"
  have held: "env_id (demo_held r) = lit ''e''" by (simp add: demo_held_def)
  have fenced: "(set_action (rq_OperationID demo_rq) a (demo_held r))\<lparr>e_Phase := Fenced, e_LastFence := Some (reconcile_fence (rq_Incarnation demo_rq) True)\<rparr> = demo_fenced a"
    by (simp add: demo_held_def demo_fenced_def demo_rq_def set_action_def)
  have s: "reconcile_settle id demo_reconcile demo_rq r False answer (demo_held r) w1 =
    (Inr a, demo_fenced a, snd (commit_env calls_ok (demo_fenced a) (note_effect (ProbeConfirmed (lit ''e'') (lit ''a'')) w1)))"
    using settle_confirmed [of w1 demo_reconcile "demo_held r" demo_rq False answer a id r "demo_fenced a"] demo_probe_confirmed [of r] assms(2) fenced held
    by (simp add: w1_def answer_def a_def)
  have "reconcileLocked id demo_reconcile demo_rq demo_starting w = reconcile_settle id demo_reconcile demo_rq r False answer (demo_held r) w1"
    using assms r(1) demo_basis
    by (simp add: reconcileLocked_def demo_held_def w1_def commit_env_def save_env_def store_env_def revoke_gate_def answer_def Let_def)
  moreover have "\<exists>r. ac_Reconciliation a = Some r \<and> rc_ReplacementEligible r \<and> rc_HistoricalExecution r = lit ''unknown''"
    using r(2) by (simp add: a_def confirmed_action_def observed_receipt_def)
  ultimately show ?thesis
    using s assms by (cases w) (auto simp: w1_def commit_env_def save_env_def store_env_def note_effect_def demo_fenced_def a_def confirmed_action_def reconcile_action_def)
qed

lemma demo_refusal: "start_refusal id (demo_start inc) demo_config demo_starting = None"
  by (simp add: start_refusal_def hasHarnessSwitch_def demo_starting_defs)

definition demo_restart :: host_world where
  "demo_restart = demo_stopped\<lparr>w_envs := [(lit ''e'', demo_starting)], w_disk := [(lit ''e'', demo_starting)]\<rparr>"

lemma demo_restart_facts [simp]:
  "\<not> w_fatal demo_restart" "w_uid demo_restart = 7" "w_gates demo_restart = [(lit ''e'', False)]" "w_config demo_restart = demo_config"
  "w_envs demo_restart = [(lit ''e'', demo_starting)]" "w_disk demo_restart = [(lit ''e'', demo_starting)]" "w_up demo_restart"
  "w_drawn demo_restart = [lit ''created-0'', lit ''a'']"
  "w_trace demo_restart = [Launched (lit ''e'') (lit ''a'') False, StopMarker (lit ''e'') (lit ''a''), StopObserved (lit ''e'') (lit ''a'')]"
  by (simp_all add: demo_restart_def demo_stopped_def demo_at_def demo_up_def new_host_def)

lemma demo_dispatch:
  "act id (demo_act ''b'') (demo_request KStart ''start-2'' ''a'') (the (map_of (w_envs demo_stopped) (lit ''e''))) demo_stopped =
     act_dispatch id (demo_act ''b'') (demo_request KStart ''start-2'' ''a'') None demo_starting demo_restart"
  by (simp add: act_def demo_restart_def demo_stopped_def demo_starting_defs requested_switch_def commit_env_def save_env_def store_env_def set_action_def)

lemma demo_ensured:
  "\<exists>a r. ensurePredecessor id None demo_reconcile demo_starting demo_restart =
       (Inr demo_pred, demo_fenced a, demo_restart\<lparr>w_envs := [(lit ''e'', demo_fenced a)], w_disk := [(lit ''e'', demo_fenced a)],
          w_gates := [(lit ''e'', False)], w_trace := w_trace demo_restart @ [ProbeConfirmed (lit ''e'') (lit ''a'')]\<rparr>) \<and>
     ac_Reconciliation a = Some r \<and> rc_HistoricalExecution r = lit ''unknown''"
proof -
  have none: "predecessorOperation demo_starting (lit ''a'') = None" "\<not> list_ex (\<lambda>(_, a). ac_Kind a = KReconcile \<and> ac_Expected a = lit ''a'') (e_Actions demo_starting)"
    by (simp_all add: predecessorOperation_def demo_starting_defs)
  obtain a r where a: "reconcileLocked id demo_reconcile demo_rq demo_starting demo_restart =
       (Inr a, demo_fenced a, demo_restart\<lparr>w_envs := [(lit ''e'', demo_fenced a)], w_disk := [(lit ''e'', demo_fenced a)],
          w_gates := [(lit ''e'', False)], w_trace := w_trace demo_restart @ [ProbeConfirmed (lit ''e'') (lit ''a'')]\<rparr>)"
     "ac_State a = ACompleted" "ac_Reconciliation a = Some r" "rc_ReplacementEligible r" "rc_HistoricalExecution r = lit ''unknown''"
    using demo_reconciled [of demo_restart demo_starting demo_starting] by auto
  have "ensurePredecessor id None demo_reconcile demo_starting demo_restart =
      (Inr demo_pred, demo_fenced a, demo_restart\<lparr>w_envs := [(lit ''e'', demo_fenced a)], w_disk := [(lit ''e'', demo_fenced a)],
          w_gates := [(lit ''e'', False)], w_trace := w_trace demo_restart @ [ProbeConfirmed (lit ''e'') (lit ''a'')]\<rparr>)"
    using a none demo_predecessor unfolding demo_rq_def by (simp add: ensurePredecessor_def Let_def)
  then show ?thesis using a by blast
qed

lemma demo_step_6:
  "let (w, g) = env_step id (OpAct (lit ''e'') (demo_act ''b'') (demo_request KStart ''start-2'' ''a'')) demo_stopped in
     g = Some (lit ''e'', lit ''start-2'') \<and> w_drawn w = [lit ''created-0'', lit ''a'', lit ''b''] \<and> w_up w \<and> w_gates w = [(lit ''e'', True)] \<and>
     w_trace w = [Launched (lit ''e'') (lit ''a'') False, StopMarker (lit ''e'') (lit ''a''), StopObserved (lit ''e'') (lit ''a''),
       ProbeConfirmed (lit ''e'') (lit ''a''), Launched (lit ''e'') (lit ''b'') True]"
proof -
  obtain a r where a: "ensurePredecessor id None demo_reconcile demo_starting demo_restart =
       (Inr demo_pred, demo_fenced a, demo_restart\<lparr>w_envs := [(lit ''e'', demo_fenced a)], w_disk := [(lit ''e'', demo_fenced a)],
          w_gates := [(lit ''e'', False)], w_trace := w_trace demo_restart @ [ProbeConfirmed (lit ''e'') (lit ''a'')]\<rparr>)"
     "ac_Reconciliation a = Some r" "rc_HistoricalExecution r = lit ''unknown''"
    using demo_ensured by blast
  define e where "e = require_disk demo_pred (demo_fenced a)"
  have e: "e = (demo_fenced a)\<lparr>e_Spec := (e_Spec demo_starting)\<lparr>v_RequireRetainedDisk := True\<rparr>\<rparr>"
    using a(2,3) by (simp add: e_def require_disk_def demo_fenced_def map_of_put)
  have profile: "v_Profile (e_Spec demo_starting) = []" by (simp add: demo_starting_defs)
  have live: "live_count demo_restart = 0" by (simp add: live_count_def dormant_def)
  let ?w = "demo_restart\<lparr>w_envs := [(lit ''e'', demo_fenced a)], w_disk := [(lit ''e'', demo_fenced a)],
          w_gates := [(lit ''e'', False)], w_trace := w_trace demo_restart @ [ProbeConfirmed (lit ''e'') (lit ''a'')]\<rparr>"
  have "start id (demo_start ''b'') demo_starting demo_restart = launch (demo_start ''b'') demo_config e ?w"
    using a(1) demo_refusal [of "''b''"] profile live unfolding e_def
    by (simp add: start_def demo_profile) (simp add: demo_start_def)
  then have "act_dispatch id (demo_act ''b'') (demo_request KStart ''start-2'' ''a'') None demo_starting demo_restart =
      (case act_finish (demo_act ''b'') KStart (lit ''start-2'') (launch (demo_start ''b'') demo_config e ?w) of (res, e, w) \<Rightarrow> (ActReturns res, e, w))"
    by (simp add: act_dispatch_def Let_def demo_request_def demo_act_def)
  moreover have "free_env (lit ''e'') demo_stopped = Some (the (map_of (w_envs demo_stopped) (lit ''e'')))"
    by (simp add: free_env_def demo_stopped_def demo_at_def demo_up_def new_host_def)
  ultimately show ?thesis
    using demo_dispatch
    by (simp add: e launch_def launch_helper_def gate_def demo_start_def demo_open_def demo_act_def act_finish_def commit_env_def save_env_def store_env_def Let_def
        note_effect_def unit_result_def find_process_def demo_fenced_def demo_request_def demo_config_def)
qed

text \<open>What the theorems' witnesses use of the two runs.\<close>

lemma demo_runs:
  "w_trace demo_end = [Launched (lit ''e'') (lit ''a'') False, StopMarker (lit ''e'') (lit ''a''), StopObserved (lit ''e'') (lit ''a''),
     ProbeConfirmed (lit ''e'') (lit ''a''), Launched (lit ''e'') (lit ''b'') True]"
  "w_drawn demo_end = [lit ''created-0'', lit ''a'', lit ''b'']" "w_up demo_end" "map_of (w_gates demo_end) (lit ''e'') = Some True"
  "snd (run (env_step id) demo_ops (new_host 7 demo_config)) = [(lit ''e'', lit ''start-1''), (lit ''e'', lit ''stop-1''), (lit ''e'', lit ''start-2'')]"
  using demo_step_6
  by (simp_all add: demo_end_def demo_ops_def demo_step_1 demo_step_2 demo_step_3 demo_step_4 demo_step_5 split_beta Let_def del: env_step.simps)

lemma demo_retires:
  "let w = fst (env_step id demo_retire demo_stopped) in
     w_drawn w = [lit ''created-0'', lit ''a''] \<and>
     w_trace w = [Launched (lit ''e'') (lit ''a'') False, StopMarker (lit ''e'') (lit ''a''), StopObserved (lit ''e'') (lit ''a''),
       DiskProbed (lit ''e'') (lit ''a'') 3 4, DiskRemoved (lit ''e'') 3 4]"
proof -
  have "validID (lit ''retire-1'')" "validID (lit ''session-1'')" "validID (lit ''a'')" "length (lit ''r'') < 1024" by code_simp+
  then show ?thesis
    by (simp add: demo_retire_def demo_stopped_def demo_starting_defs step_defs keep_env_def retire_def retire_identities_ok_def retiredFence_def retire_begin_def
     delete_mode_def privateRetirementDisk_def retirementProbe_def demo_probe_def proof_complete_def demo_evidence_def no_evidence_def issues_of_def
        del: marshal.simps)
      (simp add: retire_cleanup_def finishRetirement_def step_defs privateRetirementDisk_def Let_def del: marshal.simps)
qed

lemma demo_retired_run:
  "w_drawn demo_retired = [lit ''created-0'', lit ''a'']"
  "w_trace demo_retired = [Launched (lit ''e'') (lit ''a'') False, StopMarker (lit ''e'') (lit ''a''), StopObserved (lit ''e'') (lit ''a''),
     DiskProbed (lit ''e'') (lit ''a'') 3 4, DiskRemoved (lit ''e'') 3 4]"
  using demo_retires
  by (simp_all add: demo_retired_def demo_ops_def demo_step_1 demo_step_2 demo_step_3 demo_step_4 demo_step_5 split_beta Let_def del: env_step.simps)

end
