(* ===== verification/JsonText.thy ===== *)
theory JsonText
  imports Json
begin

text \<open>
  Quoted JSON strings can be told apart: where one ends is decided by its own bytes, so a text made of
  quoted strings with fixed separators has one reading. This is what a digest of an encoded request
  rests on.
\<close>

text \<open>The bytes up to a closing quote, and what follows it.\<close>

fun string_end :: "bytes \<Rightarrow> bytes \<times> bytes" where
  "string_end [] = ([], [])"
| "string_end [c] = (if c = 34 then ([], []) else ([c], []))"
| "string_end (c # d # r) =
     (if c = 34 then ([], d # r)
      else if c = 92 then (case string_end r of (a, b) \<Rightarrow> (c # d # a, b))
      else (case string_end (d # r) of (a, b) \<Rightarrow> (c # a, b)))"

definition passes :: "bytes \<Rightarrow> bool" where
  "passes t \<longleftrightarrow> (\<forall>r. r \<noteq> [] \<longrightarrow> string_end (t @ r) = (t @ fst (string_end r), snd (string_end r)))"

lemma passes_Nil [simp]: "passes []"
  by (simp add: passes_def)

lemma passes_append: "passes s \<Longrightarrow> passes t \<Longrightarrow> passes (s @ t)"
  by (auto simp: passes_def)

lemma string_end_plain: "c \<noteq> 34 \<Longrightarrow> c \<noteq> 92 \<Longrightarrow> r \<noteq> [] \<Longrightarrow> string_end (c # r) = (c # fst (string_end r), snd (string_end r))"
  by (cases r) (auto split: prod.split)

lemma passes_plain: "(\<And>c. c \<in> set t \<Longrightarrow> c \<noteq> 34 \<and> c \<noteq> 92) \<Longrightarrow> passes t"
  by (induction t) (auto simp: passes_def string_end_plain)

lemma passes_escape: "passes [92, d]"
  unfolding passes_def by (auto split: prod.split)

lemma passes_escape_plain: "(\<And>c. c \<in> set t \<Longrightarrow> c \<noteq> 34 \<and> c \<noteq> 92) \<Longrightarrow> passes (92 # d # t)"
  using passes_append [OF passes_escape, of t d] passes_plain by simp

lemma hex_digit_plain: "0 \<le> n \<Longrightarrow> n < 16 \<Longrightarrow> hex_digit n \<noteq> 34 \<and> hex_digit n \<noteq> 92"
  using hex_digit_is_hex [of n] by (auto simp: is_hex_def is_digit_def)

lemma passes_escape_u: "passes (escape_u r)"
  unfolding escape_u_def by (rule passes_escape_plain) (auto simp: hex_digit_plain)

lemma passes_quote_byte: "passes (quote_byte b)"
  by (auto simp: quote_byte_def lit_def passes_escape passes_escape_u intro: passes_plain)

lemma passes_quote_rune: "passes (quote_rune s)"
proof (cases s)
  case (Cons b t)
  have "passes (take (snd (decode_rune (b # t))) (b # t))"
    if "\<not> b < 0x80" "\<not> (fst (decode_rune (b # t)) = RuneError \<and> snd (decode_rune (b # t)) = 1)"
  proof (rule passes_plain)
    fix c assume "c \<in> set (take (snd (decode_rune (b # t))) (b # t))"
    then have "0x80 \<le> c" using decode_rune_high [OF that(1) prod.collapse [symmetric] that(2)] by blast
    then show "c \<noteq> 34 \<and> c \<noteq> 92" by (auto simp: word_le_nat_alt)
  qed
  then show ?thesis
    unfolding quote_rune_def Cons by (auto simp: Let_def split_beta passes_quote_byte passes_escape_u)
qed (simp add: quote_rune_def)

lemma passes_quote_body: "passes (quote_body s)"
proof (induction s rule: quote_body.induct)
  case (1 s)
  then show ?case by (subst quote_body.simps) (simp add: passes_quote_rune passes_append)
qed

lemma string_end_quote: "string_end (quote_body s @ 34 # r) = (quote_body s, r)"
  using passes_quote_body [of s] unfolding passes_def by (cases r) (auto dest: spec [of _ "34 # r"])

lemma quote_split: "quote s @ x = quote t @ y \<Longrightarrow> quote s = quote t \<and> x = y"
proof -
  assume "quote s @ x = quote t @ y"
  then have "quote_body s @ 34 # x = quote_body t @ 34 # y" by (simp add: quote_def)
  then have "string_end (quote_body s @ 34 # x) = string_end (quote_body t @ 34 # y)" by simp
  then show ?thesis by (simp add: string_end_quote quote_def)
qed

text \<open>An identifier is quoted as it is.\<close>

lemma quote_body_plain: "list_all (\<lambda>c. alnum c \<or> c = 0x2e \<or> c = 0x5f \<or> c = 0x2d) s \<Longrightarrow> quote_body s = s"
proof (induction s)
  case Nil
  then show ?case by (simp add: quote_body.simps)
next
  case (Cons c s)
  have "c < 0x80" "quote_byte c = [c]"
    using Cons.prems by (auto simp: alnum_def quote_byte_def word_le_nat_alt word_less_nat_alt)
  then show ?case
    using Cons by (subst quote_body.simps) (simp add: quote_rune_def decode_rune_def)
qed

lemma quote_ident: "ident128 s \<Longrightarrow> ident128 t \<Longrightarrow> quote s = quote t \<Longrightarrow> s = t"
proof -
  have plain: "list_all (\<lambda>c. alnum c \<or> c = 0x2e \<or> c = 0x5f \<or> c = 0x2d) x" if "ident128 x" for x
    using that by (cases x) (auto simp: ident128_def)
  show "ident128 s \<Longrightarrow> ident128 t \<Longrightarrow> quote s = quote t \<Longrightarrow> s = t"
    using quote_body_plain [OF plain, of s] quote_body_plain [OF plain, of t] by (simp add: quote_def)
qed

end
