(* ===== verification/EnvRuns.thy ===== *)
theory EnvRuns
  imports EnvExample JsonText
begin

text \<open>
  What holds of every run of the environment host: an environment is launched again only when its
  last incarnation was proved gone; the machines that may run are within the owner's limit; an
  operation is begun once; what an environment is made of does not change; a disk is removed only
  for good; and the network lease is open only while an environment runs.
\<close>

subsection \<open>What the trace tells\<close>

text \<open>The last incarnation launched, until a probe confirms that nothing of it executes or writes.\<close>

fun unprobed_step :: "bytes \<Rightarrow> env_effect \<Rightarrow> bytes option \<Rightarrow> bytes option" where
  "unprobed_step i (Launched j n b) s = (if j = i then Some n else s)"
| "unprobed_step i (ProbeConfirmed j n) s = (if j = i \<and> s = Some n then None else s)"
| "unprobed_step i _ s = s"

definition unprobed :: "env_effect list \<Rightarrow> bytes \<Rightarrow> bytes option" where
  "unprobed tr i = fold (unprobed_step i) tr None"

text \<open>The same, until a probe confirms it or its stop was observed: the incarnation that may run.\<close>

fun may_run_step :: "bytes \<Rightarrow> env_effect \<Rightarrow> bytes option \<Rightarrow> bytes option" where
  "may_run_step i (Launched j n b) s = (if j = i then Some n else s)"
| "may_run_step i (ProbeConfirmed j n) s = (if j = i \<and> s = Some n then None else s)"
| "may_run_step i (StopObserved j n) s = (if j = i \<and> s = Some n then None else s)"
| "may_run_step i _ s = s"

definition may_run :: "env_effect list \<Rightarrow> bytes \<Rightarrow> bytes option" where
  "may_run tr i = fold (may_run_step i) tr None"

lemma unprobed_snoc [simp]: "unprobed (tr @ [x]) i = unprobed_step i x (unprobed tr i)" "unprobed [] i = None"
  by (simp_all add: unprobed_def)

lemma may_run_snoc [simp]: "may_run (tr @ [x]) i = may_run_step i x (may_run tr i)" "may_run [] i = None"
  by (simp_all add: may_run_def)

lemma may_run_unprobed: "may_run tr i = Some n \<Longrightarrow> unprobed tr i = Some n"
proof (induction tr arbitrary: n rule: rev_induct)
  case (snoc x tr)
  then show ?case by (cases x) (auto split: if_splits)
qed simp

definition guarded :: "env_effect list \<Rightarrow> bool" where
  "guarded tr \<longleftrightarrow> (\<forall>xs i n b ys. tr = xs @ Launched i n b # ys \<longrightarrow> unprobed xs i = None)"

lemma snoc_split: "xs @ y # ys = tr @ [x] \<longleftrightarrow> ys = [] \<and> xs = tr \<and> y = x \<or> (\<exists>zs. ys = zs @ [x] \<and> tr = xs @ y # zs)"
  by (cases ys rule: rev_cases) auto

lemma guarded_snoc [simp]: "guarded (tr @ [x]) \<longleftrightarrow> guarded tr \<and> (\<forall>i n b. x = Launched i n b \<longrightarrow> unprobed tr i = None)"
  unfolding guarded_def by (auto simp: snoc_split eq_commute [of "tr @ [x]"])

lemma guarded_Nil [simp]: "guarded []"
  by (simp add: guarded_def)

subsection \<open>A launch follows proof\<close>

definition reconciliation_ok :: "(bytes \<Rightarrow> bytes) \<Rightarrow> env_effect list \<Rightarrow> bytes set \<Rightarrow> environment \<Rightarrow> env_action \<Rightarrow> bool" where
  "reconciliation_ok sha tr U e a \<longleftrightarrow> (\<exists>req. reconciles sha a req) \<and> ac_Expected a \<in> U \<and>
     (ac_State a = ACompleted \<and> ac_Expected a = env_inc e \<longrightarrow> unprobed tr (env_id e) = None)"

definition env_launch_ok :: "(bytes \<Rightarrow> bytes) \<Rightarrow> env_effect list \<Rightarrow> bytes set \<Rightarrow> environment \<Rightarrow> bool" where
  "env_launch_ok sha tr U e \<longleftrightarrow> env_inc e \<in> U \<and> unprobed tr (env_id e) \<in> {None, Some (env_inc e)} \<and>
     (dormant (e_Phase e) \<longrightarrow> may_run tr (env_id e) = None) \<and> (e_Phase e = Created \<longrightarrow> unprobed tr (env_id e) = None) \<and>
     (\<forall>j a. map_of (e_Actions e) j = Some a \<longrightarrow> ac_Kind a = KReconcile \<longrightarrow> reconciliation_ok sha tr U e a)"

text \<open>The digest tells requests for different incarnations apart.\<close>

definition distinguishes :: "(bytes \<Rightarrow> bytes) \<Rightarrow> bytes set \<Rightarrow> bool" where
  "distinguishes sha U \<longleftrightarrow> (\<forall>r r'. rq_Incarnation r \<in> U \<longrightarrow> rq_Incarnation r' \<in> U \<longrightarrow>
     sha (marshal (reconcile_json r)) = sha (marshal (reconcile_json r')) \<longrightarrow> rq_Incarnation r = rq_Incarnation r')"

lemma marshal_reconcile:
  "marshal (reconcile_json r) =
     lit [CHR 0x7b, CHR 0x22] @ lit ''operation_id'' @ lit [CHR 0x22, CHR 0x3a] @ quote (rq_OperationID r) @
     lit [CHR 0x2c, CHR 0x22] @ lit ''session_id'' @ lit [CHR 0x22, CHR 0x3a] @ quote (rq_SessionID r) @
     lit [CHR 0x2c, CHR 0x22] @ lit ''expected_incarnation'' @ lit [CHR 0x22, CHR 0x3a] @ quote (rq_Incarnation r) @
     lit [CHR 0x2c, CHR 0x22] @ lit ''launch_operation'' @ lit [CHR 0x22, CHR 0x3a] @ quote (rq_LaunchOperation r) @
     lit [CHR 0x2c, CHR 0x22] @ lit ''fence_operation'' @ lit [CHR 0x22, CHR 0x3a] @ quote (rq_FenceOperation r) @ lit [CHR 0x7d]"
proof -
  have key: "quote (lit ''operation_id'') = 34 # lit ''operation_id'' @ [34]" "quote (lit ''session_id'') = 34 # lit ''session_id'' @ [34]"
    "quote (lit ''expected_incarnation'') = 34 # lit ''expected_incarnation'' @ [34]"
    "quote (lit ''launch_operation'') = 34 # lit ''launch_operation'' @ [34]" "quote (lit ''fence_operation'') = 34 # lit ''fence_operation'' @ [34]"
    unfolding quote_def by (subst quote_body_plain; code_simp)+
  show ?thesis by (simp add: reconcile_json_def key) (simp add: lit_def)
qed

lemma distinguishes_inj:
  assumes "inj sha" and "\<And>n. n \<in> U \<Longrightarrow> validID n"
  shows "distinguishes sha U"
  unfolding distinguishes_def
proof (intro allI impI)
  fix r r' assume U: "rq_Incarnation r \<in> U" "rq_Incarnation r' \<in> U"
    and "sha (marshal (reconcile_json r)) = sha (marshal (reconcile_json r'))"
  then have "marshal (reconcile_json r) = marshal (reconcile_json r')" using assms(1) by (simp add: inj_eq)
  then have "quote (rq_Incarnation r) = quote (rq_Incarnation r')"
    unfolding marshal_reconcile append_assoc same_append_eq by (metis quote_split same_append_eq)
  then show "rq_Incarnation r = rq_Incarnation r'" using U assms(2) by (auto simp: validID_def intro: quote_ident)
qed

lemma env_ok_mono: "env_launch_ok sha tr U e \<Longrightarrow> U \<subseteq> U' \<Longrightarrow> env_launch_ok sha tr U' e"
  unfolding env_launch_ok_def reconciliation_ok_def by blast

lemma env_ok_effect:
  assumes "env_launch_ok sha tr U e" and "\<And>n b. x \<noteq> Launched (env_id e) n b"
  shows "env_launch_ok sha (tr @ [x]) U e"
proof -
  have "unprobed (tr @ [x]) (env_id e) = unprobed tr (env_id e) \<or> unprobed (tr @ [x]) (env_id e) = None"
    "may_run (tr @ [x]) (env_id e) = may_run tr (env_id e) \<or> may_run (tr @ [x]) (env_id e) = None"
    using assms(2) by (cases x; auto)+
  then show ?thesis using assms(1) unfolding env_launch_ok_def reconciliation_ok_def by (metis insertCI)
qed

lemma env_ok_phase:
  assumes "env_launch_ok sha tr U e" and "env_id e' = env_id e" "env_inc e' = env_inc e"
    and "\<And>j a. map_of (e_Actions e') j = Some a \<Longrightarrow> ac_Kind a = KReconcile \<Longrightarrow>
       map_of (e_Actions e) j = Some a \<or> reconciliation_ok sha tr U e a"
    and "dormant (e_Phase e') \<Longrightarrow> dormant (e_Phase e) \<or> may_run tr (env_id e) = None" and "e_Phase e' = Created \<Longrightarrow> e_Phase e = Created"
  shows "env_launch_ok sha tr U e'"
  using assms unfolding env_launch_ok_def reconciliation_ok_def by metis

lemma not_dormant [simp]: "\<not> dormant Revoking" "\<not> dormant Reconciling" "\<not> dormant ExecutionUnknown" "\<not> dormant Launching" "\<not> dormant Running"
  by (simp_all add: dormant_def)

text \<open>A proof, in a sound state, is of the current incarnation.\<close>

lemma proven_unprobed:
  assumes "env_launch_ok sha tr U e" and "proven sha e" and "distinguishes sha U"
  shows "unprobed tr (env_id e) = None"
proof -
  obtain j a where a: "map_of (e_Actions e) j = Some a" "ac_Kind a = KReconcile" "ac_State a = ACompleted"
    and which: "ac_Expected a = env_inc e \<or> (\<exists>r req. ac_Reconciliation a = Some r \<and> rq_Incarnation req = env_inc e \<and>
      rc_InputSHA256 r = sha (marshal (reconcile_json req)))"
    using assms(2) unfolding proven_def by blast
  have ok: "reconciliation_ok sha tr U e a" "env_inc e \<in> U" using assms(1) a unfolding env_launch_ok_def by blast+
  have "ac_Expected a = env_inc e"
    using which
  proof
    assume "\<exists>r req. ac_Reconciliation a = Some r \<and> rq_Incarnation req = env_inc e \<and> rc_InputSHA256 r = sha (marshal (reconcile_json req))"
    then show ?thesis using ok assms(3) unfolding reconciliation_ok_def reconciles_def distinguishes_def by (metis option.sel)
  qed
  then show ?thesis using ok(1) a(3) by (simp add: reconciliation_ok_def)
qed

text \<open>A new incarnation.\<close>

lemma env_ok_draw:
  assumes "env_launch_ok sha tr U e" and "unprobed tr (env_id e) = None" and "inc \<notin> U"
    and "env_id e' = env_id e" "env_inc e' = inc" "e_Phase e' = Launching" "e_Actions e' = e_Actions e"
  shows "env_launch_ok sha tr (insert inc U) e'"
  using assms unfolding env_launch_ok_def reconciliation_ok_def by (metis insertCI not_dormant(4) env_phase.distinct(1))

lemma env_ok_launched:
  assumes "env_launch_ok sha tr U e" and "inc \<notin> U" and "env_id e' = env_id e" "env_inc e' = inc" "e_Phase e' = Launching" "e_Actions e' = e_Actions e"
  shows "env_launch_ok sha (tr @ [Launched (env_id e) inc b]) (insert inc U) e'"
proof -
  have "reconciliation_ok sha (tr @ [Launched (env_id e) inc b]) (insert inc U) e' a"
    if "map_of (e_Actions e') j = Some a" "ac_Kind a = KReconcile" for j a
  proof -
    have "reconciliation_ok sha tr U e a" using assms(1,6) that unfolding env_launch_ok_def by simp
    moreover have "ac_Expected a \<noteq> inc" using calculation assms(2) by (auto simp: reconciliation_ok_def)
    ultimately show ?thesis using assms(4) by (simp add: reconciliation_ok_def)
  qed
  then show ?thesis using assms(3-5) by (simp add: env_launch_ok_def)
qed

lemma env_ok_stopped:
  assumes "env_launch_ok sha tr U e" and "e' = e\<lparr>e_Phase := Stopped\<rparr>"
  shows "env_launch_ok sha (tr @ [StopObserved (env_id e) (env_inc e)]) U e'"
proof -
  have "may_run tr (env_id e) = None \<or> may_run tr (env_id e) = Some (env_inc e)"
    using assms(1) may_run_unprobed [of tr "env_id e"] unfolding env_launch_ok_def by (cases "may_run tr (env_id e)") auto
  then have "may_run (tr @ [StopObserved (env_id e) (env_inc e)]) (env_id e) = None" by auto
  then show ?thesis
    using assms(1) unfolding assms(2) by (intro env_ok_phase [OF env_ok_effect [OF assms(1)]]) auto
qed

text \<open>The identities drawn so far are all different, and the digest tells them apart.\<close>

definition drawn_apart :: "(bytes \<Rightarrow> bytes) \<Rightarrow> host_world \<Rightarrow> bool" where
  "drawn_apart sha w \<longleftrightarrow> distinct (w_drawn w) \<and> distinguishes sha (set (w_drawn w))"

definition launch_ok :: "(bytes \<Rightarrow> bytes) \<Rightarrow> environment \<Rightarrow> host_world \<Rightarrow> bool" where
  "launch_ok sha e w \<longleftrightarrow> (drawn_apart sha w \<longrightarrow> env_launch_ok sha (w_trace w) (set (w_drawn w)) e)"

definition launches_ok :: "(bytes \<Rightarrow> bytes) \<Rightarrow> host_world \<Rightarrow> bool" where
  "launches_ok sha w \<longleftrightarrow> (drawn_apart sha w \<longrightarrow> guarded (w_trace w) \<and>
     (\<forall>i d. map_of (w_disk w) i = Some d \<longrightarrow> env_id d = i \<and> env_launch_ok sha (w_trace w) (set (w_drawn w)) d) \<and>
     (\<forall>i. map_of (w_disk w) i = None \<longrightarrow> unprobed (w_trace w) i = None))"

lemma distinguishes_mono: "distinguishes sha U \<Longrightarrow> V \<subseteq> U \<Longrightarrow> distinguishes sha V"
  unfolding distinguishes_def by blast

lemma drawn_apart_more: "drawn_apart sha (w\<lparr>w_drawn := w_drawn w @ l\<rparr>) \<Longrightarrow> drawn_apart sha w"
  by (auto simp: drawn_apart_def elim: distinguishes_mono)

lemma launches_ok_disk:
  "launches_ok sha w \<Longrightarrow> launch_ok sha e w \<Longrightarrow> launches_ok sha (w\<lparr>w_disk := put (env_id e) e (w_disk w)\<rparr>)"
  by (auto simp: launches_ok_def launch_ok_def drawn_apart_def map_of_put split: if_splits)

lemma launch_fields [simp]:
  "launch_ok sha e (w\<lparr>w_fatal := b\<rparr>) = launch_ok sha e w" "launch_ok sha e (w\<lparr>w_gates := g\<rparr>) = launch_ok sha e w"
  "launch_ok sha e (w\<lparr>w_waiters := ws\<rparr>) = launch_ok sha e w" "launch_ok sha e (w\<lparr>w_pending := ps\<rparr>) = launch_ok sha e w"
  "launch_ok sha e (w\<lparr>w_up := u\<rparr>) = launch_ok sha e w" "launch_ok sha e (store_env x w) = launch_ok sha e w"
  "launch_ok sha e (w\<lparr>w_disk := d\<rparr>) = launch_ok sha e w"
  by (simp_all add: launch_ok_def drawn_apart_def)

lemma launches_fields [simp]:
  "launches_ok sha (w\<lparr>w_fatal := b\<rparr>) = launches_ok sha w" "launches_ok sha (w\<lparr>w_gates := g\<rparr>) = launches_ok sha w"
  "launches_ok sha (w\<lparr>w_waiters := ws\<rparr>) = launches_ok sha w" "launches_ok sha (w\<lparr>w_pending := ps\<rparr>) = launches_ok sha w"
  "launches_ok sha (w\<lparr>w_up := u\<rparr>) = launches_ok sha w" "launches_ok sha (store_env x w) = launches_ok sha w"
  "launches_ok sha (w\<lparr>w_config := c\<rparr>) = launches_ok sha w" "launches_ok sha (down w) = launches_ok sha w"
  by (simp_all add: launches_ok_def drawn_apart_def down_def)

lemma launch_save:
  assumes "save_env c e w = (ok, w')" and "launches_ok sha w" "launch_ok sha e w"
  shows "launches_ok sha w' \<and> (\<forall>x. launch_ok sha x w' = launch_ok sha x w)"
proof -
  consider "w' = w\<lparr>w_disk := put (env_id e) e (w_disk w)\<rparr>" | "w' = w\<lparr>w_fatal := True\<rparr>"
    | "w' = (w\<lparr>w_disk := put (env_id e) e (w_disk w)\<rparr>)\<lparr>w_fatal := True\<rparr>" using save_cases [OF assms(1)] by (auto split: if_splits)
  then show ?thesis using launches_ok_disk [OF assms(2,3)] assms(2) by cases simp_all
qed

lemma launch_effect:
  assumes "\<And>i n b. y \<noteq> Launched i n b"
  shows "launch_ok sha e w \<Longrightarrow> launch_ok sha e (note_effect y w)" and "launches_ok sha w \<Longrightarrow> launches_ok sha (note_effect y w)"
proof -
  show "launch_ok sha e w \<Longrightarrow> launch_ok sha e (note_effect y w)"
    using assms by (auto simp: launch_ok_def drawn_apart_def intro: env_ok_effect)
  have "unprobed (w_trace w) i = None \<Longrightarrow> unprobed (w_trace w @ [y]) i = None" for i using assms by (cases y) auto
  then show "launches_ok sha w \<Longrightarrow> launches_ok sha (note_effect y w)"
    unfolding launches_ok_def drawn_apart_def using assms by (simp add: env_ok_effect)
qed

lemma launch_change:
  assumes "launch_ok sha e w" and "env_id e' = env_id e" "env_inc e' = env_inc e"
    and "\<And>j a. drawn_apart sha w \<Longrightarrow> env_launch_ok sha (w_trace w) (set (w_drawn w)) e \<Longrightarrow>
       map_of (e_Actions e') j = Some a \<Longrightarrow> ac_Kind a = KReconcile \<Longrightarrow>
       map_of (e_Actions e) j = Some a \<or> reconciliation_ok sha (w_trace w) (set (w_drawn w)) e a"
    and "dormant (e_Phase e') \<Longrightarrow> dormant (e_Phase e)" and "e_Phase e' = Created \<Longrightarrow> e_Phase e = Created"
  shows "launch_ok sha e' w"
  unfolding launch_ok_def
proof
  assume d: "drawn_apart sha w"
  then have e: "env_launch_ok sha (w_trace w) (set (w_drawn w)) e" using assms(1) by (simp add: launch_ok_def)
  show "env_launch_ok sha (w_trace w) (set (w_drawn w)) e'"
    by (rule env_ok_phase [OF e assms(2,3)]) (use assms(4) [OF d e] assms(5,6) in blast)+
qed

lemma launch_drawn:
  "launch_ok sha e w \<Longrightarrow> launch_ok sha e (w\<lparr>w_drawn := w_drawn w @ l\<rparr>)" "launches_ok sha w \<Longrightarrow> launches_ok sha (w\<lparr>w_drawn := w_drawn w @ l\<rparr>)"
proof -
  have m: "env_launch_ok sha (w_trace w) (set (w_drawn w)) x \<Longrightarrow> env_launch_ok sha (w_trace w) (set (w_drawn w) \<union> set l) x" for x by (erule env_ok_mono) simp
  show "launch_ok sha e w \<Longrightarrow> launch_ok sha e (w\<lparr>w_drawn := w_drawn w @ l\<rparr>)"
    using drawn_apart_more [of sha w l] m by (auto simp: launch_ok_def)
  show "launches_ok sha w \<Longrightarrow> launches_ok sha (w\<lparr>w_drawn := w_drawn w @ l\<rparr>)"
    using drawn_apart_more [of sha w l] m by (auto simp: launches_ok_def)
qed

lemma launch_put:
  assumes "launch_ok sha e w" and "e' = set_action j a e"
    and "drawn_apart sha w \<Longrightarrow> env_launch_ok sha (w_trace w) (set (w_drawn w)) e \<Longrightarrow> ac_Kind a = KReconcile \<Longrightarrow>
      reconciliation_ok sha (w_trace w) (set (w_drawn w)) e a"
  shows "launch_ok sha e' w"
  unfolding assms(2) by (rule launch_change [OF assms(1)]) (use assms(3) in \<open>auto simp: map_of_put split: if_splits\<close>)

lemma ready_unprobed:
  assumes "env_launch_ok sha tr U e" "distinguishes sha U" "e_Phase e = Created \<or> (e_Phase e = Stopped \<or> e_Phase e = Fenced) \<and> proven sha e"
  shows "unprobed tr (env_id e) = None"
  using assms proven_unprobed [OF assms(1) _ assms(2)] by (auto simp: env_launch_ok_def)

lemma drawn_apart_snoc:
  "drawn_apart sha (w\<lparr>w_drawn := w_drawn w @ [inc]\<rparr>) \<Longrightarrow> drawn_apart sha w \<and> inc \<notin> set (w_drawn w) \<and> distinguishes sha (set (w_drawn w))"
  using drawn_apart_more [of sha w "[inc]"] by (simp add: drawn_apart_def)

lemma confirm_unprobed:
  assumes "unprobed tr i \<in> {None, Some n}" "tr \<noteq> []" "last tr = ProbeConfirmed i n"
  shows "unprobed tr i = None"
proof -
  obtain t where "tr = t @ [ProbeConfirmed i n]" using assms(2,3) by (metis append_butlast_last_id)
  then show ?thesis using assms(1) by (auto split: if_splits)
qed

lemma launch_confirm:
  assumes "launch_ok sha e w" and a: "reconciles sha a' req" "rq_Incarnation req = env_inc e"
    and tr: "w_trace w \<noteq> []" "last (w_trace w) = ProbeConfirmed (env_id e) (env_inc e)" and ph: "e_Phase e = Reconciling"
  shows "launch_ok sha ((set_action j a' e)\<lparr>e_Phase := Fenced\<rparr>) w"
  unfolding launch_ok_def
proof
  assume "drawn_apart sha w"
  then have e: "env_launch_ok sha (w_trace w) (set (w_drawn w)) e" using assms(1) by (simp add: launch_ok_def)
  then have u: "unprobed (w_trace w) (env_id e) = None" using confirm_unprobed [OF _ tr] by (simp add: env_launch_ok_def)
  then have m: "may_run (w_trace w) (env_id e) = None" using may_run_unprobed by (metis option.exhaust)
  have "reconciliation_ok sha (w_trace w) (set (w_drawn w)) e a'"
    using a e u by (auto simp: reconciliation_ok_def reconciles_def env_launch_ok_def)
  then show "env_launch_ok sha (w_trace w) (set (w_drawn w)) ((set_action j a' e)\<lparr>e_Phase := Fenced\<rparr>)"
    using m by (intro env_ok_phase [OF e]) (auto simp: map_of_put split: if_splits)
qed

lemma launch_launched:
  assumes l: "micro sha lost (e, w) (e2, w')" and "w_trace w' = w_trace w @ [Launched (env_id e) inc b]" "w_drawn w' = w_drawn w @ [inc]"
    and disk: "w_disk w' = put (env_id e) e1 (w_disk w)"
    and e1: "env_id e1 = env_id e" "env_inc e1 = inc" "e_Phase e1 = Launching" "e_Actions e1 = e_Actions e"
    and e2: "env_id e2 = env_id e" "env_inc e2 = inc" "e_Phase e2 = Launching" "e_Actions e2 = e_Actions e"
    and ready: "e_Phase e = Created \<or> (e_Phase e = Stopped \<or> e_Phase e = Fenced) \<and> proven sha e"
    and ok: "launch_ok sha e w" "launches_ok sha w"
  shows "launch_ok sha e2 w' \<and> launches_ok sha w' \<and> (\<forall>x. launch_ok sha x w \<longrightarrow> env_id x \<noteq> env_id e \<longrightarrow> launch_ok sha x w')"
proof (cases "drawn_apart sha w'")
  case True
  then have "drawn_apart sha (w\<lparr>w_drawn := w_drawn w @ [inc]\<rparr>)" unfolding drawn_apart_def assms(3) by simp
  then have d: "drawn_apart sha w" "inc \<notin> set (w_drawn w)" "distinguishes sha (set (w_drawn w))" using drawn_apart_snoc by blast+
  let ?tr = "w_trace w" and ?U = "set (w_drawn w)"
  let ?tr' = "?tr @ [Launched (env_id e) inc b]" and ?U' = "insert inc ?U"
  have e: "env_launch_ok sha ?tr ?U e" "guarded ?tr" "\<And>i x. map_of (w_disk w) i = Some x \<Longrightarrow> env_id x = i \<and> env_launch_ok sha ?tr ?U x"
    "\<And>i. map_of (w_disk w) i = None \<Longrightarrow> unprobed ?tr i = None"
    using ok d(1) by (simp_all add: launch_ok_def launches_ok_def)
  have u: "unprobed ?tr (env_id e) = None" by (rule ready_unprobed [OF e(1) d(3) ready])
  have other: "env_launch_ok sha ?tr' ?U' x" if "env_launch_ok sha ?tr ?U x" "env_id x \<noteq> env_id e" for x
    using that by (intro env_ok_effect env_ok_mono [OF that(1)]) auto
  have ends: "env_launch_ok sha ?tr' ?U' e1" "env_launch_ok sha ?tr' ?U' e2" using env_ok_launched [OF e(1) d(2)] e1 e2 by simp_all
  have "guarded ?tr'" using e(2) u by simp
  moreover have "env_id x = i \<and> env_launch_ok sha ?tr' ?U' x" if "map_of (put (env_id e) e1 (w_disk w)) i = Some x" for i x
    using that e(3) [of i x] ends(1) other [of x] e1(1) by (cases "i = env_id e") (simp_all add: map_of_put)
  moreover have "unprobed ?tr' i = None" if "map_of (put (env_id e) e1 (w_disk w)) i = None" for i
    using that e(4) [of i] by (simp add: map_of_put split: if_splits)
  moreover have "set (w_drawn w @ [inc]) = ?U'" by simp
  ultimately have "launches_ok sha w'" unfolding launches_ok_def assms(2,3) disk by presburger
  then show ?thesis using ends(2) other d(1) by (simp add: launch_ok_def assms(2,3))
next
  case False
  then show ?thesis by (simp add: launch_ok_def launches_ok_def)
qed

lemma launch_own:
  "micro sha lost p q \<Longrightarrow> launch_ok sha (fst p) (snd p) \<Longrightarrow> launches_ok sha (snd p) \<Longrightarrow>
     launch_ok sha (fst q) (snd q) \<and> launches_ok sha (snd q) \<and>
     (\<forall>x. launch_ok sha x (snd p) \<longrightarrow> env_id x \<noteq> env_id (fst p) \<longrightarrow> launch_ok sha x (snd q))"
proof (induction rule: micro.induct)
  case (save w e c)
  obtain ok w' where s: "save_env c e w = (ok, w')" by (metis prod.exhaust)
  then show ?case using launch_save [OF s] save(2,3) by simp
next
  case (edit e e' w)
  note k = edit_keeps [OF edit(1)]
  have "launch_ok sha e w" using edit(2) by simp
  then have "launch_ok sha e' w" by (rule launch_change) (simp_all add: k)
  then show ?case using edit(3) by simp
next
  case (hold e p w)
  have "launch_ok sha (e\<lparr>e_Phase := p\<rparr>) w" by (rule launch_change [of sha e]) (use hold(2,4) in auto)
  then show ?case using hold by simp
next
  case (run e w)
  have "launch_ok sha (e\<lparr>e_Phase := Running\<rparr>) w" by (rule launch_change [of sha e]) (use run in auto)
  then show ?case using run by simp
next
  case (lost e w)
  have "launch_ok sha (e\<lparr>e_Phase := ExecutionUnknown\<rparr>) w" by (rule launch_change [of sha e]) (use lost in auto)
  then show ?case using lost by simp
next
  case (stopped e w)
  have "launch_ok sha (e\<lparr>e_Phase := Stopped\<rparr>) (note_effect (StopObserved (env_id e) (env_inc e)) w)"
    using stopped(3) env_ok_stopped by (simp add: launch_ok_def drawn_apart_def)
  then show ?case using stopped(4) by (simp add: launch_effect)
next
  case (begin_action e j a w)
  have "launch_ok sha (set_action j a e) w" using begin_action by (intro launch_put [OF _ refl]) simp_all
  then show ?case using begin_action by simp
next
  case (update e j a a' w)
  have "launch_ok sha (set_action j a' e) w" using update(2,3,7) by (intro launch_put [OF _ refl]) simp_all
  then show ?case using update by simp
next
  case (begin_reconcile e j a req w)
  have "launch_ok sha (set_action j a e) w"
    using begin_reconcile(2,3,4,7)
    by (intro launch_put [OF _ refl]) (auto simp: reconciliation_ok_def reconciles_def env_launch_ok_def)
  then show ?case using begin_reconcile by simp
next
  case (observe e j a req a' w)
  have "launch_ok sha (set_action j a' e) w"
  proof (rule launch_put [OF _ refl])
    assume e: "env_launch_ok sha (w_trace w) (set (w_drawn w)) e"
    then have "reconciliation_ok sha (w_trace w) (set (w_drawn w)) e a"
      using observe(1,2) unfolding env_launch_ok_def reconciles_def by blast
    then show "reconciliation_ok sha (w_trace w) (set (w_drawn w)) e a'"
      using observe(2-4) by (auto simp: reconciliation_ok_def reconciles_def)
  qed (use observe in simp)
  then show ?case using observe by simp
next
  case (confirm e j a req a' w)
  then show ?case using launch_confirm [of sha e w a' req j] by simp
next
  case (draw e cfg w inc)
  let ?e = "e\<lparr>e_Spec := (e_Spec e)\<lparr>v_Incarnation := inc, v_HostConfig := cfg\<rparr>, e_HelperExit := None, e_Phase := Launching\<rparr>"
  let ?w = "w\<lparr>w_drawn := w_drawn w @ [inc]\<rparr>"
  have "launch_ok sha ?e ?w"
    unfolding launch_ok_def
  proof
    assume "drawn_apart sha ?w"
    then have d: "drawn_apart sha w" "inc \<notin> set (w_drawn w)" "distinguishes sha (set (w_drawn w))" using drawn_apart_snoc by blast+
    have e: "env_launch_ok sha (w_trace w) (set (w_drawn w)) e" using draw(3) d(1) by (simp add: launch_ok_def)
    show "env_launch_ok sha (w_trace ?w) (set (w_drawn ?w)) ?e"
      using env_ok_draw [OF e ready_unprobed [OF e d(3) draw(1)] d(2), of ?e] by simp
  qed
  then show ?case using draw(3,4) by (simp add: launch_drawn)
next
  case (launched e cfg e1 inc c w w1 g e2 w2)
  note l = launched_state [OF launched(3-5,2)]
  have e1: "env_id e1 = env_id e" "env_inc e1 = inc" "e_Phase e1 = Launching" "e_Actions e1 = e_Actions e" by (simp_all add: launched(3))
  show ?case
    using launch_launched [OF micro.launched [OF launched(1-6)], of inc "v_RequireRetainedDisk (e_Spec e2)" e1] l e1 launched(1,7,8) by simp
next
  case (retire e j a w c)
  let ?e = "(set_action j a e)\<lparr>e_Phase := Retired\<rparr>"
  have e: "launch_ok sha ?e w"
    by (rule launch_change [of sha e]) (use retire(1,3,5) in \<open>auto simp: map_of_put dormant_def split: if_splits\<close>)
  obtain ok w' where s: "save_env c ?e (store_env ?e w) = (ok, w')" by (metis prod.exhaust)
  show ?case using launch_save [OF s, of sha] e retire(6) s by (simp add: commit_env_def)
qed (simp_all add: launch_effect)

interpretation launching: env_invariant sha lost C "launch_ok sha" "launches_ok sha" for sha lost C
proof (unfold_locales, goal_cases)
  case (1 e w e' w')
  then show ?case using launch_own [OF 1(1)] by simp
next
  case (2 e w e' w' x)
  then show ?case using launch_own [OF 2(1)] by simp
next
  case (5 w e c ok w1 w')
  let ?w = "w\<lparr>w_drawn := w_drawn w @ [env_inc e]\<rparr>"
  have "launch_ok sha e ?w"
    unfolding launch_ok_def
  proof
    assume "drawn_apart sha ?w"
    then have "unprobed (w_trace w) (env_id e) = None" using drawn_apart_snoc [of sha w "env_inc e"] 5(1,3) by (simp add: launches_ok_def)
    moreover have "may_run (w_trace w) (env_id e) = None" using calculation may_run_unprobed by (metis option.exhaust)
    ultimately show "env_launch_ok sha (w_trace ?w) (set (w_drawn ?w)) e"
      using 5(4) by (auto simp: env_launch_ok_def just_created_def)
  qed
  moreover have "launches_ok sha ?w" using 5(1) by (rule launch_drawn)
  ultimately have "launches_ok sha w1 \<and> (\<forall>x. launch_ok sha x w1 = launch_ok sha x ?w)" "launch_ok sha e ?w" using launch_save [OF 5(5)] by blast+
  then show ?case using 5(6) launch_drawn(1) by simp
next
  case (8 w e)
  then show ?case by (simp add: launch_ok_def launches_ok_def)
qed simp_all

lemma new_host_launching: "launching.env_inv sha (new_host uid config)"
  by (simp add: launching.env_inv_def launches_ok_def new_host_def)

lemma all_ops_ok: "list_all (op_ok True (\<lambda>_. True)) ops"
  by (simp add: list_all_iff op_ok_any)

text \<open>
  C3. The host launches an environment's helper again only after a probe confirmed that nothing of
  the incarnation launched last executes or writes any more: in every run of requests, failed saves,
  lost helpers, crashes and reopenings of a new host, whenever a launch appears in the trace, no
  incarnation of that environment was launched before without such a confirmation since. The digest
  must be free of collisions, and the random identities distinct and well-formed.
\<close>

theorem relaunch_needs_proof:
  assumes "inj sha" and w: "w = fst (run (env_step sha) ops (new_host uid config))"
    and "distinct (w_drawn w)" and "\<forall>n \<in> set (w_drawn w). validID n" and "w_trace w = xs @ Launched i n b # ys"
  shows "unprobed xs i = None"
proof -
  have "distinguishes sha (set (w_drawn w))" using assms(1,4) by (intro distinguishes_inj) auto
  then have "drawn_apart sha w" using assms(3) by (simp add: drawn_apart_def)
  moreover have "launching.env_inv sha w"
    unfolding w using launching.run_keeps [OF new_host_ok new_host_launching all_ops_ok] by blast
  ultimately have "guarded (w_trace w)" by (simp add: launching.env_inv_def launches_ok_def)
  then show ?thesis using assms(5) unfolding guarded_def by blast
qed

theorem relaunch_needs_proof_witness:
  "w_trace demo_end = [Launched (lit ''e'') (lit ''a'') False, StopMarker (lit ''e'') (lit ''a''), StopObserved (lit ''e'') (lit ''a''),
     ProbeConfirmed (lit ''e'') (lit ''a'')] @ Launched (lit ''e'') (lit ''b'') True # [] \<and>
   unprobed [Launched (lit ''e'') (lit ''a'') False, StopMarker (lit ''e'') (lit ''a''), StopObserved (lit ''e'') (lit ''a''),
     ProbeConfirmed (lit ''e'') (lit ''a'')] (lit ''e'') = None"
proof -
  have "validID (lit ''created-0'')" "validID (lit ''a'')" "validID (lit ''b'')" by code_simp+
  then show ?thesis
    using relaunch_needs_proof [OF inj_on_id demo_end_def, of "[Launched (lit ''e'') (lit ''a'') False, StopMarker (lit ''e'') (lit ''a''),
      StopObserved (lit ''e'') (lit ''a''), ProbeConfirmed (lit ''e'') (lit ''a'')]" "lit ''e''" "lit ''b''" True "[]"] demo_runs(1,2) by simp
qed

subsection \<open>Operations\<close>

lemma recorded_memory: "begun_before k w \<Longrightarrow> map_of (w_envs w) i = Some e \<Longrightarrow> env_id e = i \<Longrightarrow> recorded_with k (e, w\<lparr>w_pending := ps\<rparr>)"
  by (auto simp: recorded_with_def) (auto simp: begun_before_def)

lemma recorded_down: "begun_before k w \<Longrightarrow> begun_before k (down w)" "begun_before k w \<Longrightarrow> begun_before k ((down w)\<lparr>w_config := c\<rparr>)"
  by (auto simp: begun_before_def down_def)

lemma recorded_wstep: "wstep sha lost C w w' \<Longrightarrow> (\<And>i e. map_of (w_envs w) i = Some e \<Longrightarrow> env_id e = i) \<Longrightarrow> begun_before k w \<Longrightarrow> begun_before k w'"
proof (induction rule: wstep.induct)
  case (work w i e ps e' w' ps')
  have "env_id e = i" using work(2,5) by blast
  then show ?case using micros_recorded [OF work(3) recorded_memory [OF work(6,2)]] by (simp add: recorded_with_def)
next
  case (made w e c ok w')
  have "fst k \<noteq> env_id e" using made(2,6) by (auto simp: begun_before_def)
  moreover have "begun_before k w'"
    using made(6) calculation recorded_save [of k "w\<lparr>w_drawn := w_drawn w @ [env_inc e]\<rparr>" e c] made(4) by simp
  ultimately show ?case using recorded_store [of k w' e] by simp
next
  case (loaded w i e e' w')
  have "recorded_with k (e, w)" using loaded(2,3,10) by (auto simp: recorded_with_def begun_before_def)
  then show ?case using micros_recorded [OF loaded(6)] by (simp add: recorded_with_def)
qed (auto intro: recorded_down)

lemma recorded_wsteps:
  "wsteps sha lost C w w' \<Longrightarrow> base.env_inv w \<Longrightarrow> begun_before k w \<Longrightarrow> begun_before k w'"
proof (induction rule: rtranclp_induct)
  case (step w1 w2)
  have "base.env_inv w1" using base.wsteps_keep [OF step(1,4)] .
  then show ?case using recorded_wstep [OF step(2)] step(3-5) by (auto simp: base.env_inv_def)
qed simp

interpretation operations: at_most_once "env_step sha" begun_before host_ok for sha
proof (unfold_locales, goal_cases)
  case (1 w x)
  then show ?case by (rule host_ok_step)
next
  case (2 w x k)
  then obtain i c req e r e' w' where x: "x = OpAct i c req" "free_env i w = Some e" "act sha c req e w = (r, e', w')" "k = (i, aq_OperationID req)"
    "(\<exists>p. r = ActWaits p) \<or> (\<exists>y. r = ActReturns y)"
    by (cases x) (auto split: option.splits prod.splits if_splits act_progress.splits)
  have "env_id e = i" using x(2) host_okD(3) [OF 2(1), of i e] by (auto simp: free_env_def split: if_splits)
  then have "recorded_with k (e', w')" using act_micros [OF x(3), of True] x(4,5) by auto
  then have "begun_before k (store_env e' w')" by (intro recorded_store) (auto simp: recorded_with_def)
  then show ?case using x by auto
next
  case (3 w k x)
  then show ?case
    using env_step_wsteps [OF 3(1) op_ok_any, of sha x] recorded_wsteps [of sha True "\<lambda>_. True" w] by (auto simp: host_ok_def)
next
  case (4 w k x)
  show ?case
  proof
    assume "snd (env_step sha x w) = Some k"
    then obtain i c req e r e' w' where x: "x = OpAct i c req" "free_env i w = Some e" "act sha c req e w = (r, e', w')" "k = (i, aq_OperationID req)"
      "(\<exists>p. r = ActWaits p) \<or> (\<exists>y. r = ActReturns y)"
      by (cases x) (auto split: option.splits prod.splits if_splits act_progress.splits)
    then have "map_of (e_Actions e) (aq_OperationID req) = None" using act_micros [OF x(3), of True] by auto
    then show False using 4(2) x(2,4) by (auto simp: begun_before_def free_env_def split: if_splits)
  qed
qed

text \<open>
  C6. A start, a stop or a replacement is begun at most once for an operation of an environment:
  in every run of a new host, with failed saves, waiting stops, crashes and reopenings, no
  environment and operation is granted its work twice. A repeated request is answered from the
  record or refused.
\<close>

theorem action_begun_at_most_once: "distinct (snd (run (env_step sha) ops (new_host uid config)))"
  by (rule operations.grants_distinct [OF new_host_ok])

end
