(* ===== verification/EnvLimits.thy ===== *)
theory EnvLimits
  imports EnvRuns
begin

text \<open>
  More of what holds of every run of the environment host: what an environment is made of stays, the
  machines that may run are within the owner's limit, a lease is open only while an environment is
  launching or running, and a disk is removed only when it is probed and for good. Each is an
  interpretation of the invariants of \<open>EnvWorld\<close>.
\<close>

subsection \<open>Identity\<close>

definition has_identity :: "(bytes \<Rightarrow> bytes list option) \<Rightarrow> environment \<Rightarrow> host_world \<Rightarrow> bool" where
  "has_identity I e w \<longleftrightarrow> (\<forall>v. I (env_id e) = Some v \<longrightarrow> identity_of e = v)"

definition identities_kept :: "(bytes \<Rightarrow> bytes list option) \<Rightarrow> host_world \<Rightarrow> bool" where
  "identities_kept I w \<longleftrightarrow> dom I \<subseteq> dom (map_of (w_disk w)) \<and> (\<forall>i d. map_of (w_disk w) i = Some d \<longrightarrow> env_id d = i \<and> has_identity I d w)"

lemma identities_fields [simp]:
  "has_identity I e (w\<lparr>w_pending := ps\<rparr>) = has_identity I e w" "identities_kept I (w\<lparr>w_pending := ps\<rparr>) = identities_kept I w"
  "has_identity I e (w\<lparr>w_up := u\<rparr>) = has_identity I e w" "identities_kept I (w\<lparr>w_up := u\<rparr>) = identities_kept I w"
  "identities_kept I (w\<lparr>w_config := c\<rparr>) = identities_kept I w" "identities_kept I (down w) = identities_kept I w"
  by (simp_all add: has_identity_def identities_kept_def down_def)

lemma save_disk: "w_disk (snd (save_env c e w)) = w_disk w \<or> (\<exists>d. identity_of d = identity_of e \<and> w_disk (snd (save_env c e w)) = put (env_id e) d (w_disk w))"
  using save_env_disk [of c e w] by metis

lemma micro_disk:
  "micro sha lost p q \<Longrightarrow> w_disk (snd q) = w_disk (snd p) \<or>
     (\<exists>d. identity_of d = identity_of (fst p) \<and> w_disk (snd q) = put (env_id (fst p)) d (w_disk (snd p)))"
proof (induction rule: micro.induct)
  case (save w e c)
  then show ?case using save_disk [of c e w] by simp
next
  case (launched e cfg e1 inc c w w1 g e2 w2)
  have "identity_of e1 = identity_of e" using launched(2) by (simp add: launched(3) identity_of_def)
  then show ?case using launched_state [OF launched(3-5,2)] by (simp, metis)
next
  case (retire e j a w c)
  let ?e = "(set_action j a e)\<lparr>e_Phase := Retired\<rparr>"
  have "identity_of ?e = identity_of e" "env_id ?e = env_id e" by (simp_all add: identity_of_def)
  then show ?case using save_disk [of c ?e "store_env ?e w"] by (simp add: commit_env_def)
qed simp_all

text \<open>The same, for one environment and with the keys.\<close>

lemma micro_disk_at:
  assumes "micro sha lost (e, w) (e', w')"
  shows "map_of (w_disk w') i = map_of (w_disk w) i \<or>
    (\<exists>d. map_of (w_disk w') i = Some d \<and> i = env_id e \<and> env_id d = env_id e \<and> identity_of d = identity_of e)"
    and "dom (map_of (w_disk w)) \<subseteq> dom (map_of (w_disk w'))"
    and "env_id e' = env_id e" "identity_of e' = identity_of e"
proof -
  show "env_id e' = env_id e" "identity_of e' = identity_of e" using micro_identity [OF assms] by (simp_all add: identity_of_def)
  from micro_disk [OF assms] consider "w_disk w' = w_disk w" | d where "identity_of d = identity_of e" "w_disk w' = put (env_id e) d (w_disk w)" by auto
  then show "dom (map_of (w_disk w)) \<subseteq> dom (map_of (w_disk w'))" by cases auto
  from micro_disk [OF assms] consider "w_disk w' = w_disk w" | d where "identity_of d = identity_of e" "w_disk w' = put (env_id e) d (w_disk w)" by auto
  then show "map_of (w_disk w') i = map_of (w_disk w) i \<or>
    (\<exists>d. map_of (w_disk w') i = Some d \<and> i = env_id e \<and> env_id d = env_id e \<and> identity_of d = identity_of e)"
  proof cases
    case 2
    have "env_id d = env_id e" using 2(1) by (simp add: identity_of_def)
    then show ?thesis using 2 by (simp add: map_of_put)
  qed simp
qed

interpretation identity: env_invariant sha lost C "has_identity I" "identities_kept I" for sha lost C I
proof (unfold_locales, goal_cases)
  case (1 e w e' w')
  note m = micro_disk_at [OF 1(1)]
  have "has_identity I e' w'" using 1(2) m(3,4) by (simp add: has_identity_def)
  moreover have "env_id d = i \<and> has_identity I d w'" if "map_of (w_disk w') i = Some d" for i d
    using m(1) [of i] 1(2,3) that by (auto simp: has_identity_def identities_kept_def)
  ultimately show ?case using subset_trans [OF _ m(2)] 1(3) unfolding identities_kept_def by simp
next
  case (5 w e c ok w1 w')
  have "I (env_id e) = None" using 5(1,3) by (auto simp: identities_kept_def)
  then show ?case
    using save_cases [OF 5(5)] 5(1,6) by (cases ok) (auto simp: identities_kept_def has_identity_def map_of_put split: if_splits)
next
  case (2 e w e' w' x)
  then show ?case by (simp add: has_identity_def)
next
  case (8 w e)
  show ?case using 8(1,3) unfolding identities_kept_def by blast
qed simp_all

text \<open>Memory and disk agree.\<close>

definition agrees_with_disk :: "environment \<Rightarrow> host_world \<Rightarrow> bool" where
  "agrees_with_disk e w \<longleftrightarrow> (\<forall>d. map_of (w_disk w) (env_id e) = Some d \<longrightarrow> identity_of d = identity_of e)"

definition disk_keyed :: "host_world \<Rightarrow> bool" where
  "disk_keyed w \<longleftrightarrow> (\<forall>i d. map_of (w_disk w) i = Some d \<longrightarrow> env_id d = i)"

lemma disk_keyed_fields [simp]:
  "disk_keyed (w\<lparr>w_pending := ps\<rparr>) = disk_keyed w" "disk_keyed (w\<lparr>w_up := u\<rparr>) = disk_keyed w" "disk_keyed (w\<lparr>w_config := c\<rparr>) = disk_keyed w"
  "disk_keyed (down w) = disk_keyed w"
  by (simp_all add: disk_keyed_def down_def)

interpretation agreeing: env_invariant sha lost C agrees_with_disk disk_keyed for sha lost C
proof (unfold_locales, goal_cases)
  case (1 e w e' w')
  note m = micro_disk_at [OF 1(1)]
  have "agrees_with_disk e' w'" using m(1) [of "env_id e"] m(3,4) 1(2) by (auto simp: agrees_with_disk_def)
  moreover have "env_id d = i" if "map_of (w_disk w') i = Some d" for i d using m(1) [of i] 1(3) that by (auto simp: disk_keyed_def)
  ultimately show ?case by (simp add: disk_keyed_def)
next
  case (2 e w e' w' x)
  then show ?case using micro_disk_at(1) [OF 2(1), of "env_id x"] by (auto simp: agrees_with_disk_def)
next
  case (5 w e c ok w1 w')
  then show ?case using save_cases [OF 5(5)] by (cases ok) (auto simp: agrees_with_disk_def disk_keyed_def map_of_put split: if_splits)
qed (simp_all add: agrees_with_disk_def)

lemma new_host_agreeing: "agreeing.env_inv (new_host uid config)"
  by (simp add: agreeing.env_inv_def disk_keyed_def new_host_def)

lemma run_append: "fst (run step (xs @ ys) s) = fst (run step ys (fst (run step xs s)))"
  by (induction xs arbitrary: s) (simp_all add: split_beta Let_def)

text \<open>
  C20. What an environment is made of never changes: its session, its directory and disk, the source
  revision and bundle, the base and the image that it has on disk at some point of a run it still
  has on disk after any more operations, whatever the owner's configuration says by then.
\<close>

theorem environment_identity_kept:
  assumes "map_of (w_disk (fst (run (env_step sha) ops (new_host uid config)))) i = Some e"
  shows "\<exists>e'. map_of (w_disk (fst (run (env_step sha) (ops @ later) (new_host uid config)))) i = Some e' \<and> identity_of e' = identity_of e"
proof -
  define w where "w = fst (run (env_step sha) ops (new_host uid config))"
  define I where "I = (\<lambda>j. if j = i then Some (identity_of e) else None)"
  have ok: "host_ok w" unfolding w_def by (rule operations.run_inv [OF new_host_ok])
  have d: "map_of (w_disk w) i = Some e" using assms by (simp add: w_def)
  have "agreeing.env_inv w" unfolding w_def using agreeing.run_keeps [OF new_host_ok new_host_agreeing all_ops_ok] by blast
  then have a: "\<And>j x. map_of (w_envs w) j = Some x \<Longrightarrow> env_id x = j \<and> agrees_with_disk x w" "\<And>j x. map_of (w_disk w) j = Some x \<Longrightarrow> env_id x = j"
    unfolding agreeing.env_inv_def disk_keyed_def by blast+
  have "identity.env_inv I w"
    using a d by (auto simp: identity.env_inv_def identities_kept_def has_identity_def I_def agrees_with_disk_def split: if_splits)
  then have "identities_kept I (fst (run (env_step sha) later w))"
    using identity.run_keeps [OF ok _ all_ops_ok] by (auto simp: identity.env_inv_def)
  then show ?thesis unfolding run_append w_def [symmetric]
    by (auto simp: identities_kept_def has_identity_def I_def dom_def split: if_splits)
qed

theorem environment_identity_kept_witness:
  "\<exists>e e'. map_of (w_disk (fst (run (env_step id) (take 2 demo_ops) (new_host 7 demo_config)))) (lit ''e'') = Some e \<and>
     map_of (w_disk (fst (run (env_step id) (take 2 demo_ops @ drop 2 demo_ops) (new_host 7 demo_config)))) (lit ''e'') = Some e' \<and> identity_of e' = identity_of e"
proof -
  have "map_of (w_disk (fst (run (env_step id) (take 2 demo_ops) (new_host 7 demo_config)))) (lit ''e'') = Some demo_made"
    by (simp add: demo_ops_def demo_step_1 demo_step_2 del: env_step.simps) (simp add: demo_at_def)
  with environment_identity_kept [OF this, of "drop 2 demo_ops"] show ?thesis by blast
qed

subsection \<open>Leases\<close>

definition lease_ok :: "environment \<Rightarrow> host_world \<Rightarrow> bool" where
  "lease_ok e w \<longleftrightarrow> (map_of (w_gates w) (env_id e) = Some True \<longrightarrow> e_Phase e \<in> {Launching, Running})"

definition leases_ok :: "host_world \<Rightarrow> bool" where
  "leases_ok w \<longleftrightarrow> (\<forall>i. map_of (w_gates w) i = Some True \<longrightarrow> i \<in> dom (map_of (w_envs w)))"

lemma lease_fields [simp]:
  "lease_ok e (w\<lparr>w_pending := ps\<rparr>) = lease_ok e w" "lease_ok e (w\<lparr>w_up := u\<rparr>) = lease_ok e w" "lease_ok e (w\<lparr>w_drawn := l\<rparr>) = lease_ok e w"
  "lease_ok e (note_effect x w) = lease_ok e w" "lease_ok e (store_env e' w) = lease_ok e w" "lease_ok e (w\<lparr>w_fatal := b\<rparr>) = lease_ok e w"
  "lease_ok e (w\<lparr>w_waiters := ws\<rparr>) = lease_ok e w" "lease_ok e (snd (save_env c e' w)) = lease_ok e w"
  by (simp_all add: lease_ok_def)

lemma leases_fields [simp]:
  "leases_ok (w\<lparr>w_pending := ps\<rparr>) = leases_ok w" "leases_ok (w\<lparr>w_up := u\<rparr>) = leases_ok w" "leases_ok (w\<lparr>w_drawn := l\<rparr>) = leases_ok w"
  "leases_ok (note_effect x w) = leases_ok w" "leases_ok (w\<lparr>w_fatal := b\<rparr>) = leases_ok w" "leases_ok (w\<lparr>w_waiters := ws\<rparr>) = leases_ok w"
  "leases_ok (snd (save_env c e' w)) = leases_ok w" "leases_ok (down w)" "leases_ok ((down w)\<lparr>w_config := k\<rparr>)"
  by (simp_all add: leases_ok_def down_def)








subsection \<open>The limit\<close>

text \<open>The environments with an incarnation that may run.\<close>

definition running :: "env_effect list \<Rightarrow> bytes set" where
  "running tr = {i. may_run tr i \<noteq> None}"

definition within_bound :: "int \<Rightarrow> env_effect list \<Rightarrow> bool" where
  "within_bound m tr \<longleftrightarrow> (\<forall>xs i n b ys. tr = xs @ Launched i n b # ys \<longrightarrow>
     finite (running (xs @ [Launched i n b])) \<and> int (card (running (xs @ [Launched i n b]))) \<le> m)"

lemma within_snoc:
  "within_bound m (tr @ [x]) \<longleftrightarrow> within_bound m tr \<and> (\<forall>i n b. x = Launched i n b \<longrightarrow> finite (running (tr @ [x])) \<and> int (card (running (tr @ [x]))) \<le> m)"
  unfolding within_bound_def by (auto simp: snoc_split eq_commute [of "tr @ [x]"])

text \<open>While the host is up it has every environment that may run, and none of these is dormant.\<close>

definition all_live :: "(bytes \<Rightarrow> bytes) \<Rightarrow> int \<Rightarrow> host_world \<Rightarrow> bool" where
  "all_live sha m w \<longleftrightarrow> (drawn_apart sha w \<longrightarrow> running (w_trace w) \<subseteq> dom (map_of (w_envs w))) \<and> distinct (map fst (w_envs w)) \<and> hc_MaxLive (w_config w) \<le> m \<and>
     (\<forall>j x. map_of (w_envs w) j = Some x \<longrightarrow> env_id x = j \<and> launch_ok sha x w)"

definition limit_ok :: "(bytes \<Rightarrow> bytes) \<Rightarrow> int \<Rightarrow> host_world \<Rightarrow> bool" where
  "limit_ok sha m w \<longleftrightarrow> (drawn_apart sha w \<longrightarrow> within_bound m (w_trace w)) \<and> all_live sha m w"

lemma live_set:
  assumes "distinct (map fst (w_envs w))"
  shows "card {i. \<exists>e. map_of (w_envs w) i = Some e \<and> \<not> dormant (e_Phase e)} = live_count w" (is "card ?L = _")
    and "finite {i. \<exists>e. map_of (w_envs w) i = Some e \<and> \<not> dormant (e_Phase e)}"
proof -
  have L: "?L = fst ` set (filter (\<lambda>(_, e). \<not> dormant (e_Phase e)) (w_envs w))"
    using assms by (force simp: map_of_eq_Some_iff image_iff)
  have d: "distinct (map fst (filter (\<lambda>(_, e). \<not> dormant (e_Phase e)) (w_envs w)))" using assms by (rule distinct_map_filter)
  show "card ?L = live_count w" unfolding L live_count_def using distinct_card [OF d] unfolding set_map length_map .
  show "finite ?L" unfolding L by simp
qed

lemma running_live:
  assumes "drawn_apart sha w" and "all_live sha m w"
  shows "running (w_trace w) \<subseteq> {i. \<exists>e. map_of (w_envs w) i = Some e \<and> \<not> dormant (e_Phase e)}"
proof
  fix i assume i: "i \<in> running (w_trace w)"
  then obtain e where e: "map_of (w_envs w) i = Some e" "env_id e = i" "env_launch_ok sha (w_trace w) (set (w_drawn w)) e"
    using assms unfolding all_live_def launch_ok_def by blast
  then have "\<not> dormant (e_Phase e)" using i by (auto simp: running_def env_launch_ok_def)
  then show "i \<in> {i. \<exists>e. map_of (w_envs w) i = Some e \<and> \<not> dormant (e_Phase e)}" using e by blast
qed

lemma running_effect: "(\<And>i n b. x \<noteq> Launched i n b) \<Longrightarrow> running (tr @ [x]) \<subseteq> running tr"
  by (cases x) (auto simp: running_def split: if_splits)

lemma limit_ok_effect:
  assumes "limit_ok sha m w" and "\<And>i n b. x \<noteq> Launched i n b"
  shows "limit_ok sha m (note_effect x w)"
proof -
  have d: "drawn_apart sha (note_effect x w) = drawn_apart sha w" by (simp add: drawn_apart_def)
  have "within_bound m (w_trace w @ [x]) = within_bound m (w_trace w)" using assms(2) by (simp add: within_snoc)
  moreover have "all_live sha m (note_effect x w)"
    unfolding all_live_def
  proof (intro conjI allI impI)
    assume "drawn_apart sha (note_effect x w)"
    then have "running (w_trace w) \<subseteq> dom (map_of (w_envs w))" using assms(1) d unfolding limit_ok_def all_live_def by simp
    then show "running (w_trace (note_effect x w)) \<subseteq> dom (map_of (w_envs (note_effect x w)))"
      using running_effect [of x "w_trace w", OF assms(2)] by simp
  next
    fix j y assume "map_of (w_envs (note_effect x w)) j = Some y"
    then have "env_id y = j" "launch_ok sha y w" using assms(1) unfolding limit_ok_def all_live_def by simp_all
    then show "env_id y = j" "launch_ok sha y (note_effect x w)" using launch_effect(1) [OF assms(2)] by blast+
  qed (use assms(1) in \<open>simp_all add: limit_ok_def all_live_def\<close>)
  ultimately show ?thesis using assms(1) d by (simp add: limit_ok_def)
qed

lemma limit_ok_fields [simp]:
  "limit_ok sha m (w\<lparr>w_fatal := b\<rparr>) = limit_ok sha m w" "limit_ok sha m (w\<lparr>w_gates := g\<rparr>) = limit_ok sha m w"
  "limit_ok sha m (w\<lparr>w_waiters := ws\<rparr>) = limit_ok sha m w" "limit_ok sha m (w\<lparr>w_pending := ps\<rparr>) = limit_ok sha m w"
  "limit_ok sha m (w\<lparr>w_up := u\<rparr>) = limit_ok sha m w" "limit_ok sha m (w\<lparr>w_disk := d\<rparr>) = limit_ok sha m w"
  by (simp_all add: limit_ok_def all_live_def drawn_apart_def)

lemma limit_ok_store: "limit_ok sha m w \<Longrightarrow> launch_ok sha e w \<Longrightarrow> limit_ok sha m (store_env e w)"
  by (auto simp: limit_ok_def all_live_def drawn_apart_def map_of_put put_distinct split: if_splits)

lemma limit_ok_drawn: "limit_ok sha m w \<Longrightarrow> limit_ok sha m (w\<lparr>w_drawn := w_drawn w @ l\<rparr>)"
  using drawn_apart_more [of sha w l] launch_drawn(1) by (auto simp: limit_ok_def all_live_def)

lemma limit_ok_save: "limit_ok sha m w \<Longrightarrow> limit_ok sha m (snd (save_env c e w))"
  by (simp add: save_env_def split: save_outcome.split)

lemma launch_frame: "w_trace w' = w_trace w \<Longrightarrow> w_drawn w' = w_drawn w \<Longrightarrow> launch_ok sha e w' = launch_ok sha e w"
  by (simp add: launch_ok_def drawn_apart_def)

lemma limit_launched:
  assumes "all_live sha m w'" and t: "w_trace w' = tr @ [x]" and "drawn_apart sha w' \<Longrightarrow> within_bound m tr"
    and live: "int (live_count w') \<le> hc_MaxLive (w_config w')"
  shows "limit_ok sha m w'"
proof -
  have "within_bound m (w_trace w')" if d: "drawn_apart sha w'"
  proof -
    have dist: "distinct (map fst (w_envs w'))" and max: "hc_MaxLive (w_config w') \<le> m" using assms(1) by (simp_all add: all_live_def)
    have "card (running (w_trace w')) \<le> live_count w'"
      using card_mono [OF live_set(2) [OF dist] running_live [OF d assms(1)]] live_set(1) [OF dist] by simp
    moreover have "finite (running (w_trace w'))" using finite_subset [OF running_live [OF d assms(1)] live_set(2) [OF dist]] .
    ultimately show ?thesis using assms(3) [OF d] live max by (auto simp: t within_snoc)
  qed
  then show ?thesis using assms(1) by (simp add: limit_ok_def)
qed

lemma limit_own:
  "micro sha lost p q \<Longrightarrow> launch_ok sha (fst p) (snd p) \<Longrightarrow> launches_ok sha (snd p) \<Longrightarrow> limit_ok sha m (snd p) \<Longrightarrow> limit_ok sha m (snd q)"
proof (induction rule: micro.induct)
  case (launched e cfg e1 inc c w w1 g e2 w2)
  note l = launched_state [OF launched(3-5,2)]
  define w' where "w' = note_effect (Launched (env_id e2) (env_inc e2) (v_RequireRetainedDisk (e_Spec e2))) (store_env e2 w2)"
  have m: "micro sha lost (e, w) (e2, w')" unfolding w'_def using micro.launched [OF launched(1-6)] .
  have own: "launch_ok sha e2 w'" "\<And>x. launch_ok sha x w \<Longrightarrow> env_id x \<noteq> env_id e \<Longrightarrow> launch_ok sha x w'"
    using launch_own [OF m] launched(7,8) by auto
  have old: "drawn_apart sha w \<Longrightarrow> running (w_trace w) \<subseteq> dom (map_of (w_envs w))" "distinct (map fst (w_envs w))" "hc_MaxLive (w_config w) \<le> m"
    "\<And>j x. map_of (w_envs w) j = Some x \<Longrightarrow> env_id x = j \<and> launch_ok sha x w" "drawn_apart sha w \<Longrightarrow> within_bound m (w_trace w)"
    using launched(9) by (auto simp: limit_ok_def all_live_def)
  have w': "w_trace w' = w_trace w @ [Launched (env_id e) inc (v_RequireRetainedDisk (e_Spec e2))]" "w_envs w' = put (env_id e) e2 (w_envs w)"
    "w_config w' = w_config w" "w_drawn w' = w_drawn w @ [inc]" using l by (simp_all add: w'_def)
  have less: "drawn_apart sha w" if "drawn_apart sha w'"
    by (rule drawn_apart_more [of sha w "[inc]"]) (use that in \<open>simp add: drawn_apart_def w'(4)\<close>)
  have "running (w_trace w') \<subseteq> insert (env_id e) (running (w_trace w))" by (auto simp: w'(1) running_def split: if_splits)
  moreover have "env_id x = j \<and> launch_ok sha x w'" if "map_of (w_envs w') j = Some x" for j x
    using that old(4) [of j x] own l by (cases "j = env_id e") (simp_all add: w'(2) map_of_put)
  moreover have "running (w_trace w') \<subseteq> dom (map_of (w_envs w'))" if "drawn_apart sha w'"
    using calculation(1) old(1) [OF less [OF that]] unfolding w'(2) dom_put by blast
  moreover have "distinct (map fst (w_envs w'))" unfolding w'(2) using old(2) by (rule put_distinct)
  ultimately have "all_live sha m w'" using old(3) unfolding all_live_def w'(3) by blast
  moreover have "within_bound m (w_trace w)" if "drawn_apart sha w'" using old(5) [OF less [OF that]] .
  moreover have "int (live_count w') \<le> hc_MaxLive (w_config w')" using launched(6) l by (simp add: w'_def live_count_def)
  ultimately show ?case using limit_launched [OF _ w'(1)] by (simp add: w'_def)
next
  case (retire e j a w c)
  let ?e = "(set_action j a e)\<lparr>e_Phase := Retired\<rparr>"
  have m: "micro sha lost (e, w) (?e, snd (commit_env c ?e w))" using retire(1-4) by (rule micro.retire)
  have "launch_ok sha ?e (snd (commit_env c ?e w))" using launch_own [OF m] retire(5,6) by simp
  then have "launch_ok sha ?e w" by (subst (asm) launch_frame [of _ w]) (simp_all add: commit_env_def)
  then show ?case using retire(7) by (simp add: commit_env_def limit_ok_save limit_ok_store)
qed (simp_all add: limit_ok_store limit_ok_save limit_ok_drawn limit_ok_effect)

lemma limit_micros:
  "micros sha lost p q \<Longrightarrow> launch_ok sha (fst p) (snd p) \<Longrightarrow> launches_ok sha (snd p) \<Longrightarrow> limit_ok sha m (snd p) \<Longrightarrow>
     launch_ok sha (fst q) (snd q) \<and> launches_ok sha (snd q) \<and> limit_ok sha m (snd q)"
proof (induction rule: rtranclp_induct)
  case (step q r)
  then show ?case using launch_own [OF step(2)] limit_own [OF step(2)] by blast
qed simp

lemma micros_drawn: "micros sha lost p q \<Longrightarrow> \<exists>l. w_drawn (snd q) = w_drawn (snd p) @ l"
proof (induction rule: rtranclp_induct)
  case (step q r)
  have "\<exists>l. w_drawn (snd r) = w_drawn (snd q) @ l" using step(2)
  proof (induction rule: micro.induct)
    case (launched e cfg e1 inc c w w1 g e2 w2)
    then show ?case using launched_state [OF launched(3-5,2)] by simp
  qed (simp_all add: commit_env_def)
  then show ?case using step(3) by force
qed simp

definition within_limit :: "(bytes \<Rightarrow> bytes) \<Rightarrow> int \<Rightarrow> host_world \<Rightarrow> bool" where
  "within_limit sha m w \<longleftrightarrow> (drawn_apart sha w \<longrightarrow> within_bound m (w_trace w)) \<and> hc_MaxLive (w_config w) \<le> m \<and>
     (w_up w \<and> drawn_apart sha w \<longrightarrow> running (w_trace w) \<subseteq> dom (map_of (w_envs w)))"

lemma launches_unprobed: "launches_ok sha w \<Longrightarrow> drawn_apart sha w \<Longrightarrow> map_of (w_disk w) i = None \<Longrightarrow> unprobed (w_trace w) i = None"
  by (simp add: launches_ok_def)

lemma within_limit_wstep:
  "wstep sha lost (\<lambda>c. hc_MaxLive c \<le> m) w w' \<Longrightarrow> launching.env_inv sha w \<Longrightarrow> base.env_inv w \<Longrightarrow> within_limit sha m w \<Longrightarrow> within_limit sha m w'"
proof (induction rule: wstep.induct)
  case (work w i e ps e' w' ps')
  have "stored_ok w" using work(6) unfolding base.env_inv_def by blast
  then have "distinct (map fst (w_envs w))" by (simp add: stored_ok_def)
  then have lim: "limit_ok sha m w"
    using work(1,5,7) unfolding limit_ok_def all_live_def within_limit_def launching.env_inv_def by blast
  have "launch_ok sha e w" "launches_ok sha w" using work(2,5) unfolding launching.env_inv_def by blast+
  then have "limit_ok sha m w'" using limit_micros [OF work(3), of m] lim by simp
  then show ?case by (simp add: within_limit_def limit_ok_def all_live_def drawn_apart_def)
next
  case (made w e c ok w')
  let ?w = "w\<lparr>w_drawn := w_drawn w @ [env_inc e]\<rparr>"
  have s: "w_trace w' = w_trace w" "w_config w' = w_config w" "w_up w' = w_up w" "w_envs w' = w_envs w" "w_drawn w' = w_drawn ?w"
    using save_env_frame [of c e ?w] made(4) by simp_all
  have "drawn_apart sha w" if "drawn_apart sha w'"
    by (rule drawn_apart_more [of sha w "[env_inc e]"]) (use that s(5) in \<open>simp add: drawn_apart_def\<close>)
  moreover have "drawn_apart sha (store_env e w') = drawn_apart sha w'" by (simp add: drawn_apart_def)
  ultimately show ?case using made(7) s(1-4) unfolding within_limit_def by (cases ok) auto
next
  case (ended w)
  then show ?case by (simp add: within_limit_def down_def drawn_apart_def)
next
  case (configured c w)
  then show ?case by (simp add: within_limit_def down_def drawn_apart_def)
next
  case (loaded w i e e' w')
  obtain l where l: "w_drawn w' = w_drawn w @ l" using micros_drawn [OF loaded(6)] by auto
  have "drawn_apart sha w" if "drawn_apart sha w'"
    by (rule drawn_apart_more [of sha w l]) (use that l in \<open>simp add: drawn_apart_def\<close>)
  then show ?case using loaded(1,8,11) micros_frame [OF loaded(6)] by (simp add: within_limit_def)
next
  case (opened w)
  have "i \<in> dom (map_of (w_disk w))" if "drawn_apart sha w" "i \<in> running (w_trace w)" for i
  proof -
    have "unprobed (w_trace w) i \<noteq> None" using that(2) may_run_unprobed by (force simp: running_def)
    moreover have "launches_ok sha w" using opened(3) unfolding launching.env_inv_def by blast
    ultimately have "map_of (w_disk w) i \<noteq> None" using launches_unprobed [of sha w i] that(1) by (cases "map_of (w_disk w) i") auto
    then show ?thesis by blast
  qed
  then have "drawn_apart sha w \<longrightarrow> running (w_trace w) \<subseteq> dom (map_of (w_envs w))" using opened(2) by blast
  then show ?case using opened(5) by (simp add: within_limit_def drawn_apart_def)
qed

lemma within_limit_run:
  "host_ok w \<Longrightarrow> launching.env_inv sha w \<Longrightarrow> within_limit sha m w \<Longrightarrow> list_all (op_ok True (\<lambda>c. hc_MaxLive c \<le> m)) ops \<Longrightarrow>
     within_limit sha m (fst (run (env_step sha) ops w))"
proof (induction ops arbitrary: w)
  case (Cons x ops)
  let ?C = "\<lambda>c. hc_MaxLive c \<le> m"
  have s: "wsteps sha True ?C w (fst (env_step sha x w))" using env_step_wsteps [OF Cons(2), of True ?C x sha] Cons(5) by simp
  have "base.env_inv w" using Cons(2) by (simp add: host_ok_def)
  with s Cons(3,4) have "launching.env_inv sha (fst (env_step sha x w)) \<and> base.env_inv (fst (env_step sha x w)) \<and> within_limit sha m (fst (env_step sha x w))"
  proof (induction rule: rtranclp_induct)
    case (step w1 w2)
    then show ?case using launching.wstep_keeps [OF step(2)] base.wstep_keeps [OF step(2)] within_limit_wstep [OF step(2)] by blast
  qed simp
  then show ?case using Cons(1) [OF host_ok_step [OF Cons(2)]] Cons(5) by (simp add: split_beta Let_def)
qed simp

text \<open>
  C8. The machines that may run stay within the owner's limit: when every configuration the host is
  opened with allows at most m live environments, then after each launch at most m environments have
  an incarnation that was launched and neither observed to stop nor confirmed gone by a probe. This
  holds across failed saves, lost helpers, crashes and reopenings.
\<close>

theorem live_environments_within_limit:
  assumes "inj sha" and w: "w = fst (run (env_step sha) ops (new_host uid config))"
    and "distinct (w_drawn w)" and "\<forall>n \<in> set (w_drawn w). validID n"
    and "list_all (op_ok True (\<lambda>c. hc_MaxLive c \<le> m)) ops" and "hc_MaxLive config \<le> m"
    and "w_trace w = xs @ Launched i n b # ys"
  shows "int (card (running (xs @ [Launched i n b]))) \<le> m"
proof -
  have "distinguishes sha (set (w_drawn w))" using assms(1,4) by (intro distinguishes_inj) auto
  then have d: "drawn_apart sha w" using assms(3) by (simp add: drawn_apart_def)
  have "within_limit sha m (new_host uid config)" using assms(6) by (simp add: within_limit_def new_host_def within_bound_def)
  then have "within_limit sha m w" unfolding w using within_limit_run [OF new_host_ok new_host_launching _ assms(5)] by blast
  then have "within_bound m (w_trace w)" using d by (simp add: within_limit_def)
  then show ?thesis using assms(7) unfolding within_bound_def by blast
qed

theorem live_environments_within_limit_witness:
  "int (card (running [Launched (lit ''e'') (lit ''a'') False, StopMarker (lit ''e'') (lit ''a''), StopObserved (lit ''e'') (lit ''a''),
     ProbeConfirmed (lit ''e'') (lit ''a''), Launched (lit ''e'') (lit ''b'') True])) \<le> 1"
proof -
  have v: "validID (lit ''created-0'')" "validID (lit ''a'')" "validID (lit ''b'')" by code_simp+
  have "list_all (op_ok True (\<lambda>c. hc_MaxLive c \<le> 1)) demo_ops" by (simp add: demo_ops_def op_ok_def)
  then show ?thesis
    using live_environments_within_limit [OF inj_on_id demo_end_def, of 1 "[Launched (lit ''e'') (lit ''a'') False, StopMarker (lit ''e'') (lit ''a''),
      StopObserved (lit ''e'') (lit ''a''), ProbeConfirmed (lit ''e'') (lit ''a'')]" "lit ''e''" "lit ''b''" True "[]"] demo_runs(1,2) v by simp
qed

subsection \<open>Disks\<close>

definition removed_in :: "env_effect list \<Rightarrow> bytes \<Rightarrow> bool" where
  "removed_in tr i \<longleftrightarrow> (\<exists>dev ino. DiskRemoved i dev ino \<in> set tr)"

definition removals_ok :: "env_effect list \<Rightarrow> bool" where
  "removals_ok tr \<longleftrightarrow> (\<forall>xs i dev ino ys. tr = xs @ DiskRemoved i dev ino # ys \<longrightarrow>
     may_run xs i = None \<and> (\<exists>n. DiskProbed i n dev ino \<in> set xs) \<and> (\<forall>n b. Launched i n b \<notin> set ys))"

lemma removed_in_snoc [simp]: "removed_in (tr @ [x]) i \<longleftrightarrow> removed_in tr i \<or> (\<exists>dev ino. x = DiskRemoved i dev ino)"
  by (auto simp: removed_in_def)


definition disk_ok :: "environment \<Rightarrow> host_world \<Rightarrow> bool" where
  "disk_ok e w \<longleftrightarrow> (removed_in (w_trace w) (env_id e) \<longrightarrow> e_Phase e = Retired)"

definition disks_ok :: "(bytes \<Rightarrow> bytes) \<Rightarrow> host_world \<Rightarrow> bool" where
  "disks_ok sha w \<longleftrightarrow> (drawn_apart sha w \<longrightarrow> removals_ok (w_trace w)) \<and>
     (\<forall>i. removed_in (w_trace w) i \<longrightarrow> (\<exists>d. map_of (w_disk w) i = Some d \<and> e_Phase d = Retired)) \<and>
     (\<forall>i d. map_of (w_disk w) i = Some d \<longrightarrow> env_id d = i)"

lemma disk_fields [simp]:
  "disk_ok e (w\<lparr>w_pending := ps\<rparr>) = disk_ok e w" "disk_ok e (w\<lparr>w_up := u\<rparr>) = disk_ok e w" "disk_ok e (w\<lparr>w_drawn := l\<rparr>) = disk_ok e w"
  "disk_ok e (store_env e' w) = disk_ok e w" "disk_ok e (w\<lparr>w_fatal := b\<rparr>) = disk_ok e w" "disk_ok e (w\<lparr>w_gates := g\<rparr>) = disk_ok e w"
  "disk_ok e (w\<lparr>w_waiters := ws\<rparr>) = disk_ok e w" "disk_ok e (snd (save_env c e' w)) = disk_ok e w" "disk_ok e (w\<lparr>w_disk := m\<rparr>) = disk_ok e w"
  by (simp_all add: disk_ok_def)

lemma disks_fields [simp]:
  "disks_ok sha (w\<lparr>w_pending := ps\<rparr>) = disks_ok sha w" "disks_ok sha (w\<lparr>w_up := u\<rparr>) = disks_ok sha w"
  "disks_ok sha (store_env e' w) = disks_ok sha w" "disks_ok sha (w\<lparr>w_fatal := b\<rparr>) = disks_ok sha w" "disks_ok sha (w\<lparr>w_gates := g\<rparr>) = disks_ok sha w"
  "disks_ok sha (w\<lparr>w_waiters := ws\<rparr>) = disks_ok sha w" "disks_ok sha (down w) = disks_ok sha w" "disks_ok sha (w\<lparr>w_config := k\<rparr>) = disks_ok sha w"
  by (simp_all add: disks_ok_def drawn_apart_def down_def)












subsection \<open>A stop before the first start\<close>







end
