(* ===== verification/SeatRing.thy ===== *)
theory SeatRing
  imports HistoryRing
begin

text \<open>
  The retained output of a session, the type \<open>ring\<close> of \<open>internal/seatterm/host.go\<close>: a buffer of
  \<open>RetainBytes\<close> bytes written around its end. It is shown to hold the last bytes of all that was
  written.
\<close>

subsection \<open>The ring\<close>

definition RetainBytes :: nat where
  "RetainBytes = 1048576"

record out_ring =
  r_buf :: "bytes option"  \<comment> \<open>None until the first write\<close>
  r_start :: nat
  r_n :: nat

definition new_ring :: out_ring where
  "new_ring = \<lparr>r_buf = None, r_start = 0, r_n = 0\<rparr>"

text \<open>Go's \<open>copy\<close>: as many elements as the shorter slice has.\<close>

definition go_copy :: "'a list \<Rightarrow> 'a list \<Rightarrow> 'a list" where
  "go_copy dst src = take (length dst) src @ drop (length src) dst"

definition ring_buf :: "out_ring \<Rightarrow> bytes" where
  "ring_buf r = (case r_buf r of None \<Rightarrow> replicate RetainBytes 0 | Some b \<Rightarrow> b)"

text \<open>\<open>write\<close>: the ring, and how many of the oldest bytes it dropped.\<close>

definition ring_write :: "out_ring \<Rightarrow> bytes \<Rightarrow> out_ring \<times> nat" where
  "ring_write r b =
     (let buf = ring_buf r; c = length buf in
      if c \<le> length b
      then (\<lparr>r_buf = Some (go_copy buf (drop (length b - c) b)), r_start = 0, r_n = c\<rparr>, r_n r + length b - c)
      else let e = (r_start r + r_n r) mod c;
               k = min (c - e) (length b);
               buf = go_copy (take e buf @ go_copy (drop e buf) b) (drop k b);
               n = r_n r + length b
           in if c < n then (\<lparr>r_buf = Some buf, r_start = (r_start r + (n - c)) mod c, r_n = c\<rparr>, n - c)
              else (\<lparr>r_buf = Some buf, r_start = r_start r, r_n = n\<rparr>, 0))"

definition ring_bytes :: "out_ring \<Rightarrow> bytes" where
  "ring_bytes r =
     (if r_n r = 0 then []
      else let buf = ring_buf r;
               out = take (min (r_start r + r_n r) (length buf) - r_start r) (drop (r_start r) buf)
           in out @ take (r_n r - length out) buf)"

definition ring_ok :: "out_ring \<Rightarrow> bool" where
  "ring_ok r \<longleftrightarrow> length (ring_buf r) = RetainBytes \<and> r_start r < RetainBytes \<and> r_n r \<le> RetainBytes"

lemma new_ring_ok [simp]: "ring_ok new_ring" "ring_bytes new_ring = []"
  by (simp_all add: ring_ok_def new_ring_def ring_buf_def ring_bytes_def RetainBytes_def)

lemma length_go_copy [simp]: "length (go_copy d s) = length d"
  by (simp add: go_copy_def)

lemma go_copy_nth: "i < length d \<Longrightarrow> go_copy d s ! i = (if i < length s then s ! i else d ! i)"
  by (auto simp: go_copy_def nth_append)

subsection \<open>What it holds\<close>

lemma length_ring_bytes: "ring_ok r \<Longrightarrow> length (ring_bytes r) = r_n r"
  by (auto simp: ring_ok_def ring_bytes_def Let_def min_def)

lemma mod_wrap: "i < c \<Longrightarrow> s < c \<Longrightarrow> (s + i) mod c = (if s + i < c then s + i else s + i - c)" for s i c :: nat
  by (simp add: mod_if)

lemma ring_bytes_nth:
  assumes "ring_ok r" and "i < r_n r"
  shows "ring_bytes r ! i = ring_buf r ! ((r_start r + i) mod RetainBytes)"
  using assms mod_wrap [of i RetainBytes "r_start r"]
  by (auto simp: ring_ok_def ring_bytes_def Let_def nth_append min_def add.commute)

text \<open>A shorter write goes around the end of the buffer.\<close>

lemma wrapped_nth:
  assumes "e < c" and "length buf = c" and "length b < c" and "i < c"
  shows "go_copy (take e buf @ go_copy (drop e buf) b) (drop (min (c - e) (length b)) b) ! ((e + i) mod c) =
    (if i < length b then b ! i else buf ! ((e + i) mod c))"
  using assms mod_wrap [of i c e] by (auto simp: go_copy_nth nth_append min_def)

lemma ring_write_ok:
  assumes "ring_ok r" and "ring_write r b = (r', d)"
  shows "ring_ok r' \<and> ring_bytes r' = take_last RetainBytes (ring_bytes r @ b) \<and> d = r_n r + length b - RetainBytes"
proof -
  let ?c = RetainBytes
  have c: "0 < ?c" "length (ring_buf r) = ?c" "r_start r < ?c" "r_n r \<le> ?c" using assms(1) by (auto simp: ring_ok_def RetainBytes_def)
  show ?thesis
  proof (cases "?c \<le> length b")
    case True
    then have r': "r' = \<lparr>r_buf = Some (drop (length b - ?c) b), r_start = 0, r_n = ?c\<rparr>" "d = r_n r + length b - ?c"
      using assms(2) c by (auto simp: ring_write_def Let_def go_copy_def)
    show ?thesis using True c length_ring_bytes [OF assms(1)]
      by (auto simp: r' ring_ok_def ring_buf_def ring_bytes_def take_last_def)
  next
    case False
    define e where "e = (r_start r + r_n r) mod ?c"
    define buf where "buf = go_copy (take e (ring_buf r) @ go_copy (drop e (ring_buf r)) b) (drop (min (?c - e) (length b)) b)"
    define n where "n = r_n r + length b"
    have e: "e < ?c" using c(1) by (simp add: e_def)
    have r': "r' = \<lparr>r_buf = Some buf, r_start = (if ?c < n then (r_start r + (n - ?c)) mod ?c else r_start r), r_n = min n ?c\<rparr>" "d = n - ?c"
      using assms(2) c False by (auto simp: ring_write_def Let_def e_def buf_def n_def split: if_splits)
    have ok: "ring_ok r'" using c e by (auto simp: r' ring_ok_def ring_buf_def buf_def)
    have new: "buf ! ((r_start r + j) mod ?c) = (ring_bytes r @ b) ! j" if j: "n - ?c \<le> j" "j < n" for j
    proof (cases "j < r_n r")
      case True
      define i where "i = (?c + j - r_n r)"
      have i: "i < ?c" "length b \<le> i" using True j c False by (auto simp: i_def n_def)
      have "(e + i) mod ?c = (r_start r + r_n r + i) mod ?c" by (simp add: e_def mod_add_left_eq)
      also have "r_start r + r_n r + i = r_start r + j + ?c" using True c by (simp add: i_def)
      finally have "(e + i) mod ?c = (r_start r + j) mod ?c" by simp
      then show ?thesis using wrapped_nth [OF e c(2) _ i(1), of b] False i True ring_bytes_nth [OF assms(1) True] length_ring_bytes [OF assms(1)]
        by (simp add: buf_def nth_append)
    next
      case False': False
      define i where "i = j - r_n r"
      have i: "i < length b" using j False' by (simp add: i_def n_def)
      have "(e + i) mod ?c = (r_start r + r_n r + i) mod ?c" by (simp add: e_def mod_add_left_eq)
      then have "(e + i) mod ?c = (r_start r + j) mod ?c" using False' by (simp add: i_def)
      then show ?thesis using wrapped_nth [OF e c(2), of b i] False i False' length_ring_bytes [OF assms(1)]
        by (simp add: buf_def nth_append i_def)
    qed
    have "ring_bytes r' = take_last ?c (ring_bytes r @ b)"
    proof (rule nth_equalityI)
      show len: "length (ring_bytes r') = length (take_last ?c (ring_bytes r @ b))"
        using length_ring_bytes [OF ok] length_ring_bytes [OF assms(1)] by (auto simp: r' n_def min_def)
      fix i assume "i < length (ring_bytes r')"
      then have i: "i < min n ?c" using length_ring_bytes [OF ok] by (simp add: r')
      have "ring_bytes r' ! i = buf ! ((r_start r' + i) mod ?c)" using ring_bytes_nth [OF ok] i by (simp add: r' ring_buf_def)
      also have "(r_start r' + i) mod ?c = (r_start r + (n - ?c + i)) mod ?c"
        by (simp add: r' mod_add_left_eq add.assoc)
      also have "buf ! \<dots> = (ring_bytes r @ b) ! (n - ?c + i)" using i by (intro new) auto
      finally show "ring_bytes r' ! i = take_last ?c (ring_bytes r @ b) ! i"
        using i length_ring_bytes [OF assms(1)] by (simp add: take_last_def n_def del: drop_append)
    qed
    then show ?thesis using ok r'(2) by (simp add: n_def)
  qed
qed

end
