(* ===== verification/SeatHost.thy ===== *)
theory SeatHost
  imports SeatRing TermSafety Frame "HOL-Library.List_Lexorder"
begin

text \<open>
  A terminal session of \<open>internal/seatterm/host.go\<close>: one program on a PTY the host owns, any number
  of clients that view it and at most one that controls it. Each function is what the code does
  under the session's lock, up to where it releases it. The journal of audit records, the process
  and its PTY are outside: whether a record could be written and what a write did are arguments.
  A client is a number; a channel is the list of what it holds. A \<open>None\<close> is a panic of Go. Offsets
  and epochs, 64-bit counters of bytes and grants, are natural numbers.
\<close>

subsection \<open>Data\<close>

abbreviation MaxViewers :: nat where "MaxViewers \<equiv> 8"
abbreviation viewerQueue :: nat where "viewerQueue \<equiv> 256"
abbreviation inputQueue :: nat where "inputQueue \<equiv> 64"
abbreviation HistoryLines :: int where "HistoryLines \<equiv> 2000"

datatype ctl_error = ErrNotController | ErrControlled | ErrInputBusy | ErrSessionExited | ErrTooMany | ErrFenceUncertain | ErrAudit
  | ErrOperationConflict | ErrTerminateUncertain | ErrCreating | ErrEpochStale | BadSpec | NoSession | BadInput | BadSize | UnknownAgentState

record outcomes =
  o_Written :: nat
  o_Partial :: nat
  o_Failed :: nat
  o_Refused :: nat

record client =
  cl_Principal :: bytes
  cl_hidden :: bool
  cl_events :: "(nat \<times> bytes) list"  \<comment> \<open>output with its offset\<close>
  cl_signal :: bool
  cl_behind :: bool
  cl_gapAt :: nat
  cl_closed :: bool
  cl_gone :: bool
  cl_epoch :: nat
  cl_outcomes :: outcomes

record pending_write =
  pw_from :: nat
  pw_epoch :: nat
  pw_data :: "bytes option"  \<comment> \<open>None: a resize\<close>
  pw_cols :: "16 word"
  pw_rows :: "16 word"

record agent_status =
  ag_State :: bytes
  ag_Detail :: bytes
  ag_Seen :: bytes
  ag_Seq :: nat
  ag_StateSeq :: nat
  ag_Accepted :: bytes

record term_session =
  ts_ID :: bytes
  ts_log :: out_ring
  ts_term :: terminal
  ts_base :: nat
  ts_end :: nat
  ts_exited :: bool
  ts_exitCode :: int
  ts_lastOutput :: bytes
  ts_cols :: "16 word"
  ts_rows :: "16 word"
  ts_clients :: "(nat \<times> client) list"  \<comment> \<open>every client that ever attached\<close>
  ts_viewers :: "nat list"
  ts_controller :: "nat option"
  ts_epoch :: nat
  ts_inflight :: nat  \<comment> \<open>the epoch of the write at the PTY, or 0\<close>
  ts_writes :: "pending_write list"
  ts_agent :: agent_status

definition no_outcomes :: outcomes where
  "no_outcomes = \<lparr>o_Written = 0, o_Partial = 0, o_Failed = 0, o_Refused = 0\<rparr>"

text \<open>The session \<open>startSession\<close> makes once the program runs.\<close>

definition new_session :: "bytes \<Rightarrow> 16 word \<Rightarrow> 16 word \<Rightarrow> term_session" where
  "new_session i cols rows = \<lparr>ts_ID = i, ts_log = new_ring, ts_term = New (uint cols) (uint rows) HistoryLines, ts_base = 0, ts_end = 0,
     ts_exited = False, ts_exitCode = 0, ts_lastOutput = [], ts_cols = cols, ts_rows = rows, ts_clients = [], ts_viewers = [],
     ts_controller = None, ts_epoch = 0, ts_inflight = 0, ts_writes = [],
     ts_agent = \<lparr>ag_State = lit ''unknown'', ag_Detail = [], ag_Seen = [], ag_Seq = 0, ag_StateSeq = 0, ag_Accepted = []\<rparr>\<rparr>"

definition set_client :: "nat \<Rightarrow> client \<Rightarrow> term_session \<Rightarrow> term_session" where
  "set_client i c s = s\<lparr>ts_clients := put i c (ts_clients s)\<rparr>"

text \<open>A notice that is already waiting is not repeated.\<close>

definition notify :: "client \<Rightarrow> client" where
  "notify c = c\<lparr>cl_signal := True\<rparr>"

definition closeEventsLocked :: "client \<Rightarrow> client" where
  "closeEventsLocked c = c\<lparr>cl_closed := True\<rparr>"

definition each_viewer :: "(client \<Rightarrow> client) \<Rightarrow> term_session \<Rightarrow> term_session" where
  "each_viewer f s = s\<lparr>ts_clients := map (\<lambda>(i, c). (i, if i \<in> set (ts_viewers s) then f c else c)) (ts_clients s)\<rparr>"

subsection \<open>Output\<close>

definition deliver :: "nat \<Rightarrow> bytes \<Rightarrow> client \<Rightarrow> client" where
  "deliver off b c =
     (if cl_behind c then c
      else if length (cl_events c) < viewerQueue then c\<lparr>cl_events := cl_events c @ [(off, b)]\<rparr>
      else notify (c\<lparr>cl_behind := True, cl_gapAt := off\<rparr>))"

text \<open>A send on a closed channel panics, also one that would not wait.\<close>

definition sends_closed :: "term_session \<Rightarrow> bool" where
  "sends_closed s \<longleftrightarrow> list_ex (\<lambda>(i, c). i \<in> set (ts_viewers s) \<and> \<not> cl_behind c \<and> cl_closed c) (ts_clients s)"

definition session_output :: "(int \<Rightarrow> bool) \<Rightarrow> bytes \<Rightarrow> bytes \<Rightarrow> term_session \<Rightarrow> term_session option" where
  "session_output mark now b s =
     do {
       let off = ts_end s;
       let (log, dropped) = ring_write (ts_log s) b;
       (t, _) \<leftarrow> Feed mark b (ts_term s);
       let s = s\<lparr>ts_log := log, ts_base := ts_base s + dropped, ts_end := ts_end s + length b, ts_lastOutput := now,
                 ts_term := snd (Replies t)\<rparr>;
       if sends_closed s then None else Some (each_viewer (deliver off b) s)
     }"

text \<open>What \<open>pump\<close> does once the program is reaped and its output drained.\<close>

definition exit_session :: "int \<Rightarrow> term_session \<Rightarrow> term_session" where
  "exit_session code s = each_viewer (\<lambda>c. closeEventsLocked (notify c)) (s\<lparr>ts_exited := True, ts_exitCode := code, ts_epoch := ts_epoch s + 1\<rparr>)"

subsection \<open>Snapshots and clients\<close>

record snapshot_cut =
  sn_From :: nat
  sn_To :: nat
  sn_Complete :: bool
  sn_Cols :: "16 word"
  sn_Rows :: "16 word"
  sn_Data :: bytes
  sn_Screen :: bytes
  sn_ScreenExact :: bool
  sn_ScreenLimited :: bool

definition snapshotLocked :: "term_session \<Rightarrow> (snapshot_cut \<times> term_session) option" where
  "snapshotLocked s =
     do {
       let retained = ring_bytes (ts_log s);
       (t, screen) \<leftarrow> Snapshot (ts_term s);
       (held, ok) \<leftarrow> Held t;
       let (held, ok) = (if int (length retained) < held then (0, False) else (held, ok));
       tail \<leftarrow> slice retained (int (length retained) - held) (int (length retained));
       Some (\<lparr>sn_From = ts_base s, sn_To = ts_end s, sn_Complete = (ts_base s = 0), sn_Cols = ts_cols s, sn_Rows = ts_rows s,
               sn_Data = retained, sn_Screen = screen @ tail, sn_ScreenExact = ok, sn_ScreenLimited = (\<not> t_exact t)\<rparr>,
             s\<lparr>ts_term := t\<rparr>)
     }"

definition visible :: "term_session \<Rightarrow> nat list" where
  "visible s = filter (\<lambda>i. case map_of (ts_clients s) i of None \<Rightarrow> False | Some c \<Rightarrow> \<not> cl_hidden c) (ts_viewers s)"

definition new_client :: "bytes \<Rightarrow> bool \<Rightarrow> bool \<Rightarrow> client" where
  "new_client who hidden closed = \<lparr>cl_Principal = who, cl_hidden = hidden, cl_events = [], cl_signal = False, cl_behind = False,
     cl_gapAt = 0, cl_closed = closed, cl_gone = False, cl_epoch = 0, cl_outcomes = no_outcomes\<rparr>"

text \<open>\<open>audit\<close> tells whether the intent could be journaled; a hidden client's is not.\<close>

definition attach :: "bytes \<Rightarrow> bool \<Rightarrow> bool \<Rightarrow> term_session \<Rightarrow> ((ctl_error + nat \<times> snapshot_cut) \<times> term_session) option" where
  "attach who hidden audit s =
     (if \<not> hidden \<and> \<not> audit then Some (Inl ErrAudit, s)
      else if \<not> hidden \<and> MaxViewers \<le> length (visible s) then Some (Inl ErrTooMany, s)
      else do {
        let i = length (ts_clients s);
        let s = (if hidden then s else each_viewer notify s);
        let s = s\<lparr>ts_clients := ts_clients s @ [(i, new_client who hidden (ts_exited s))], ts_viewers := ts_viewers s @ [i]\<rparr>;
        (snap, s) \<leftarrow> snapshotLocked s;
        Some (Inr (i, snap), s)
      })"

text \<open>What is queued is discarded; a closed channel is drained as well.\<close>

definition Resnapshot :: "nat \<Rightarrow> term_session \<Rightarrow> (snapshot_cut \<times> term_session) option" where
  "Resnapshot i s =
     (case map_of (ts_clients s) i of
        None \<Rightarrow> snapshotLocked s
      | Some c \<Rightarrow> snapshotLocked (set_client i (c\<lparr>cl_events := [], cl_behind := False\<rparr>) s))"

subsection \<open>Control\<close>

datatype grant_result = Granted nat | AlreadyControls nat | ControlRefused ctl_error | Fencing nat

text \<open>\<open>waitFenceLocked\<close> returns when no write of the old epoch or an earlier one is at the PTY.\<close>

definition fence_free :: "nat \<Rightarrow> term_session \<Rightarrow> bool" where
  "fence_free old s \<longleftrightarrow> ts_inflight s = 0 \<or> old < ts_inflight s"

text \<open>The rest of \<open>control\<close>, after the wait.\<close>

definition control_finish :: "nat \<Rightarrow> term_session \<Rightarrow> grant_result \<times> term_session" where
  "control_finish i s =
     (case map_of (ts_clients s) i of
        None \<Rightarrow> (ControlRefused ErrNotController, s)
      | Some c \<Rightarrow>
          if ts_controller s \<noteq> None \<or> ts_exited s \<or> cl_gone c then (ControlRefused ErrControlled, s)
          else let e = ts_epoch s + 1;
                   s = set_client i (c\<lparr>cl_epoch := e\<rparr>) (s\<lparr>ts_epoch := e, ts_controller := Some i\<rparr>)
               in (Granted e, each_viewer notify s))"

definition revoke_controller :: "term_session \<Rightarrow> term_session" where
  "revoke_controller s =
     (case ts_controller s of
        None \<Rightarrow> s
      | Some p \<Rightarrow>
          let s = s\<lparr>ts_controller := None\<rparr> in
          (case map_of (ts_clients s) p of None \<Rightarrow> s | Some c \<Rightarrow> set_client p (notify (c\<lparr>cl_epoch := 0\<rparr>)) s))"

definition seat_control :: "nat \<Rightarrow> bool \<Rightarrow> nat option \<Rightarrow> term_session \<Rightarrow> grant_result \<times> term_session" where
  "seat_control i take_it expect s =
     (case map_of (ts_clients s) i of
        None \<Rightarrow> (ControlRefused ErrNotController, s)
      | Some c \<Rightarrow>
          if cl_gone c then (ControlRefused ErrNotController, s)
          else if ts_exited s then (ControlRefused ErrSessionExited, s)
          else if (case expect of None \<Rightarrow> False | Some e \<Rightarrow> ts_epoch s \<noteq> e) then (ControlRefused ErrEpochStale, s)
          else if ts_controller s = Some i then (AlreadyControls (ts_epoch s), s)
          else if ts_controller s \<noteq> None \<and> \<not> take_it then (ControlRefused ErrControlled, s)
          else let old = ts_epoch s;
                   s = revoke_controller (s\<lparr>ts_epoch := ts_epoch s + 1\<rparr>)
               in if fence_free old s then control_finish i s else (Fencing old, s))"

definition queue :: "nat \<Rightarrow> pending_write \<Rightarrow> term_session \<Rightarrow> ctl_error option \<times> term_session" where
  "queue i w s =
     (case map_of (ts_clients s) i of
        None \<Rightarrow> (Some ErrNotController, s)
      | Some c \<Rightarrow>
          if cl_gone c \<or> ts_controller s \<noteq> Some i \<or> cl_epoch c \<noteq> ts_epoch s then (Some ErrNotController, s)
          else if ts_exited s then (Some ErrSessionExited, s)
          else if length (ts_writes s) < inputQueue
          then (None, s\<lparr>ts_writes := ts_writes s @ [w\<lparr>pw_epoch := cl_epoch c, pw_from := i\<rparr>]\<rparr>)
          else (Some ErrInputBusy, s))"

definition Input :: "nat \<Rightarrow> bytes \<Rightarrow> term_session \<Rightarrow> ctl_error option \<times> term_session" where
  "Input i b s =
     (if b = [] \<or> MaxData < length b then (Some BadInput, s)
      else queue i \<lparr>pw_from = i, pw_epoch = 0, pw_data = Some b, pw_cols = 0, pw_rows = 0\<rparr> s)"

definition client_Resize :: "nat \<Rightarrow> 16 word \<Rightarrow> 16 word \<Rightarrow> term_session \<Rightarrow> ctl_error option \<times> term_session" where
  "client_Resize i cols rows s =
     (if cols < 1 \<or> MaxCols < cols \<or> rows < 1 \<or> MaxRows < rows then (Some BadSize, s)
      else queue i \<lparr>pw_from = i, pw_epoch = 0, pw_data = None, pw_cols = cols, pw_rows = rows\<rparr> s)"

subsection \<open>The writer\<close>

definition count_outcome :: "nat \<Rightarrow> (outcomes \<Rightarrow> outcomes) \<Rightarrow> term_session \<Rightarrow> term_session" where
  "count_outcome i f s =
     (case map_of (ts_clients s) i of None \<Rightarrow> s | Some c \<Rightarrow> set_client i (c\<lparr>cl_outcomes := f (cl_outcomes c)\<rparr>) s)"

text \<open>The next write of the queue, checked at the moment it is made: what goes to the PTY, if anything.\<close>

definition writer_takes :: "term_session \<Rightarrow> pending_write option \<times> term_session" where
  "writer_takes s =
     (case ts_writes s of
        [] \<Rightarrow> (None, s)
      | w # ws \<Rightarrow>
          let s = s\<lparr>ts_writes := ws\<rparr> in
          if pw_epoch w = ts_epoch s \<and> ts_controller s \<noteq> None \<and> \<not> ts_exited s then (Some w, s\<lparr>ts_inflight := pw_epoch w\<rparr>)
          else (None, count_outcome (pw_from w) (\<lambda>c. c\<lparr>o_Refused := o_Refused c + 1\<rparr>) s))"

text \<open>A window size that was applied.\<close>

definition writer_sized :: "pending_write \<Rightarrow> term_session \<Rightarrow> term_session option" where
  "writer_sized w s =
     do {
       t \<leftarrow> Terminal.Resize (uint (pw_cols w)) (uint (pw_rows w)) (ts_term s);
       Some (each_viewer notify (s\<lparr>ts_cols := pw_cols w, ts_rows := pw_rows w, ts_term := t\<rparr>))
     }"

text \<open>The end of a write: \<open>n\<close> bytes were taken, and whether without an error.\<close>

definition writer_ends :: "pending_write \<Rightarrow> nat \<Rightarrow> bool \<Rightarrow> term_session \<Rightarrow> term_session" where
  "writer_ends w n ok s =
     (count_outcome (pw_from w)
        (\<lambda>c. if ok then c\<lparr>o_Written := o_Written c + 1\<rparr>
             else if 0 < n then c\<lparr>o_Partial := o_Partial c + 1\<rparr> else c\<lparr>o_Failed := o_Failed c + 1\<rparr>) s)\<lparr>ts_inflight := 0\<rparr>"

subsection \<open>Giving up control\<close>

definition releaseLocked :: "nat \<Rightarrow> term_session \<Rightarrow> bool \<times> term_session" where
  "releaseLocked i s =
     (if ts_controller s \<noteq> Some i then (False, s)
      else let s = s\<lparr>ts_epoch := ts_epoch s + 1, ts_controller := None\<rparr>;
               s = (case map_of (ts_clients s) i of None \<Rightarrow> s | Some c \<Rightarrow> set_client i (c\<lparr>cl_epoch := 0\<rparr>) s)
           in (True, each_viewer notify s))"

definition Release :: "nat \<Rightarrow> term_session \<Rightarrow> term_session" where
  "Release i s = snd (releaseLocked i s)"

definition Detach :: "nat \<Rightarrow> term_session \<Rightarrow> term_session" where
  "Detach i s =
     (let s = snd (releaseLocked i s) in
      case map_of (ts_clients s) i of
        None \<Rightarrow> s
      | Some c \<Rightarrow>
          if cl_gone c then s
          else each_viewer notify ((set_client i (closeEventsLocked (c\<lparr>cl_gone := True\<rparr>)) s)\<lparr>ts_viewers := removeAll i (ts_viewers s)\<rparr>))"

subsection \<open>The adapter's reports\<close>

text \<open>\<open>printable\<close> stands for \<open>unicode.IsPrint\<close>.\<close>

definition boundReason :: "(int \<Rightarrow> bool) \<Rightarrow> bytes \<Rightarrow> bytes" where
  "boundReason printable r = concat (map encode_rune (take 200 (filter printable (runes r))))"

definition ReportAgent :: "(int \<Rightarrow> bool) \<Rightarrow> bytes \<Rightarrow> bytes \<Rightarrow> bytes \<Rightarrow> bytes \<Rightarrow> term_session \<Rightarrow> (ctl_error + nat) \<times> term_session" where
  "ReportAgent printable now state detail accepted s =
     (if state \<noteq> [] \<and> state \<notin> {lit ''running'', lit ''waiting-input'', lit ''permission'', lit ''idle''} then (Inl UnknownAgentState, s)
      else let a = ts_agent s;
               a = (if state \<noteq> [] then a\<lparr>ag_State := state, ag_StateSeq := ag_Seq a + 1\<rparr> else a);
               a = (if accepted \<noteq> [] then a\<lparr>ag_Accepted := boundReason printable accepted\<rparr> else a);
               a = a\<lparr>ag_Detail := boundReason printable detail, ag_Seq := ag_Seq a + 1, ag_Seen := now\<rparr>
           in (Inr (ag_StateSeq a), each_viewer notify (s\<lparr>ts_agent := a\<rparr>)))"

definition ResetAgentUnknown :: "bytes \<Rightarrow> nat \<Rightarrow> term_session \<Rightarrow> term_session" where
  "ResetAgentUnknown now ifStateSeq s =
     (let a = ts_agent s in
      if ag_State a = lit ''unknown'' \<or> ag_StateSeq a \<noteq> ifStateSeq then s
      else each_viewer notify (s\<lparr>ts_agent := a\<lparr>ag_State := lit ''unknown'', ag_Detail := [], ag_StateSeq := ag_Seq a + 1,
             ag_Seq := ag_Seq a + 1, ag_Seen := now\<rparr>\<rparr>))"

subsection \<open>Views\<close>

definition Controls :: "nat \<Rightarrow> term_session \<Rightarrow> bool" where
  "Controls i s \<longleftrightarrow> ts_controller s = Some i \<and> (case map_of (ts_clients s) i of None \<Rightarrow> False | Some c \<Rightarrow> cl_epoch c = ts_epoch s)"

definition principal_of :: "term_session \<Rightarrow> nat \<Rightarrow> bytes" where
  "principal_of s i = (case map_of (ts_clients s) i of None \<Rightarrow> [] | Some c \<Rightarrow> cl_Principal c)"

definition client_Presence :: "nat \<Rightarrow> term_session \<Rightarrow> PresenceMsg" where
  "client_Presence i s = \<lparr>pm_Session = ts_ID s, pm_Viewers = Some (sort (map (principal_of s) (visible s))),
     pm_Controller = (case ts_controller s of None \<Rightarrow> [] | Some p \<Rightarrow> principal_of s p), pm_Epoch = of_nat (ts_epoch s),
     pm_You = (if Controls i s then lit ''controller'' else lit ''viewer'')\<rparr>"

definition Scrollback :: "int \<Rightarrow> term_session \<Rightarrow> (bytes list \<times> bool) option" where
  "Scrollback n s =
     do {
       all \<leftarrow> HistoryText (ts_term s);
       if n \<le> 0 \<or> int (length all) \<le> n then Some (all, False)
       else do { last_lines \<leftarrow> slice all (int (length all) - n) (int (length all)); Some (last_lines, True) }
     }"

end
