(* ===== verification/SeatSteps.thy ===== *)
theory SeatSteps
  imports SeatHost
begin

text \<open>
  The session of \<open>SeatHost\<close> as goroutines run it: the program's output and exit, requests of
  clients, control requests that wait for a write to end, and the writer, one step at a time and
  in any order. The system remembers what was written to the PTY and granted, all output, and
  what each client has been given.
\<close>

subsection \<open>The system\<close>

datatype seat_event = EvGrant nat nat | EvWriteStart nat nat | EvWriteEnd  \<comment> \<open>a client and its epoch\<close>

record seat_sys =
  q_s :: term_session
  q_writing :: "(pending_write \<times> bool option) option"  \<comment> \<open>the write at the PTY, and how a resize went\<close>
  q_waits :: "(nat \<times> nat) list"  \<comment> \<open>requests waiting for the fence: client and old epoch\<close>
  q_trace :: "seat_event list"
  q_stream :: bytes
  q_seen :: "(nat \<times> nat \<times> bytes) list"  \<comment> \<open>where a client's bytes start, and the bytes\<close>

datatype seat_op =
    OpOutput bytes bytes | OpExit int | OpAttach bytes bool bool | OpResnapshot nat | OpReceive nat
  | OpControl nat bool "nat option" bool | OpFenced nat | OpFenceTimeout nat
  | OpInput nat bytes | OpResize nat "16 word" "16 word"
  | OpWriterTakes | OpWriterSized bool | OpWriterEnds nat bool
  | OpRelease nat | OpDetach nat | OpReport bytes bytes bytes bytes | OpReset bytes nat

definition drop_at :: "nat \<Rightarrow> 'a list \<Rightarrow> 'a list" where
  "drop_at k xs = take k xs @ drop (Suc k) xs"

text \<open>What a control request, or its end, leaves.\<close>

definition controlled :: "nat \<Rightarrow> grant_result \<times> term_session \<Rightarrow> seat_sys \<Rightarrow> seat_sys" where
  "controlled i r z =
     (let z = z\<lparr>q_s := snd r\<rparr> in
      case fst r of
        Granted e \<Rightarrow> z\<lparr>q_trace := q_trace z @ [EvGrant i e]\<rparr>
      | Fencing old \<Rightarrow> z\<lparr>q_waits := q_waits z @ [(i, old)]\<rparr>
      | _ \<Rightarrow> z)"

fun seat_step :: "(int \<Rightarrow> bool) \<Rightarrow> (int \<Rightarrow> bool) \<Rightarrow> seat_op \<Rightarrow> seat_sys \<Rightarrow> seat_sys option" where
  "seat_step mark pr (OpOutput now b) z =
     (if ts_exited (q_s z) then Some z
      else do { s \<leftarrow> session_output mark now b (q_s z); Some (z\<lparr>q_s := s, q_stream := q_stream z @ b\<rparr>) })"
| "seat_step mark pr (OpExit code) z = Some (if ts_exited (q_s z) then z else z\<lparr>q_s := exit_session code (q_s z)\<rparr>)"
| "seat_step mark pr (OpAttach who hidden audit) z =
     do {
       (r, s) \<leftarrow> attach who hidden audit (q_s z);
       Some (case r of Inl _ \<Rightarrow> z\<lparr>q_s := s\<rparr> | Inr (i, n) \<Rightarrow> z\<lparr>q_s := s, q_seen := put i (sn_From n, sn_Data n) (q_seen z)\<rparr>)
     }"
| "seat_step mark pr (OpResnapshot i) z =
     (case map_of (ts_clients (q_s z)) i of
        None \<Rightarrow> Some z
      | Some c \<Rightarrow> do { (n, s) \<leftarrow> Resnapshot i (q_s z); Some (z\<lparr>q_s := s, q_seen := put i (sn_From n, sn_Data n) (q_seen z)\<rparr>) })"
| "seat_step mark pr (OpReceive i) z =
     Some (case (map_of (ts_clients (q_s z)) i, map_of (q_seen z) i) of
        (Some c, Some (from, data)) \<Rightarrow>
          (case cl_events c of
             [] \<Rightarrow> z
           | (off, b) # es \<Rightarrow> z\<lparr>q_s := set_client i (c\<lparr>cl_events := es\<rparr>) (q_s z), q_seen := put i (from, data @ b) (q_seen z)\<rparr>)
      | _ \<Rightarrow> z)"
| "seat_step mark pr (OpControl i take_it expect audit) z = Some (if audit then controlled i (seat_control i take_it expect (q_s z)) z else z)"
| "seat_step mark pr (OpFenced k) z =
     Some (if k < length (q_waits z) \<and> fence_free (snd (q_waits z ! k)) (q_s z)
           then let i = fst (q_waits z ! k) in controlled i (control_finish i (q_s z)) (z\<lparr>q_waits := drop_at k (q_waits z)\<rparr>) else z)"
| "seat_step mark pr (OpFenceTimeout k) z =
     Some (if k < length (q_waits z) \<and> \<not> fence_free (snd (q_waits z ! k)) (q_s z) then z\<lparr>q_waits := drop_at k (q_waits z)\<rparr> else z)"
| "seat_step mark pr (OpInput i b) z = Some (z\<lparr>q_s := snd (Input i b (q_s z))\<rparr>)"
| "seat_step mark pr (OpResize i cols rows) z = Some (z\<lparr>q_s := snd (client_Resize i cols rows (q_s z))\<rparr>)"
| "seat_step mark pr OpWriterTakes z =
     Some (if q_writing z \<noteq> None then z
           else case writer_takes (q_s z) of
             (None, s) \<Rightarrow> z\<lparr>q_s := s\<rparr>
           | (Some w, s) \<Rightarrow> z\<lparr>q_s := s, q_writing := Some (w, None), q_trace := q_trace z @ [EvWriteStart (pw_from w) (pw_epoch w)]\<rparr>)"
| "seat_step mark pr (OpWriterSized ok) z =
     (case q_writing z of
        Some (w, None) \<Rightarrow>
          if pw_data w \<noteq> None then Some z
          else if \<not> ok then Some (z\<lparr>q_writing := Some (w, Some False)\<rparr>)
          else do { s \<leftarrow> writer_sized w (q_s z); Some (z\<lparr>q_s := s, q_writing := Some (w, Some True)\<rparr>) }
      | _ \<Rightarrow> Some z)"
| "seat_step mark pr (OpWriterEnds n ok) z =
     Some (case q_writing z of
        None \<Rightarrow> z
      | Some (w, r) \<Rightarrow>
          let fin = (\<lambda>n ok. z\<lparr>q_s := writer_ends w n ok (q_s z), q_writing := None, q_trace := q_trace z @ [EvWriteEnd]\<rparr>)
          in if pw_data w \<noteq> None then fin n ok else (case r of None \<Rightarrow> z | Some ok \<Rightarrow> fin 0 ok))"
| "seat_step mark pr (OpRelease i) z = Some (z\<lparr>q_s := Release i (q_s z)\<rparr>)"
| "seat_step mark pr (OpDetach i) z = Some (z\<lparr>q_s := Detach i (q_s z)\<rparr>)"
| "seat_step mark pr (OpReport now state detail accepted) z = Some (z\<lparr>q_s := snd (ReportAgent pr now state detail accepted (q_s z))\<rparr>)"
| "seat_step mark pr (OpReset now n) z = Some (z\<lparr>q_s := ResetAgentUnknown now n (q_s z)\<rparr>)"

definition new_seat :: "bytes \<Rightarrow> 16 word \<Rightarrow> 16 word \<Rightarrow> seat_sys" where
  "new_seat i cols rows = \<lparr>q_s = new_session i cols rows, q_writing = None, q_waits = [], q_trace = [], q_stream = [], q_seen = []\<rparr>"

text \<open>Any operations in any order; None when one of them panics.\<close>

definition seat_run :: "(int \<Rightarrow> bool) \<Rightarrow> (int \<Rightarrow> bool) \<Rightarrow> seat_op list \<Rightarrow> seat_sys \<Rightarrow> seat_sys option" where
  "seat_run mark pr ops z = fold_opt (seat_step mark pr) ops z"

subsection \<open>What the small operations leave alone\<close>

lemma each_viewer_fields [simp]:
  "ts_log (each_viewer f s) = ts_log s" "ts_term (each_viewer f s) = ts_term s" "ts_base (each_viewer f s) = ts_base s"
  "ts_end (each_viewer f s) = ts_end s" "ts_exited (each_viewer f s) = ts_exited s" "ts_viewers (each_viewer f s) = ts_viewers s"
  "ts_controller (each_viewer f s) = ts_controller s" "ts_epoch (each_viewer f s) = ts_epoch s" "ts_inflight (each_viewer f s) = ts_inflight s"
  "ts_writes (each_viewer f s) = ts_writes s" "length (ts_clients (each_viewer f s)) = length (ts_clients s)"
  "map fst (ts_clients (each_viewer f s)) = map fst (ts_clients s)"
  by (simp_all add: each_viewer_def split_beta comp_def)

lemma each_viewer_client [simp]:
  "map_of (ts_clients (each_viewer f s)) i = map_option (\<lambda>c. if i \<in> set (ts_viewers s) then f c else c) (map_of (ts_clients s) i)"
  by (simp add: each_viewer_def map_of_map_snd)

lemma set_client_fields [simp]:
  "ts_log (set_client i c s) = ts_log s" "ts_term (set_client i c s) = ts_term s" "ts_base (set_client i c s) = ts_base s"
  "ts_end (set_client i c s) = ts_end s" "ts_exited (set_client i c s) = ts_exited s" "ts_viewers (set_client i c s) = ts_viewers s"
  "ts_controller (set_client i c s) = ts_controller s" "ts_epoch (set_client i c s) = ts_epoch s" "ts_inflight (set_client i c s) = ts_inflight s"
  "ts_writes (set_client i c s) = ts_writes s"
  "map_of (ts_clients (set_client i c s)) j = (if j = i then Some c else map_of (ts_clients s) j)"
  by (simp_all add: set_client_def map_of_put)

lemma set_client_keys [simp]: "map_of (ts_clients s) i \<noteq> None \<Longrightarrow> map fst (ts_clients (set_client i c s)) = map fst (ts_clients s)"
  by (simp add: set_client_def put_keys)

lemma notify_fields [simp]:
  "cl_events (notify c) = cl_events c" "cl_behind (notify c) = cl_behind c" "cl_gapAt (notify c) = cl_gapAt c"
  "cl_closed (notify c) = cl_closed c" "cl_gone (notify c) = cl_gone c" "cl_epoch (notify c) = cl_epoch c" "cl_hidden (notify c) = cl_hidden c"
  by (simp_all add: notify_def)

lemma deliver_fields [simp]:
  "cl_closed (deliver off b c) = cl_closed c" "cl_gone (deliver off b c) = cl_gone c" "cl_epoch (deliver off b c) = cl_epoch c"
  "cl_hidden (deliver off b c) = cl_hidden c"
  by (simp_all add: deliver_def)

lemma close_fields [simp]:
  "cl_events (closeEventsLocked c) = cl_events c" "cl_behind (closeEventsLocked c) = cl_behind c" "cl_gapAt (closeEventsLocked c) = cl_gapAt c"
  "cl_closed (closeEventsLocked c)" "cl_gone (closeEventsLocked c) = cl_gone c" "cl_epoch (closeEventsLocked c) = cl_epoch c"
  "cl_hidden (closeEventsLocked c) = cl_hidden c"
  by (simp_all add: closeEventsLocked_def)

end
