(* ===== verification/SeatRuns.thy ===== *)
theory SeatRuns
  imports SeatSteps
begin

text \<open>
  What holds of a terminal session however its goroutines interleave: it never panics, a client is
  given exactly the program's output, and a write reaches the PTY only under the grant that is
  current when it is made.
\<close>

subsection \<open>Operations that leave output and clients alone\<close>

definition view_of :: "client \<Rightarrow> (nat \<times> bytes) list \<times> bool \<times> nat \<times> bool \<times> bool \<times> bool" where
  "view_of c = (cl_events c, cl_behind c, cl_gapAt c, cl_closed c, cl_gone c, cl_hidden c)"

definition frame_of where
  "frame_of s = (ts_log s, ts_base s, ts_end s, ts_exited s, ts_viewers s, map (\<lambda>(i, c). (i, view_of c)) (ts_clients s))"

lemma view_of_simps [simp]:
  "view_of (notify c) = view_of c" "view_of (c\<lparr>cl_epoch := e\<rparr>) = view_of c" "view_of (c\<lparr>cl_outcomes := x\<rparr>) = view_of c"
  by (simp_all add: view_of_def)

lemma frame_of_update [simp]:
  "frame_of (s\<lparr>ts_epoch := e\<rparr>) = frame_of s" "frame_of (s\<lparr>ts_controller := ct\<rparr>) = frame_of s" "frame_of (s\<lparr>ts_writes := ws\<rparr>) = frame_of s"
  "frame_of (s\<lparr>ts_inflight := n\<rparr>) = frame_of s" "frame_of (s\<lparr>ts_agent := a\<rparr>) = frame_of s" "frame_of (s\<lparr>ts_term := t\<rparr>) = frame_of s"
  "frame_of (s\<lparr>ts_cols := x\<rparr>) = frame_of s" "frame_of (s\<lparr>ts_rows := y\<rparr>) = frame_of s"
  by (simp_all add: frame_of_def)

lemma frame_of_notify [simp]: "frame_of (each_viewer notify s) = frame_of s"
  by (auto simp: frame_of_def each_viewer_def)

lemma map_put_same: "map_of m i = Some c \<Longrightarrow> f d = f c \<Longrightarrow> map (\<lambda>(i, c). (i, f c)) (put i d m) = map (\<lambda>(i, c). (i, f c)) m"
  by (induction m) (auto split: if_splits)

lemma frame_of_set [simp]: "map_of (ts_clients s) i = Some c \<Longrightarrow> view_of d = view_of c \<Longrightarrow> frame_of (set_client i d s) = frame_of s"
  by (auto simp: frame_of_def map_put_same set_client_def)

lemma frame_of_count [simp]: "frame_of (count_outcome i f s) = frame_of s"
  by (auto simp: count_outcome_def split: option.split)

lemma frame_of_revoke [simp]: "frame_of (revoke_controller s) = frame_of s"
  by (auto simp: revoke_controller_def Let_def split: option.split)

lemma frame_of_finish [simp]: "frame_of (snd (control_finish i s)) = frame_of s"
  by (auto simp: control_finish_def Let_def split: option.split)

lemma frame_of_control [simp]: "frame_of (snd (seat_control i t e s)) = frame_of s"
  by (auto simp: seat_control_def Let_def split: option.split)

lemma frame_of_queue [simp]: "frame_of (snd (queue i w s)) = frame_of s"
  by (auto simp: queue_def split: option.split)

lemma frame_of_writer [simp]: "frame_of (snd (writer_takes s)) = frame_of s" "frame_of (writer_ends w n ok s) = frame_of s"
  by (auto simp: writer_takes_def writer_ends_def Let_def split: list.split)

lemma frame_of_release [simp]: "frame_of (snd (releaseLocked i s)) = frame_of s"
  by (auto simp: releaseLocked_def Let_def split: option.split)

lemma frame_of_report [simp]: "frame_of (snd (ReportAgent pr now st d a s)) = frame_of s" "frame_of (ResetAgentUnknown now n s) = frame_of s"
  by (auto simp: ReportAgent_def ResetAgentUnknown_def Let_def)

subsection \<open>Clients\<close>

definition keys_ok :: "term_session \<Rightarrow> bool" where
  "keys_ok s \<longleftrightarrow> map fst (ts_clients s) = [0..<length (ts_clients s)]"

definition clients_ok :: "term_session \<Rightarrow> bool" where
  "clients_ok s \<longleftrightarrow> keys_ok s \<and> distinct (ts_viewers s) \<and>
     (\<forall>i \<in> set (ts_viewers s). map_of (ts_clients s) i \<noteq> None) \<and>
     (\<forall>i c. map_of (ts_clients s) i = Some c \<longrightarrow> (i \<in> set (ts_viewers s) \<longleftrightarrow> \<not> cl_gone c) \<and> (cl_closed c \<longrightarrow> cl_gone c \<or> ts_exited s))"

lemma frame_client:
  assumes "frame_of s' = frame_of s" and "map_of (ts_clients s') i = Some d"
  shows "\<exists>c. map_of (ts_clients s) i = Some c \<and> view_of d = view_of c"
proof -
  have "map_of (map (\<lambda>(i, c). (i, view_of c)) (ts_clients s')) i = map_of (map (\<lambda>(i, c). (i, view_of c)) (ts_clients s)) i"
    using assms(1) by (simp add: frame_of_def)
  then show ?thesis using assms(2) by (cases "map_of (ts_clients s) i") (simp_all add: map_of_map_snd [of "\<lambda>_. view_of"])
qed

lemma frame_keys: "frame_of s' = frame_of s \<Longrightarrow> map fst (ts_clients s') = map fst (ts_clients s)"
  unfolding frame_of_def by (drule arg_cong [of _ _ "\<lambda>x. map fst (snd (snd (snd (snd (snd x)))))"]) (simp add: split_beta comp_def)

lemma frame_fields:
  "frame_of s' = frame_of s \<Longrightarrow> ts_log s' = ts_log s \<and> ts_base s' = ts_base s \<and> ts_end s' = ts_end s \<and> ts_exited s' = ts_exited s \<and>
     ts_viewers s' = ts_viewers s \<and> length (ts_clients s') = length (ts_clients s)"
  unfolding frame_of_def using map_eq_imp_length_eq by auto

lemma frame_known: "frame_of s' = frame_of s \<Longrightarrow> (map_of (ts_clients s') i = None) = (map_of (ts_clients s) i = None)"
  by (metis frame_client not_None_eq)

lemma frame_keys_ok: "frame_of s' = frame_of s \<Longrightarrow> keys_ok s' = keys_ok s"
  using frame_fields [of s' s] frame_keys [of s' s] by (simp add: keys_ok_def)

lemma keys_ok_simps [simp]:
  "keys_ok (each_viewer f s) = keys_ok s" "keys_ok (s\<lparr>ts_viewers := vs\<rparr>) = keys_ok s" "keys_ok (s\<lparr>ts_exited := b\<rparr>) = keys_ok s"
  "keys_ok (s\<lparr>ts_exitCode := x\<rparr>) = keys_ok s" "keys_ok (s\<lparr>ts_epoch := e\<rparr>) = keys_ok s"
  "keys_ok (s\<lparr>ts_log := r\<rparr>) = keys_ok s" "keys_ok (s\<lparr>ts_base := n\<rparr>) = keys_ok s" "keys_ok (s\<lparr>ts_end := n\<rparr>) = keys_ok s"
  "keys_ok (s\<lparr>ts_lastOutput := now\<rparr>) = keys_ok s" "keys_ok (s\<lparr>ts_term := t\<rparr>) = keys_ok s"
  by (simp_all add: keys_ok_def)

lemma keys_ok_set [simp]: "map_of (ts_clients s) i = Some c \<Longrightarrow> keys_ok (set_client i d s) = keys_ok s"
  by (simp add: keys_ok_def set_client_def put_keys put_length)

lemma keys_ok_client: "keys_ok s \<Longrightarrow> (i, c) \<in> set (ts_clients s) \<Longrightarrow> map_of (ts_clients s) i = Some c"
  by (simp add: keys_ok_def)

lemma frame_clients_ok:
  assumes f: "frame_of s' = frame_of s" and ok: "clients_ok s"
  shows "clients_ok s'"
proof -
  have "(i \<in> set (ts_viewers s') \<longleftrightarrow> \<not> cl_gone d) \<and> (cl_closed d \<longrightarrow> cl_gone d \<or> ts_exited s')"
    if d: "map_of (ts_clients s') i = Some d" for i d
  proof -
    obtain c where c: "map_of (ts_clients s) i = Some c" "view_of d = view_of c" using frame_client [OF f d] by blast
    then have "(i \<in> set (ts_viewers s) \<longleftrightarrow> \<not> cl_gone c) \<and> (cl_closed c \<longrightarrow> cl_gone c \<or> ts_exited s)"
      using ok unfolding clients_ok_def by blast
    then show ?thesis using c(2) frame_fields [OF f] by (simp add: view_of_def)
  qed
  then show ?thesis using ok frame_fields [OF f] frame_keys_ok [OF f] frame_known [OF f] unfolding clients_ok_def by simp
qed

lemma clients_ok_new: "clients_ok (new_session i cols rows)"
  by (simp add: clients_ok_def new_session_def keys_ok_def)

lemma clients_ok_each:
  assumes "clients_ok s" and "\<And>c. cl_gone (f c) = cl_gone c" and "\<And>c. cl_closed (f c) \<Longrightarrow> cl_closed c \<or> ts_exited s"
  shows "clients_ok (each_viewer f s)"
  using assms unfolding clients_ok_def by fastforce

lemma clients_ok_exit: "clients_ok s \<Longrightarrow> clients_ok (exit_session code s)"
  unfolding exit_session_def by (rule clients_ok_each) (auto simp: clients_ok_def)

lemma not_sends_closed: "clients_ok s \<Longrightarrow> \<not> ts_exited s \<Longrightarrow> \<not> sends_closed s"
proof
  assume ok: "clients_ok s" and "\<not> ts_exited s" "sends_closed s"
  then obtain i c where c: "(i, c) \<in> set (ts_clients s)" "i \<in> set (ts_viewers s)" "cl_closed c" by (auto simp: sends_closed_def list_ex_iff)
  have "map_of (ts_clients s) i = Some c" using ok c(1) by (simp add: clients_ok_def keys_ok_client)
  then show False using ok c(2,3) \<open>\<not> ts_exited s\<close> unfolding clients_ok_def by blast
qed

lemma clients_ok_set:
  assumes "clients_ok s" and "map_of (ts_clients s) i = Some c" and "cl_gone d = cl_gone c" and "cl_closed d = cl_closed c"
  shows "clients_ok (set_client i d s)"
  using assms unfolding clients_ok_def by auto

lemma clients_ok_detach: "clients_ok s \<Longrightarrow> clients_ok (Detach i s)"
proof -
  assume "clients_ok s"
  then have ok: "clients_ok (snd (releaseLocked i s))" by (rule frame_clients_ok [rotated]) simp
  show ?thesis
  proof (cases "map_of (ts_clients (snd (releaseLocked i s))) i")
    case (Some c)
    define s2 where "s2 = (set_client i (closeEventsLocked (c\<lparr>cl_gone := True\<rparr>)) (snd (releaseLocked i s)))\<lparr>ts_viewers :=
      removeAll i (ts_viewers (snd (releaseLocked i s)))\<rparr>"
    have "clients_ok s2" using ok Some unfolding clients_ok_def s2_def by (auto simp: distinct_removeAll)
    then have "clients_ok (each_viewer notify s2)" by (rule clients_ok_each) auto
    then show ?thesis using ok Some by (simp add: Detach_def Let_def s2_def)
  qed (simp add: Detach_def Let_def ok)
qed

subsection \<open>Control\<close>

definition control_ok :: "term_session \<Rightarrow> bool" where
  "control_ok s \<longleftrightarrow>
     (\<forall>i. ts_controller s = Some i \<longrightarrow> i \<in> set (ts_viewers s) \<and> 1 \<le> ts_epoch s \<and>
        (\<not> ts_exited s \<longrightarrow> (\<exists>c. map_of (ts_clients s) i = Some c \<and> cl_epoch c = ts_epoch s))) \<and>
     (\<forall>w \<in> set (ts_writes s). 1 \<le> pw_epoch w \<and> pw_epoch w \<le> ts_epoch s \<and> (pw_epoch w = ts_epoch s \<longrightarrow> ts_controller s = Some (pw_from w))) \<and>
     ts_inflight s \<le> ts_epoch s"

lemma control_ok_new: "control_ok (new_session i cols rows)"
  by (simp add: control_ok_def new_session_def)

lemma control_ok_each: "control_ok s \<Longrightarrow> (\<And>c. cl_epoch (f c) = cl_epoch c) \<Longrightarrow> control_ok (each_viewer f s)"
  unfolding control_ok_def by fastforce

lemma control_ok_set: "control_ok s \<Longrightarrow> map_of (ts_clients s) i = Some c \<Longrightarrow> cl_epoch d = cl_epoch c \<Longrightarrow> control_ok (set_client i d s)"
  unfolding control_ok_def by auto

lemma control_ok_idle:
  assumes "control_ok s" and "ts_epoch s < e"
  shows "control_ok (s\<lparr>ts_epoch := e, ts_controller := None\<rparr>)"
  using assms unfolding control_ok_def by fastforce

lemma control_ok_idle_set: "ts_controller s = None \<Longrightarrow> control_ok s \<Longrightarrow> control_ok (set_client i d s)"
  unfolding control_ok_def by auto

lemma control_ok_exit: "control_ok s \<Longrightarrow> control_ok (exit_session code s)"
  unfolding exit_session_def by (rule control_ok_each) (auto simp: control_ok_def)

lemma revoke_ok:
  assumes "control_ok s"
  shows "control_ok (revoke_controller (s\<lparr>ts_epoch := ts_epoch s + 1\<rparr>)) \<and> ts_controller (revoke_controller (s\<lparr>ts_epoch := ts_epoch s + 1\<rparr>)) = None"
proof (cases "ts_controller s")
  case None
  then show ?thesis using assms by (auto simp: revoke_controller_def control_ok_def)
next
  case (Some p)
  have "control_ok (s\<lparr>ts_epoch := ts_epoch s + 1, ts_controller := None\<rparr>)" using assms by (intro control_ok_idle) auto
  then show ?thesis using Some by (auto simp: revoke_controller_def Let_def intro: control_ok_idle_set split: option.split)
qed

lemma control_finish_ok:
  assumes "control_ok s" and "clients_ok s"
  shows "control_ok (snd (control_finish i s))"
proof (cases "map_of (ts_clients s) i")
  case (Some c)
  show ?thesis
  proof (cases "ts_controller s \<noteq> None \<or> ts_exited s \<or> cl_gone c")
    case False
    let ?e = "ts_epoch s + 1"
    have "i \<in> set (ts_viewers s)" using False Some assms(2) unfolding clients_ok_def by blast
    then have "control_ok (set_client i (c\<lparr>cl_epoch := ?e\<rparr>) (s\<lparr>ts_epoch := ?e, ts_controller := Some i\<rparr>))"
      using assms(1) False unfolding control_ok_def by fastforce
    then show ?thesis using Some False by (auto simp: control_finish_def Let_def intro: control_ok_each)
  qed (use Some assms(1) in \<open>auto simp: control_finish_def\<close>)
qed (simp add: control_finish_def assms(1))

lemma control_preserves:
  assumes "control_ok s" and "clients_ok s"
  shows "control_ok (snd (seat_control i t e s))"
proof -
  let ?s = "revoke_controller (s\<lparr>ts_epoch := ts_epoch s + 1\<rparr>)"
  have "control_ok ?s" using revoke_ok [OF assms(1)] by simp
  moreover have "clients_ok ?s" by (rule frame_clients_ok [OF _ assms(2)]) simp
  ultimately show ?thesis using control_finish_ok [of ?s i] assms(1) by (auto simp: seat_control_def Let_def split: option.split)
qed

lemma queue_ok: "control_ok s \<Longrightarrow> control_ok (snd (queue i w s))"
  by (auto simp: queue_def control_ok_def split: option.split)

lemma count_ok: "control_ok s \<Longrightarrow> control_ok (count_outcome i f s)"
  by (auto simp: count_outcome_def intro: control_ok_set split: option.split)

lemma writer_takes_ok: "control_ok s \<Longrightarrow> control_ok (snd (writer_takes s))"
proof (cases "ts_writes s")
  case (Cons w ws)
  assume ok: "control_ok s"
  then have "control_ok (s\<lparr>ts_writes := ws\<rparr>)" using Cons unfolding control_ok_def by auto
  moreover have "control_ok (s\<lparr>ts_writes := ws, ts_inflight := pw_epoch w\<rparr>)" using ok Cons unfolding control_ok_def by auto
  ultimately show ?thesis using Cons count_ok by (auto simp: writer_takes_def Let_def)
qed (simp add: writer_takes_def)

lemma writer_ends_ok: "control_ok s \<Longrightarrow> control_ok (writer_ends w n ok s)"
  using count_ok [of s] unfolding writer_ends_def control_ok_def by auto

lemma release_ok: "control_ok s \<Longrightarrow> control_ok (snd (releaseLocked i s))"
proof -
  assume ok: "control_ok s"
  have "control_ok (s\<lparr>ts_epoch := ts_epoch s + 1, ts_controller := None\<rparr>)" using ok by (intro control_ok_idle) auto
  then show ?thesis using ok
    by (auto simp: releaseLocked_def Let_def intro!: control_ok_each control_ok_idle_set split: option.split)
qed

lemma detach_control_ok: "control_ok s \<Longrightarrow> control_ok (Detach i s)"
proof -
  assume ok: "control_ok s"
  let ?s = "snd (releaseLocked i s)"
  have r: "control_ok ?s" "ts_controller ?s \<noteq> Some i" using release_ok [OF ok] by (auto simp: releaseLocked_def Let_def split: option.split)
  show ?thesis
  proof (cases "map_of (ts_clients ?s) i")
    case (Some c)
    have "control_ok ((set_client i (closeEventsLocked (c\<lparr>cl_gone := True\<rparr>)) ?s)\<lparr>ts_viewers := removeAll i (ts_viewers ?s)\<rparr>)"
      using r unfolding control_ok_def by auto
    then show ?thesis using r(1) Some by (auto simp: Detach_def Let_def intro: control_ok_each)
  qed (simp add: Detach_def Let_def r(1))
qed

lemma report_ok: "control_ok s \<Longrightarrow> control_ok (snd (ReportAgent pr now st d a s))" "control_ok s \<Longrightarrow> control_ok (ResetAgentUnknown now n s)"
  by (auto simp: ReportAgent_def ResetAgentUnknown_def Let_def control_ok_def intro!: control_ok_each)

subsection \<open>Output\<close>

text \<open>Queued output is in order and without a hole, from a position on.\<close>

fun offsets :: "nat \<Rightarrow> (nat \<times> bytes) list \<Rightarrow> bool" where
  "offsets p [] = True"
| "offsets p ((off, b) # es) \<longleftrightarrow> off = p \<and> offsets (p + length b) es"

definition queued :: "client \<Rightarrow> bytes" where
  "queued c = concat (map snd (cl_events c))"

lemma offsets_append: "offsets p (es @ [(off, b)]) \<longleftrightarrow> offsets p es \<and> off = p + length (concat (map snd es))"
  by (induction p es rule: offsets.induct) auto

text \<open>What a client was given and what waits for it is a piece of the stream, up to where it fell behind or to its end.\<close>

definition follows_stream :: "bytes \<Rightarrow> nat \<Rightarrow> bytes \<Rightarrow> bool \<Rightarrow> client \<Rightarrow> bool" where
  "follows_stream S from data viewing c \<longleftrightarrow>
     (\<exists>q. from \<le> q \<and> q \<le> length S \<and> data @ queued c = take (q - from) (drop from S) \<and> offsets (from + length data) (cl_events c) \<and>
        (cl_behind c \<longrightarrow> cl_gapAt c = q) \<and> (viewing \<and> \<not> cl_behind c \<longrightarrow> q = length S))"

lemma follows_view: "view_of d = view_of c \<Longrightarrow> follows_stream S from data v d = follows_stream S from data v c"
  by (simp add: follows_stream_def view_of_def queued_def)

lemma follows_output:
  assumes "follows_stream S from data True c"
  shows "follows_stream (S @ b) from data True (deliver (length S) b c)"
proof -
  obtain q where q: "from \<le> q" "q \<le> length S" "data @ queued c = take (q - from) (drop from S)" "offsets (from + length data) (cl_events c)"
    "cl_behind c \<Longrightarrow> cl_gapAt c = q" "\<not> cl_behind c \<Longrightarrow> q = length S"
    using assms by (auto simp: follows_stream_def)
  have n: "from + length data + length (queued c) = q"
  proof -
    have "length (data @ queued c) = q - from" using q(2) unfolding q(3) by simp
    then show ?thesis using q(1) by simp
  qed
  show ?thesis
  proof (cases "cl_behind c \<or> viewerQueue \<le> length (cl_events c)")
    case True
    have "cl_events (deliver (length S) b c) = cl_events c" "cl_behind (deliver (length S) b c)" "cl_gapAt (deliver (length S) b c) = q"
      using True q(5,6) by (auto simp: deliver_def notify_def)
    then show ?thesis unfolding follows_stream_def queued_def
      using q(1-4) by (intro exI [of _ q]) (auto simp: queued_def)
  next
    case False
    then have d: "deliver (length S) b c = c\<lparr>cl_events := cl_events c @ [(length S, b)]\<rparr>" by (simp add: deliver_def)
    have "q = length S" using False q(6) by simp
    then show ?thesis unfolding follows_stream_def d
      using q(1,3,4) n False by (intro exI [of _ "length (S @ b)"]) (auto simp: queued_def offsets_append)
  qed
qed

lemma follows_unseen: "follows_stream S from data False c \<Longrightarrow> follows_stream (S @ b) from data False c"
  by (auto simp: follows_stream_def)

lemma follows_receive:
  assumes "follows_stream S from data v c" and "cl_events c = (off, b) # es"
  shows "follows_stream S from (data @ b) v (c\<lparr>cl_events := es\<rparr>)"
  using assms by (auto simp: follows_stream_def queued_def add.assoc)

lemma follows_cut:
  assumes "data = drop from S" and "from \<le> length S" and "cl_events c = []" and "\<not> cl_behind c"
  shows "follows_stream S from data v c"
  using assms by (auto simp: follows_stream_def queued_def intro!: exI [of _ "length S"])

definition log_ok :: "bytes \<Rightarrow> term_session \<Rightarrow> bool" where
  "log_ok S s \<longleftrightarrow> ring_ok (ts_log s) \<and> ring_bytes (ts_log s) = take_last RetainBytes S \<and> ts_end s = length S \<and>
     ts_base s = length S - RetainBytes"

lemma retained_cut: "log_ok S s \<Longrightarrow> ring_bytes (ts_log s) = drop (ts_base s) S \<and> ts_base s \<le> length S"
  by (simp add: log_ok_def take_last_def)

lemma retained_write:
  assumes "log_ok S s" and "ring_write (ts_log s) b = (r, d)"
  shows "ring_ok r \<and> ring_bytes r = take_last RetainBytes (S @ b) \<and> ts_base s + d = length (S @ b) - RetainBytes"
proof -
  have "r_n (ts_log s) = min RetainBytes (length S)" using assms(1) length_ring_bytes [of "ts_log s"] by (simp add: log_ok_def)
  then show ?thesis using assms ring_write_ok [of "ts_log s" b r d] by (auto simp: log_ok_def take_last_take_last)
qed

subsection \<open>The invariant\<close>

definition streams_ok :: "seat_sys \<Rightarrow> bool" where
  "streams_ok z \<longleftrightarrow> log_ok (q_stream z) (q_s z) \<and>
     (\<forall>i c. map_of (ts_clients (q_s z)) i = Some c \<longrightarrow>
        (\<exists>from data. map_of (q_seen z) i = Some (from, data) \<and> follows_stream (q_stream z) from data (i \<in> set (ts_viewers (q_s z))) c))"

definition writing_ok :: "seat_sys \<Rightarrow> bool" where
  "writing_ok z \<longleftrightarrow> (q_writing z = None \<longrightarrow> ts_inflight (q_s z) = 0) \<and>
     (\<forall>w r. q_writing z = Some (w, r) \<longrightarrow> ts_inflight (q_s z) = pw_epoch w \<and> 1 \<le> pw_epoch w)"

definition seat_inv :: "seat_sys \<Rightarrow> bool" where
  "seat_inv z \<longleftrightarrow> wf_term (ts_term (q_s z)) \<and> clients_ok (q_s z) \<and> control_ok (q_s z) \<and> streams_ok z \<and> writing_ok z"

lemma new_seat_inv: "seat_inv (new_seat i cols rows)"
  using clients_ok_new [of i cols rows] control_ok_new [of i cols rows]
  by (simp add: seat_inv_def new_seat_def streams_ok_def writing_ok_def log_ok_def) (simp add: new_session_def)

lemma streams_ok_frame:
  assumes "streams_ok z" and f: "frame_of s' = frame_of (q_s z)"
  shows "streams_ok (z\<lparr>q_s := s'\<rparr>)"
proof -
  have "\<exists>from data. map_of (q_seen z) i = Some (from, data) \<and> follows_stream (q_stream z) from data (i \<in> set (ts_viewers s')) d"
    if d: "map_of (ts_clients s') i = Some d" for i d
  proof -
    obtain c where c: "map_of (ts_clients (q_s z)) i = Some c" "view_of d = view_of c" using frame_client [OF f d] by blast
    then show ?thesis using assms(1) frame_fields [OF f] unfolding streams_ok_def by (auto simp: follows_view [OF c(2)])
  qed
  then show ?thesis using assms(1) frame_fields [OF f] by (simp add: streams_ok_def log_ok_def)
qed

text \<open>An operation that leaves output and clients alone keeps the invariant when it keeps the rest of it.\<close>

lemma quiet_inv:
  assumes "seat_inv z" and "frame_of s' = frame_of (q_s z)" and "ts_term s' = ts_term (q_s z)" and "control_ok s'"
    and "ts_inflight s' = ts_inflight (q_s z)"
  shows "seat_inv (z\<lparr>q_s := s'\<rparr>)"
  using assms streams_ok_frame [of z s'] frame_clients_ok [OF assms(2)] by (auto simp: seat_inv_def writing_ok_def split: option.splits)

lemma snapshot_ok:
  assumes "wf_term (ts_term s)"
  shows "runs (snapshotLocked s) (\<lambda>(n, s'). sn_From n = ts_base s \<and> sn_Data n = ring_bytes (ts_log s) \<and> (\<exists>t. wf_term t \<and> s' = s\<lparr>ts_term := t\<rparr>))"
proof -
  have held: "runs (Held t) (\<lambda>(h, _). 0 \<le> h)" if "wf_term t" for t
    using Held_ok [OF that] by (auto simp: Held_def Let_def runs_iff bind_eq_Some_conv split: pstate.splits)
  obtain t b where t: "Snapshot (ts_term s) = Some (t, b)" "wf_term t" using Snapshot_ok [OF assms] by (auto simp: runs_iff)
  obtain h ok where h: "Held t = Some (h, ok)" "0 \<le> h" using held [OF t(2)] by (auto simp: runs_iff)
  have "runs (slice r (int (length r) - (if int (length r) < h then 0 else h)) (int (length r))) (\<lambda>_. True)" for r :: bytes
    using h(2) by simp
  then obtain tail where "slice (ring_bytes (ts_log s)) (int (length (ring_bytes (ts_log s))) -
      (if int (length (ring_bytes (ts_log s))) < h then 0 else h)) (int (length (ring_bytes (ts_log s)))) = Some tail" unfolding runs_iff by blast
  then show ?thesis using t h by (auto simp: snapshotLocked_def Let_def split: if_splits)
qed

subsection \<open>Steps\<close>

lemma inv_parts:
  assumes "seat_inv z"
  shows "wf_term (ts_term (q_s z))" "clients_ok (q_s z)" "control_ok (q_s z)" "streams_ok z" "writing_ok z"
  using assms by (simp_all add: seat_inv_def)

lemma output_step: "seat_inv z \<Longrightarrow> runs (seat_step mark pr (OpOutput now b) z) seat_inv"
proof (cases "ts_exited (q_s z)")
  case False
  assume inv: "seat_inv z"
  let ?s = "q_s z"
  obtain r d where w: "ring_write (ts_log ?s) b = (r, d)" by fastforce
  obtain t fwd where t: "Feed mark b (ts_term ?s) = Some (t, fwd)" "wf_term t"
    using Feed_ok [OF inv_parts(1) [OF inv], of mark b] by (auto simp: runs_iff)
  define s1 where "s1 = ?s\<lparr>ts_log := r, ts_base := ts_base ?s + d, ts_end := ts_end ?s + length b, ts_lastOutput := now, ts_term := snd (Replies t)\<rparr>"
  have c1: "clients_ok s1" using inv_parts(2) [OF inv] by (simp add: clients_ok_def s1_def)
  have o: "session_output mark now b ?s = Some (each_viewer (deliver (ts_end ?s) b) s1)"
    using w t not_sends_closed [OF c1] False by (simp add: session_output_def Let_def s1_def)
  have S: "ts_end ?s = length (q_stream z)" using inv_parts(4) [OF inv] by (simp add: streams_ok_def log_ok_def)
  have "log_ok (q_stream z @ b) (each_viewer (deliver (ts_end ?s) b) s1)"
    using retained_write [OF _ w, of "q_stream z"] inv_parts(4) [OF inv] by (auto simp: streams_ok_def log_ok_def s1_def)
  moreover have "\<exists>from data. map_of (q_seen z) i = Some (from, data) \<and> follows_stream (q_stream z @ b) from data (i \<in> set (ts_viewers ?s)) c'"
    if c': "map_of (ts_clients (each_viewer (deliver (ts_end ?s) b) s1)) i = Some c'" for i c'
  proof -
    obtain c where c: "map_of (ts_clients ?s) i = Some c" "c' = (if i \<in> set (ts_viewers ?s) then deliver (ts_end ?s) b c else c)"
      using c' by (auto simp: s1_def)
    obtain fr data where "map_of (q_seen z) i = Some (fr, data)" "follows_stream (q_stream z) fr data (i \<in> set (ts_viewers ?s)) c"
      using inv_parts(4) [OF inv] c(1) unfolding streams_ok_def by blast
    then show ?thesis using c(2) S by (cases "i \<in> set (ts_viewers ?s)") (auto intro: follows_output follows_unseen)
  qed
  ultimately have "streams_ok (z\<lparr>q_s := each_viewer (deliver (ts_end ?s) b) s1, q_stream := q_stream z @ b\<rparr>)"
    by (simp add: streams_ok_def) (simp add: s1_def)
  moreover have "control_ok (each_viewer (deliver (ts_end ?s) b) s1)"
    using inv_parts(3) [OF inv] by (intro control_ok_each) (auto simp: control_ok_def s1_def)
  moreover have "clients_ok (each_viewer (deliver (ts_end ?s) b) s1)" using c1 by (rule clients_ok_each) auto
  ultimately show ?thesis using False o wf_Replies [OF t(2)] inv_parts(5) [OF inv]
    by (simp add: seat_inv_def) (simp add: s1_def writing_ok_def)
qed simp

lemma exit_step: "seat_inv z \<Longrightarrow> runs (seat_step mark pr (OpExit code) z) seat_inv"
proof -
  assume inv: "seat_inv z"
  have "\<exists>from data. map_of (q_seen z) i = Some (from, data) \<and> follows_stream (q_stream z) from data (i \<in> set (ts_viewers (q_s z))) d"
    if d: "map_of (ts_clients (exit_session code (q_s z))) i = Some d" for i d
  proof -
    obtain c where c: "map_of (ts_clients (q_s z)) i = Some c" "d = (if i \<in> set (ts_viewers (q_s z)) then closeEventsLocked (notify c) else c)"
      using d by (cases "map_of (ts_clients (q_s z)) i") (simp_all add: exit_session_def)
    then have "follows_stream S fr data v d = follows_stream S fr data v c" for S fr data v by (simp add: follows_stream_def queued_def)
    then show ?thesis using inv_parts(4) [OF inv] c(1) unfolding streams_ok_def by simp
  qed
  then have "streams_ok (z\<lparr>q_s := exit_session code (q_s z)\<rparr>)"
    using inv_parts(4) [OF inv] by (simp add: streams_ok_def log_ok_def) (simp add: exit_session_def)
  moreover have "ts_term (exit_session code (q_s z)) = ts_term (q_s z)" "ts_inflight (exit_session code (q_s z)) = ts_inflight (q_s z)"
    by (simp_all add: exit_session_def)
  ultimately show ?thesis using inv clients_ok_exit [OF inv_parts(2) [OF inv]] control_ok_exit [OF inv_parts(3) [OF inv]]
    by (simp add: seat_inv_def writing_ok_def)
qed

text \<open>A cut of the session's output given to a client that has nothing queued.\<close>

lemma cut_ok:
  assumes "streams_ok z" and "log_ok (q_stream z) s" and "cl_events c = []" and "\<not> cl_behind c"
    and "\<And>j d. map_of (ts_clients s) j = Some d \<Longrightarrow> j \<noteq> i \<Longrightarrow>
      \<exists>c. map_of (ts_clients (q_s z)) j = Some c \<and> view_of d = view_of c \<and> (j \<in> set (ts_viewers s)) = (j \<in> set (ts_viewers (q_s z)))"
    and "map_of (ts_clients s) i = Some c"
  shows "streams_ok (z\<lparr>q_s := s, q_seen := put i (ts_base s, ring_bytes (ts_log s)) (q_seen z)\<rparr>)"
proof -
  have "follows_stream (q_stream z) (ts_base s) (ring_bytes (ts_log s)) v c" for v
    using retained_cut [OF assms(2)] assms(3,4) by (intro follows_cut) auto
  moreover have "\<exists>from data. map_of (q_seen z) j = Some (from, data) \<and> follows_stream (q_stream z) from data (j \<in> set (ts_viewers s)) d"
    if d: "map_of (ts_clients s) j = Some d" "j \<noteq> i" for j d
  proof -
    obtain c where c: "map_of (ts_clients (q_s z)) j = Some c" "view_of d = view_of c" "(j \<in> set (ts_viewers s)) = (j \<in> set (ts_viewers (q_s z)))"
      using assms(5) [OF d] by blast
    then show ?thesis using assms(1) unfolding streams_ok_def by (simp add: follows_view [OF c(2)])
  qed
  ultimately show ?thesis using assms(2,6) by (auto simp: streams_ok_def map_of_put)
qed

text \<open>The session with one more client.\<close>

definition joined :: "bytes \<Rightarrow> bool \<Rightarrow> terminal \<Rightarrow> term_session \<Rightarrow> term_session" where
  "joined who hidden t s =
     (let i = length (ts_clients s); s = (if hidden then s else each_viewer notify s) in
      s\<lparr>ts_clients := ts_clients s @ [(i, new_client who hidden (ts_exited s))], ts_viewers := ts_viewers s @ [i], ts_term := t\<rparr>)"

lemma attach_adds:
  assumes "wf_term (ts_term s)" and "hidden \<or> audit \<and> length (visible s) < MaxViewers"
  shows "\<exists>cut t. attach who hidden audit s = Some (Inr (length (ts_clients s), cut), joined who hidden t s) \<and>
    wf_term t \<and> sn_From cut = ts_base s \<and> sn_Data cut = ring_bytes (ts_log s)"
proof -
  define s1 where "s1 = joined who hidden (ts_term s) s"
  have s1: "ts_term s1 = ts_term s" "ts_base s1 = ts_base s" "ts_log s1 = ts_log s" "\<And>t. s1\<lparr>ts_term := t\<rparr> = joined who hidden t s"
    by (simp_all add: s1_def joined_def Let_def)
  obtain cut t where "snapshotLocked s1 = Some (cut, joined who hidden t s)" "wf_term t" "sn_From cut = ts_base s" "sn_Data cut = ring_bytes (ts_log s)"
    using snapshot_ok [of s1] assms(1) s1 by (auto simp: runs_iff)
  moreover have "(let s = (if hidden then s else each_viewer notify s) in
      s\<lparr>ts_clients := ts_clients s @ [(length (ts_clients s), new_client who hidden (ts_exited s))], ts_viewers := ts_viewers s @ [length (ts_clients s)]\<rparr>) = s1"
    by (simp add: s1_def joined_def Let_def)
  ultimately show ?thesis using assms(2) by (auto simp: attach_def Let_def)
qed

lemma attach_step: "seat_inv z \<Longrightarrow> runs (seat_step mark pr (OpAttach who hidden audit) z) seat_inv"
proof (cases "\<not> hidden \<and> (\<not> audit \<or> MaxViewers \<le> length (visible (q_s z)))")
  case True
  moreover assume "seat_inv z"
  ultimately show ?thesis by (auto simp: attach_def)
next
  case False
  assume inv: "seat_inv z"
  let ?s = "q_s z"
  define i where "i = length (ts_clients ?s)"
  define n where "n = new_client who hidden (ts_exited ?s)"
  define s0 where "s0 = (if hidden then ?s else each_viewer notify ?s)"
  define s1 where "s1 = s0\<lparr>ts_clients := ts_clients s0 @ [(i, n)], ts_viewers := ts_viewers s0 @ [i]\<rparr>"
  have s1: "joined who hidden t ?s = s1\<lparr>ts_term := t\<rparr>" for t by (simp add: joined_def Let_def s1_def s0_def n_def i_def)
  have f: "frame_of s0 = frame_of ?s" "ts_term s0 = ts_term ?s" "ts_controller s0 = ts_controller ?s" "ts_inflight s0 = ts_inflight ?s"
    by (auto simp: s0_def)
  have c0: "clients_ok s0" by (rule frame_clients_ok [OF f(1) inv_parts(2) [OF inv]])
  have l0: "length (ts_clients s0) = i" using frame_fields [OF f(1)] by (simp add: i_def)
  have k: "map fst (ts_clients s0) = [0..<i]" using c0 l0 by (simp add: clients_ok_def keys_ok_def)
  have fresh: "map_of (ts_clients s0) i = None" by (simp add: map_of_eq_None_iff flip: set_map) (simp add: k)
  have look: "map_of (ts_clients s1) j = (if j = i then Some n else map_of (ts_clients s0) j)" for j
    using fresh by (auto simp: s1_def map_add_def split: option.split)
  have "i \<notin> set (ts_viewers s0)" using c0 fresh unfolding clients_ok_def by blast
  moreover have "keys_ok s1" using k l0 by (simp add: keys_ok_def s1_def)
  ultimately have c1: "clients_ok s1"
    using c0 look frame_fields [OF f(1)] unfolding clients_ok_def by (auto simp: n_def new_client_def) (auto simp: s1_def)
  have o0: "control_ok s0" using inv_parts(3) [OF inv] by (auto simp: s0_def intro: control_ok_each)
  have o1: "control_ok s1" using o0 fresh look unfolding control_ok_def by (auto simp: s1_def map_add_def split: option.split)
  obtain cut t where cut: "attach who hidden audit ?s = Some (Inr (i, cut), s1\<lparr>ts_term := t\<rparr>)" "wf_term t" "sn_From cut = ts_base ?s" "sn_Data cut = ring_bytes (ts_log ?s)"
    using attach_adds [OF inv_parts(1) [OF inv], of hidden audit who] False s1 by (auto simp: i_def)
  have b1: "ts_base s1 = ts_base ?s" "ts_log s1 = ts_log ?s" by (simp_all add: s1_def s0_def)
  have "streams_ok (z\<lparr>q_s := s1\<lparr>ts_term := t\<rparr>, q_seen := put i (ts_base (s1\<lparr>ts_term := t\<rparr>), ring_bytes (ts_log (s1\<lparr>ts_term := t\<rparr>))) (q_seen z)\<rparr>)"
  proof (rule cut_ok [OF inv_parts(4) [OF inv], where c = n])
    show "log_ok (q_stream z) (s1\<lparr>ts_term := t\<rparr>)" using inv_parts(4) [OF inv] frame_fields [OF f(1)]
      by (simp add: streams_ok_def log_ok_def s1_def)
    show "\<exists>c. map_of (ts_clients ?s) j = Some c \<and> view_of d = view_of c \<and> (j \<in> set (ts_viewers (s1\<lparr>ts_term := t\<rparr>))) = (j \<in> set (ts_viewers ?s))"
      if "map_of (ts_clients (s1\<lparr>ts_term := t\<rparr>)) j = Some d" "j \<noteq> i" for j d
      using that look frame_client [OF f(1)] frame_fields [OF f(1)] by (simp add: s1_def)
  qed (use look in \<open>simp_all add: n_def new_client_def\<close>)
  moreover have "clients_ok (s1\<lparr>ts_term := t\<rparr>)" by (rule frame_clients_ok [OF _ c1]) simp
  moreover have "control_ok (s1\<lparr>ts_term := t\<rparr>)" using o1 by (simp add: control_ok_def)
  ultimately show ?thesis using cut b1 inv_parts(5) [OF inv] f(4) by (simp add: seat_inv_def writing_ok_def) (simp add: s1_def)
qed

lemma resnapshot_step: "seat_inv z \<Longrightarrow> runs (seat_step mark pr (OpResnapshot i) z) seat_inv"
proof (cases "map_of (ts_clients (q_s z)) i")
  case (Some c)
  assume inv: "seat_inv z"
  let ?s = "q_s z"
  define n where "n = c\<lparr>cl_events := [], cl_behind := False\<rparr>"
  define s1 where "s1 = set_client i n ?s"
  have c1: "clients_ok s1" using clients_ok_set [OF inv_parts(2) [OF inv] Some] by (simp add: s1_def n_def)
  have o1: "control_ok s1" using control_ok_set [OF inv_parts(3) [OF inv] Some] by (simp add: s1_def n_def)
  obtain cut t where cut: "snapshotLocked s1 = Some (cut, s1\<lparr>ts_term := t\<rparr>)" "wf_term t" "sn_From cut = ts_base s1" "sn_Data cut = ring_bytes (ts_log s1)"
    using snapshot_ok [of s1] inv_parts(1) [OF inv] by (auto simp: runs_iff s1_def)
  have "streams_ok (z\<lparr>q_s := s1\<lparr>ts_term := t\<rparr>, q_seen := put i (ts_base (s1\<lparr>ts_term := t\<rparr>), ring_bytes (ts_log (s1\<lparr>ts_term := t\<rparr>))) (q_seen z)\<rparr>)"
    using inv_parts(4) [OF inv] by (intro cut_ok [where c = n]) (auto simp: streams_ok_def log_ok_def s1_def n_def)
  moreover have "clients_ok (s1\<lparr>ts_term := t\<rparr>)" by (rule frame_clients_ok [OF _ c1]) simp
  moreover have "control_ok (s1\<lparr>ts_term := t\<rparr>)" using o1 by (simp add: control_ok_def)
  moreover have "Resnapshot i ?s = Some (cut, s1\<lparr>ts_term := t\<rparr>)" using Some cut(1) by (simp add: Resnapshot_def s1_def n_def)
  ultimately show ?thesis using Some cut(2-4) inv_parts(5) [OF inv] by (simp add: seat_inv_def writing_ok_def) (simp add: s1_def)
qed simp

lemma receive_step: "seat_inv z \<Longrightarrow> runs (seat_step mark pr (OpReceive i) z) seat_inv"
proof (cases "map_of (ts_clients (q_s z)) i")
  case (Some c)
  assume inv: "seat_inv z"
  obtain fr data where seen: "map_of (q_seen z) i = Some (fr, data)" "follows_stream (q_stream z) fr data (i \<in> set (ts_viewers (q_s z))) c"
    using inv_parts(4) [OF inv] Some unfolding streams_ok_def by blast
  show ?thesis
  proof (cases "cl_events c")
    case (Cons e es)
    obtain off b where e: "e = (off, b)" by fastforce
    let ?s = "set_client i (c\<lparr>cl_events := es\<rparr>) (q_s z)"
    have "streams_ok (z\<lparr>q_s := ?s, q_seen := put i (fr, data @ b) (q_seen z)\<rparr>)"
      using inv_parts(4) [OF inv] follows_receive [OF seen(2) Cons [unfolded e]]
      by (auto simp: streams_ok_def log_ok_def map_of_put)
    moreover have "clients_ok ?s" by (rule clients_ok_set [OF inv_parts(2) [OF inv] Some]) simp_all
    moreover have "control_ok ?s" by (rule control_ok_set [OF inv_parts(3) [OF inv] Some]) simp
    ultimately show ?thesis using inv Some seen(1) Cons e by (simp add: seat_inv_def writing_ok_def)
  qed (use inv Some seen in simp)
qed (simp split: option.split)

lemma term_kept [simp]:
  "ts_term (count_outcome i f s) = ts_term s" "ts_inflight (count_outcome i f s) = ts_inflight s"
  "ts_term (revoke_controller s) = ts_term s" "ts_inflight (revoke_controller s) = ts_inflight s"
  "ts_term (snd (control_finish i s)) = ts_term s" "ts_inflight (snd (control_finish i s)) = ts_inflight s"
  "ts_term (snd (releaseLocked i s)) = ts_term s" "ts_inflight (snd (releaseLocked i s)) = ts_inflight s"
  "ts_term (snd (queue i w s)) = ts_term s" "ts_inflight (snd (queue i w s)) = ts_inflight s"
  "ts_term (snd (writer_takes s)) = ts_term s"
  by (auto simp: count_outcome_def revoke_controller_def control_finish_def releaseLocked_def queue_def writer_takes_def Let_def
      split: option.split list.split)

lemma control_term [simp]: "ts_term (snd (seat_control i t e s)) = ts_term s" "ts_inflight (snd (seat_control i t e s)) = ts_inflight s"
  by (auto simp: seat_control_def Let_def split: option.split)

lemma inv_ghost [simp]: "seat_inv (z\<lparr>q_waits := ws\<rparr>) = seat_inv z" "seat_inv (z\<lparr>q_trace := tr\<rparr>) = seat_inv z"
  by (simp_all add: seat_inv_def streams_ok_def writing_ok_def)

lemma controlled_inv:
  assumes "seat_inv z" and "frame_of (snd r) = frame_of (q_s z)" and "ts_term (snd r) = ts_term (q_s z)" and "control_ok (snd r)"
    and "ts_inflight (snd r) = ts_inflight (q_s z)"
  shows "seat_inv (controlled i r z)"
  using quiet_inv [OF assms] by (cases "fst r") (simp_all add: controlled_def Let_def)

lemma control_step: "seat_inv z \<Longrightarrow> runs (seat_step mark pr (OpControl i t e audit) z) seat_inv"
  using control_preserves [OF inv_parts(3,2)] by (auto intro!: controlled_inv)

lemma fenced_step: "seat_inv z \<Longrightarrow> runs (seat_step mark pr (OpFenced k) z) seat_inv"
  using control_finish_ok [OF inv_parts(3,2)] by (auto simp: Let_def intro!: controlled_inv)

lemma input_step: "seat_inv z \<Longrightarrow> runs (seat_step mark pr (OpInput i b) z) seat_inv" "seat_inv z \<Longrightarrow> runs (seat_step mark pr (OpResize i cols rows) z) seat_inv"
  by (auto simp: Input_def client_Resize_def intro!: quiet_inv queue_ok inv_parts(3))

lemma writer_takes_cases:
  assumes "control_ok s" and "writer_takes s = (r, s')"
  shows "(\<forall>w. r = Some w \<longrightarrow> w \<in> set (ts_writes s) \<and> 1 \<le> pw_epoch w \<and> ts_inflight s' = pw_epoch w \<and> pw_epoch w = ts_epoch s \<and>
      ts_controller s = Some (pw_from w) \<and> \<not> ts_exited s) \<and> (r = None \<longrightarrow> ts_inflight s' = ts_inflight s)"
  using assms by (cases "ts_writes s") (auto simp: writer_takes_def Let_def control_ok_def split: if_splits)

lemma writer_takes_step: "seat_inv z \<Longrightarrow> runs (seat_step mark pr OpWriterTakes z) seat_inv"
proof (cases "q_writing z")
  case None
  assume inv: "seat_inv z"
  obtain r s where t: "writer_takes (q_s z) = (r, s)" by fastforce
  have f: "frame_of s = frame_of (q_s z)" "ts_term s = ts_term (q_s z)" "control_ok s"
    using frame_of_writer(1) [of "q_s z"] term_kept(11) [of "q_s z"] writer_takes_ok [OF inv_parts(3) [OF inv]] t by simp_all
  have "streams_ok (z\<lparr>q_s := s\<rparr>)" "clients_ok s" using streams_ok_frame [OF inv_parts(4) [OF inv] f(1)] frame_clients_ok [OF f(1) inv_parts(2) [OF inv]] .
  then show ?thesis using None t f inv_parts(1,5) [OF inv] writer_takes_cases [OF inv_parts(3) [OF inv] t]
    by (cases r) (auto simp: seat_inv_def writing_ok_def streams_ok_def)
qed simp

lemma writer_sized_step: "seat_inv z \<Longrightarrow> runs (seat_step mark pr (OpWriterSized ok) z) seat_inv"
proof -
  assume inv: "seat_inv z"
  have plain: "seat_inv (z\<lparr>q_writing := Some (w, x)\<rparr>)" if "q_writing z = Some (w, y)" for w x y
    using inv that by (simp add: seat_inv_def streams_ok_def writing_ok_def)
  have "runs (writer_sized w (q_s z)) (\<lambda>s. seat_inv (z\<lparr>q_s := s, q_writing := Some (w, x)\<rparr>))" if w: "q_writing z = Some (w, y)" for w x y
  proof -
    obtain t where t: "Terminal.Resize (uint (pw_cols w)) (uint (pw_rows w)) (ts_term (q_s z)) = Some t" "wf_term t"
      using Resize_ok [of "ts_term (q_s z)" "uint (pw_cols w)" "uint (pw_rows w)"] inv_parts(1) [OF inv]
      by (auto simp: runs_iff wf_term_def)
    define s where "s = each_viewer notify (q_s z\<lparr>ts_cols := pw_cols w, ts_rows := pw_rows w, ts_term := t\<rparr>)"
    have f: "frame_of s = frame_of (q_s z)" by (simp add: s_def)
    have "control_ok s" using inv_parts(3) [OF inv] unfolding s_def by (intro control_ok_each) (auto simp: control_ok_def)
    then show ?thesis using t w streams_ok_frame [OF inv_parts(4) [OF inv] f] frame_clients_ok [OF f inv_parts(2) [OF inv]] inv_parts(5) [OF inv]
      by (simp add: writer_sized_def seat_inv_def streams_ok_def writing_ok_def flip: s_def) (simp add: s_def)
  qed
  then show ?thesis using inv plain by (auto split: option.split prod.split)
qed

lemma writer_ends_inv: "seat_inv z \<Longrightarrow> seat_inv (z\<lparr>q_s := writer_ends w n ok (q_s z), q_writing := None\<rparr>)"
  using streams_ok_frame [of z "writer_ends w n ok (q_s z)"] frame_clients_ok [of "writer_ends w n ok (q_s z)" "q_s z"] writer_ends_ok [of "q_s z" w n ok]
  by (simp add: seat_inv_def streams_ok_def writing_ok_def) (simp add: writer_ends_def)

lemma writer_ends_step: "seat_inv z \<Longrightarrow> runs (seat_step mark pr (OpWriterEnds n ok) z) seat_inv"
  by (auto simp: Let_def writer_ends_inv split: option.split prod.split)

lemma detach_step: "seat_inv z \<Longrightarrow> runs (seat_step mark pr (OpDetach i) z) seat_inv"
proof -
  assume inv: "seat_inv z"
  let ?r = "snd (releaseLocked i (q_s z))"
  have f: "frame_of ?r = frame_of (q_s z)" by simp
  have "\<exists>fr data. map_of (q_seen z) j = Some (fr, data) \<and> follows_stream (q_stream z) fr data (j \<in> set (ts_viewers (Detach i (q_s z)))) d"
    if d: "map_of (ts_clients (Detach i (q_s z))) j = Some d" for j d
  proof -
    obtain c0 where c0: "map_of (ts_clients ?r) j = Some c0" "cl_events d = cl_events c0" "cl_behind d = cl_behind c0" "cl_gapAt d = cl_gapAt c0"
        "j \<in> set (ts_viewers (Detach i (q_s z))) \<Longrightarrow> j \<in> set (ts_viewers ?r)"
      using d by (cases "map_of (ts_clients ?r) j"; cases "map_of (ts_clients ?r) i") (auto simp: Detach_def Let_def split: if_splits)
    obtain c where c: "map_of (ts_clients (q_s z)) j = Some c" "view_of c0 = view_of c" using frame_client [OF f c0(1)] by blast
    obtain fr data where "map_of (q_seen z) j = Some (fr, data)" "follows_stream (q_stream z) fr data (j \<in> set (ts_viewers (q_s z))) c"
      using inv_parts(4) [OF inv] c(1) unfolding streams_ok_def by blast
    then show ?thesis using c(2) c0 frame_fields [OF f] by (auto simp: follows_stream_def queued_def view_of_def)
  qed
  moreover have "ts_log (Detach i (q_s z)) = ts_log (q_s z) \<and> ts_base (Detach i (q_s z)) = ts_base (q_s z) \<and> ts_end (Detach i (q_s z)) = ts_end (q_s z) \<and>
      ts_term (Detach i (q_s z)) = ts_term (q_s z) \<and> ts_inflight (Detach i (q_s z)) = ts_inflight (q_s z)"
    using frame_fields [OF f] by (auto simp: Detach_def Let_def split: option.split)
  ultimately show ?thesis
    using inv_parts [OF inv] clients_ok_detach [of "q_s z" i] detach_control_ok [of "q_s z" i]
    by (simp add: seat_inv_def streams_ok_def log_ok_def writing_ok_def)
qed

lemma report_step:
  "seat_inv z \<Longrightarrow> runs (seat_step mark pr (OpReport now st d a) z) seat_inv" "seat_inv z \<Longrightarrow> runs (seat_step mark pr (OpReset now n) z) seat_inv"
  "seat_inv z \<Longrightarrow> runs (seat_step mark pr (OpRelease i) z) seat_inv"
  by (auto intro!: quiet_inv report_ok release_ok inv_parts(3) simp: Release_def)
    (auto simp: ReportAgent_def ResetAgentUnknown_def Let_def)

lemmas seat_steps = output_step exit_step attach_step resnapshot_step receive_step control_step fenced_step input_step writer_takes_step
  writer_sized_step writer_ends_step detach_step report_step

lemma seat_step_inv: "seat_inv z \<Longrightarrow> runs (seat_step mark pr op z) seat_inv"
  by (cases op) (simp_all only: seat_steps, simp)

lemma seat_run_inv: "seat_inv z \<Longrightarrow> runs (seat_run mark pr ops z) seat_inv"
  unfolding seat_run_def by (rule runs_fold_opt) (auto intro: seat_step_inv)

subsection \<open>Three clients\<close>

definition joins :: "seat_op list" where
  "joins = [OpAttach (lit ''x'') False True, OpAttach (lit ''a'') False True, OpAttach (lit ''b'') False True]"

definition three :: "terminal \<Rightarrow> term_session" where
  "three t = (new_session (lit ''s'') 1 1)\<lparr>ts_term := t, ts_viewers := [0, 1, 2],
     ts_clients := [(0, notify (new_client (lit ''x'') False False)), (1, notify (new_client (lit ''a'') False False)),
       (2, new_client (lit ''b'') False False)]\<rparr>"

lemma attach_visible:
  assumes "wf_term (ts_term (q_s z))" and "length (visible (q_s z)) < MaxViewers"
  shows "\<exists>t seen. seat_step mark pr (OpAttach who False True) z = Some (z\<lparr>q_s := joined who False t (q_s z), q_seen := seen\<rparr>) \<and> wf_term t"
proof -
  obtain cut t where "attach who False True (q_s z) = Some (Inr (length (ts_clients (q_s z)), cut), joined who False t (q_s z))" "wf_term t"
    using attach_adds [OF assms(1), of False True who] assms(2) by blast
  then have "seat_step mark pr (OpAttach who False True) z =
      Some (z\<lparr>q_s := joined who False t (q_s z), q_seen := put (length (ts_clients (q_s z))) (sn_From cut, sn_Data cut) (q_seen z)\<rparr>)" "wf_term t"
    by simp_all
  then show ?thesis by blast
qed

lemma joined_term [simp]: "ts_term (joined who hidden t s) = t"
  by (simp add: joined_def Let_def)

lemma joins_run:
  "\<exists>t seen. seat_run mark pr joins (new_seat (lit ''s'') 1 1) = Some ((new_seat (lit ''s'') 1 1)\<lparr>q_s := three t, q_seen := seen\<rparr>)"
proof -
  define z0 where "z0 = new_seat (lit ''s'') 1 1"
  have z0: "q_s z0 = new_session (lit ''s'') 1 1" "wf_term (ts_term (new_session (lit ''s'') 1 1))" by (simp_all add: z0_def new_seat_def new_session_def)
  have v0: "visible (q_s z0) = []" unfolding z0(1) by (simp add: visible_def new_session_def)
  obtain t1 x1 where 1: "seat_step mark pr (OpAttach (lit ''x'') False True) z0 =
      Some (z0\<lparr>q_s := joined (lit ''x'') False t1 (q_s z0), q_seen := x1\<rparr>)" "wf_term t1"
    using attach_visible [of z0] z0 v0 by fastforce
  define z1 where "z1 = z0\<lparr>q_s := joined (lit ''x'') False t1 (q_s z0), q_seen := x1\<rparr>"
  have v1: "length (visible (q_s z1)) < MaxViewers" "wf_term (ts_term (q_s z1))"
    using 1(2) by (simp_all add: z1_def z0(1) visible_def joined_def each_viewer_def new_session_def new_client_def)
  obtain t2 x2 where 2: "seat_step mark pr (OpAttach (lit ''a'') False True) z1 =
      Some (z1\<lparr>q_s := joined (lit ''a'') False t2 (q_s z1), q_seen := x2\<rparr>)" "wf_term t2"
    using attach_visible [OF v1(2,1)] by blast
  define z2 where "z2 = z1\<lparr>q_s := joined (lit ''a'') False t2 (q_s z1), q_seen := x2\<rparr>"
  have v2: "length (visible (q_s z2)) < MaxViewers" "wf_term (ts_term (q_s z2))"
    using 2(2) by (simp_all add: z2_def z1_def z0(1) visible_def joined_def each_viewer_def new_session_def new_client_def notify_def)
  obtain t3 x3 where 3: "seat_step mark pr (OpAttach (lit ''b'') False True) z2 =
      Some (z2\<lparr>q_s := joined (lit ''b'') False t3 (q_s z2), q_seen := x3\<rparr>)"
    using attach_visible [OF v2(2,1)] by blast
  have "z2\<lparr>q_s := joined (lit ''b'') False t3 (q_s z2), q_seen := x3\<rparr> = z0\<lparr>q_s := three t3, q_seen := x3\<rparr>"
    by (simp add: z2_def z1_def z0(1) three_def joined_def each_viewer_def new_session_def new_client_def notify_def)
  then show ?thesis using 1(1) 2(1) 3 unfolding z1_def [symmetric] z2_def [symmetric]
    by (auto simp: seat_run_def joins_def z0_def [symmetric] simp del: seat_step.simps)
qed

lemma seat_run_append: "seat_run mark pr (xs @ ys) z = Option.bind (seat_run mark pr xs z) (seat_run mark pr ys)"
  by (simp add: seat_run_def [abs_def] fold_opt_append)

lemmas session_defs = new_seat_def three_def new_session_def new_client_def seat_control_def control_finish_def controlled_def
  revoke_controller_def fence_free_def set_client_def each_viewer_def notify_def Let_def Input_def queue_def writer_takes_def
  writer_ends_def count_outcome_def Release_def releaseLocked_def drop_at_def no_outcomes_def

lemma joins_write:
  "\<exists>z z' w. seat_run mark pr (joins @ [OpControl 0 False None True, OpInput 0 [120]]) (new_seat (lit ''s'') 1 1) = Some z \<and> q_writing z = None \<and>
     seat_step mark pr OpWriterTakes z = Some z' \<and> q_writing z' = Some (w, None) \<and> pw_data w = Some [120]"
proof -
  obtain t seen where "seat_run mark pr joins (new_seat (lit ''s'') 1 1) = Some ((new_seat (lit ''s'') 1 1)\<lparr>q_s := three t, q_seen := seen\<rparr>)"
    using joins_run by blast
  then show ?thesis unfolding seat_run_append by (simp add: seat_run_def session_defs)
qed

lemma joins_output:
  "\<exists>z c. seat_run mark pr (joins @ [OpOutput now b]) (new_seat (lit ''s'') 1 1) = Some z \<and> map_of (ts_clients (q_s z)) 0 = Some c \<and> q_stream z = b"
proof -
  obtain t seen where 1: "seat_run mark pr joins (new_seat (lit ''s'') 1 1) = Some ((new_seat (lit ''s'') 1 1)\<lparr>q_s := three t, q_seen := seen\<rparr>)"
    using joins_run by blast
  let ?z = "(new_seat (lit ''s'') 1 1)\<lparr>q_s := three t, q_seen := seen\<rparr>"
  have "seat_inv ?z" using seat_run_inv [OF new_seat_inv] 1 by (metis runs_Some)
  then obtain z where z: "seat_step mark pr (OpOutput now b) ?z = Some z" using output_step [of ?z] unfolding runs_iff by blast
  then obtain c where "map_of (ts_clients (q_s z)) 0 = Some c \<and> q_stream z = b"
    by (auto simp: session_output_def Let_def three_def new_session_def new_seat_def split_beta split: if_splits bind_splits)
  then show ?thesis using 1 z unfolding seat_run_append by (auto simp: seat_run_def simp del: seat_step.simps)
qed



subsection \<open>Properties\<close>


text \<open>
  C13. A client is given exactly the program's output: its last snapshot and what it received since
  are, together with what is queued for it, one piece of the output without a hole or a repetition.
  As long as it is attached and not told that it is behind, the piece reaches to the end of the
  output; else it ends where it is told that it fell behind.
\<close>

theorem client_sees_the_stream:
  assumes "seat_run mark pr ops (new_seat n cols rows) = Some z" and "map_of (ts_clients (q_s z)) i = Some c"
  shows "\<exists>start data. map_of (q_seen z) i = Some (start, data) \<and> start \<le> length (q_stream z) \<and>
    data @ queued c = take (length (data @ queued c)) (drop start (q_stream z)) \<and>
    (i \<in> set (ts_viewers (q_s z)) \<and> \<not> cl_behind c \<longrightarrow> start + length (data @ queued c) = length (q_stream z)) \<and>
    (cl_behind c \<longrightarrow> start + length (data @ queued c) = cl_gapAt c)"
proof -
  have "seat_inv z" using seat_run_inv [OF new_seat_inv, of mark pr ops n cols rows] assms(1) by simp
  then obtain start data where d: "map_of (q_seen z) i = Some (start, data)" "follows_stream (q_stream z) start data (i \<in> set (ts_viewers (q_s z))) c"
    using inv_parts(4) assms(2) unfolding streams_ok_def by blast
  then obtain q where q: "start \<le> q" "q \<le> length (q_stream z)" "data @ queued c = take (q - start) (drop start (q_stream z))"
      "cl_behind c \<Longrightarrow> cl_gapAt c = q" "i \<in> set (ts_viewers (q_s z)) \<Longrightarrow> \<not> cl_behind c \<Longrightarrow> q = length (q_stream z)"
    by (auto simp: follows_stream_def)
  have len: "length (data @ queued c) = q - start" using q(1,2) by (simp only: q(3)) simp
  show ?thesis 
    by (rule exI [of _ start], rule exI [of _ data]) (use d(1) q in \<open>simp add: len del: length_append\<close>)
qed

theorem client_sees_the_stream_witness:
  "\<exists>z c start data. seat_run (\<lambda>_. False) (\<lambda>_. True) (joins @ [OpOutput [] [104, 105]]) (new_seat (lit ''s'') 1 1) = Some z \<and>
     map_of (ts_clients (q_s z)) 0 = Some c \<and> q_stream z = [104, 105] \<and> map_of (q_seen z) 0 = Some (start, data) \<and>
     (0 \<in> set (ts_viewers (q_s z)) \<and> \<not> cl_behind c \<longrightarrow> start + length (data @ queued c) = 2)"
proof -
  obtain z c where z: "seat_run (\<lambda>_. False) (\<lambda>_. True) (joins @ [OpOutput [] [104, 105]]) (new_seat (lit ''s'') 1 1) = Some z"
      "map_of (ts_clients (q_s z)) 0 = Some c" "q_stream z = [104, 105]"
    using joins_output by blast
  from client_sees_the_stream [OF z(1,2)] show ?thesis using z by auto
qed

text \<open>
  C12. A write is made at the PTY only under the grant that is current when it is made: whenever the
  writer takes a write from the queue to make it, the client that queued it controls the session at
  that moment, under its present epoch, is still attached, and the program has not exited. So what
  a revoked controller queued never reaches the program.
\<close>

theorem writes_need_the_current_grant:
  assumes "seat_run mark pr ops (new_seat n cols rows) = Some z" and "q_writing z = None"
    and "seat_step mark pr OpWriterTakes z = Some z'" and "q_writing z' = Some (w, r)"
  shows "Controls (pw_from w) (q_s z) \<and> pw_epoch w = ts_epoch (q_s z) \<and> pw_from w \<in> set (ts_viewers (q_s z)) \<and> \<not> ts_exited (q_s z)"
proof -
  have inv: "seat_inv z" using seat_run_inv [OF new_seat_inv, of mark pr ops n cols rows] assms(1) by simp
  obtain x s where t: "writer_takes (q_s z) = (x, s)" by fastforce
  with assms(2-4) have "x = Some w" by (cases x) auto
  then have w: "pw_epoch w = ts_epoch (q_s z)" "ts_controller (q_s z) = Some (pw_from w)" "\<not> ts_exited (q_s z)"
    using writer_takes_cases [OF inv_parts(3) [OF inv] t] by auto
  moreover have "pw_from w \<in> set (ts_viewers (q_s z)) \<and> (\<exists>c. map_of (ts_clients (q_s z)) (pw_from w) = Some c \<and> cl_epoch c = ts_epoch (q_s z))"
    using inv_parts(3) [OF inv] w(2,3) unfolding control_ok_def by blast
  ultimately show ?thesis by (auto simp: Controls_def)
qed

theorem writes_need_the_current_grant_witness:
  "\<exists>z z' w. seat_run (\<lambda>_. False) (\<lambda>_. True) (joins @ [OpControl 0 False None True, OpInput 0 [120]]) (new_seat (lit ''s'') 1 1) = Some z \<and>
     seat_step (\<lambda>_. False) (\<lambda>_. True) OpWriterTakes z = Some z' \<and> q_writing z' = Some (w, None) \<and> pw_data w = Some [120] \<and> Controls (pw_from w) (q_s z)"
proof -
  obtain z z' w where z: "seat_run (\<lambda>_. False) (\<lambda>_. True) (joins @ [OpControl 0 False None True, OpInput 0 [120]]) (new_seat (lit ''s'') 1 1) = Some z"
      "q_writing z = None" "seat_step (\<lambda>_. False) (\<lambda>_. True) OpWriterTakes z = Some z'" "q_writing z' = Some (w, None)" "pw_data w = Some [120]"
    using joins_write by blast
  from writes_need_the_current_grant [OF z(1-4)] show ?thesis using z by blast
qed


end
