(* ===== verification/SeatCreate.thy ===== *)
theory SeatCreate
  imports SeatRuns GoPath
begin

text \<open>
  The host of terminal sessions, \<open>SessionHost\<close> of \<open>internal/seatterm/host.go\<close>: it starts a program
  once for a principal's operation, remembers the creation so that a retry gets its session, and
  bounds the sessions that live. \<open>Create\<close> takes its lock twice, before and after it starts the
  program; the sections are functions of their own, and a system of hosts, sessions and calls in
  progress interleaves them.
\<close>

subsection \<open>What is asked\<close>

abbreviation MaxSessions :: nat where "MaxSessions \<equiv> 8"

record seat_command =
  cm_Path :: bytes
  cm_Args :: "bytes list"
  cm_Env :: "bytes list"
  cm_Dir :: bytes
  cm_UID :: int
  cm_GID :: int
  cm_ExpectedSHA256 :: bytes
  cm_PreservesInstallPath :: bool

record session_spec =
  sp_Name :: bytes
  sp_Kind :: bytes
  sp_Command :: seat_command
  sp_Prepared :: "bytes option"  \<comment> \<open>the identity of a prepared executable\<close>
  sp_Cols :: "16 word"
  sp_Rows :: "16 word"

text \<open>\<open>^[a-z][a-z0-9-]{0,31}$\<close>\<close>

definition sessionWord :: "bytes \<Rightarrow> bool" where
  "sessionWord s \<longleftrightarrow> s \<noteq> [] \<and> length s \<le> 32 \<and> 0x61 \<le> hd s \<and> hd s \<le> 0x7a \<and>
     list_all (\<lambda>c. 0x61 \<le> c \<and> c \<le> 0x7a \<or> 0x30 \<le> c \<and> c \<le> 0x39 \<or> c = 0x2d) (tl s)"

definition create_valid :: "bytes \<Rightarrow> bytes \<Rightarrow> session_spec \<Rightarrow> bool" where
  "create_valid operation who sp \<longleftrightarrow> operation \<noteq> [] \<and> who \<noteq> [] \<and> sessionWord (sp_Name sp) \<and> sessionWord (sp_Kind sp) \<and>
     IsAbs (cm_Path (sp_Command sp)) \<and> 1 \<le> sp_Cols sp \<and> sp_Cols sp \<le> MaxCols \<and> 1 \<le> sp_Rows sp \<and> sp_Rows sp \<le> MaxRows"

text \<open>\<open>%q\<close> of a string and of a slice of strings; \<open>printable\<close> stands for \<open>strconv.IsPrint\<close>.\<close>

definition quote_digit :: "int \<Rightarrow> byte" where
  "quote_digit d = word_of_int (if d < 10 then 0x30 + d else 0x57 + d)"

definition hex_pad :: "nat \<Rightarrow> int \<Rightarrow> bytes" where
  "hex_pad k n = map (\<lambda>i. quote_digit (n div 16 ^ i mod 16)) (rev [0..<k])"

definition escaped_rune :: "(int \<Rightarrow> bool) \<Rightarrow> int \<Rightarrow> bytes" where
  "escaped_rune printable r =
     (if r = 0x22 \<or> r = 0x5c then [0x5c, word_of_int r]
      else if printable r then encode_rune r
      else case map_of [(7, 0x61), (8, 0x62), (12, 0x66), (10, 0x6e), (13, 0x72), (9, 0x74), (11, 0x76)] r of
        Some c \<Rightarrow> [0x5c, c]
      | None \<Rightarrow>
          if r < 0x20 \<or> r = 0x7f then [0x5c, 0x78] @ hex_pad 2 r
          else if r < 0x10000 then [0x5c, 0x75] @ hex_pad 4 r
          else [0x5c, 0x55] @ hex_pad 8 r)"

function quote_runes :: "(int \<Rightarrow> bool) \<Rightarrow> bytes \<Rightarrow> bytes" where
  "quote_runes printable s =
     (if s = [] then []
      else (if decode_rune s = (RuneError, 1) then [0x5c, 0x78] @ hex_pad 2 (uint (hd s))
            else escaped_rune printable (fst (decode_rune s))) @ quote_runes printable (drop (snd (decode_rune s)) s))"
  by pat_completeness auto
termination
proof (relation "measure (\<lambda>(_, s). length s)")
  fix printable :: "int \<Rightarrow> bool" and s :: bytes
  assume "s \<noteq> []"
  with decode_rune_size [of s] show "((printable, drop (snd (decode_rune s)) s), printable, s) \<in> measure (\<lambda>(_, s). length s)"
    by (simp add: Suc_le_eq)
qed simp

declare quote_runes.simps [simp del]

definition quoted_text :: "(int \<Rightarrow> bool) \<Rightarrow> bytes \<Rightarrow> bytes" where
  "quoted_text printable s = [0x22] @ quote_runes printable s @ [0x22]"

fun join_space :: "bytes list \<Rightarrow> bytes" where
  "join_space [] = []"
| "join_space [p] = p"
| "join_space (p # ps) = p @ 0x20 # join_space ps"

definition quoted_list :: "(int \<Rightarrow> bool) \<Rightarrow> bytes list \<Rightarrow> bytes" where
  "quoted_list printable xs = [0x5b] @ join_space (map (quoted_text printable) xs) @ [0x5d]"

text \<open>\<open>sha\<close> stands for SHA-256, written in hexadecimal.\<close>

definition fingerprint :: "(bytes \<Rightarrow> bytes) \<Rightarrow> (int \<Rightarrow> bool) \<Rightarrow> session_spec \<Rightarrow> bytes" where
  "fingerprint sha printable sp =
     (let c = sp_Command sp; q = quoted_text printable; ql = quoted_list printable;
          sum = sha (q (sp_Name sp) @ [0] @ q (sp_Kind sp) @ [0] @ q (cm_Path c) @ [0] @ ql (cm_Args c) @ [0] @ ql (cm_Env c) @ [0] @
            q (cm_Dir c) @ [0] @ itoa (cm_UID c) @ [0] @ itoa (cm_GID c) @ [0] @ itoa (uint (sp_Cols sp)) @ [0] @ itoa (uint (sp_Rows sp)))
      in case sp_Prepared sp of
           None \<Rightarrow> sum
         | Some p \<Rightarrow> sha (sum @ [0] @ p @ [0] @ cm_ExpectedSHA256 c @ [0] @ (if cm_PreservesInstallPath c then lit ''true'' else lit ''false'')))"

subsection \<open>The host\<close>

type_synonym op_key = "bytes \<times> bytes"  \<comment> \<open>principal and operation\<close>

record created =
  cr_spec :: bytes
  cr_s :: "bytes option"  \<comment> \<open>the session, once it started\<close>

record session_host =
  sh_sessions :: "bytes list"
  sh_byOp :: "(op_key \<times> created) list"
  sh_opOrder :: "op_key list"
  sh_starting :: nat

definition NewSessionHost :: session_host where
  "NewSessionHost = \<lparr>sh_sessions = [], sh_byOp = [], sh_opOrder = [], sh_starting = 0\<rparr>"

definition maxOps :: nat where
  "maxOps = 256"

text \<open>\<open>running\<close> tells of a session whether its program runs.\<close>

definition prunable :: "(bytes \<Rightarrow> bool) \<Rightarrow> session_host \<Rightarrow> op_key \<Rightarrow> bool" where
  "prunable running h k \<longleftrightarrow> (case map_of (sh_byOp h) k of None \<Rightarrow> False
     | Some e \<Rightarrow> (case cr_s e of None \<Rightarrow> False | Some i \<Rightarrow> \<not> running i))"

function pruneOps :: "(bytes \<Rightarrow> bool) \<Rightarrow> session_host \<Rightarrow> session_host" where
  "pruneOps running h =
     (if length (sh_opOrder h) \<le> maxOps then h
      else case dropWhile (\<lambda>k. \<not> prunable running h k) (sh_opOrder h) of
        [] \<Rightarrow> h
      | k # later \<Rightarrow> pruneOps running (h\<lparr>sh_byOp := del k (sh_byOp h),
          sh_opOrder := takeWhile (\<lambda>k. \<not> prunable running h k) (sh_opOrder h) @ later\<rparr>))"
  by pat_completeness auto
termination
proof (relation "measure (\<lambda>(_, h). length (sh_opOrder h))")
  fix running :: "bytes \<Rightarrow> bool" and h :: session_host and k later
  let ?P = "\<lambda>k. \<not> prunable running h k"
  assume "dropWhile ?P (sh_opOrder h) = k # later"
  then have "length (sh_opOrder h) = length (takeWhile ?P (sh_opOrder h)) + Suc (length later)"
    by (metis length_Cons length_append takeWhile_dropWhile_id)
  then show "((running, h\<lparr>sh_byOp := del k (sh_byOp h), sh_opOrder := takeWhile ?P (sh_opOrder h) @ later\<rparr>), running, h)
      \<in> measure (\<lambda>(_, h). length (sh_opOrder h))"
    by simp
qed simp

declare pruneOps.simps [simp del]

datatype create_result = CreateRefused ctl_error | CreateExisting bytes | CreateReserved

text \<open>\<open>Create\<close> up to where it first releases the lock.\<close>

definition create_reserve :: "op_key \<Rightarrow> bytes \<Rightarrow> session_host \<Rightarrow> create_result \<times> session_host" where
  "create_reserve key fp h =
     (case map_of (sh_byOp h) key of
        Some e \<Rightarrow>
          (if cr_spec e \<noteq> fp then CreateRefused ErrOperationConflict
           else case cr_s e of None \<Rightarrow> CreateRefused ErrCreating | Some i \<Rightarrow> CreateExisting i, h)
      | None \<Rightarrow>
          if MaxSessions \<le> length (sh_sessions h) + sh_starting h then (CreateRefused ErrTooMany, h)
          else (CreateReserved, h\<lparr>sh_byOp := put key \<lparr>cr_spec = fp, cr_s = None\<rparr> (sh_byOp h), sh_starting := sh_starting h + 1\<rparr>))"

definition create_abandon :: "op_key \<Rightarrow> session_host \<Rightarrow> session_host" where
  "create_abandon key h = h\<lparr>sh_byOp := del key (sh_byOp h), sh_starting := sh_starting h - 1\<rparr>"

text \<open>Its last section, once the program was started.\<close>

definition create_register :: "(bytes \<Rightarrow> bool) \<Rightarrow> op_key \<Rightarrow> bytes \<Rightarrow> bytes \<Rightarrow> session_host \<Rightarrow> session_host" where
  "create_register running key fp i h =
     pruneOps running (h\<lparr>sh_starting := sh_starting h - 1,
       sh_sessions := (if running i then List.insert i (sh_sessions h) else sh_sessions h),
       sh_byOp := put key \<lparr>cr_spec = fp, cr_s = Some i\<rparr> (sh_byOp h), sh_opOrder := sh_opOrder h @ [key]\<rparr>)"

definition forget :: "bytes \<Rightarrow> session_host \<Rightarrow> session_host" where
  "forget i h = h\<lparr>sh_sessions := removeAll i (sh_sessions h)\<rparr>"

record stop_report =
  sr_Leader :: bytes
  sr_Group :: bytes
  sr_GroupKilled :: bool

text \<open>
  \<open>known\<close> and \<open>audit\<close>: the session is in the live set and the intent was journaled. The program's
  leader was reaped after the hangup or after the kill; a member of its group had survived it; the
  group was seen to be gone.
\<close>

definition Stop :: "bool \<Rightarrow> bool \<Rightarrow> bool \<Rightarrow> bool \<Rightarrow> bool \<Rightarrow> bool \<Rightarrow> ctl_error option \<times> stop_report" where
  "Stop known audit hup_reaped kill_reaped survived group_gone =
     (let rep = \<lparr>sr_Leader = lit ''reaped'', sr_Group = lit ''gone'', sr_GroupKilled = False\<rparr> in
      if \<not> known then (Some NoSession, rep\<lparr>sr_Leader := [], sr_Group := []\<rparr>)
      else if \<not> audit then (Some ErrAudit, rep\<lparr>sr_Leader := [], sr_Group := []\<rparr>)
      else if \<not> hup_reaped \<and> \<not> kill_reaped then (Some ErrTerminateUncertain, rep\<lparr>sr_Leader := lit ''running''\<rparr>)
      else (None, rep\<lparr>sr_GroupKilled := survived, sr_Group := (if group_gone then lit ''gone'' else lit ''remaining'')\<rparr>))"

lemma stop_confirmed: "fst (Stop known audit h k survived gone) = None \<longleftrightarrow> known \<and> audit \<and> (h \<or> k)"
  by (auto simp: Stop_def Let_def)

text \<open>A stop that could not confirm the leader's end still reports its group gone.\<close>

lemma uncertain_stop_reports_group_gone:
  "Stop True True False False survived gone =
     (Some ErrTerminateUncertain, \<lparr>sr_Leader = lit ''running'', sr_Group = lit ''gone'', sr_GroupKilled = False\<rparr>)"
  by (simp add: Stop_def Let_def)

subsection \<open>What pruning leaves\<close>

lemma prunable_SomeD:
  "prunable running h k \<Longrightarrow> \<exists>e i. map_of (sh_byOp h) k = Some e \<and> cr_s e = Some i \<and> \<not> running i"
  by (auto simp: prunable_def split: option.splits)

text \<open>A creation in progress, and one whose program runs, is never forgotten.\<close>

lemma pruneOps_step:
  assumes "\<not> length (sh_opOrder h) \<le> maxOps" and "dropWhile (\<lambda>k. \<not> prunable running h k) (sh_opOrder h) = k # later"
  shows "pruneOps running h = pruneOps running (h\<lparr>sh_byOp := del k (sh_byOp h),
    sh_opOrder := takeWhile (\<lambda>k. \<not> prunable running h k) (sh_opOrder h) @ later\<rparr>)" and "prunable running h k"
  using assms hd_dropWhile [of "\<lambda>k. \<not> prunable running h k" "sh_opOrder h"] by (simp_all add: pruneOps.simps [of running h])

lemma pruneOps_done:
  "length (sh_opOrder h) \<le> maxOps \<or> dropWhile (\<lambda>k. \<not> prunable running h k) (sh_opOrder h) = [] \<Longrightarrow> pruneOps running h = h"
  by (subst pruneOps.simps) (auto simp del: dropWhile_eq_Nil_conv)

lemma pruneOps_rule:
  assumes "P h" and "\<And>h k later. P h \<Longrightarrow> prunable running h k \<Longrightarrow> P (h\<lparr>sh_byOp := del k (sh_byOp h), sh_opOrder := later\<rparr>)"
  shows "P (pruneOps running h)"
  using assms
proof (induction running h rule: pruneOps.induct)
  case (1 running h)
  show ?case
  proof (cases "length (sh_opOrder h) \<le> maxOps \<or> dropWhile (\<lambda>k. \<not> prunable running h k) (sh_opOrder h) = []")
    case False
    then obtain k later where d: "dropWhile (\<lambda>k. \<not> prunable running h k) (sh_opOrder h) = k # later" by (meson neq_Nil_conv)
    show ?thesis using False 1 d pruneOps_step [OF _ d] by simp
  qed (use 1(2) in \<open>simp add: pruneOps_done\<close>)
qed

lemma pruneOps_keeps:
  assumes "map_of (sh_byOp h) k = Some e" and "\<And>i. cr_s e = Some i \<Longrightarrow> running i"
  shows "map_of (sh_byOp (pruneOps running h)) k = Some e"
  using assms(1)
proof (rule pruneOps_rule)
  fix h k' later assume h: "map_of (sh_byOp h) k = Some e" and "prunable running h k'"
  then have "k' \<noteq> k" using prunable_SomeD [of running h k'] assms(2) by auto
  then show "map_of (sh_byOp (h\<lparr>sh_byOp := del k' (sh_byOp h), sh_opOrder := later\<rparr>)) k = Some e" using h by (simp add: map_of_del)
qed

lemma pruneOps_fields [simp]:
  "sh_sessions (pruneOps running h) = sh_sessions h" "sh_starting (pruneOps running h) = sh_starting h"
  by (rule pruneOps_rule, simp_all)+

end
