(* ===== verification/SeatHosts.thy ===== *)
theory SeatHosts
  imports SeatCreate
begin

text \<open>
  A session host at work: calls of \<open>Create\<close> between their sections, the sessions they started, each
  with all its goroutines as in \<open>SeatSteps\<close>, and the sessions' ends, in any order.
\<close>

subsection \<open>The system\<close>

record create_call =
  cc_key :: op_key
  cc_fp :: bytes
  cc_id :: bytes
  cc_spec :: session_spec
  cc_started :: bool

record host_sys =
  y_host :: session_host
  y_calls :: "create_call list"
  y_seats :: "(bytes \<times> op_key \<times> seat_sys) list"  \<comment> \<open>every session started, by its identity\<close>

datatype host_op =
    HCreate bytes bytes session_spec bytes  \<comment> \<open>with the identity \<open>newID\<close> gives\<close>
  | HStart nat bool bool | HRegister nat | HSession bytes seat_op | HForget bytes

definition seat_runs :: "host_sys \<Rightarrow> bytes \<Rightarrow> bool" where
  "seat_runs y i \<longleftrightarrow> (case map_of (y_seats y) i of None \<Rightarrow> False | Some (k, z) \<Rightarrow> \<not> ts_exited (q_s z))"

definition start_call :: "nat \<Rightarrow> bool \<Rightarrow> host_sys \<Rightarrow> host_sys" where
  "start_call k ok y =
     (let c = y_calls y ! k in
      if ok then y\<lparr>y_calls := (y_calls y)[k := c\<lparr>cc_started := True\<rparr>],
        y_seats := put (cc_id c) (cc_key c, new_seat (cc_id c) (sp_Cols (cc_spec c)) (sp_Rows (cc_spec c))) (y_seats y)\<rparr>
      else y\<lparr>y_host := create_abandon (cc_key c) (y_host y), y_calls := drop_at k (y_calls y)\<rparr>)"

fun host_step :: "(int \<Rightarrow> bool) \<Rightarrow> (int \<Rightarrow> bool) \<Rightarrow> (bytes \<Rightarrow> bytes) \<Rightarrow> host_op \<Rightarrow> host_sys \<Rightarrow> host_sys option" where
  "host_step mark pr sha (HCreate operation who sp i) y =
     Some (if \<not> create_valid operation who sp then y
           else let key = (who, operation); fp = fingerprint sha pr sp in
                case create_reserve key fp (y_host y) of
                  (CreateReserved, h) \<Rightarrow> y\<lparr>y_host := h,
                    y_calls := y_calls y @ [\<lparr>cc_key = key, cc_fp = fp, cc_id = i, cc_spec = sp, cc_started = False\<rparr>]\<rparr>
                | (_, h) \<Rightarrow> y)"
| "host_step mark pr sha (HStart k audit ok) y =
     Some (if k < length (y_calls y) \<and> \<not> cc_started (y_calls y ! k) then start_call k (audit \<and> ok) y else y)"
| "host_step mark pr sha (HRegister k) y =
     Some (if k < length (y_calls y) \<and> cc_started (y_calls y ! k)
           then let c = y_calls y ! k in
                y\<lparr>y_host := create_register (seat_runs y) (cc_key c) (cc_fp c) (cc_id c) (y_host y), y_calls := drop_at k (y_calls y)\<rparr>
           else y)"
| "host_step mark pr sha (HSession i op) y =
     (case map_of (y_seats y) i of
        None \<Rightarrow> Some y
      | Some (k, z) \<Rightarrow> do { z \<leftarrow> seat_step mark pr op z; Some (y\<lparr>y_seats := put i (k, z) (y_seats y)\<rparr>) })"
| "host_step mark pr sha (HForget i) y =
     Some (if map_of (y_seats y) i \<noteq> None \<and> \<not> seat_runs y i then y\<lparr>y_host := forget i (y_host y)\<rparr> else y)"

definition new_seat_host :: host_sys where
  "new_seat_host = \<lparr>y_host = NewSessionHost, y_calls = [], y_seats = []\<rparr>"

definition host_run :: "(int \<Rightarrow> bool) \<Rightarrow> (int \<Rightarrow> bool) \<Rightarrow> (bytes \<Rightarrow> bytes) \<Rightarrow> host_op list \<Rightarrow> host_sys \<Rightarrow> host_sys option" where
  "host_run mark pr sha ops y = fold_opt (host_step mark pr sha) ops y"

text \<open>The identities given, which are random and taken to differ.\<close>

fun given_id :: "host_op \<Rightarrow> bytes list" where
  "given_id (HCreate _ _ _ i) = [i]"
| "given_id _ = []"

definition given_ids :: "host_op list \<Rightarrow> bytes list" where
  "given_ids ops = concat (map given_id ops)"

declare map_of_eq_Some_iff [simp del] Some_eq_map_of_iff [simp del]

subsection \<open>Calls in progress\<close>

lemma drop_at_set: "set (drop_at k xs) \<subseteq> set xs"
  unfolding drop_at_def by (auto dest: in_set_takeD in_set_dropD)

lemma drop_at_map: "map f (drop_at k xs) = drop_at k (map f xs)"
  by (simp add: drop_at_def take_map drop_map)

lemma drop_at_other:
  assumes "distinct (map f xs)" and "k < length xs" and "x \<in> set (drop_at k xs)"
  shows "f x \<noteq> f (xs ! k)"
proof -
  have "xs = take k xs @ xs ! k # drop (Suc k) xs" using assms(2) by (rule id_take_nth_drop)
  then have "distinct (map f (take k xs) @ f (xs ! k) # map f (drop (Suc k) xs))" using assms(1) by (metis list.simps(9) map_append)
  moreover have "f x \<in> set (map f (take k xs)) \<union> set (map f (drop (Suc k) xs))" using assms(3) by (auto simp: drop_at_def)
  ultimately show ?thesis by (metis UnE distinct.simps(2) distinct_append disjoint_insert(1) list.simps(15))
qed

lemma drop_at_keeps: "k < length xs \<Longrightarrow> x \<in> set xs \<Longrightarrow> x \<noteq> xs ! k \<Longrightarrow> x \<in> set (drop_at k xs)"
  unfolding drop_at_def using id_take_nth_drop [of k xs] by (metis Un_iff insert_iff list.simps(15) set_append)

lemma drop_at_distinct: "distinct xs \<Longrightarrow> distinct (drop_at k xs)"
  unfolding drop_at_def using set_take_disj_set_drop_if_distinct [of xs k "Suc k"] by simp

lemma length_drop_at: "k < length xs \<Longrightarrow> length (drop_at k xs) = length xs - 1"
  by (simp add: drop_at_def)

subsection \<open>The invariant\<close>

text \<open>\<open>creating_ok\<close>: every call in progress holds its key and its place; \<open>seats_ok\<close>: a running session is being created or remembered.\<close>

definition creating_ok :: "host_sys \<Rightarrow> bool" where
  "creating_ok y \<longleftrightarrow> distinct (map cc_key (y_calls y)) \<and> distinct (map cc_id (y_calls y)) \<and>
     (\<forall>c \<in> set (y_calls y). map_of (sh_byOp (y_host y)) (cc_key c) = Some \<lparr>cr_spec = cc_fp c, cr_s = None\<rparr>) \<and>
     length (y_calls y) = sh_starting (y_host y) \<and> length (sh_sessions (y_host y)) + sh_starting (y_host y) \<le> MaxSessions"

definition remembered :: "host_sys \<Rightarrow> bytes \<Rightarrow> op_key \<Rightarrow> bool" where
  "remembered y i k \<longleftrightarrow> (\<exists>c \<in> set (y_calls y). cc_started c \<and> cc_id c = i \<and> cc_key c = k) \<or>
     i \<in> set (sh_sessions (y_host y)) \<and> (\<exists>fp. map_of (sh_byOp (y_host y)) k = Some \<lparr>cr_spec = fp, cr_s = Some i\<rparr>)"

definition seats_ok :: "bytes set \<Rightarrow> host_sys \<Rightarrow> bool" where
  "seats_ok U y \<longleftrightarrow> distinct (map fst (y_seats y)) \<and> fst ` set (y_seats y) \<subseteq> U \<and>
     (\<forall>c \<in> set (y_calls y). cc_id c \<in> U \<and> (cc_id c \<in> fst ` set (y_seats y) \<longleftrightarrow> cc_started c)) \<and>
     (\<forall>i k z. map_of (y_seats y) i = Some (k, z) \<longrightarrow> seat_inv z \<and> (\<not> ts_exited (q_s z) \<longrightarrow> remembered y i k))"

definition host_inv :: "bytes set \<Rightarrow> host_sys \<Rightarrow> bool" where
  "host_inv U y \<longleftrightarrow> creating_ok y \<and> seats_ok U y"

lemma new_seat_host_inv: "host_inv {} new_seat_host"
  by (simp add: host_inv_def creating_ok_def seats_ok_def new_seat_host_def NewSessionHost_def)

lemma create_inv:
  assumes "host_inv U y" and "i \<notin> U"
  shows "runs (host_step mark pr sha (HCreate operation who sp i) y) (host_inv (insert i U))"
proof -
  let ?key = "(who, operation)" and ?fp = "fingerprint sha pr sp"
  have same: "host_inv (insert i U) y" using assms unfolding host_inv_def seats_ok_def by auto
  show ?thesis
  proof (cases "create_valid operation who sp \<and> map_of (sh_byOp (y_host y)) ?key = None \<and> length (sh_sessions (y_host y)) + sh_starting (y_host y) < MaxSessions")
    case True
    then have free: "map_of (sh_byOp (y_host y)) ?key = None" by simp
    define y' where "y' = y\<lparr>y_host := (y_host y)\<lparr>sh_byOp := put ?key \<lparr>cr_spec = ?fp, cr_s = None\<rparr> (sh_byOp (y_host y)), sh_starting := sh_starting (y_host y) + 1\<rparr>,
      y_calls := y_calls y @ [\<lparr>cc_key = ?key, cc_fp = ?fp, cc_id = i, cc_spec = sp, cc_started = False\<rparr>]\<rparr>"
    have "host_step mark pr sha (HCreate operation who sp i) y = Some y'" using True by (simp add: create_reserve_def Let_def y'_def)
    moreover have "creating_ok y'" using assms True free unfolding y'_def host_inv_def creating_ok_def seats_ok_def by (auto simp: map_of_put)
    moreover have "remembered y' j k" if "remembered y j k" for j k using that free unfolding remembered_def y'_def by (auto simp: map_of_put)
    then have "seats_ok (insert i U) y'" using assms unfolding host_inv_def seats_ok_def by (auto simp: y'_def)
    ultimately show ?thesis by (simp add: host_inv_def)
  qed (use same in \<open>auto simp: create_reserve_def Let_def split: option.split\<close>)
qed

lemma start_inv:
  assumes inv: "host_inv U y" and k: "k < length (y_calls y)" "\<not> cc_started (y_calls y ! k)"
  shows "host_inv U (start_call k ok y)"
proof -
  define c where "c = y_calls y ! k"
  have c: "c \<in> set (y_calls y)" "\<not> cc_started c" using k by (simp_all add: c_def)
  have calls: "creating_ok y" and seats: "seats_ok U y" using inv by (simp_all add: host_inv_def)
  have new: "cc_id c \<notin> fst ` set (y_seats y)" using c seats unfolding seats_ok_def by blast
  have other: "cc_id d \<noteq> cc_id c \<and> cc_key d \<noteq> cc_key c" if "d \<in> set (drop_at k (y_calls y))" for d
    using drop_at_other [of cc_id, OF _ k(1) that] drop_at_other [of cc_key, OF _ k(1) that] calls unfolding creating_ok_def c_def by simp
  show ?thesis
  proof (cases ok)
    case True
    define y' where "y' = start_call k ok y"
    have y': "y_host y' = y_host y" "y_calls y' = (y_calls y)[k := c\<lparr>cc_started := True\<rparr>]"
        "y_seats y' = put (cc_id c) (cc_key c, new_seat (cc_id c) (sp_Cols (cc_spec c)) (sp_Rows (cc_spec c))) (y_seats y)"
      using True by (simp_all add: y'_def start_call_def Let_def c_def)
    have same: "map cc_key (y_calls y') = map cc_key (y_calls y)" "map cc_id (y_calls y') = map cc_id (y_calls y)"
      using k(1) list_update_id [of "map cc_key (y_calls y)" k] list_update_id [of "map cc_id (y_calls y)" k] by (simp_all add: y' c_def map_update)
    have split: "set (y_calls y') = insert (c\<lparr>cc_started := True\<rparr>) (set (drop_at k (y_calls y)))"
      using k(1) by (auto simp: y' upd_conv_take_nth_drop drop_at_def)
    have "creating_ok y'" using calls same y'(1) split c(1) drop_at_set [of k "y_calls y"] unfolding creating_ok_def by (auto simp: y'(2))
    moreover have "remembered y' j kk" if "remembered y j kk" for j kk
      using that k split drop_at_keeps [OF k(1)] unfolding remembered_def y'(1) c_def by auto
    moreover have "remembered y' (cc_id c) (cc_key c)" unfolding remembered_def split by auto
    ultimately have "creating_ok y' \<and> (\<forall>i l z. map_of (y_seats y') i = Some (l, z) \<longrightarrow> seat_inv z \<and> (\<not> ts_exited (q_s z) \<longrightarrow> remembered y' i l))"
      using seats new_seat_inv unfolding seats_ok_def y'(3) by (auto simp: map_of_put)
    moreover have "\<forall>d \<in> set (y_calls y'). cc_id d \<in> U \<and> (cc_id d \<in> fst ` set (y_seats y') \<longleftrightarrow> cc_started d)"
      using seats c(1) other drop_at_set [of k "y_calls y"] unfolding seats_ok_def y'(3) split put_fst by auto
    ultimately have "creating_ok y' \<and> seats_ok U y'" using seats c(1) unfolding seats_ok_def by (auto simp: y'(3) put_distinct put_fst)
    then show ?thesis by (simp add: host_inv_def y'_def)
  next
    case False
    define y' where "y' = start_call k ok y"
    have y': "y_host y' = create_abandon (cc_key c) (y_host y)" "y_calls y' = drop_at k (y_calls y)" "y_seats y' = y_seats y"
      using False by (simp_all add: y'_def start_call_def Let_def c_def)
    have gone: "map_of (sh_byOp (y_host y)) (cc_key c) = Some \<lparr>cr_spec = cc_fp c, cr_s = None\<rparr>" using calls c(1) unfolding creating_ok_def by blast
    have "creating_ok y'" using calls k(1) other drop_at_set [of k "y_calls y"] unfolding creating_ok_def y' create_abandon_def
      by (auto simp: drop_at_map drop_at_distinct map_of_del length_drop_at)
    moreover have "remembered y' j kk" if "remembered y j kk" for j kk
      using that k drop_at_keeps [OF k(1)] gone unfolding remembered_def y' create_abandon_def by (auto simp: map_of_del)
    then have "seats_ok U y'" using seats drop_at_set [of k "y_calls y"] unfolding seats_ok_def y' by blast
    ultimately show ?thesis by (simp add: host_inv_def y'_def)
  qed
qed

lemma running_seat: "map_of (y_seats y) i = Some (k, z) \<Longrightarrow> seat_runs y i \<longleftrightarrow> \<not> ts_exited (q_s z)"
  by (simp add: seat_runs_def)

lemma register_inv:
  assumes inv: "host_inv U y" and k: "k < length (y_calls y)" "cc_started (y_calls y ! k)"
  shows "runs (host_step mark pr sha (HRegister k) y) (host_inv U)"
proof -
  define c where "c = y_calls y ! k"
  have c: "c \<in> set (y_calls y)" "cc_started c" using k by (simp_all add: c_def)
  have calls: "creating_ok y" and seats: "seats_ok U y" using inv by (simp_all add: host_inv_def)
  have other: "cc_id d \<noteq> cc_id c \<and> cc_key d \<noteq> cc_key c" if "d \<in> set (drop_at k (y_calls y))" for d
    using drop_at_other [of cc_id, OF _ k(1) that] drop_at_other [of cc_key, OF _ k(1) that] calls unfolding creating_ok_def c_def by simp
  have gone: "map_of (sh_byOp (y_host y)) (cc_key c) = Some \<lparr>cr_spec = cc_fp c, cr_s = None\<rparr>" using calls c(1) unfolding creating_ok_def by blast
  define h where "h = (y_host y)\<lparr>sh_starting := sh_starting (y_host y) - 1,
    sh_sessions := (if seat_runs y (cc_id c) then List.insert (cc_id c) (sh_sessions (y_host y)) else sh_sessions (y_host y)),
    sh_byOp := put (cc_key c) \<lparr>cr_spec = cc_fp c, cr_s = Some (cc_id c)\<rparr> (sh_byOp (y_host y)), sh_opOrder := sh_opOrder (y_host y) @ [cc_key c]\<rparr>"
  define y' where "y' = y\<lparr>y_host := pruneOps (seat_runs y) h, y_calls := drop_at k (y_calls y)\<rparr>"
  have step: "host_step mark pr sha (HRegister k) y = Some y'"
    using k by (simp add: y'_def create_register_def Let_def c_def h_def)
  have "map_of (sh_byOp (pruneOps (seat_runs y) h)) (cc_key d) = Some \<lparr>cr_spec = cc_fp d, cr_s = None\<rparr>" if d: "d \<in> set (drop_at k (y_calls y))" for d
    using other [OF d] calls d drop_at_set [of k "y_calls y"] unfolding creating_ok_def by (intro pruneOps_keeps) (auto simp: h_def map_of_put)
  moreover have "0 < sh_starting (y_host y)" using calls k(1) unfolding creating_ok_def by linarith
  then have "length (sh_sessions h) + sh_starting h \<le> MaxSessions" using calls unfolding creating_ok_def h_def by (auto simp: List.insert_def)
  ultimately have "creating_ok y'" using calls k(1) unfolding creating_ok_def y'_def
    by (auto simp: drop_at_map drop_at_distinct length_drop_at h_def)
  moreover have "remembered y' j kk" if z: "map_of (y_seats y) j = Some (kk, z)" "\<not> ts_exited (q_s z)" for j kk z
  proof (cases "j = cc_id c \<and> kk = cc_key c")
    case True
    then have "seat_runs y j" using z by (simp add: running_seat)
    then have "map_of (sh_byOp (pruneOps (seat_runs y) h)) kk = Some \<lparr>cr_spec = cc_fp c, cr_s = Some j\<rparr>"
      using True by (intro pruneOps_keeps) (auto simp: h_def map_of_put)
    then show ?thesis using True \<open>seat_runs y j\<close> by (auto simp: remembered_def y'_def h_def)
  next
    case False
    have r: "remembered y j kk" "seat_runs y j" using z seats unfolding seats_ok_def by blast (use z in \<open>simp add: running_seat\<close>)
    from r(1) consider "\<exists>d\<in>set (y_calls y). cc_started d \<and> cc_id d = j \<and> cc_key d = kk"
      | fp where "j \<in> set (sh_sessions (y_host y))" "map_of (sh_byOp (y_host y)) kk = Some \<lparr>cr_spec = fp, cr_s = Some j\<rparr>"
      unfolding remembered_def by blast
    then show ?thesis
    proof cases
      case 1
      then obtain d where "d \<in> set (y_calls y)" "cc_started d" "cc_id d = j" "cc_key d = kk" by blast
      then have "d \<in> set (drop_at k (y_calls y))" using False drop_at_keeps [OF k(1)] by (auto simp: c_def)
      then show ?thesis using \<open>cc_started d\<close> \<open>cc_id d = j\<close> \<open>cc_key d = kk\<close> by (auto simp: y'_def remembered_def)
    next
      case s: 2
      then have "map_of (sh_byOp (pruneOps (seat_runs y) h)) kk = Some \<lparr>cr_spec = fp, cr_s = Some j\<rparr>"
        using gone r(2) by (intro pruneOps_keeps) (auto simp: h_def map_of_put)
      then show ?thesis using s by (auto simp: y'_def h_def remembered_def)
    qed
  qed
  then have "seats_ok U y'" using seats drop_at_set [of k "y_calls y"] unfolding seats_ok_def by (auto simp: y'_def)
  ultimately show ?thesis using step by (simp add: host_inv_def)
qed

text \<open>A program that exited stays exited.\<close>

lemma exited_kept [simp]:
  "ts_exited (snd (seat_control i t e s)) = ts_exited s" "ts_exited (snd (control_finish i s)) = ts_exited s"
  "ts_exited (snd (Input i b s)) = ts_exited s" "ts_exited (snd (client_Resize i cols rows s)) = ts_exited s"
  "ts_exited (snd (writer_takes s)) = ts_exited s" "ts_exited (writer_ends w n ok s) = ts_exited s"
  "ts_exited (Release i s) = ts_exited s" "ts_exited (Detach i s) = ts_exited s"
  "ts_exited (snd (ReportAgent pr now st d a s)) = ts_exited s" "ts_exited (ResetAgentUnknown now m s) = ts_exited s"
  using frame_fields [OF frame_of_control] frame_fields [OF frame_of_finish] frame_fields [OF frame_of_queue] frame_fields [OF frame_of_writer(1)]
    frame_fields [OF frame_of_writer(2)] frame_fields [OF frame_of_release] frame_fields [OF frame_of_report(1)] frame_fields [OF frame_of_report(2)]
  by (auto simp: Input_def client_Resize_def Release_def Detach_def Let_def split: option.split)

lemma controlled_session [simp]: "q_s (controlled i r z) = snd r"
  by (simp add: controlled_def Let_def split: grant_result.split)

lemma snapshot_exited: "snapshotLocked s = Some (sn, s') \<Longrightarrow> ts_exited s' = ts_exited s"
  by (auto simp: snapshotLocked_def Let_def bind_eq_Some_conv split: if_splits)

lemma attach_exited: "attach who hidden audit s = Some (r, s') \<Longrightarrow> ts_exited s' = ts_exited s"
  by (auto simp: attach_def Let_def bind_eq_Some_conv dest!: snapshot_exited split: if_splits)

lemma resnapshot_exited: "Resnapshot i s = Some (sn, s') \<Longrightarrow> ts_exited s' = ts_exited s"
  by (auto simp: Resnapshot_def dest!: snapshot_exited split: option.splits)

lemma sized_exited: "writer_sized w s = Some s' \<Longrightarrow> ts_exited s' = ts_exited s"
  by (auto simp: writer_sized_def bind_eq_Some_conv)

lemma exited_stays: "seat_step mark pr op z = Some z' \<Longrightarrow> ts_exited (q_s z) \<Longrightarrow> ts_exited (q_s z')"
proof (cases op)
  case (OpAttach who hidden audit)
  assume "seat_step mark pr op z = Some z'" "ts_exited (q_s z)"
  then obtain r s where "attach who hidden audit (q_s z) = Some (r, s)" "q_s z' = s" using OpAttach
    by (auto simp: bind_eq_Some_conv split: sum.split)
  then show ?thesis using attach_exited \<open>ts_exited (q_s z)\<close> by simp
next
  case OpWriterTakes
  assume "seat_step mark pr op z = Some z'" "ts_exited (q_s z)"
  then show ?thesis using OpWriterTakes exited_kept(5) [of "q_s z"] by (cases "writer_takes (q_s z)") (auto split: option.splits if_splits)
next
  case (OpWriterEnds n ok)
  assume "seat_step mark pr op z = Some z'" "ts_exited (q_s z)"
  then show ?thesis using OpWriterEnds by (auto simp: Let_def split: option.splits if_splits)
qed (auto simp: bind_eq_Some_conv Let_def dest!: attach_exited resnapshot_exited sized_exited split: option.splits prod.splits list.splits sum.splits if_splits)

lemma session_inv:
  assumes inv: "host_inv U y"
  shows "runs (host_step mark pr sha (HSession i op) y) (host_inv U)"
proof (cases "map_of (y_seats y) i")
  case (Some p)
  obtain k z where p: "p = (k, z)" by fastforce
  have calls: "creating_ok y" and seats: "seats_ok U y" using inv by (simp_all add: host_inv_def)
  have z: "seat_inv z" "\<not> ts_exited (q_s z) \<Longrightarrow> remembered y i k" using seats Some p unfolding seats_ok_def by blast+
  obtain z' where z': "seat_step mark pr op z = Some z'" "seat_inv z'" using seat_step_inv [OF z(1), of mark pr op] by (auto simp: runs_iff)
  define y' where "y' = y\<lparr>y_seats := put i (k, z') (y_seats y)\<rparr>"
  have "creating_ok y'" using calls by (simp add: creating_ok_def y'_def)
  moreover have "remembered y' j l = remembered y j l" for j l by (simp add: remembered_def y'_def)
  then have "seats_ok U y'" using seats Some p z(2) z' exited_stays [OF z'(1)] map_of_Some_fst [OF Some] unfolding seats_ok_def y'_def
    by (auto simp: put_keys put_fst map_of_put insert_absorb)
  ultimately show ?thesis using Some p z'(1) by (simp add: host_inv_def y'_def)
qed (use inv in simp)

lemma forget_inv:
  assumes inv: "host_inv U y" and "\<not> seat_runs y i"
  shows "host_inv U (y\<lparr>y_host := forget i (y_host y)\<rparr>)"
proof -
  define y' where "y' = y\<lparr>y_host := forget i (y_host y)\<rparr>"
  have calls: "creating_ok y" and seats: "seats_ok U y" using inv by (simp_all add: host_inv_def)
  have "length (removeAll i (sh_sessions (y_host y))) \<le> length (sh_sessions (y_host y))" by (rule length_removeAll_less_eq)
  then have "length (removeAll i (sh_sessions (y_host y))) + sh_starting (y_host y) \<le> MaxSessions" using calls unfolding creating_ok_def by linarith
  then have "creating_ok y'" using calls unfolding creating_ok_def y'_def forget_def by auto
  moreover have "remembered y' j k" if "map_of (y_seats y) j = Some (k, z)" "\<not> ts_exited (q_s z)" for j k z
  proof -
    have "j \<noteq> i" using assms(2) running_seat [OF that(1)] that(2) by auto
    moreover have "remembered y j k" using that seats unfolding seats_ok_def by blast
    ultimately show ?thesis unfolding remembered_def y'_def forget_def by auto
  qed
  then have "seats_ok U y'" using seats unfolding seats_ok_def y'_def by auto
  ultimately show ?thesis by (simp add: host_inv_def y'_def)
qed

lemma host_step_inv:
  assumes "host_inv U y" and "set (given_id op) \<inter> U = {}"
  shows "runs (host_step mark pr sha op y) (host_inv (U \<union> set (given_id op)))"
  using assms create_inv [OF assms(1)] start_inv [OF assms(1)] session_inv [OF assms(1)] forget_inv [OF assms(1)]
proof (cases op)
  case (HRegister k)
  then show ?thesis using assms(1) register_inv [OF assms(1), of k] by (cases "k < length (y_calls y) \<and> cc_started (y_calls y ! k)") auto
qed (auto simp del: host_step.simps(1,4))

lemma host_run_inv:
  assumes "host_inv U y" and "distinct (given_ids ops)" and "set (given_ids ops) \<inter> U = {}"
  shows "runs (host_run mark pr sha ops y) (\<lambda>y. \<exists>U. host_inv U y)"
  using assms
proof (induction ops arbitrary: y U)
  case (Cons op ops)
  have "runs (host_step mark pr sha op y) (host_inv (U \<union> set (given_id op)))"
    using Cons.prems by (intro host_step_inv) (auto simp: given_ids_def)
  moreover have "runs (host_run mark pr sha ops y') (\<lambda>y. \<exists>U. host_inv U y)" if "host_inv (U \<union> set (given_id op)) y'" for y'
    using Cons.prems by (intro Cons.IH [OF that]) (auto simp: given_ids_def)
  ultimately show ?case unfolding host_run_def by (auto simp: runs_iff)
qed (auto simp: host_run_def)

subsection \<open>Properties\<close>

lemma distinct_call_ids: "creating_ok y \<Longrightarrow> card (cc_id ` set (y_calls y)) = length (y_calls y)"
  by (metis creating_ok_def distinct_card length_map list.set_map)

text \<open>What runs is in the live set or being created.\<close>

lemma running_counted:
  assumes "host_inv U y"
  shows "length (filter (\<lambda>(i, k, z). \<not> ts_exited (q_s z)) (y_seats y)) \<le> MaxSessions"
proof -
  let ?R = "filter (\<lambda>(i, k, z). \<not> ts_exited (q_s z)) (y_seats y)"
  have calls: "creating_ok y" and seats: "seats_ok U y" using assms by (simp_all add: host_inv_def)
  have d: "distinct (map fst (y_seats y))" using seats by (simp add: seats_ok_def)
  have "fst ` set ?R \<subseteq> cc_id ` set (y_calls y) \<union> set (sh_sessions (y_host y))"
  proof clarsimp
    fix i a b z assume "(i, (a, b), z) \<in> set (y_seats y)" "\<not> ts_exited (q_s z)" "i \<notin> set (sh_sessions (y_host y))"
    then have "remembered y i (a, b)" using seats d unfolding seats_ok_def by (metis map_of_is_SomeI)
    then show "i \<in> cc_id ` set (y_calls y)" using \<open>i \<notin> _\<close> by (auto simp: remembered_def)
  qed
  then have "card (fst ` set ?R) \<le> card (cc_id ` set (y_calls y) \<union> set (sh_sessions (y_host y)))" by (intro card_mono) auto
  also have "\<dots> \<le> length (y_calls y) + length (sh_sessions (y_host y))"
    using card_Un_le [of "cc_id ` set (y_calls y)" "set (sh_sessions (y_host y))"] distinct_call_ids [OF calls] card_length [of "sh_sessions (y_host y)"] by linarith
  also have "\<dots> \<le> MaxSessions" using calls by (simp add: creating_ok_def)
  finally show ?thesis using distinct_card [OF distinct_map_filter [OF d, of "\<lambda>(i, k, z). \<not> ts_exited (q_s z)"]] by simp
qed

lemma remembered_once:
  assumes "creating_ok y" and "remembered y i k" and "remembered y j k"
  shows "i = j"
proof -
  have "c = d" if "c \<in> set (y_calls y)" "d \<in> set (y_calls y)" "cc_key c = cc_key d" for c d
    using assms(1) that by (auto simp: creating_ok_def distinct_map inj_on_def)
  then show ?thesis using assms unfolding remembered_def creating_ok_def by auto
qed

text \<open>A retry of a remembered creation reserves nothing.\<close>

lemma remembered_retry:
  assumes "creating_ok y" and "remembered y i k"
  shows "fst (create_reserve k fp (y_host y)) \<in> {CreateExisting i, CreateRefused ErrCreating, CreateRefused ErrOperationConflict}"
  using assms unfolding remembered_def creating_ok_def create_reserve_def by (auto split: option.split)

text \<open>
  C11. A session host starts a program once for a principal's operation, and no more than its bound:
  however calls of \<open>Create\<close>, retries, failed starts, the sessions' own steps and exits and the pruning
  of remembered creations interleave, no step panics, at most \<open>MaxSessions\<close> programs run, no two of
  them were started for the same principal and operation, and as long as one runs a further call for
  its principal and operation is given it, is told that it is being created, or is refused for asking
  for something else. Identities from \<open>newID\<close> are taken to differ.
\<close>

theorem one_program_per_operation:
  assumes "distinct (given_ids ops)"
  shows "\<exists>y. host_run mark pr sha ops new_seat_host = Some y \<and>
    length (filter (\<lambda>(i, k, z). \<not> ts_exited (q_s z)) (y_seats y)) \<le> MaxSessions \<and>
    (\<forall>i k z. map_of (y_seats y) i = Some (k, z) \<and> \<not> ts_exited (q_s z) \<longrightarrow>
       (\<forall>j z'. map_of (y_seats y) j = Some (k, z') \<and> \<not> ts_exited (q_s z') \<longrightarrow> j = i) \<and>
       (\<forall>fp. fst (create_reserve k fp (y_host y)) \<in> {CreateExisting i, CreateRefused ErrCreating, CreateRefused ErrOperationConflict}))"
proof -
  obtain y U where y: "host_run mark pr sha ops new_seat_host = Some y" "host_inv U y"
    using host_run_inv [OF new_seat_host_inv assms, of mark pr sha] by (auto simp: runs_iff)
  have "remembered y i k" if "map_of (y_seats y) i = Some (k, z) \<and> \<not> ts_exited (q_s z)" for i k z
    using y(2) that unfolding host_inv_def seats_ok_def by blast
  moreover have "creating_ok y" using y(2) by (simp add: host_inv_def)
  ultimately show ?thesis using y running_counted [OF y(2)] remembered_once remembered_retry by meson
qed

definition shell_spec :: session_spec where
  "shell_spec = \<lparr>sp_Name = lit ''main'', sp_Kind = lit ''shell'',
     sp_Command = \<lparr>cm_Path = lit ''/bin/sh'', cm_Args = [], cm_Env = [], cm_Dir = [], cm_UID = -1, cm_GID = -1, cm_ExpectedSHA256 = [],
       cm_PreservesInstallPath = False\<rparr>, sp_Prepared = None, sp_Cols = 80, sp_Rows = 24\<rparr>"

definition demo_creates :: "host_op list" where
  "demo_creates = [HCreate (lit ''op'') (lit ''me'') shell_spec (lit ''1''), HStart 0 True True, HRegister 0,
     HCreate (lit ''op'') (lit ''me'') shell_spec (lit ''2'')]"

lemma demo_create_runs:
  "host_run mark pr sha demo_creates new_seat_host = Some y \<Longrightarrow> map_of (y_seats y) (lit ''1'') = Some ((lit ''me'', lit ''op''), new_seat (lit ''1'') 80 24)"
  by (auto simp: host_run_def demo_creates_def new_seat_host_def NewSessionHost_def create_reserve_def create_register_def start_call_def
      shell_spec_def create_valid_def sessionWord_def IsAbs_def lit_def Let_def drop_at_def seat_runs_def new_seat_def new_session_def
      pruneOps_done maxOps_def)

theorem one_program_per_operation_witness:
  "\<exists>y. host_run (\<lambda>_. False) (\<lambda>_. True) (\<lambda>b. b) demo_creates new_seat_host = Some y \<and>
     map_of (y_seats y) (lit ''1'') = Some ((lit ''me'', lit ''op''), new_seat (lit ''1'') 80 24) \<and>
     length (filter (\<lambda>(i, k, z). \<not> ts_exited (q_s z)) (y_seats y)) \<le> MaxSessions"
proof -
  have "distinct (given_ids demo_creates)" by (simp add: given_ids_def demo_creates_def lit_def)
  from one_program_per_operation [OF this, of "\<lambda>_. False" "\<lambda>_. True" "\<lambda>b. b"] show ?thesis using demo_create_runs by blast
qed

end
