(* ===== verification/SeatViews.thy ===== *)
theory SeatViews
  imports SeatHosts
begin

text \<open>
  What a terminal session shows without being attached to: its listing, its screen and history as
  text (\<open>internal/seatterm/host.go\<close>), and the passive health read of \<open>internal/seatterm/health.go\<close>.
\<close>

subsection \<open>Listing\<close>

record session_info =
  si_ID :: bytes
  si_Name :: bytes
  si_Kind :: bytes
  si_Running :: bool
  si_ExitCode :: "int option"
  si_LastOutput :: bytes
  si_Cols :: "16 word"
  si_Rows :: "16 word"
  si_Controller :: bytes
  si_Epoch :: nat
  si_Viewers :: "bytes list"
  si_Program :: bytes
  si_Dir :: bytes
  si_Agent :: agent_status

text \<open>What a session keeps of its specification is an argument; the time of no output is the empty text.\<close>

definition session_Info :: "session_spec \<Rightarrow> term_session \<Rightarrow> session_info" where
  "session_Info sp s = \<lparr>si_ID = ts_ID s, si_Name = sp_Name sp, si_Kind = sp_Kind sp, si_Running = (\<not> ts_exited s),
     si_ExitCode = (if ts_exited s then Some (ts_exitCode s) else None), si_LastOutput = ts_lastOutput s,
     si_Cols = ts_cols s, si_Rows = ts_rows s, si_Controller = (case ts_controller s of None \<Rightarrow> [] | Some p \<Rightarrow> principal_of s p),
     si_Epoch = ts_epoch s, si_Viewers = sort (map (principal_of s) (visible s)), si_Program = cm_Path (sp_Command sp),
     si_Dir = cm_Dir (sp_Command sp), si_Agent = ts_agent s\<rparr>"

text \<open>Ordered by name, then by identity.\<close>

definition List_sessions :: "(session_spec \<times> term_session) list \<Rightarrow> session_info list" where
  "List_sessions ss = sort_key (\<lambda>i. [si_Name i, si_ID i]) (map (\<lambda>(sp, s). session_Info sp s) ss)"

lemma list_order: "[a, b] \<le> [c, d] \<longleftrightarrow> a < c \<or> a = c \<and> b \<le> d" for a b c d :: bytes
  by auto

lemma listed_in_order:
  "sorted_wrt (\<lambda>i j. si_Name i < si_Name j \<or> si_Name i = si_Name j \<and> si_ID i \<le> si_ID j) (List_sessions ss)"
  using sorted_sort_key [of "\<lambda>i. [si_Name i, si_ID i]" "map (\<lambda>(sp, s). session_Info sp s) ss"]
  unfolding List_sessions_def sorted_map list_order .

lemma listed_exactly:
  "set (List_sessions ss) = (\<lambda>(sp, s). session_Info sp s) ` set ss" "length (List_sessions ss) = length ss"
  by (simp_all add: List_sessions_def)

subsection \<open>Screen\<close>

record screen_text =
  st_Cols :: int
  st_Rows :: int
  st_Cursor :: "int \<times> int"
  st_Title :: bytes
  st_Alt :: bool
  st_Lines :: "bytes list"
  st_Offset :: nat
  st_Running :: bool

primrec rows_text :: "terminal \<Rightarrow> int list \<Rightarrow> bytes list option" where
  "rows_text t [] = Some []"
| "rows_text t (i # is) = do { r \<leftarrow> Row t i; rs \<leftarrow> rows_text t is; Some (r # rs) }"

definition Screen :: "term_session \<Rightarrow> screen_text option" where
  "Screen s =
     (let t = ts_term s; (cols, rows) = Size t in
      do {
        ls \<leftarrow> rows_text t [0..rows - 1];
        Some \<lparr>st_Cols = cols, st_Rows = rows, st_Cursor = (cx t, cy t), st_Title = t_title t, st_Alt = t_altActive t,
          st_Lines = ls, st_Offset = ts_end s, st_Running = (\<not> ts_exited s)\<rparr>
      })"

subsection \<open>Health\<close>

record health =
  he_PossiblePanic :: bool
  he_PossibleReadonlyRefusal :: bool
  he_PossibleApprovalPrompt :: bool
  he_LastOutput :: bytes
  he_PatternVersion :: bytes

definition healthScanLines :: int where
  "healthScanLines = 200"

definition panicMarkers :: "bytes list" where
  "panicMarkers = map lit [''panic:'', ''Traceback (most recent call last)'', ''Unhandled exception'', ''goroutine '']"

definition readonlyMarkers :: "bytes list" where
  "readonlyMarkers = map lit [''read-only file system'', ''Read-only file system'', ''Permission denied'', ''EROFS'']"

definition approvalMarkers :: "bytes list" where
  "approvalMarkers = map lit [''proceed?'', ''Do you want to'', ''approve'', ''(y/n)'', ''[y/N]'', ''[Y/n]'']"

definition containsAny :: "bytes list \<Rightarrow> bytes list \<Rightarrow> bool" where
  "containsAny ls markers \<longleftrightarrow> list_ex (\<lambda>l. list_ex (contains l) markers) ls"

definition session_Health :: "term_session \<Rightarrow> health option" where
  "session_Health s =
     do {
       (scrolled, _) \<leftarrow> Scrollback healthScanLines s;
       scr \<leftarrow> Screen s;
       let ls = scrolled @ st_Lines scr;
       Some \<lparr>he_PossiblePanic = containsAny ls panicMarkers, he_PossibleReadonlyRefusal = containsAny ls readonlyMarkers,
         he_PossibleApprovalPrompt = containsAny ls approvalMarkers, he_LastOutput = ts_lastOutput s,
         he_PatternVersion = lit ''pomar.seat-health-patterns/v1''\<rparr>
     }"

lemma contains_iff: "contains s p \<longleftrightarrow> (\<exists>a b. s = a @ p @ b)"
proof
  assume "contains s p"
  then obtain n where n: "has_prefix (drop n s) p" unfolding contains_def list_ex_iff by blast
  then have "s = take n s @ p @ drop (length p) (drop n s)" unfolding has_prefix_def by (metis append_take_drop_id)
  then show "\<exists>a b. s = a @ p @ b" by blast
next
  assume "\<exists>a b. s = a @ p @ b"
  then obtain a b where "s = a @ p @ b" by blast
  then have "length a \<in> set [0..<length s + 1] \<and> has_prefix (drop (length a) s) p" by (simp add: has_prefix_def)
  then show "contains s p" unfolding contains_def list_ex_iff by blast
qed

lemma containsAny_iff: "containsAny ls ms \<longleftrightarrow> (\<exists>a m b. m \<in> set ms \<and> a @ m @ b \<in> set ls)"
  by (fastforce simp: containsAny_def list_ex_iff contains_iff)

subsection \<open>The views always answer\<close>

lemma rows_text_runs: "wf_screen t \<Longrightarrow> runs (rows_text t is) (\<lambda>rs. length rs = length is)"
proof (induction "is")
  case (Cons i "is")
  then obtain r rs where "Row t i = Some r" "rows_text t is = Some rs" "length rs = length is"
    using Row_ok [OF Cons.prems, of i] by (auto simp: runs_iff)
  then show ?case by simp
qed simp

lemma Screen_runs: "wf_term (ts_term s) \<Longrightarrow> runs (Screen s) (\<lambda>v. length (st_Lines v) = nat (t_rows (ts_term s)))"
  using rows_text_runs [of "ts_term s" "[0..t_rows (ts_term s) - 1]"] by (auto simp: Screen_def Size_def wf_term_def runs_iff Let_def)

lemma Scrollback_runs:
  assumes "wf_term (ts_term s)"
  shows "runs (Scrollback n s) (\<lambda>(ls, cut_short). 0 < n \<longrightarrow> int (length ls) \<le> n)"
proof -
  obtain h where "HistoryText (ts_term s) = Some h" using History_ok [of "ts_term s"] assms by (auto simp: HistoryText_def runs_iff wf_term_def)
  then show ?thesis by (auto simp: Scrollback_def slice_def)
qed

text \<open>In every state a session reaches its screen, its history and its health can be read.\<close>

lemma views_return:
  assumes "seat_run mark pr ops (new_seat i cols rows) = Some z"
  shows "\<exists>v h. Screen (q_s z) = Some v \<and> session_Health (q_s z) = Some h \<and> length (st_Lines v) = nat (t_rows (ts_term (q_s z)))"
proof -
  have "seat_inv z" using seat_run_inv [OF new_seat_inv] assms by (metis runs_Some)
  then have wf: "wf_term (ts_term (q_s z))" by (rule inv_parts(1))
  obtain v where v: "Screen (q_s z) = Some v" "length (st_Lines v) = nat (t_rows (ts_term (q_s z)))" using Screen_runs [OF wf] by (auto simp: runs_iff)
  moreover obtain l where "Scrollback healthScanLines (q_s z) = Some l" using Scrollback_runs [OF wf, of healthScanLines] by (auto simp: runs_iff)
  ultimately show ?thesis by (cases l) (simp add: session_Health_def Let_def)
qed

end
